(* ===== verification/Js_Prelude.thy ===== *)
theory Js_Prelude
  imports
    "HOL-Library.Word"
    "HOL-Library.List_Lexorder"
    "HOL-Library.AList"
    "HOL-Library.Multiset"
begin

text \<open>
  The part of the JavaScript value model that every component shares: strings as lists of
  UTF-16 code units, decimal printing and reading, \<open>Map\<close> objects as association lists in
  insertion order, and \<open>Array.prototype.sort\<close> with a comparator.  Two interfaces are
  stated as locales here because several components rely on them: \<open>ordered_map\<close> (what a
  \<open>Map\<close> promises) and \<open>comparator\<close> with \<open>key_comparator\<close> (what a comparison function
  must promise for a sort to be meaningful).
\<close>

named_theorems js_eval \<open>equations that evaluate closed string and number terms\<close>
named_theorems js_string \<open>facts about string operations\<close>

section \<open>Strings\<close>

text \<open>A JavaScript string is a sequence of 16-bit code units; its order is the order of
  the code units, which is what \<open><\<close> and the default sort use.\<close>

type_synonym code_unit = "16 word"
type_synonym jsstring = "code_unit list"

definition js :: "string \<Rightarrow> jsstring" where
  "js s = map of_char s"

lemma js_Nil [js_eval]: "js [] = []"
  by (simp add: js_def)

lemma js_Cons [js_eval]: "js (c # cs) = of_char c # js cs"
  by (simp add: js_def)

lemma js_append: "js (s @ t) = js s @ js t"
  by (simp add: js_def)

lemma js_is_Nil [simp]: "js s = [] \<longleftrightarrow> s = []"
  by (simp add: js_def)

lemma length_js [simp]: "length (js s) = length s"
  by (simp add: js_def)

lemma unat_of_char_code_unit [simp]: "unat (of_char c :: code_unit) = of_char c"
proof -
  have "(of_char c :: nat) < 256"
    using mod_less_divisor [of 256 "of_char c :: nat"] by (simp only: of_char_mod_256)
  then have "(of_char c :: nat) < 2 ^ 16" by (rule less_le_trans) simp
  then have "unat (of_nat (of_char c) :: code_unit) = of_char c"
    by (simp add: unat_of_nat)
  moreover have "(of_nat (of_char c) :: code_unit) = of_char c"
    by (simp add: of_char_def)
  ultimately show ?thesis by simp
qed

lemma inj_of_char_code_unit: "inj (of_char :: char \<Rightarrow> code_unit)"
proof (rule injI)
  fix c d :: char
  assume "(of_char c :: code_unit) = of_char d"
  then have "unat (of_char c :: code_unit) = unat (of_char d :: code_unit)"
    by (rule arg_cong)
  then show "c = d" by simp
qed

lemma js_eq_iff [simp]: "js s = js t \<longleftrightarrow> s = t"
  unfolding js_def using inj_of_char_code_unit by (simp add: inj_map_eq_map)

subsection \<open>Searching, slicing, splitting and joining\<close>

fun position :: "'a \<Rightarrow> 'a list \<Rightarrow> nat option" where
  "position c [] = None"
| "position c (x # xs) = (if x = c then Some 0 else map_option Suc (position c xs))"

definition index_of :: "'a list \<Rightarrow> 'a \<Rightarrow> int" where
  "index_of s c = (case position c s of None \<Rightarrow> -1 | Some i \<Rightarrow> int i)"

lemma position_None_iff [simp]: "position c s = None \<longleftrightarrow> c \<notin> set s"
  by (induction s) auto

lemma position_append_notin:
  "c \<notin> set xs \<Longrightarrow> position c (xs @ ys) = map_option (\<lambda>i. length xs + i) (position c ys)"
  by (induction xs) (auto simp: option.map_comp comp_def option.map_ident split: option.splits
      intro: option.expand)

lemma position_Some_split:
  "position c s = Some i \<Longrightarrow> s = take i s @ c # drop (Suc i) s \<and> c \<notin> set (take i s) \<and> i < length s"
  by (induction s arbitrary: i) (auto split: if_splits)

lemma index_of_first:
  "c \<notin> set xs \<Longrightarrow> index_of (xs @ c # ys) c = int (length xs)"
  by (simp add: index_of_def position_append_notin)

lemma index_of_minus_one_iff: "index_of s c = -1 \<longleftrightarrow> c \<notin> set s"
  by (simp add: index_of_def flip: position_None_iff split: option.split)

definition starts_with :: "'a list \<Rightarrow> 'a list \<Rightarrow> bool" where
  "starts_with s p \<longleftrightarrow> take (length p) s = p"

definition ends_with :: "'a list \<Rightarrow> 'a list \<Rightarrow> bool" where
  "ends_with s p \<longleftrightarrow> length p \<le> length s \<and> drop (length s - length p) s = p"

lemma starts_with_iff: "starts_with s p \<longleftrightarrow> (\<exists>r. s = p @ r)"
  unfolding starts_with_def by (metis append_eq_conv_conj append_take_drop_id)

lemma ends_with_iff: "ends_with s p \<longleftrightarrow> (\<exists>r. s = r @ p)"
proof
  assume "ends_with s p"
  then have "s = take (length s - length p) s @ p"
    unfolding ends_with_def by (metis append_take_drop_id)
  then show "\<exists>r. s = r @ p" by blast
qed (auto simp: ends_with_def)

lemma starts_with_append [simp]: "starts_with (p @ r) p"
  by (auto simp: starts_with_iff)

fun split_on :: "'a \<Rightarrow> 'a list \<Rightarrow> 'a list list" where
  "split_on c [] = [[]]"
| "split_on c (x # xs) =
     (if x = c then [] # split_on c xs
      else (case split_on c xs of [] \<Rightarrow> [[x]] | y # ys \<Rightarrow> (x # y) # ys))"

fun join_with :: "'a list \<Rightarrow> 'a list list \<Rightarrow> 'a list" where
  "join_with sep [] = []"
| "join_with sep [x] = x"
| "join_with sep (x # y # ys) = x @ sep @ join_with sep (y # ys)"

lemma split_on_not_Nil [simp]: "split_on c s \<noteq> []"
  by (induction s) (auto split: list.splits)

lemma split_on_notin: "c \<notin> set xs \<Longrightarrow> split_on c xs = [xs]"
  by (induction xs) auto

lemma split_on_append:
  "c \<notin> set xs \<Longrightarrow> split_on c (xs @ c # ys) = xs # split_on c ys"
  by (induction xs) auto

lemma split_on_join:
  "xss \<noteq> [] \<Longrightarrow> (\<forall>xs \<in> set xss. c \<notin> set xs) \<Longrightarrow> split_on c (join_with [c] xss) = xss"
  by (induction "[c]" xss rule: join_with.induct) (auto simp: split_on_notin split_on_append)

lemma join_split_on: "join_with [c] (split_on c s) = s"
proof (induction s)
  case (Cons x s)
  obtain y ys where "split_on c s = y # ys" by (cases "split_on c s") auto
  with Cons show ?case by (cases ys) auto
qed simp

lemma split_on_parts_notin: "xs \<in> set (split_on c s) \<Longrightarrow> c \<notin> set xs"
proof (induction s arbitrary: xs)
  case (Cons x s)
  obtain y ys where "split_on c s = y # ys" by (cases "split_on c s") auto
  with Cons show ?case by (auto split: if_splits)
qed simp

definition pad_start :: "nat \<Rightarrow> 'a \<Rightarrow> 'a list \<Rightarrow> 'a list" where
  "pad_start n c s = replicate (n - length s) c @ s"

lemma length_pad_start [simp]: "length (pad_start n c s) = max n (length s)"
  by (simp add: pad_start_def)

subsection \<open>White space\<close>

text \<open>The code units \<open>\s\<close> matches and \<open>trim\<close> removes.\<close>

definition is_space :: "code_unit \<Rightarrow> bool" where
  "is_space c \<longleftrightarrow> (9 \<le> c \<and> c \<le> 13) \<or> c = 32 \<or> c = 160 \<or> c = 0x1680 \<or> (0x2000 \<le> c \<and> c \<le> 0x200A)
     \<or> c = 0x2028 \<or> c = 0x2029 \<or> c = 0x202F \<or> c = 0x205F \<or> c = 0x3000 \<or> c = 0xFEFF"

definition trim_start :: "jsstring \<Rightarrow> jsstring" where
  "trim_start s = dropWhile is_space s"

definition trim :: "jsstring \<Rightarrow> jsstring" where
  "trim s = rev (dropWhile is_space (rev (dropWhile is_space s)))"

lemma length_dropWhile_Suc [termination_simp]: "length (dropWhile P xs) < Suc (length xs)"
  by (simp add: less_Suc_eq_le length_dropWhile_le)

fun split_space :: "jsstring \<Rightarrow> jsstring list" where
  "split_space [] = [[]]"
| "split_space (x # xs) =
     (if is_space x then [] # split_space (dropWhile is_space xs)
      else (case split_space xs of [] \<Rightarrow> [[x]] | y # ys \<Rightarrow> (x # y) # ys))"

lemma split_space_not_Nil [simp]: "split_space s \<noteq> []"
  by (induction s rule: split_space.induct) (auto split: list.splits)

lemma split_space_word: "list_all (\<lambda>c. \<not> is_space c) w \<Longrightarrow> split_space w = [w]"
  by (induction w) auto

lemma split_space_append:
  assumes "list_all (\<lambda>c. \<not> is_space c) w" and "is_space c"
  shows "split_space (w @ c # s) = w # split_space (dropWhile is_space s)"
  using assms by (induction w) auto

lemma trim_ident:
  assumes "s \<noteq> []" "\<not> is_space (hd s)" "\<not> is_space (last s)"
  shows "trim s = s"
proof -
  have "dropWhile is_space s = s"
    using assms(1,2) by (cases s) auto
  moreover have "dropWhile is_space (rev s) = rev s"
    using assms(1,3) by (cases s rule: rev_cases) auto
  ultimately show ?thesis by (simp add: trim_def)
qed


section \<open>Decimal numerals\<close>

definition is_digit :: "code_unit \<Rightarrow> bool" where
  "is_digit c \<longleftrightarrow> 48 \<le> c \<and> c \<le> 57"

definition digit_value :: "code_unit \<Rightarrow> nat" where
  "digit_value c = unat c - 48"

definition digit_unit :: "nat \<Rightarrow> code_unit" where
  "digit_unit d = of_nat (48 + d)"

definition all_digits :: "jsstring \<Rightarrow> bool" where
  "all_digits s \<longleftrightarrow> s \<noteq> [] \<and> list_all is_digit s"

definition digits_value :: "jsstring \<Rightarrow> nat" where
  "digits_value s = foldl (\<lambda>acc c. acc * 10 + digit_value c) 0 s"

fun nat_to_string :: "nat \<Rightarrow> jsstring" where
  "nat_to_string n =
     (if n < 10 then [digit_unit n] else nat_to_string (n div 10) @ [digit_unit (n mod 10)])"

declare nat_to_string.simps [simp del]

definition int_to_string :: "int \<Rightarrow> jsstring" where
  "int_to_string i = (if i < 0 then js ''-'' @ nat_to_string (nat (- i)) else nat_to_string (nat i))"

lemma nat_to_string_digit [js_eval]: "n < 10 \<Longrightarrow> nat_to_string n = [digit_unit n]"
  by (simp add: nat_to_string.simps)

lemma nat_to_string_more [js_eval]:
  "\<not> n < 10 \<Longrightarrow> nat_to_string n = nat_to_string (n div 10) @ [digit_unit (n mod 10)]"
  by (subst nat_to_string.simps) simp

lemma unat_digit_unit: "d < 10 \<Longrightarrow> unat (digit_unit d) = 48 + d"
  by (simp add: digit_unit_def unat_of_nat del: of_nat_add)

lemma is_digit_unit [simp]: "d < 10 \<Longrightarrow> is_digit (digit_unit d)"
  by (simp add: is_digit_def word_le_nat_alt unat_digit_unit)

lemma digit_value_unit [simp]: "d < 10 \<Longrightarrow> digit_value (digit_unit d) = d"
  by (simp add: digit_value_def unat_digit_unit)

lemma digit_value_less: "is_digit c \<Longrightarrow> digit_value c < 10"
  by (auto simp: is_digit_def digit_value_def word_le_nat_alt)

lemma digit_unit_value: "is_digit c \<Longrightarrow> digit_unit (digit_value c) = c"
  by (simp add: is_digit_def digit_value_def digit_unit_def word_le_nat_alt)

lemma digits_value_snoc: "digits_value (s @ [c]) = digits_value s * 10 + digit_value c"
  by (simp add: digits_value_def)

lemma digits_value_Nil [simp]: "digits_value [] = 0"
  by (simp add: digits_value_def)

lemma digits_value_nat_to_string [simp]: "digits_value (nat_to_string n) = n"
proof (induction n rule: nat_to_string.induct)
  case (1 n)
  show ?case
  proof (cases "n < 10")
    case True
    then show ?thesis by (simp add: nat_to_string.simps [of n] digits_value_def)
  next
    case False
    with 1 have "digits_value (nat_to_string (n div 10)) = n div 10" by simp
    with False show ?thesis
      by (simp add: nat_to_string.simps [of n] digits_value_snoc)
  qed
qed

lemma all_digits_nat_to_string [simp]: "all_digits (nat_to_string n)"
proof (induction n rule: nat_to_string.induct)
  case (1 n)
  then show ?case
    by (cases "n < 10") (simp_all add: nat_to_string.simps [of n] all_digits_def)
qed

lemma nat_to_string_not_Nil [simp]: "nat_to_string n \<noteq> []"
  using all_digits_nat_to_string [of n] unfolding all_digits_def by blast

lemma inj_nat_to_string: "nat_to_string m = nat_to_string n \<longleftrightarrow> m = n"
  by (metis digits_value_nat_to_string)

lemma set_nat_to_string: "c \<in> set (nat_to_string n) \<Longrightarrow> is_digit c"
  using all_digits_nat_to_string [of n] by (auto simp: all_digits_def list_all_iff)

lemma all_digits_append: "all_digits s \<Longrightarrow> list_all is_digit t \<Longrightarrow> all_digits (s @ t)"
  by (auto simp: all_digits_def)

subsection \<open>\<open>BigInt\<close> and \<open>Number.parseInt\<close>\<close>

text \<open>\<open>BigInt(s)\<close> on a string: white space around the numeral is dropped, the empty
  string is zero, a decimal numeral may have a sign, and a \<open>0x\<close>, \<open>0o\<close> or \<open>0b\<close> numeral
  may not.  \<open>None\<close> is the \<open>SyntaxError\<close>.\<close>

definition radix_digit :: "nat \<Rightarrow> code_unit \<Rightarrow> nat option" where
  "radix_digit r c =
     (let d = (if is_digit c then unat c - 48
               else if 97 \<le> c \<and> c \<le> 122 then unat c - 87
               else if 65 \<le> c \<and> c \<le> 90 then unat c - 55 else 36)
      in if d < r then Some d else None)"

fun radix_value :: "nat \<Rightarrow> nat \<Rightarrow> jsstring \<Rightarrow> nat option" where
  "radix_value r acc [] = Some acc"
| "radix_value r acc (c # s) =
     (case radix_digit r c of None \<Rightarrow> None | Some d \<Rightarrow> radix_value r (acc * r + d) s)"

definition parse_radix :: "nat \<Rightarrow> jsstring \<Rightarrow> int option" where
  "parse_radix r s = (if s = [] then None else map_option int (radix_value r 0 s))"

definition BigInt :: "jsstring \<Rightarrow> int option" where
  "BigInt s = (let t = trim s in
     if t = [] then Some 0
     else if all_digits t then Some (int (digits_value t))
     else if hd t = 45 \<and> all_digits (tl t) then Some (- int (digits_value (tl t)))
     else if hd t = 43 \<and> all_digits (tl t) then Some (int (digits_value (tl t)))
     else if take 2 t \<in> {js ''0x'', js ''0X''} then parse_radix 16 (drop 2 t)
     else if take 2 t \<in> {js ''0o'', js ''0O''} then parse_radix 8 (drop 2 t)
     else if take 2 t \<in> {js ''0b'', js ''0B''} then parse_radix 2 (drop 2 t)
     else None)"

lemma is_digit_not_space: "is_digit c \<Longrightarrow> \<not> is_space c"
  unfolding is_digit_def is_space_def by (auto simp: word_le_nat_alt)

lemma trim_no_space: "list_all (\<lambda>c. \<not> is_space c) s \<Longrightarrow> trim s = s"
proof -
  assume a: "list_all (\<lambda>c. \<not> is_space c) s"
  then have "dropWhile is_space s = s" by (cases s) auto
  moreover from a have "list_all (\<lambda>c. \<not> is_space c) (rev s)" by simp
  then have "dropWhile is_space (rev s) = rev s" by (cases "rev s") auto
  ultimately show ?thesis by (simp add: trim_def)
qed

lemma BigInt_digits [simp]: "all_digits s \<Longrightarrow> BigInt s = Some (int (digits_value s))"
proof -
  assume a: "all_digits s"
  then have "trim s = s"
    by (intro trim_no_space) (auto simp: all_digits_def list_all_iff dest: is_digit_not_space)
  with a show ?thesis by (simp add: BigInt_def all_digits_def)
qed

lemma BigInt_nat_to_string [simp]: "BigInt (nat_to_string n) = Some (int n)"
  by simp

end
