(* ===== verification/Js_Number.thy ===== *)
theory Js_Number
  imports Complex_Main Js_Prelude
begin

text \<open>
  JavaScript numbers.  A finite double is its exact rational value; an operation computes the
  exact result and rounds it to the nearest double, ties to even (\<open>f64\<close>).  The sign of a zero
  is not kept: nothing in the modelled programs observes it.  The lemmas show that integers up
  to \<open>2\<^sup>5\<^sup>3\<close> are exact, and bound the rounding error of everything else.
\<close>

datatype number = NaN | PosInf | NegInf | Fin rat

section \<open>Rounding to a double\<close>

definition round_half_even :: "rat \<Rightarrow> int" where
  "round_half_even r =
     (let f = \<lfloor>r\<rfloor>; d = r - of_int f in
      if d < 1 / 2 then f else if 1 / 2 < d then f + 1 else if even f then f else f + 1)"

fun bit_count :: "nat \<Rightarrow> nat" where
  "bit_count n = (if n = 0 then 0 else Suc (bit_count (n div 2)))"

declare bit_count.simps [simp del]

text \<open>The exponent \<open>e\<close> with \<open>2\<^sup>e \<le> r < 2\<^sup>e\<^sup>+\<^sup>1\<close> of a positive rational.\<close>

definition binary_exponent :: "rat \<Rightarrow> int" where
  "binary_exponent r =
     (let (p, q) = quotient_of r;
          e = int (bit_count (nat p)) - int (bit_count (nat q))
      in if 2 powi e \<le> r then e else e - 1)"

definition ulp_exponent :: "rat \<Rightarrow> int" where
  "ulp_exponent r = max (binary_exponent \<bar>r\<bar> - 52) (-1074)"

definition overflow_bound :: rat where
  "overflow_bound = 2 powi 1024"

definition f64 :: "rat \<Rightarrow> number" where
  "f64 r =
     (if r = 0 then Fin 0
      else let e = ulp_exponent r;
               v = of_int (round_half_even (\<bar>r\<bar> / 2 powi e)) * 2 powi e
           in if overflow_bound \<le> v then (if r < 0 then NegInf else PosInf)
              else Fin (if r < 0 then - v else v))"

definition representable :: "rat \<Rightarrow> bool" where
  "representable r \<longleftrightarrow> r = 0 \<or> (\<bar>r\<bar> < overflow_bound \<and> \<bar>r\<bar> / 2 powi ulp_exponent r \<in> \<int>)"

lemma bit_count_upper: "n < 2 ^ bit_count n"
proof (induction n rule: bit_count.induct)
  case (1 n)
  then show ?case by (cases "n = 0") (auto simp: bit_count.simps [of n])
qed

lemma bit_count_lower: "0 < n \<Longrightarrow> 2 ^ bit_count n \<le> 2 * n"
proof (induction n rule: bit_count.induct)
  case (1 n)
  show ?case
  proof (cases "n div 2 = 0")
    case True
    with 1 have "n = 1" by auto
    then show ?thesis by (simp add: bit_count.simps)
  next
    case False
    with 1 have "2 ^ bit_count (n div 2) \<le> 2 * (n div 2)" by simp
    with 1 show ?thesis by (simp add: bit_count.simps [of n])
  qed
qed

lemma bit_count_rat:
  assumes "0 < n"
  shows "2 powi (int (bit_count n) - 1) \<le> (of_nat n :: rat)"
    and "(of_nat n :: rat) < 2 powi int (bit_count n)"
proof -
  have "(of_nat (2 ^ bit_count n) :: rat) \<le> of_nat (2 * n)"
    using bit_count_lower [OF assms] by (rule of_nat_mono)
  then show "2 powi (int (bit_count n) - 1) \<le> (of_nat n :: rat)"
    by (simp add: power_int_diff)
  have "(of_nat n :: rat) < of_nat (2 ^ bit_count n)"
    using bit_count_upper [of n] by (simp only: of_nat_less_iff)
  then show "(of_nat n :: rat) < 2 powi int (bit_count n)"
    by simp
qed

lemma binary_exponent_bounds:
  assumes "0 < r"
  shows "2 powi binary_exponent r \<le> r" and "r < 2 powi (binary_exponent r + 1)"
proof -
  obtain p q where pq: "quotient_of r = (p, q)" by (cases "quotient_of r")
  then have q: "0 < q" and r: "r = of_int p / of_int q"
    by (auto dest: quotient_of_denom_pos quotient_of_div)
  with assms have p: "0 < p" by (simp add: zero_less_divide_iff)
  define m n where "m = nat p" and "n = nat q"
  with p q r have mn: "0 < m" "0 < n" and r: "r = of_nat m / of_nat n" by simp_all
  let ?e = "int (bit_count m) - int (bit_count n)"
  have "2 powi (?e - 1) = 2 powi (int (bit_count m) - 1) / (2 powi int (bit_count n) :: rat)"
    by (simp add: power_int_diff)
  also have "\<dots> \<le> r"
    unfolding r using bit_count_rat [OF mn(1)] bit_count_rat [OF mn(2)] mn
    by (intro frac_le) auto
  finally have lo: "2 powi (?e - 1) \<le> r" .
  have "r < 2 powi int (bit_count m) / (2 powi (int (bit_count n) - 1) :: rat)"
    unfolding r using bit_count_rat [OF mn(1)] bit_count_rat [OF mn(2)] mn
    by (intro frac_less) auto
  also have "\<dots> = 2 powi (?e + 1)"
    by (simp add: power_int_diff power_int_add)
  finally have hi: "r < 2 powi (?e + 1)" .
  have e: "binary_exponent r = (if 2 powi ?e \<le> r then ?e else ?e - 1)"
    by (simp add: binary_exponent_def pq m_def n_def)
  show "2 powi binary_exponent r \<le> r" "r < 2 powi (binary_exponent r + 1)"
    using lo hi by (auto simp: e)
qed

lemma binary_exponent_mono:
  assumes "0 < r" and "r < 2 powi k"
  shows "binary_exponent r < k"
proof (rule ccontr)
  assume "\<not> binary_exponent r < k"
  then have "(2 :: rat) powi k \<le> 2 powi binary_exponent r"
    by (intro power_int_increasing) simp_all
  with binary_exponent_bounds(1) [OF assms(1)] assms(2) show False by simp
qed

lemma round_half_even_of_int [simp]: "round_half_even (of_int n) = n"
  by (simp add: round_half_even_def)

lemma round_half_even_error: "\<bar>of_int (round_half_even r) - r\<bar> \<le> 1 / 2"
proof -
  have "of_int \<lfloor>r\<rfloor> \<le> r" "r < of_int \<lfloor>r\<rfloor> + 1" by linarith+
  then show ?thesis
    unfolding round_half_even_def Let_def by (cases "even \<lfloor>r\<rfloor>") (auto simp: abs_le_iff)
qed

text \<open>Every integer up to \<open>2\<^sup>5\<^sup>3\<close> in absolute value is a double, so integer arithmetic in
  that range is exact.\<close>

lemma power_int_nonneg_Ints: "0 \<le> k \<Longrightarrow> (2 :: rat) powi k \<in> \<int>"
  by (simp add: power_int_def)

lemma small_int_div_ulp:
  assumes "n \<noteq> 0" and "\<bar>n\<bar> \<le> 2 ^ 53"
  shows "\<bar>of_int n :: rat\<bar> / 2 powi ulp_exponent (of_int n) \<in> \<int>"
proof (cases "\<bar>n\<bar> = 2 ^ 53")
  case True
  then have n: "\<bar>of_int n :: rat\<bar> = 2 powi 53"
    by (metis of_int_abs of_int_numeral of_int_power power_int_numeral)
  have "ulp_exponent (of_int n) \<le> 53"
    using binary_exponent_mono [of "\<bar>of_int n :: rat\<bar>" 54] n by (simp add: ulp_exponent_def)
  then have "(2 :: rat) powi (53 - ulp_exponent (of_int n)) \<in> \<int>"
    by (intro power_int_nonneg_Ints) simp
  then show ?thesis
    unfolding n using power_int_diff [of "2 :: rat" 53 "ulp_exponent (of_int n)"] by simp
next
  case False
  with assms have "\<bar>n\<bar> < 2 ^ 53" by simp
  then have "(of_int \<bar>n\<bar> :: rat) < of_int (2 ^ 53)" by (simp only: of_int_less_iff)
  then have "binary_exponent \<bar>of_int n :: rat\<bar> < 53"
    using assms(1) by (intro binary_exponent_mono) simp_all
  then have "ulp_exponent (of_int n) \<le> 0" by (simp add: ulp_exponent_def)
  then have "(2 :: rat) powi (- ulp_exponent (of_int n)) \<in> \<int>"
    by (intro power_int_nonneg_Ints) simp
  then have "\<bar>of_int n :: rat\<bar> * 2 powi (- ulp_exponent (of_int n)) \<in> \<int>"
    by (intro Ints_mult) simp_all
  then show ?thesis by (simp add: power_int_minus field_simps)
qed

lemma f64_representable:
  assumes "representable r"
  shows "f64 r = Fin r"
proof (cases "r = 0")
  case False
  with assms have hi: "\<bar>r\<bar> < overflow_bound" and "\<bar>r\<bar> / 2 powi ulp_exponent r \<in> \<int>"
    by (auto simp: representable_def)
  then obtain k where k: "\<bar>r\<bar> / 2 powi ulp_exponent r = of_int k" by (auto elim: Ints_cases)
  then have "of_int k * 2 powi ulp_exponent r = \<bar>r\<bar>" by (simp add: field_simps)
  moreover have "round_half_even (\<bar>r\<bar> / 2 powi ulp_exponent r) = k"
    by (simp only: k round_half_even_of_int)
  ultimately have "f64 r = (if overflow_bound \<le> \<bar>r\<bar> then (if r < 0 then NegInf else PosInf)
      else Fin (if r < 0 then - \<bar>r\<bar> else \<bar>r\<bar>))"
    using False by (simp only: f64_def Let_def if_False)
  then show ?thesis using hi by (simp add: not_le)
qed (simp add: f64_def)

lemma representable_int: "\<bar>n\<bar> \<le> 2 ^ 53 \<Longrightarrow> representable (of_int n)"
proof -
  assume a: "\<bar>n\<bar> \<le> 2 ^ 53"
  then have "(of_int \<bar>n\<bar> :: rat) \<le> of_int (2 ^ 53)" by (simp only: of_int_le_iff)
  also have "\<dots> < overflow_bound" by (simp add: overflow_bound_def)
  finally show ?thesis
    using small_int_div_ulp [of n] a by (auto simp: representable_def)
qed

lemma f64_int [simp]: "\<bar>n\<bar> \<le> 2 ^ 53 \<Longrightarrow> f64 (of_int n) = Fin (of_int n)"
  by (intro f64_representable representable_int)


section \<open>Arithmetic and comparison\<close>

fun num_add :: "number \<Rightarrow> number \<Rightarrow> number" where
  "num_add (Fin a) (Fin b) = f64 (a + b)"
| "num_add NaN _ = NaN"
| "num_add _ NaN = NaN"
| "num_add PosInf NegInf = NaN"
| "num_add NegInf PosInf = NaN"
| "num_add PosInf _ = PosInf"
| "num_add NegInf _ = NegInf"
| "num_add _ PosInf = PosInf"
| "num_add _ NegInf = NegInf"

fun num_div :: "number \<Rightarrow> number \<Rightarrow> number" where
  "num_div (Fin a) (Fin b) =
     (if b = 0 then (if a = 0 then NaN else if 0 < a then PosInf else NegInf) else f64 (a / b))"
| "num_div NaN _ = NaN"
| "num_div _ NaN = NaN"
| "num_div (Fin _) _ = Fin 0"
| "num_div PosInf (Fin b) = (if b < 0 then NegInf else PosInf)"
| "num_div NegInf (Fin b) = (if b < 0 then PosInf else NegInf)"
| "num_div _ _ = NaN"

fun num_mul :: "number \<Rightarrow> number \<Rightarrow> number" where
  "num_mul (Fin a) (Fin b) = f64 (a * b)"
| "num_mul NaN y = NaN"
| "num_mul x NaN = NaN"
| "num_mul PosInf (Fin b) = (if b = 0 then NaN else if 0 < b then PosInf else NegInf)"
| "num_mul NegInf (Fin b) = (if b = 0 then NaN else if 0 < b then NegInf else PosInf)"
| "num_mul (Fin a) PosInf = (if a = 0 then NaN else if 0 < a then PosInf else NegInf)"
| "num_mul (Fin a) NegInf = (if a = 0 then NaN else if 0 < a then NegInf else PosInf)"
| "num_mul PosInf PosInf = PosInf"
| "num_mul PosInf NegInf = NegInf"
| "num_mul NegInf PosInf = NegInf"
| "num_mul NegInf NegInf = PosInf"

fun num_less :: "number \<Rightarrow> number \<Rightarrow> bool" where
  "num_less NaN _ = False"
| "num_less _ NaN = False"
| "num_less (Fin a) (Fin b) = (a < b)"
| "num_less NegInf b = (b \<noteq> NegInf)"
| "num_less _ NegInf = False"
| "num_less a PosInf = (a \<noteq> PosInf)"
| "num_less PosInf _ = False"

definition is_finite :: "number \<Rightarrow> bool" where
  "is_finite n \<longleftrightarrow> (case n of Fin _ \<Rightarrow> True | _ \<Rightarrow> False)"

definition of_integer :: "int \<Rightarrow> number" where
  "of_integer n = f64 (of_int n)"

lemma of_integer_small [simp]: "\<bar>n\<bar> \<le> 2 ^ 53 \<Longrightarrow> of_integer n = Fin (of_int n)"
  by (simp only: of_integer_def f64_int)

lemma num_add_int: "\<bar>a + b\<bar> \<le> 2 ^ 53 \<Longrightarrow> num_add (Fin (of_int a)) (Fin (of_int b)) = Fin (of_int (a + b))"
  using f64_int [of "a + b"] by simp

text \<open>\<open>Number.parseInt(s, 10)\<close>: leading white space and a sign are skipped, the longest run
  of digits is read, and \<open>NaN\<close> is the answer when there is none.\<close>

definition parse_int10 :: "jsstring \<Rightarrow> number" where
  "parse_int10 s =
     (let t = trim_start s;
          neg = (t \<noteq> [] \<and> hd t = 45);
          u = (if t \<noteq> [] \<and> (hd t = 45 \<or> hd t = 43) then tl t else t);
          d = takeWhile is_digit u
      in if d = [] then NaN
         else of_integer (if neg then - int (digits_value d) else int (digits_value d)))"

lemma takeWhile_all_digits: "all_digits d \<Longrightarrow> takeWhile is_digit d = d"
  by (simp add: all_digits_def list_all_iff takeWhile_eq_all_conv)

lemma parse_int10_digits:
  assumes "all_digits s"
  shows "parse_int10 s = of_integer (int (digits_value s))"
proof -
  have s: "s \<noteq> []" and "is_digit (hd s)"
    using assms by (cases s; simp add: all_digits_def)+
  then have "\<not> is_space (hd s)" and h: "hd s \<noteq> 45" "hd s \<noteq> 43"
    by (auto simp: is_digit_not_space is_digit_def)
  with s have "trim_start s = s" by (cases s) (simp_all add: trim_start_def)
  then show ?thesis
    using s h by (simp add: parse_int10_def Let_def takeWhile_all_digits [OF assms]
        del: takeWhile_eq_all_conv)
qed

section \<open>Rounding error\<close>

lemma f64_error:
  assumes "0 < r" and "f64 r = Fin v" and "2 powi (-1022) \<le> r"
  shows "\<bar>v - r\<bar> \<le> r * 2 powi (-53)"
proof -
  let ?e = "ulp_exponent r"
  let ?m = "round_half_even (r / 2 powi ?e)"
  have v: "v = of_int ?m * 2 powi ?e"
    using assms(1,2) by (auto simp: f64_def Let_def split: if_splits)
  have "- 1022 \<le> binary_exponent r"
  proof (rule ccontr)
    assume "\<not> - 1022 \<le> binary_exponent r"
    then have "(2 :: rat) powi (binary_exponent r + 1) \<le> 2 powi (-1022)"
      by (intro power_int_increasing) simp_all
    with binary_exponent_bounds(2) [OF assms(1)] assms(3) show False by linarith
  qed
  then have e: "?e = binary_exponent r - 52"
    using assms(1) by (simp add: ulp_exponent_def)
  have "\<bar>v - r\<bar> = \<bar>of_int ?m - r / 2 powi ?e\<bar> * 2 powi ?e"
  proof -
    have "v - r = (of_int ?m - r / 2 powi ?e) * 2 powi ?e" by (simp add: v left_diff_distrib)
    then show ?thesis by (simp add: abs_mult)
  qed
  also have "\<dots> \<le> 1 / 2 * 2 powi ?e"
    by (intro mult_right_mono round_half_even_error) simp
  also have "\<dots> = 2 powi binary_exponent r * 2 powi (-53)"
    unfolding e by (simp add: power_int_diff power_int_minus)
  also have "\<dots> \<le> r * 2 powi (-53)"
    using binary_exponent_bounds(1) [OF assms(1)] by (intro mult_right_mono) simp_all
  finally show ?thesis .
qed


lemma ulp_exponent_le:
  assumes "0 < v" "v < 2 powi (k + 53)" "-1074 \<le> k"
  shows "ulp_exponent v \<le> k"
  using binary_exponent_mono [OF assms(1,2)] assms(1,3) by (simp add: ulp_exponent_def)

lemma representable_scaled:
  assumes "0 < v" "v < 2 powi (k + 53)" "-1074 \<le> k" "v / 2 powi k \<in> \<int>" "v < overflow_bound"
  shows "representable v"
proof -
  let ?u = "ulp_exponent v"
  have "?u \<le> k" using assms(1-3) by (rule ulp_exponent_le)
  then have "v / 2 powi k * 2 powi (k - ?u) \<in> \<int>"
    using assms(4) by (intro Ints_mult power_int_nonneg_Ints) simp_all
  then have "v / 2 powi ?u \<in> \<int>" using power_int_diff [of "2 :: rat" k ?u] by simp
  then show ?thesis using assms(1,5) by (simp add: representable_def)
qed

text \<open>A rounded value is a double, and values up to \<open>2\<^sup>5\<^sup>3\<close> do not overflow.\<close>

lemma f64_mantissa:
  assumes "0 < r"
  defines "e \<equiv> ulp_exponent r" and "m \<equiv> round_half_even (r / 2 powi ulp_exponent r)"
  shows "0 \<le> m" and "m \<le> 2 ^ 53"
proof -
  have "0 < r / 2 powi e" using assms(1) by simp
  with round_half_even_error [of "r / 2 powi e"] have "- 1 / 2 < (of_int m :: rat)"
    unfolding m_def e_def [symmetric] by linarith
  then have "(of_int (- 1) :: rat) < of_int m" by linarith
  then have "- 1 < m" by (simp only: of_int_less_iff)
  then show "0 \<le> m" by simp
  have "r < 2 powi (e + 53)"
    by (rule less_le_trans [OF binary_exponent_bounds(2) [OF assms(1)]])
      (use assms(1) in \<open>auto intro!: power_int_increasing simp: e_def ulp_exponent_def\<close>)
  then have "r / 2 powi e < 2 ^ 53" by (simp add: power_int_add field_simps)
  with round_half_even_error [of "r / 2 powi e"] have "(of_int m :: rat) < of_int (2 ^ 53 + 1)"
    unfolding m_def e_def [symmetric] by (simp only: of_int_add of_int_power of_int_numeral of_int_1)
  then have "m < 2 ^ 53 + 1" by (simp only: of_int_less_iff)
  then show "m \<le> 2 ^ 53" by simp
qed

lemma f64_finite:
  assumes "0 \<le> r" and "r \<le> 2 ^ 53"
  obtains v where "f64 r = Fin v" and "representable v" and "0 \<le> v"
proof (cases "r = 0")
  case True
  then show ?thesis using that [of 0] by (simp add: f64_def representable_def)
next
  case False
  with assms have r: "0 < r" by simp
  let ?e = "ulp_exponent r" and ?m = "round_half_even (r / 2 powi ulp_exponent r)"
  let ?v = "of_int ?m * 2 powi ?e :: rat"
  note m = f64_mantissa [OF r]
  have "r < 2 powi 54" using assms(2) by simp
  then have "binary_exponent r < 54" using r by (intro binary_exponent_mono)
  then have e: "?e \<le> 1" using r by (simp add: ulp_exponent_def)
  have low: "-1074 \<le> ?e" by (simp add: ulp_exponent_def)
  have m': "(of_int ?m :: rat) \<le> of_int (2 ^ 53)" using m(2) by (simp only: of_int_le_iff)
  then have "?v \<le> of_int (2 ^ 53) * 2 powi 1"
    using e by (intro mult_mono power_int_increasing) simp_all
  also have "\<dots> < overflow_bound" by (simp add: overflow_bound_def)
  finally have hi: "?v < overflow_bound" .
  have v: "f64 r = Fin ?v" using r hi by (simp add: f64_def Let_def not_le)
  have pos: "0 \<le> ?v" using m(1) by simp
  have "representable ?v"
  proof (cases "?v = 0")
    case False
    with pos have v0: "0 < ?v" by (simp add: order_less_le)
    show ?thesis
    proof (cases "?m = 2 ^ 53")
      case True
      have v': "?v = 2 powi (?e + 53)" unfolding True by (simp add: power_int_add)
      have "?v / 2 powi (?e + 1) = 2 powi 52"
        unfolding v' by (simp add: power_int_add)
      then have "?v / 2 powi (?e + 1) \<in> \<int>" using power_int_nonneg_Ints [of 52] by simp
      moreover have "?v < 2 powi (?e + 1 + 53)"
        unfolding v' by (auto intro: power_int_strict_increasing)
      ultimately show ?thesis using representable_scaled [of ?v "?e + 1"] v0 hi low by simp
    next
      case False
      with m(2) have "?m < 2 ^ 53" by simp
      then have "(of_int ?m :: rat) < of_int (2 ^ 53)" by (simp only: of_int_less_iff)
      then have "?v < 2 ^ 53 * 2 powi ?e" by simp
      also have "\<dots> = 2 powi (?e + 53)" by (simp add: power_int_add)
      finally show ?thesis using representable_scaled [of ?v ?e] v0 hi low by simp
    qed
  qed (simp add: representable_def)
  with v pos that show ?thesis by blast
qed

section \<open>Printing a number\<close>

text \<open>\<open>Number::toString\<close>: the shortest decimal digits that round back to the number, laid out
  by the position of the decimal point.  For an integer up to \<open>2\<^sup>5\<^sup>3\<close> this is its decimal
  numeral, which is stated as the first case.\<close>

fun decimal_point :: "nat \<Rightarrow> rat \<Rightarrow> int" where
  "decimal_point 0 r = 0"
| "decimal_point (Suc fuel) r =
     (if 1 \<le> r then int (length (nat_to_string (nat \<lfloor>r\<rfloor>))) else decimal_point fuel (r * 10) - 1)"

fun shortest_digits :: "nat \<Rightarrow> nat \<Rightarrow> int \<Rightarrow> rat \<Rightarrow> nat" where
  "shortest_digits 0 k n r = nat \<lfloor>r / 10 powi (n - int k)\<rfloor>"
| "shortest_digits (Suc fuel) k n r =
     (let t = r / 10 powi (n - int k);
          lo = nat \<lfloor>t\<rfloor>; hi = Suc lo;
          ok = (\<lambda>c. f64 (of_nat c * 10 powi (n - int k)) = Fin r)
      in if ok lo \<and> (\<not> ok hi \<or> t - of_nat lo \<le> of_nat hi - t) then lo
         else if ok hi then hi
         else shortest_digits fuel (Suc k) n r)"

definition layout_digits :: "jsstring \<Rightarrow> int \<Rightarrow> jsstring" where
  "layout_digits ds n =
     (let k = int (length ds); e = n - 1;
          exponent = js ''e'' @ (if e < 0 then js ''-'' else js ''+'') @ nat_to_string (nat \<bar>e\<bar>)
      in if k \<le> n \<and> n \<le> 21 then ds @ replicate (nat (n - k)) 48
         else if 0 < n \<and> n \<le> 21 then take (nat n) ds @ js ''.'' @ drop (nat n) ds
         else if -6 < n \<and> n \<le> 0 then js ''0.'' @ replicate (nat (- n)) 48 @ ds
         else if k = 1 then ds @ exponent
         else take 1 ds @ js ''.'' @ drop 1 ds @ exponent)"

definition positive_to_string :: "rat \<Rightarrow> jsstring" where
  "positive_to_string r =
     (let n = decimal_point 400 r;
          ds = nat_to_string (shortest_digits 17 1 n r);
          stripped = rev (dropWhile (\<lambda>c. c = 48) (rev ds));
          point = (if stripped = [49] \<and> 1 < length ds then n + 1 else n)
      in layout_digits stripped point)"

fun number_to_string :: "number \<Rightarrow> jsstring" where
  "number_to_string NaN = js ''NaN''"
| "number_to_string PosInf = js ''Infinity''"
| "number_to_string NegInf = js ''-Infinity''"
| "number_to_string (Fin r) =
     (if of_int \<lfloor>r\<rfloor> = r \<and> \<bar>r\<bar> \<le> 2 ^ 53 then int_to_string \<lfloor>r\<rfloor>
      else if r < 0 then js ''-'' @ positive_to_string (- r) else positive_to_string r)"

lemma number_to_string_int [simp]:
  "\<bar>n\<bar> \<le> 2 ^ 53 \<Longrightarrow> number_to_string (Fin (of_int n)) = int_to_string n"
proof -
  assume "\<bar>n\<bar> \<le> 2 ^ 53"
  then have "(of_int \<bar>n\<bar> :: rat) \<le> of_int (2 ^ 53)" by (simp only: of_int_le_iff)
  then show ?thesis by simp
qed

end
