(* ===== verification/Fixed2.thy ===== *)
theory Fixed2
  imports Js_Number
begin

unbundle bit_operations_syntax

text \<open>
  \<open>formatFixed2\<close> of \<^verbatim>\<open>baselines/ts/main.ts\<close>: the mean of a group is printed with two decimals by
  taking the bits of the double apart and rounding the exact value, ties to even, with
  BigInt arithmetic.  \<open>f64_bits\<close> is what \<open>setFloat64\<close> followed by \<open>getBigUint64\<close> yields; a
  BigInt is an \<open>int\<close>.  The main lemma says that the bit manipulation computes the rounded
  hundredfold of the number's exact value.
\<close>

definition f64_bits :: "number \<Rightarrow> int" where
  "f64_bits n = (case n of
     NaN \<Rightarrow> 0x7FF8000000000000
   | PosInf \<Rightarrow> 0x7FF0000000000000
   | NegInf \<Rightarrow> 0xFFF0000000000000
   | Fin r \<Rightarrow>
       (if r = 0 then 0
        else let m = \<lfloor>\<bar>r\<bar> / 2 powi ulp_exponent r\<rfloor>;
                 sign = (if r < 0 then 1 else 0)
             in sign * 2 ^ 63 + (if m < 2 ^ 52 then m
                                 else (ulp_exponent r + 1075) * 2 ^ 52 + (m - 2 ^ 52))))"

definition decode_f64 :: "int \<Rightarrow> int \<times> int" where
  "decode_f64 bits =
     (let exponentBits = drop_bit 52 bits AND 0x7ff;
          fraction = bits AND (push_bit 52 1 - 1)
      in if exponentBits = 0 then (fraction, -1022 - 52)
         else (push_bit 52 1 OR fraction, exponentBits - 1023 - 52))"

definition round_cents :: "int \<Rightarrow> int \<Rightarrow> int" where
  "round_cents mantissa exponent =
     (let scaled = mantissa * 100 in
      if 0 \<le> exponent then push_bit (nat exponent) scaled
      else let denominator = push_bit (nat (- exponent)) 1;
               cents = scaled div denominator;
               remainder = scaled mod denominator;
               twice = remainder * 2
           in if denominator < twice \<or> (twice = denominator \<and> cents mod 2 = 1) then cents + 1 else cents)"

definition fixed2 :: "int \<Rightarrow> jsstring" where
  "fixed2 cents =
     int_to_string (cents div 100) @ js ''.'' @ pad_start 2 48 (int_to_string (cents mod 100))"

definition formatFixed2 :: "number \<Rightarrow> jsstring" where
  "formatFixed2 value =
     (let (mantissa, exponent) = decode_f64 (f64_bits value)
      in fixed2 (round_cents mantissa exponent))"

section \<open>Taking the bits apart\<close>

lemma low_bits: "(b :: int) AND (push_bit 52 1 - 1) = b mod 2 ^ 52"
proof -
  have "push_bit 52 1 - 1 = (mask 52 :: int)" by (simp add: mask_eq_exp_minus_1 push_bit_eq_mult)
  then show ?thesis by (simp only: take_bit_eq_mask [symmetric] take_bit_eq_mod)
qed

lemma high_bits: "drop_bit 52 b AND 0x7ff = (b div 2 ^ 52) mod (2 ^ 11 :: int)"
proof -
  have "(0x7ff :: int) = mask 11" by (simp add: mask_eq_exp_minus_1)
  then show ?thesis by (simp only: take_bit_eq_mask [symmetric] take_bit_eq_mod drop_bit_eq_div)
qed

lemma or_power_add:
  assumes "0 \<le> f" and "f < 2 ^ k"
  shows "push_bit k 1 OR f = 2 ^ k + (f :: int)"
proof -
  have f: "take_bit k f = f" using assms by (simp add: take_bit_int_eq_self)
  have "push_bit k 1 AND f = push_bit k 1 AND take_bit k f" by (simp only: f)
  also have "\<dots> = 0"
    by (rule bit_eqI) (auto simp: bit_simps)
  finally have "push_bit k 1 OR f = push_bit k 1 + f"
    by (metis add.right_neutral plus_and_or add.commute)
  then show ?thesis by (simp add: push_bit_eq_mult)
qed

lemma decode_fields:
  assumes "0 \<le> f" "f < 2 ^ 52" "0 \<le> E" "E < 2 ^ 11"
  shows "decode_f64 (s * 2 ^ 63 + (E * 2 ^ 52 + f)) =
    (if E = 0 then (f, -1074) else (2 ^ 52 + f, E - 1075))"
proof -
  let ?b = "s * 2 ^ 63 + (E * 2 ^ 52 + f)"
  have b: "?b = f + (E + s * 2 ^ 11) * 2 ^ 52" by simp
  have "?b mod 2 ^ 52 = f"
    unfolding b mod_mult_self1 using assms(1,2) by (rule mod_pos_pos_trivial)
  moreover have "?b div 2 ^ 52 = E + s * 2 ^ 11"
    unfolding b by (subst div_mult_self1) (use assms(1,2) in \<open>simp_all add: div_pos_pos_trivial\<close>)
  moreover have "(E + s * 2 ^ 11) mod 2 ^ 11 = E"
    unfolding mod_mult_self1 using assms(3,4) by (rule mod_pos_pos_trivial)
  ultimately have "decode_f64 ?b =
      (if E = 0 then (f, -1022 - 52) else (push_bit 52 1 OR f, E - 1023 - 52))"
    by (simp only: decode_f64_def high_bits low_bits Let_def)
  then show ?thesis by (simp only: or_power_add [OF assms(1,2)]) simp
qed


text \<open>The mantissa and exponent the bits carry are those of the number's exact value.\<close>

lemma representable_mantissa:
  assumes "representable r" and "r \<noteq> 0"
  defines "e \<equiv> ulp_exponent r" and "m \<equiv> \<lfloor>\<bar>r\<bar> / 2 powi ulp_exponent r\<rfloor>"
  shows "\<bar>r\<bar> = of_int m * 2 powi e" and "0 < m" and "m < 2 ^ 53"
    and "m < 2 ^ 52 \<Longrightarrow> e = -1074" and "-1074 \<le> e" and "e \<le> 971"
proof -
  have int: "\<bar>r\<bar> / 2 powi e \<in> \<int>" and hi: "\<bar>r\<bar> < overflow_bound"
    using assms(1,2) by (auto simp: representable_def e_def)
  then have m: "of_int m = \<bar>r\<bar> / 2 powi e"
    by (auto simp: m_def e_def elim!: Ints_cases)
  then show eq: "\<bar>r\<bar> = of_int m * 2 powi e" by simp
  have pos: "0 < \<bar>r\<bar>" using assms(2) by simp
  then have "0 < (of_int m :: rat)" unfolding m by simp
  then show "0 < m" by simp
  let ?b = "binary_exponent \<bar>r\<bar>"
  have lo: "2 powi ?b \<le> \<bar>r\<bar>" and up: "\<bar>r\<bar> < 2 powi (?b + 1)"
    using binary_exponent_bounds [OF pos] by simp_all
  show "-1074 \<le> e" by (simp add: e_def ulp_exponent_def)
  have e: "e = max (?b - 52) (-1074)" by (simp add: e_def ulp_exponent_def)
  have "\<bar>r\<bar> < 2 powi (e + 53)"
    by (rule less_le_trans [OF up]) (auto intro!: power_int_increasing simp: e)
  then have "of_int m * 2 powi e < (2 ^ 53 :: rat) * 2 powi e"
    unfolding eq by (simp add: power_int_add mult.commute)
  then have "(of_int m :: rat) < of_int (2 ^ 53)" by simp
  then show "m < 2 ^ 53" by (simp only: of_int_less_iff)
  show "e = -1074" if "m < 2 ^ 52"
  proof (rule ccontr)
    assume "e \<noteq> -1074"
    then have e': "?b = e + 52" by (simp add: e)
    from that have "(of_int m :: rat) < of_int (2 ^ 52)" by (simp only: of_int_less_iff)
    then have "\<bar>r\<bar> < 2 ^ 52 * 2 powi e" unfolding eq by simp
    also have "\<dots> = 2 powi ?b" unfolding e' by (simp add: power_int_add)
    finally show False using lo by simp
  qed
  have "?b < 1024" using hi pos by (intro binary_exponent_mono) (simp_all add: overflow_bound_def)
  then show "e \<le> 971" by (simp add: e)
qed

lemma decode_f64_bits:
  assumes "representable r"
  obtains m e where "decode_f64 (f64_bits (Fin r)) = (m, e)"
    and "\<bar>r\<bar> = of_int m * 2 powi e" and "0 \<le> m"
proof (cases "r = 0")
  case True
  have "decode_f64 0 = (0, -1074)" using decode_fields [of 0 0 0] by simp
  with True that [of 0 "-1074"] show ?thesis by (simp add: f64_bits_def)
next
  case False
  define e where "e = ulp_exponent r"
  define m where "m = \<lfloor>\<bar>r\<bar> / 2 powi e\<rfloor>"
  note facts = representable_mantissa [OF assms False, folded e_def, folded m_def]
  let ?s = "if r < 0 then 1 else 0 :: int"
  let ?E = "if m < 2 ^ 52 then 0 else e + 1075"
  let ?f = "if m < 2 ^ 52 then m else m - 2 ^ 52"
  have bits: "f64_bits (Fin r) = ?s * 2 ^ 63 + (?E * 2 ^ 52 + ?f)"
    using False
    by (simp only: f64_bits_def number.case if_False Let_def e_def [symmetric] m_def [symmetric])
      (cases "m < 2 ^ 52"; simp only: if_True if_False; simp)
  have "decode_f64 (f64_bits (Fin r)) = (if ?E = 0 then (?f, -1074) else (2 ^ 52 + ?f, ?E - 1075))"
    unfolding bits by (rule decode_fields) (use facts(2,3,5,6) in auto)
  also have "\<dots> = (m, e)" using facts(4,5) by auto
  finally show ?thesis using that facts(1,2) by (meson less_imp_le)
qed

section \<open>Rounding to hundredths\<close>

lemma round_half_even_div:
  assumes "0 \<le> a" and "0 < d"
  shows "(if d < a mod d * 2 \<or> (a mod d * 2 = d \<and> a div d mod 2 = 1) then a div d + 1 else a div d) =
    round_half_even (of_int a / of_int d)"
proof -
  have fl: "\<lfloor>of_int a / of_int d :: rat\<rfloor> = a div d"
    by (simp add: floor_divide_of_int_eq)
  have a: "(of_int a :: rat) = of_int (a div d) * of_int d + of_int (a mod d)"
    by (metis div_mult_mod_eq of_int_add of_int_mult)
  have fr: "of_int a / of_int d - of_int (a div d) = (of_int (a mod d) / of_int d :: rat)"
    unfolding a using assms(2) by (simp add: add_divide_distrib)
  have lt: "(of_int (a mod d) / of_int d < (1 / 2 :: rat)) \<longleftrightarrow> a mod d * 2 < d"
    using assms(2) by (simp add: divide_less_eq) (metis of_int_less_iff of_int_mult of_int_numeral)
  have gt: "((1 / 2 :: rat) < of_int (a mod d) / of_int d) \<longleftrightarrow> d < a mod d * 2"
    using assms(2) by (simp add: less_divide_eq) (metis of_int_less_iff of_int_mult of_int_numeral)
  show ?thesis
    unfolding round_half_even_def Let_def fl fr lt gt by (auto simp: even_iff_mod_2_eq_zero)
qed

lemma round_cents_correct:
  assumes "0 \<le> m"
  shows "round_cents m e = round_half_even (of_int m * 2 powi e * 100)"
proof (cases "0 \<le> e")
  case True
  then have "of_int m * 2 powi e * 100 = (of_int (m * 100 * 2 ^ nat e) :: rat)"
    by (simp add: power_int_def)
  with True show ?thesis
    by (simp only: round_cents_def Let_def round_half_even_of_int push_bit_eq_mult if_True)
next
  case False
  let ?d = "2 ^ nat (- e) :: int"
  have "of_int m * 2 powi e * 100 = (of_int (m * 100) / of_int ?d :: rat)"
    using False by (simp add: power_int_def field_simps)
  moreover have "round_cents m e = round_half_even (of_int (m * 100) / of_int ?d)"
  proof -
    have "0 \<le> m * 100" "0 < ?d" using assms by simp_all
    note round_half_even_div [OF this]
    with False show ?thesis
      by (simp only: round_cents_def Let_def push_bit_eq_mult if_False mult_1)
  qed
  ultimately show ?thesis by simp
qed

lemma formatFixed2_Fin:
  assumes "representable r"
  shows "formatFixed2 (Fin r) = fixed2 (round_half_even (\<bar>r\<bar> * 100))"
proof -
  obtain m e where "decode_f64 (f64_bits (Fin r)) = (m, e)" "\<bar>r\<bar> = of_int m * 2 powi e" "0 \<le> m"
    using decode_f64_bits [OF assms] .
  then show ?thesis
    by (simp add: formatFixed2_def round_cents_correct)
qed

end
