(* ===== verification/Js_Collections.thy ===== *)
theory Js_Collections
  imports Js_Prelude
begin

text \<open>
  JavaScript \<open>Map\<close> objects and \<open>Array.prototype.sort\<close>.  A \<open>Map\<close> iterates in insertion
  order and \<open>set\<close> on a present key keeps its place, which is \<open>AList.update\<close>.  The locale
  \<open>ordered_map\<close> is the contract the clients use (last write wins, grouping); the locales
  \<open>comparator\<close> and \<open>key_comparator\<close> are what a comparison function must promise.
\<close>

section \<open>Maps in insertion order\<close>

type_synonym ('k, 'v) js_map = "('k \<times> 'v) list"

definition map_new :: "('k, 'v) js_map" where
  "map_new = []"

definition map_set :: "'k \<Rightarrow> 'v \<Rightarrow> ('k, 'v) js_map \<Rightarrow> ('k, 'v) js_map" where
  "map_set k v m = AList.update k v m"

definition map_get :: "('k, 'v) js_map \<Rightarrow> 'k \<Rightarrow> 'v option" where
  "map_get m k = map_of m k"

definition map_has :: "('k, 'v) js_map \<Rightarrow> 'k \<Rightarrow> bool" where
  "map_has m k = (map_of m k \<noteq> None)"

definition map_keys :: "('k, 'v) js_map \<Rightarrow> 'k list" where
  "map_keys m = map fst m"

definition map_values :: "('k, 'v) js_map \<Rightarrow> 'v list" where
  "map_values m = map snd m"

lemmas map_defs = map_new_def map_set_def map_get_def map_has_def map_keys_def map_values_def

definition map_delete :: "'k \<Rightarrow> ('k, 'v) js_map \<Rightarrow> ('k, 'v) js_map" where
  "map_delete k m = filter (\<lambda>p. fst p \<noteq> k) m"

lemma map_get_delete [simp]: "map_get (map_delete k m) k' = (if k' = k then None else map_get m k')"
  by (induction m) (auto simp: map_delete_def map_get_def)

lemma distinct_keys_delete: "distinct (map_keys m) \<Longrightarrow> distinct (map_keys (map_delete k m))"
  by (simp add: map_delete_def map_keys_def distinct_map_filter)

locale ordered_map =
  fixes empty :: "'m"
    and put :: "'k \<Rightarrow> 'v \<Rightarrow> 'm \<Rightarrow> 'm"
    and get :: "'m \<Rightarrow> 'k \<Rightarrow> 'v option"
    and keys :: "'m \<Rightarrow> 'k list"
  assumes get_empty: "get empty k = None"
    and keys_empty: "keys empty = []"
    and get_put: "get (put k v m) k' = (if k' = k then Some v else get m k')"
    and keys_put: "keys (put k v m) = (if k \<in> set (keys m) then keys m else keys m @ [k])"
    and keys_get: "k \<in> set (keys m) \<longleftrightarrow> get m k \<noteq> None"
begin

text \<open>A loop that stores \<open>val x\<close> under \<open>key x\<close>: the last element with a key wins.\<close>

lemma get_foldl_put:
  "get (foldl (\<lambda>m x. put (key x) (val x) m) m xs) k =
     (case find (\<lambda>x. key x = k) (rev xs) of Some x \<Rightarrow> Some (val x) | None \<Rightarrow> get m k)"
proof (induction xs rule: rev_induct)
  case (snoc x xs)
  then show ?case by (simp add: get_put)
qed simp

lemma keys_foldl_put:
  "set (keys (foldl (\<lambda>m x. put (key x) (val x) m) m xs)) = set (keys m) \<union> key ` set xs"
  by (induction xs arbitrary: m) (auto simp: keys_put)

lemma distinct_keys_put: "distinct (keys m) \<Longrightarrow> distinct (keys (put k v m))"
  by (simp add: keys_put)

lemma distinct_keys_foldl:
  "distinct (keys m) \<Longrightarrow> distinct (keys (foldl (\<lambda>m x. put (key x) (val x m) m) m xs))"
  by (induction xs arbitrary: m) (simp_all add: distinct_keys_put)

text \<open>A loop that updates the entry of each element's key: the entry of a key only sees
  the elements with that key, in order.\<close>

lemma get_foldl_upsert:
  "get (foldl (\<lambda>m x. put (key x) (upd (get m (key x)) x) m) m xs) k =
     foldl (\<lambda>acc x. Some (upd acc x)) (get m k) (filter (\<lambda>x. key x = k) xs)"
  by (induction xs arbitrary: m) (simp_all add: get_put)

lemma keys_foldl_upsert:
  "set (keys (foldl (\<lambda>m x. put (key x) (upd (get m (key x)) x) m) m xs)) = set (keys m) \<union> key ` set xs"
  by (induction xs arbitrary: m) (auto simp: keys_put)

end

interpretation jm: ordered_map map_new map_set map_get map_keys
  by unfold_locales
    (simp_all add: map_defs update_conv' AList.update_keys map_of_eq_None_iff)

lemma map_has_iff: "map_has m k \<longleftrightarrow> k \<in> set (map_keys m)"
  by (simp add: map_has_def jm.keys_get map_get_def)

lemma map_values_eq: "distinct (map_keys m) \<Longrightarrow> map_values m = map (\<lambda>k. the (map_get m k)) (map_keys m)"
  by (auto simp: map_defs map_of_is_SomeI)

lemma map_get_entry: "distinct (map_keys m) \<Longrightarrow> map_get m k = Some v \<longleftrightarrow> (k, v) \<in> set m"
  by (simp add: map_defs)

lemma map_eqI_set: "distinct (map_keys m) \<Longrightarrow> distinct (map_keys n) \<Longrightarrow>
    map_get m = map_get n \<longleftrightarrow> set m = set n"
  using map_of_inject_set [of m n] by (simp add: map_defs fun_eq_iff)

section \<open>Sorting with a comparator\<close>

text \<open>\<open>Array.prototype.sort\<close> is a stable sort.  A comparator may throw (\<open>None\<close>); every
  element of an array of two or more takes part in some comparison.\<close>

fun insert_cmp :: "('a \<Rightarrow> 'a \<Rightarrow> int) \<Rightarrow> 'a \<Rightarrow> 'a list \<Rightarrow> 'a list" where
  "insert_cmp cmp x [] = [x]"
| "insert_cmp cmp x (y # ys) = (if cmp x y \<le> 0 then x # y # ys else y # insert_cmp cmp x ys)"

definition sort_cmp :: "('a \<Rightarrow> 'a \<Rightarrow> int) \<Rightarrow> 'a list \<Rightarrow> 'a list" where
  "sort_cmp cmp xs = foldr (insert_cmp cmp) xs []"

definition array_sort :: "('a \<Rightarrow> 'a \<Rightarrow> int option) \<Rightarrow> 'a list \<Rightarrow> 'a list option" where
  "array_sort cmp xs =
     (if 2 \<le> length xs \<and> (\<exists>x \<in> set xs. \<exists>y \<in> set xs. cmp x y = None) then None
      else Some (sort_cmp (\<lambda>x y. the (cmp x y)) xs))"

lemma mset_insert_cmp [simp]: "mset (insert_cmp cmp x xs) = add_mset x (mset xs)"
  by (induction xs) auto

lemma mset_sort_cmp [simp]: "mset (sort_cmp cmp xs) = mset xs"
  by (induction xs) (auto simp: sort_cmp_def)

lemma set_sort_cmp [simp]: "set (sort_cmp cmp xs) = set xs"
  by (metis mset_sort_cmp set_mset_mset)

lemma length_sort_cmp [simp]: "length (sort_cmp cmp xs) = length xs"
  by (metis mset_sort_cmp size_mset)

lemma sort_cmp_Nil [simp]: "sort_cmp cmp [] = []"
  by (simp add: sort_cmp_def)

lemma sort_cmp_Cons [simp]: "sort_cmp cmp (x # xs) = insert_cmp cmp x (sort_cmp cmp xs)"
  by (simp add: sort_cmp_def)

lemma set_insert_cmp [simp]: "set (insert_cmp cmp x xs) = insert x (set xs)"
  by (induction xs) auto

lemma distinct_map_sort_cmp [simp]: "distinct (map f (sort_cmp cmp xs)) = distinct (map f xs)"
  by (metis mset_map mset_eq_imp_distinct_iff mset_sort_cmp)

locale comparator =
  fixes cmp :: "'a \<Rightarrow> 'a \<Rightarrow> int"
  assumes cmp_total: "cmp x y \<le> 0 \<or> cmp y x \<le> 0"
    and cmp_trans: "cmp x y \<le> 0 \<Longrightarrow> cmp y z \<le> 0 \<Longrightarrow> cmp x z \<le> 0"
begin

lemma sorted_insert_cmp:
  "sorted_wrt (\<lambda>x y. cmp x y \<le> 0) xs \<Longrightarrow> sorted_wrt (\<lambda>x y. cmp x y \<le> 0) (insert_cmp cmp x xs)"
proof (induction xs)
  case (Cons a xs)
  show ?case
  proof (cases "cmp x a \<le> 0")
    case True
    with Cons.prems show ?thesis by (auto intro: cmp_trans)
  next
    case False
    with cmp_total have "cmp a x \<le> 0" by blast
    with Cons False show ?thesis by simp
  qed
qed simp

lemma sorted_sort_cmp: "sorted_wrt (\<lambda>x y. cmp x y \<le> 0) (sort_cmp cmp xs)"
  by (induction xs) (simp_all add: sorted_insert_cmp)

end

locale key_comparator =
  fixes cmp :: "'a \<Rightarrow> 'a \<Rightarrow> int"
    and key :: "'a \<Rightarrow> 'b :: linorder"
  assumes cmp_key: "cmp x y \<le> 0 \<longleftrightarrow> key x \<le> key y"
begin

lemma insert_cmp_insort: "insert_cmp cmp x xs = insort_key key x xs"
  by (induction xs) (simp_all add: cmp_key)

lemma sort_cmp_sort_key: "sort_cmp cmp xs = sort_key key xs"
  by (induction xs) (simp_all add: insert_cmp_insort)

end

sublocale key_comparator \<subseteq> comparator cmp
  by unfold_locales (auto simp: cmp_key)

text \<open>A comparator that agrees on the elements at hand sorts them alike.\<close>

lemma insert_cmp_cong:
  "(\<And>y. y \<in> set ys \<Longrightarrow> cmp x y = cmp' x y) \<Longrightarrow> insert_cmp cmp x ys = insert_cmp cmp' x ys"
  by (induction ys) auto

lemma sort_cmp_cong:
  "(\<And>x y. x \<in> set xs \<Longrightarrow> y \<in> set xs \<Longrightarrow> cmp x y = cmp' x y) \<Longrightarrow> sort_cmp cmp xs = sort_cmp cmp' xs"
  by (induction xs) (auto intro!: insert_cmp_cong)

text \<open>The default comparison of strings, by code units.\<close>

definition compare_strings :: "jsstring \<Rightarrow> jsstring \<Rightarrow> int" where
  "compare_strings a b = (if a < b then -1 else if b < a then 1 else 0)"

interpretation string_order: key_comparator compare_strings "\<lambda>s. s"
  by unfold_locales (auto simp: compare_strings_def)

lemma sort_strings: "sort_cmp compare_strings xs = sort xs"
  using string_order.sort_cmp_sort_key [of xs] by simp

end
