(* ===== verification/Js_Json.thy ===== *)
theory Js_Json
  imports Js_Number Js_Collections
begin

text \<open>
  JSON values, \<open>JSON.stringify\<close> and \<open>JSON.parse\<close>.  \<open>None\<close> of the parser is a \<open>SyntaxError\<close>.
  An object is the list of its members with the last duplicate winning.  The programs print and
  read each other's results in this format, so the library's fact is the round trip.
\<close>

datatype json =
    JNull
  | JBool bool
  | JNum number
  | JStr jsstring
  | JArr "json list"
  | JObj "(jsstring \<times> json) list"

section \<open>Printing\<close>

definition hex_digit :: "nat \<Rightarrow> code_unit" where
  "hex_digit d = (if d < 10 then of_nat (48 + d) else of_nat (87 + d))"

definition unicode_escape :: "code_unit \<Rightarrow> jsstring" where
  "unicode_escape c =
     (let n = unat c in
      [92, 117, hex_digit (n div 4096), hex_digit (n div 256 mod 16), hex_digit (n div 16 mod 16), hex_digit (n mod 16)])"

definition high_surrogate :: "code_unit \<Rightarrow> bool" where
  "high_surrogate c \<longleftrightarrow> 0xD800 \<le> c \<and> c \<le> 0xDBFF"

definition low_surrogate :: "code_unit \<Rightarrow> bool" where
  "low_surrogate c \<longleftrightarrow> 0xDC00 \<le> c \<and> c \<le> 0xDFFF"

definition quote_char :: "code_unit \<Rightarrow> jsstring" where
  "quote_char c =
     (if c = 34 then [92, 34] else if c = 92 then [92, 92] else if c = 8 then [92, 98]
      else if c = 12 then [92, 102] else if c = 10 then [92, 110] else if c = 13 then [92, 114]
      else if c = 9 then [92, 116] else if c < 32 then unicode_escape c else [c])"

fun quote_chars :: "jsstring \<Rightarrow> jsstring" where
  "quote_chars [] = []"
| "quote_chars [c] = (if high_surrogate c \<or> low_surrogate c then unicode_escape c else quote_char c)"
| "quote_chars (c # d # s) =
     (if high_surrogate c \<and> low_surrogate d then c # d # quote_chars s
      else (if high_surrogate c \<or> low_surrogate c then unicode_escape c else quote_char c)
        @ quote_chars (d # s))"

definition quote :: "jsstring \<Rightarrow> jsstring" where
  "quote s = 34 # quote_chars s @ [34]"

fun stringify :: "json \<Rightarrow> jsstring" where
  "stringify JNull = js ''null''"
| "stringify (JBool b) = (if b then js ''true'' else js ''false'')"
| "stringify (JNum n) = (if is_finite n then number_to_string n else js ''null'')"
| "stringify (JStr s) = quote s"
| "stringify (JArr vs) = 91 # join_with [44] (map stringify vs) @ [93]"
| "stringify (JObj ms) = 123 # join_with [44] (map (\<lambda>m. quote (fst m) @ 58 # stringify (snd m)) ms) @ [125]"

section \<open>Parsing\<close>

definition json_space :: "code_unit \<Rightarrow> bool" where
  "json_space c \<longleftrightarrow> c \<in> {32, 9, 10, 13}"

definition skip_ws :: "jsstring \<Rightarrow> jsstring" where
  "skip_ws s = dropWhile json_space s"

definition escape_char :: "code_unit \<Rightarrow> code_unit option" where
  "escape_char c = map_of [(34, 34), (92, 92), (47, 47), (98, 8), (102, 12), (110, 10), (114, 13), (116, 9)] c"

text \<open>The characters of a string after its opening quote.\<close>

fun parse_chars :: "jsstring \<Rightarrow> (jsstring \<times> jsstring) option" where
  "parse_chars [] = None"
| "parse_chars (c # s) =
     (if c = 34 then Some ([], s)
      else if c < 32 then None
      else if c \<noteq> 92 then map_option (\<lambda>(t, r). (c # t, r)) (parse_chars s)
      else (case s of
              [] \<Rightarrow> None
            | e # s' \<Rightarrow>
                if e = 117
                then (case radix_value 16 0 (take 4 s') of
                        None \<Rightarrow> None
                      | Some n \<Rightarrow> if length s' < 4 then None
                                  else map_option (\<lambda>(t, r). (of_nat n # t, r)) (parse_chars (drop 4 s')))
                else (case escape_char e of
                        None \<Rightarrow> None
                      | Some d \<Rightarrow> map_option (\<lambda>(t, r). (d # t, r)) (parse_chars s'))))"

text \<open>Sign, integer part without superfluous zeros, fraction, exponent.\<close>

definition parse_fraction :: "jsstring \<Rightarrow> (jsstring \<times> jsstring) option" where
  "parse_fraction s =
     (if starts_with s [46]
      then (let f = takeWhile is_digit (tl s) in if f = [] then None else Some (f, drop (length f) (tl s)))
      else Some ([], s))"

definition parse_exponent :: "jsstring \<Rightarrow> (int \<times> jsstring) option" where
  "parse_exponent s =
     (if starts_with s [101] \<or> starts_with s [69]
      then (let r = tl s; neg = starts_with r [45];
                r' = (if neg \<or> starts_with r [43] then tl r else r);
                d = takeWhile is_digit r'
            in if d = [] then None
               else Some (if neg then - int (digits_value d) else int (digits_value d), drop (length d) r'))
      else Some (0, s))"

definition parse_number :: "jsstring \<Rightarrow> (json \<times> jsstring) option" where
  "parse_number s =
     (let neg = starts_with s [45]; u = (if neg then tl s else s); i = takeWhile is_digit u in
      if i = [] \<or> (hd i = 48 \<and> 1 < length i) then None
      else (case parse_fraction (drop (length i) u) of
              None \<Rightarrow> None
            | Some (f, r) \<Rightarrow>
                (case parse_exponent r of
                   None \<Rightarrow> None
                 | Some (e, r') \<Rightarrow>
                     let m = (of_nat (digits_value (i @ f)) :: rat) * 10 powi (e - int (length f))
                     in Some (JNum (f64 (if neg then - m else m)), r'))))"

fun parse_value :: "nat \<Rightarrow> jsstring \<Rightarrow> (json \<times> jsstring) option"
and parse_elements :: "nat \<Rightarrow> json list \<Rightarrow> jsstring \<Rightarrow> (json \<times> jsstring) option"
and parse_members :: "nat \<Rightarrow> (jsstring, json) js_map \<Rightarrow> jsstring \<Rightarrow> (json \<times> jsstring) option" where
  "parse_value 0 s0 = None"
| "parse_value (Suc n) s0 =
     (let s = skip_ws s0 in
      if s = [] then None
      else if hd s = 34 then map_option (\<lambda>(t, r). (JStr t, r)) (parse_chars (tl s))
      else if hd s = 91
      then (let r = skip_ws (tl s) in
            if starts_with r [93] then Some (JArr [], tl r) else parse_elements n [] r)
      else if hd s = 123
      then (let r = skip_ws (tl s) in
            if starts_with r [125] then Some (JObj [], tl r) else parse_members n map_new r)
      else if starts_with s (js ''null'') then Some (JNull, drop 4 s)
      else if starts_with s (js ''true'') then Some (JBool True, drop 4 s)
      else if starts_with s (js ''false'') then Some (JBool False, drop 5 s)
      else parse_number s)"
| "parse_elements 0 acc s = None"
| "parse_elements (Suc n) acc s =
     (case parse_value n s of
        None \<Rightarrow> None
      | Some (v, r0) \<Rightarrow>
          let r = skip_ws r0 in
          if starts_with r [44] then parse_elements n (acc @ [v]) (tl r)
          else if starts_with r [93] then Some (JArr (acc @ [v]), tl r)
          else None)"
| "parse_members 0 acc s0 = None"
| "parse_members (Suc n) acc s0 =
     (let s = skip_ws s0 in
      if \<not> starts_with s [34] then None
      else (case parse_chars (tl s) of
              None \<Rightarrow> None
            | Some (k, r0) \<Rightarrow>
                let r1 = skip_ws r0 in
                if \<not> starts_with r1 [58] then None
                else (case parse_value n (tl r1) of
                        None \<Rightarrow> None
                      | Some (v, r2) \<Rightarrow>
                          let r = skip_ws r2 in
                          if starts_with r [44] then parse_members n (map_set k v acc) (tl r)
                          else if starts_with r [125] then Some (JObj (map_set k v acc), tl r)
                          else None)))"

text \<open>Two calls per code unit are enough: every second call consumes one.\<close>

definition json_parse :: "jsstring \<Rightarrow> json option" where
  "json_parse s =
     (case parse_value (2 * length s + 2) s of
        Some (v, r) \<Rightarrow> if skip_ws r = [] then Some v else None
      | None \<Rightarrow> None)"

definition member :: "json \<Rightarrow> jsstring \<Rightarrow> json option" where
  "member v k = (case v of JObj ms \<Rightarrow> map_of ms k | _ \<Rightarrow> None)"

section \<open>The round trip\<close>

lemma unat_hex_digit: "d < 16 \<Longrightarrow> unat (hex_digit d) = (if d < 10 then 48 + d else 87 + d)"
  by (simp add: hex_digit_def unat_of_nat del: of_nat_add)

lemma code_unit_bound: "unat (c :: code_unit) < 65536"
  using unsigned_less [of c] by simp

lemma radix_digit_hex: "d < 16 \<Longrightarrow> radix_digit 16 (hex_digit d) = Some d"
  by (auto simp: radix_digit_def is_digit_def word_le_nat_alt unat_hex_digit Let_def)

lemma radix_value_hex4:
  assumes "n < 65536"
  shows "radix_value 16 0
    [hex_digit (n div 4096), hex_digit (n div 256 mod 16), hex_digit (n div 16 mod 16), hex_digit (n mod 16)] = Some n"
proof -
  have "n div 4096 < 16" using assms by (simp add: less_mult_imp_div_less)
  moreover have "((n div 4096 * 16 + n div 256 mod 16) * 16 + n div 16 mod 16) * 16 + n mod 16 = n"
  proof -
    have "n div 4096 * 16 + n div 256 mod 16 = n div 256"
      using div_mult_mod_eq [of "n div 256" 16] by (simp add: div_mult2_eq [symmetric])
    moreover have "n div 256 * 16 + n div 16 mod 16 = n div 16"
      using div_mult_mod_eq [of "n div 16" 16] by (simp add: div_mult2_eq [symmetric])
    ultimately show ?thesis by simp
  qed
  ultimately show ?thesis by (simp add: radix_digit_hex)
qed

lemma parse_unicode_escape:
  "parse_chars (unicode_escape c @ s) = map_option (\<lambda>(t, r). (c # t, r)) (parse_chars s)"
proof -
  have "radix_value 16 0 (take 4 (drop 2 (unicode_escape c @ s))) = Some (unat c)"
    using radix_value_hex4 [of "unat c"] code_unit_bound [of c] by (simp add: unicode_escape_def Let_def)
  then show ?thesis by (simp add: unicode_escape_def Let_def)
qed

lemma parse_quote_char:
  "parse_chars (quote_char c @ s) = map_option (\<lambda>(t, r). (c # t, r)) (parse_chars s)"
  by (simp add: quote_char_def parse_unicode_escape escape_char_def)

lemma parse_plain: "32 \<le> c \<Longrightarrow> c \<noteq> 34 \<Longrightarrow> c \<noteq> 92 \<Longrightarrow>
  parse_chars (c # s) = map_option (\<lambda>(t, r). (c # t, r)) (parse_chars s)"
  by (simp add: leD)

lemma parse_surrogates:
  "high_surrogate c \<Longrightarrow> low_surrogate d \<Longrightarrow>
   parse_chars (c # d # s) = map_option (\<lambda>(t, r). (c # d # t, r)) (parse_chars s)"
proof -
  assume h: "high_surrogate c" and l: "low_surrogate d"
  have "32 \<le> c" "c \<noteq> 34" "c \<noteq> 92" using h by (auto simp: high_surrogate_def word_le_nat_alt)
  moreover have "32 \<le> d" "d \<noteq> 34" "d \<noteq> 92" using l by (auto simp: low_surrogate_def word_le_nat_alt)
  ultimately show ?thesis
    by (simp add: parse_plain option.map_comp comp_def case_prod_unfold del: parse_chars.simps)
qed

lemma parse_quote_chars: "parse_chars (quote_chars s @ 34 # r) = Some (s, r)"
proof (induction s rule: quote_chars.induct)
  case (3 c d s)
  then show ?case
    by (cases "high_surrogate c"; cases "low_surrogate c"; cases "low_surrogate d")
      (simp_all add: parse_surrogates parse_unicode_escape parse_quote_char del: parse_chars.simps)
qed (simp_all add: parse_unicode_escape parse_quote_char)

lemma parse_quote: "parse_chars (tl (quote s @ r)) = Some (s, r)"
  by (simp add: quote_def parse_quote_chars)

text \<open>What may follow a value: the end of the text or a character that ends a number.\<close>

definition stops :: "jsstring \<Rightarrow> bool" where
  "stops r \<longleftrightarrow> r = [] \<or> hd r \<in> {44, 93, 125, 32, 10}"

lemma stops_number: "stops r \<Longrightarrow> takeWhile is_digit r = []" "stops r \<Longrightarrow> \<not> starts_with r [46]"
  "stops r \<Longrightarrow> \<not> starts_with r [101]" "stops r \<Longrightarrow> \<not> starts_with r [69]"
  by (cases r; auto simp: stops_def is_digit_def starts_with_def)+

lemma nat_to_string_hd: "hd (nat_to_string n) = 48 \<Longrightarrow> length (nat_to_string n) = 1"
proof (induction n rule: nat_to_string.induct)
  case (1 n)
  show ?case
  proof (cases "n < 10")
    case False
    then have "nat_to_string n = nat_to_string (n div 10) @ [digit_unit (n mod 10)]"
      by (simp add: nat_to_string_more)
    moreover from this "1.prems" have "hd (nat_to_string (n div 10)) = 48" by simp
    ultimately have l: "length (nat_to_string (n div 10)) = 1" using "1.IH" False by simp
    then have "n div 10 < 10" by (cases "n div 10 < 10") (simp_all add: nat_to_string_more)
    then have "48 + n div 10 = (48 :: nat)"
      using \<open>hd (nat_to_string (n div 10)) = 48\<close> unat_digit_unit [of "n div 10"]
      by (simp add: nat_to_string_digit)
    then show ?thesis using False by simp
  qed (simp add: nat_to_string_digit)
qed

lemma takeWhile_nat: "takeWhile is_digit r = [] \<Longrightarrow> takeWhile is_digit (nat_to_string n @ r) = nat_to_string n"
  using set_nat_to_string by (simp add: takeWhile_append2)

lemma parse_number_int:
  assumes "\<bar>n\<bar> \<le> 2 ^ 53" "stops r"
  shows "parse_number (int_to_string n @ r) = Some (JNum (Fin (of_int n)), r)"
proof -
  let ?d = "nat_to_string (nat \<bar>n\<bar>)"
  have tw: "takeWhile is_digit (?d @ r) = ?d" using takeWhile_nat stops_number(1) [OF assms(2)] .
  have hd: "\<not> (hd ?d = 48 \<and> 1 < length ?d)" using nat_to_string_hd by fastforce
  have ne: "hd ?d \<noteq> 45"
    using set_nat_to_string [of "hd ?d" "nat \<bar>n\<bar>"] by (auto simp: is_digit_def hd_in_set)
  have s: "\<not> starts_with (?d @ r) [45]" using ne by (cases ?d) (auto simp: starts_with_def)
  have f: "f64 (of_int n) = Fin (of_int n)" using assms(1) by simp
  show ?thesis
  proof (cases "n < 0")
    case True
    then have "- (of_nat (nat \<bar>n\<bar>) :: rat) = of_int n" by simp
    then show ?thesis using True tw hd f stops_number [OF assms(2)]
      by (simp add: parse_number_def int_to_string_def js_eval starts_with_def parse_fraction_def parse_exponent_def Let_def)
  next
    case False
    then have "(of_nat (nat \<bar>n\<bar>) :: rat) = of_int n" by simp
    then show ?thesis using False tw hd f stops_number [OF assms(2)] s
      by (simp add: parse_number_def int_to_string_def parse_fraction_def parse_exponent_def Let_def)
  qed
qed

subsection \<open>Values\<close>

text \<open>The values the programs print: integers, no member twice.\<close>

fun json_ok :: "json \<Rightarrow> bool" where
  "json_ok (JNum n) = (\<exists>i. n = Fin (of_int i) \<and> \<bar>i\<bar> \<le> 2 ^ 53)"
| "json_ok (JArr vs) = list_all json_ok vs"
| "json_ok (JObj ms) = (distinct (map fst ms) \<and> list_all json_ok (map snd ms))"
| "json_ok v = True"

lemma skip_ws_id: "\<not> json_space c \<Longrightarrow> skip_ws (c # s) = c # s"
  by (simp add: skip_ws_def)

lemma skip_ws_stop: "c \<in> {34, 44, 58, 91, 93, 123, 125} \<Longrightarrow> skip_ws (c # s) = c # s"
  by (auto simp: skip_ws_def json_space_def)

lemma not_json_space_digit: "is_digit c \<Longrightarrow> \<not> json_space c" "\<not> json_space 45"
  by (auto simp: is_digit_def json_space_def)

lemma int_to_string_shape: "\<exists>c s. int_to_string n = c # s \<and> (is_digit c \<or> c = 45)"
proof -
  have "\<exists>c s. nat_to_string m = c # s \<and> is_digit c" for m
    using set_nat_to_string [of _ m] nat_to_string_not_Nil [of m] by (cases "nat_to_string m") auto
  then have m: "\<And>m. \<exists>c s. nat_to_string m = c # s \<and> (is_digit c \<or> c = 45)" by blast
  show ?thesis using m [of "nat n"] by (cases "n < 0") (simp_all add: int_to_string_def js_eval)
qed

lemma parse_value_number:
  assumes "\<bar>n\<bar> \<le> 2 ^ 53" "stops r"
  shows "parse_value (Suc k) (int_to_string n @ r) = Some (JNum (Fin (of_int n)), r)"
proof -
  obtain c s where c: "int_to_string n = c # s" "is_digit c \<or> c = 45" using int_to_string_shape by blast
  from c(2) have "\<not> json_space c" "c \<noteq> 34" "c \<noteq> 91" "c \<noteq> 123" "c \<noteq> 110" "c \<noteq> 116" "c \<noteq> 102"
    using not_json_space_digit by (auto simp: is_digit_def)
  then show ?thesis using parse_number_int [OF assms] c(1)
    by (simp add: skip_ws_id starts_with_def js_eval)
qed

lemma stringify_shape:
  "json_ok v \<Longrightarrow> \<exists>c s. stringify v = c # s \<and> \<not> json_space c \<and> c \<noteq> 93 \<and> c \<noteq> 125"
proof (cases v)
  case (JNum n)
  assume "json_ok v"
  then obtain i where i: "n = Fin (of_int i)" "\<bar>i\<bar> \<le> 2 ^ 53" using JNum by auto
  obtain c s where "int_to_string i = c # s" "is_digit c \<or> c = 45" using int_to_string_shape by blast
  then show ?thesis using JNum i not_json_space_digit
    by (auto simp: is_finite_def is_digit_def)
qed (auto simp: js_eval json_space_def quote_def)

lemma skip_ws_stringify: "json_ok v \<Longrightarrow> skip_ws (stringify v @ r) = stringify v @ r"
  using stringify_shape [of v] by (auto simp: skip_ws_id)

lemma parse_elements_join:
  assumes "\<And>v n r. v \<in> set vs \<Longrightarrow> stops r \<Longrightarrow> length (stringify v) < n \<Longrightarrow>
      parse_value n (stringify v @ r) = Some (v, r)"
    and "vs \<noteq> []" "length (join_with [44] (map stringify vs)) + 1 < n"
  shows "parse_elements n acc (join_with [44] (map stringify vs) @ 93 # r) = Some (JArr (acc @ vs), r)"
  using assms
proof (induction vs arbitrary: n acc)
  case (Cons v vs)
  obtain m where n: "n = Suc m" using Cons.prems(3) by (cases n) auto
  have st: "stops (44 # t)" "stops (93 # t)" for t by (simp_all add: stops_def)
  show ?case
  proof (cases vs)
    case Nil
    then have "parse_value m (stringify v @ 93 # r) = Some (v, 93 # r)"
      using Cons.prems(1) [of v "93 # r" m] st Cons.prems(3) n by simp
    then show ?thesis using Nil by (simp add: n skip_ws_stop starts_with_def)
  next
    case (Cons w ws)
    let ?t = "join_with [44] (map stringify vs) @ 93 # r"
    have joined: "join_with [44] (map stringify (v # vs)) @ 93 # r = stringify v @ 44 # ?t" using Cons by simp
    have len: "length (stringify v) + 1 + length (join_with [44] (map stringify vs)) + 1 < n"
      using Cons.prems(3) Cons by simp
    have "parse_value m (stringify v @ 44 # ?t) = Some (v, 44 # ?t)"
      using Cons.prems(1) [of v "44 # ?t" m] st len n by simp
    moreover have "parse_elements m (acc @ [v]) ?t = Some (JArr ((acc @ [v]) @ vs), r)"
      using Cons.prems(1) Cons len n by (intro Cons.IH) auto
    ultimately show ?thesis unfolding joined by (simp add: n skip_ws_stop starts_with_def)
  qed
qed simp

definition member_text :: "jsstring \<times> json \<Rightarrow> jsstring" where
  "member_text m = quote (fst m) @ 58 # stringify (snd m)"

lemma stringify_JObj: "stringify (JObj ms) = 123 # join_with [44] (map member_text ms) @ [125]"
  by (simp add: member_text_def [abs_def])

lemma map_set_append: "k \<notin> set (map fst acc) \<Longrightarrow> map_set k v acc = acc @ [(k, v)]"
  by (induction acc) (auto simp: map_set_def)

lemma skip_ws_quote: "skip_ws (quote k @ r) = quote k @ r"
  by (simp add: quote_def skip_ws_stop)

text \<open>One member: its key and value, up to the character that follows.\<close>

lemma parse_members_step:
  assumes "parse_value n (stringify v @ c # r) = Some (v, c # r)" "c = 44 \<or> c = 125"
  shows "parse_members (Suc n) acc (member_text (k, v) @ c # r) =
    (if c = 44 then parse_members n (map_set k v acc) r else Some (JObj (map_set k v acc), r))"
proof -
  have shape: "member_text (k, v) @ c # r = 34 # quote_chars k @ 34 # 58 # stringify v @ c # r"
    by (simp add: member_text_def quote_def)
  show ?thesis
    using assms unfolding shape by (auto simp: skip_ws_stop starts_with_def parse_quote_chars)
qed

lemma parse_members_join:
  assumes "\<And>m n r. m \<in> set ms \<Longrightarrow> stops r \<Longrightarrow> length (stringify (snd m)) < n \<Longrightarrow>
      parse_value n (stringify (snd m) @ r) = Some (snd m, r)"
    and "ms \<noteq> []" "length (join_with [44] (map member_text ms)) + 1 < n"
    and "distinct (map fst (acc @ ms))"
  shows "parse_members n acc (join_with [44] (map member_text ms) @ 125 # r) = Some (JObj (acc @ ms), r)"
  using assms
proof (induction ms arbitrary: n acc)
  case (Cons m ms)
  obtain n' where n: "n = Suc n'" using Cons.prems(3) by (cases n) auto
  obtain k v where m: "m = (k, v)" by (cases m)
  have st: "stops (44 # t)" "stops (125 # t)" for t by (simp_all add: stops_def)
  have new: "map_set k v acc = acc @ [(k, v)]" using Cons.prems(4) m by (simp add: map_set_append)
  have lenv: "length (stringify v) < n'"
  proof -
    have "length (member_text m) \<le> length (join_with [44] (map member_text (m # ms)))"
      by (cases ms) auto
    moreover have "length (stringify v) + 1 \<le> length (member_text m)" by (simp add: m member_text_def)
    ultimately show ?thesis using Cons.prems(3) n by linarith
  qed
  show ?case
  proof (cases ms)
    case Nil
    have "parse_value n' (stringify v @ 125 # r) = Some (v, 125 # r)"
      using Cons.prems(1) [of m "125 # r" n'] st lenv by (simp add: m)
    from parse_members_step [OF this] show ?thesis using Nil by (simp add: m n new)
  next
    case (Cons m' ms')
    let ?t = "join_with [44] (map member_text ms) @ 125 # r"
    have joined: "join_with [44] (map member_text (m # ms)) @ 125 # r = member_text m @ 44 # ?t"
      using Cons by simp
    have "0 < length (member_text m)" by (simp add: member_text_def)
    then have len: "length (join_with [44] (map member_text ms)) + 1 < n'"
      using Cons.prems(3) Cons n by simp
    have "parse_value n' (stringify v @ 44 # ?t) = Some (v, 44 # ?t)"
      using Cons.prems(1) [of m "44 # ?t" n'] st lenv by (simp add: m)
    from parse_members_step [OF this]
    have "parse_members n acc (member_text m @ 44 # ?t) = parse_members n' (acc @ [(k, v)]) ?t"
      by (simp add: m n new)
    also have "\<dots> = Some (JObj ((acc @ [(k, v)]) @ ms), r)"
      using Cons.prems Cons len by (intro Cons.IH) (auto simp: m)
    finally show ?thesis unfolding joined by (simp add: m)
  qed
qed simp

lemma parse_value_stringify:
  "json_ok v \<Longrightarrow> stops r \<Longrightarrow> length (stringify v) < n \<Longrightarrow>
    parse_value n (stringify v @ r) = Some (v, r)"
proof (induction v arbitrary: n r)
  case (JNum x)
  then obtain i where i: "x = Fin (of_int i)" "\<bar>i\<bar> \<le> 2 ^ 53" by auto
  moreover obtain k where "n = Suc k" using JNum.prems(3) by (cases n) auto
  ultimately show ?case using parse_value_number [OF i(2) JNum.prems(2), of k]
    by (simp add: is_finite_def number_to_string_int [OF i(2)] del: parse_value.simps number_to_string.simps)
next
  case (JStr s)
  then obtain k where "n = Suc k" by (cases n) auto
  then show ?case by (simp add: quote_def skip_ws_stop parse_quote_chars)
next
  case (JArr vs)
  then obtain k where n: "n = Suc k" by (cases n) auto
  show ?case
  proof (cases vs)
    case Nil
    then show ?thesis by (simp add: n skip_ws_stop starts_with_def)
  next
    case (Cons w ws)
    let ?t = "join_with [44] (map stringify vs) @ 93 # r"
    obtain c u where c: "stringify w = c # u" "\<not> json_space c" "c \<noteq> 93"
      using stringify_shape [of w] JArr.prems(1) Cons by auto
    have t: "skip_ws ?t = ?t" "\<not> starts_with ?t [93]"
      using c Cons by (cases ws; simp add: skip_ws_id starts_with_def)+
    have "parse_elements k [] ?t = Some (JArr ([] @ vs), r)"
      using JArr Cons n by (intro parse_elements_join) (auto simp: list_all_iff)
    then show ?thesis using t by (simp add: n skip_ws_stop)
  qed
next
  case (JObj ms)
  then obtain k where n: "n = Suc k" by (cases n) auto
  show ?case
  proof (cases ms)
    case Nil
    then show ?thesis by (simp add: n skip_ws_stop starts_with_def)
  next
    case (Cons w ws)
    let ?t = "join_with [44] (map member_text ms) @ 125 # r"
    have t: "skip_ws ?t = ?t" "\<not> starts_with ?t [125]"
      using Cons by (cases ws; simp add: member_text_def quote_def skip_ws_stop starts_with_def)+
    have "parse_members k map_new ?t = Some (JObj (map_new @ ms), r)"
    proof (intro parse_members_join)
      fix m n r'
      assume m: "m \<in> set ms" "stops r'" "length (stringify (snd m)) < n"
      moreover have "snd m \<in> Basic_BNFs.snds m" by (cases m) simp
      ultimately show "parse_value n (stringify (snd m) @ r') = Some (snd m, r')"
        using JObj.IH JObj.prems(1) by (auto simp: list_all_iff)
    qed (use JObj.prems Cons n in \<open>simp_all add: map_new_def stringify_JObj del: stringify.simps(6)\<close>)
    then show ?thesis using t
      unfolding stringify_JObj by (simp add: n skip_ws_stop map_new_def)
  qed
next
  case JNull
  then obtain k where "n = Suc k" by (cases n) auto
  then show ?case by (simp add: js_eval skip_ws_def json_space_def starts_with_def)
next
  case (JBool b)
  then obtain k where "n = Suc k" by (cases n) auto
  then show ?case by (cases b) (simp_all add: js_eval skip_ws_def json_space_def starts_with_def)
qed

lemma json_round_trip: "json_ok v \<Longrightarrow> json_parse (stringify v) = Some v"
  using parse_value_stringify [of v "[]" "2 * length (stringify v) + 2"]
  by (simp add: json_parse_def stops_def skip_ws_def)

end
