(* ===== verification/Js_Convert.thy ===== *)
theory Js_Convert
  imports Js_Json
begin

text \<open>
  \<open>Number(s)\<close> on strings: white space around the numeral is dropped, the empty string is zero,
  decimal literals with fraction and exponent, signed \<open>Infinity\<close>, and unsigned radix literals.
\<close>

definition decimal_literal :: "jsstring \<Rightarrow> number option" where
  "decimal_literal u =
     (let i = takeWhile is_digit u; r = drop (length i) u;
          f = (if starts_with r [46] then takeWhile is_digit (tl r) else []);
          r' = (if starts_with r [46] then drop (length f) (tl r) else r)
      in if i @ f = [] then None
         else (case parse_exponent r' of
                 None \<Rightarrow> None
               | Some (e, rest) \<Rightarrow>
                   if rest = [] then Some (f64 (of_nat (digits_value (i @ f)) * 10 powi (e - int (length f)))) else None))"

definition unsigned_number :: "jsstring \<Rightarrow> number" where
  "unsigned_number u =
     (if u = js ''Infinity'' then PosInf else (case decimal_literal u of Some n \<Rightarrow> n | None \<Rightarrow> NaN))"

definition num_neg :: "number \<Rightarrow> number" where
  "num_neg n = (case n of Fin r \<Rightarrow> Fin (- r) | PosInf \<Rightarrow> NegInf | NegInf \<Rightarrow> PosInf | NaN \<Rightarrow> NaN)"

definition radix_number :: "nat \<Rightarrow> jsstring \<Rightarrow> number" where
  "radix_number r s = (case parse_radix r s of Some i \<Rightarrow> f64 (of_int i) | None \<Rightarrow> NaN)"

definition string_to_number :: "jsstring \<Rightarrow> number" where
  "string_to_number s =
     (let t = trim s in
      if t = [] then Fin 0
      else if take 2 t \<in> {js ''0x'', js ''0X''} then radix_number 16 (drop 2 t)
      else if take 2 t \<in> {js ''0o'', js ''0O''} then radix_number 8 (drop 2 t)
      else if take 2 t \<in> {js ''0b'', js ''0B''} then radix_number 2 (drop 2 t)
      else if hd t = 45 then num_neg (unsigned_number (tl t))
      else if hd t = 43 then unsigned_number (tl t)
      else unsigned_number t)"

definition is_safe_integer :: "number \<Rightarrow> bool" where
  "is_safe_integer n = (case n of Fin r \<Rightarrow> of_int \<lfloor>r\<rfloor> = r \<and> \<bar>r\<bar> \<le> 2 ^ 53 - 1 | _ \<Rightarrow> False)"

lemma string_to_number_digits:
  assumes "all_digits s" "digits_value s \<le> 2 ^ 53"
  shows "string_to_number s = Fin (of_nat (digits_value s))"
proof -
  have d: "list_all is_digit s" "s \<noteq> []" using assms(1) by (simp_all add: all_digits_def)
  have tr: "trim s = s"
    using d by (intro trim_no_space) (auto simp: list_all_iff dest: is_digit_not_space)
  have tw: "takeWhile is_digit s = s" by (rule takeWhile_all_digits [OF assms(1)])
  have hd: "is_digit (hd s)" using d by (cases s) auto
  have no_letter: "c \<notin> set s" if "\<not> is_digit c" for c using d that by (auto simp: list_all_iff)
  have x: "take 2 s \<noteq> js [a, b]" if "\<not> is_digit (of_char b)" for a b
  proof
    assume "take 2 s = js [a, b]"
    then have "of_char b \<in> set (take 2 s)" by (simp add: js_eval)
    then show False using no_letter [OF that] by (meson in_set_takeD)
  qed
  have "take 2 s \<notin> {js ''0x'', js ''0X''}" "take 2 s \<notin> {js ''0o'', js ''0O''}" "take 2 s \<notin> {js ''0b'', js ''0B''}"
    using x by (auto simp: is_digit_def)
  moreover have "hd s \<noteq> 45" "hd s \<noteq> 43" using hd by (auto simp: is_digit_def)
  moreover have "s \<noteq> js ''Infinity''" using no_letter [of 73] by (auto simp: js_eval is_digit_def)
  moreover have "f64 (of_int (int (digits_value s))) = Fin (of_int (int (digits_value s)))"
    using assms(2) by (intro f64_int) simp
  ultimately show ?thesis using d(2) tr
    by (simp add: string_to_number_def unsigned_number_def decimal_literal_def tw parse_exponent_def starts_with_def Let_def)
qed

lemma string_to_number_nat: "n \<le> 2 ^ 53 \<Longrightarrow> string_to_number (nat_to_string n) = Fin (of_nat n)"
  using string_to_number_digits [of "nat_to_string n"] by simp

end
