(* ===== verification/Js_Text.thy ===== *)
theory Js_Text
  imports Js_Prelude
begin

text \<open>
  Reading text line by line as \<open>node:readline\<close> does with an unlimited \<open>crlfDelay\<close>: a line ends
  with LF, CR or CR LF, and the last line needs no end.  The lemmas say that joining lines and
  reading them back gives the lines.
\<close>

fun split_lines :: "jsstring \<Rightarrow> jsstring list" where
  "split_lines [] = [[]]"
| "split_lines (c # s) =
     (if c = 10 then [] # split_lines s
      else if c = 13 then [] # (case s of d # t \<Rightarrow> if d = 10 then split_lines t else split_lines s
                                        | [] \<Rightarrow> split_lines s)
      else (case split_lines s of [] \<Rightarrow> [[c]] | l # ls \<Rightarrow> (c # l) # ls))"

definition readline_lines :: "jsstring \<Rightarrow> jsstring list" where
  "readline_lines s = (let ls = split_lines s in if last ls = [] then butlast ls else ls)"

definition no_line_end :: "jsstring \<Rightarrow> bool" where
  "no_line_end l \<longleftrightarrow> 10 \<notin> set l \<and> 13 \<notin> set l"

definition unlines :: "jsstring list \<Rightarrow> jsstring" where
  "unlines ls = concat (map (\<lambda>l. l @ [10]) ls)"

lemma split_lines_not_Nil [simp]: "split_lines s \<noteq> []"
  by (induction s rule: split_lines.induct) (auto split: list.splits)

lemma split_lines_line: "no_line_end l \<Longrightarrow> split_lines (l @ 10 # s) = l # split_lines s"
  by (induction l) (auto simp: no_line_end_def)

lemma split_lines_unlines:
  "(\<forall>l \<in> set ls. no_line_end l) \<Longrightarrow> split_lines (unlines ls) = ls @ [[]]"
  by (induction ls) (simp_all add: unlines_def split_lines_line)

lemma readline_unlines: "(\<forall>l \<in> set ls. no_line_end l) \<Longrightarrow> readline_lines (unlines ls) = ls"
  by (simp add: readline_lines_def split_lines_unlines)

end
