(* ===== verification/Optimized.thy ===== *)
theory Optimized
  imports Fixed2 Js_Convert Js_Collections Js_Text
begin

text \<open>
  The optimised analyser \<^verbatim>\<open>optimized/typescript/main.ts\<close>, definition by definition: it cuts the file into
  one range per thread at line ends, analyses every range into a typed array of statistics,
  merges the arrays and prints them.  A file is a list of bytes; the number of processors, how many bytes
  every read gives and what an unfilled buffer holds are arguments.  A worker thread computes \<open>analyzeRange\<close> and posts its result.
\<close>

type_synonym byte = "8 word"

section \<open>Tables\<close>

definition YEAR_START :: int where
  "YEAR_START = 1798761600"

definition MONTH_START :: "int list" where
  "MONTH_START = [1798761600, 1801440000, 1803859200, 1806537600, 1809129600, 1811808000, 1814400000,
     1817078400, 1819756800, 1822348800, 1825027200, 1827619200, 1830297600]"

definition MONTH_LABEL :: "jsstring list" where
  "MONTH_LABEL = [js ''2027-01'', js ''2027-02'', js ''2027-03'', js ''2027-04'', js ''2027-05'', js ''2027-06'',
     js ''2027-07'', js ''2027-08'', js ''2027-09'', js ''2027-10'', js ''2027-11'', js ''2027-12'']"

definition fill_day :: "nat \<times> nat list \<Rightarrow> nat \<Rightarrow> nat \<times> nat list" where
  "fill_day acc d = (case acc of (m, days) \<Rightarrow>
     (let m' = (if YEAR_START + int d * 86400 \<ge> MONTH_START ! (m + 1) then m + 1 else m)
      in (m', days @ [m'])))"

definition MONTH_BY_DAY :: "nat list" where
  "MONTH_BY_DAY = snd (foldl fill_day (0, []) [0..<365])"

section \<open>Strings\<close>

text \<open>\<open>charCodeAt\<close> behind the end is NaN, which is \<open>None\<close>.\<close>

definition char_code :: "jsstring \<Rightarrow> nat \<Rightarrow> int option" where
  "char_code s i = (if i < length s then Some (int (unat (s ! i))) else None)"

definition timestamp10 :: "jsstring \<Rightarrow> int option" where
  "timestamp10 line =
     foldl (\<lambda>x i. case (x, char_code line i) of (Some x, Some c) \<Rightarrow> Some (x * 10 + c - 48) | _ \<Rightarrow> None)
       (map_option (\<lambda>c. c - 48) (char_code line 0)) [1..<10]"

definition clamp :: "jsstring \<Rightarrow> int \<Rightarrow> nat" where
  "clamp s i = nat (min (int (length s)) (if i < 0 then max 0 (int (length s) + i) else i))"

definition slice :: "jsstring \<Rightarrow> int \<Rightarrow> int \<Rightarrow> jsstring" where
  "slice s a b = take (clamp s b - clamp s a) (drop (clamp s a) s)"

definition slice_from :: "jsstring \<Rightarrow> int \<Rightarrow> jsstring" where
  "slice_from s a = drop (clamp s a) s"

definition index_from :: "jsstring \<Rightarrow> code_unit \<Rightarrow> int \<Rightarrow> int" where
  "index_from s c a =
     (let k = min (length s) (nat a) in
      case position c (drop k s) of None \<Rightarrow> -1 | Some i \<Rightarrow> int (k + i))"

section \<open>The store\<close>

text \<open>A \<open>Float64Array\<close>.  Reading outside it is undefined, which is NaN in every operation the program
  applies to it; writing outside has no effect.\<close>

record float_array =
  cell :: "nat \<Rightarrow> number"
  cell_count :: nat

definition cell_at :: "float_array \<Rightarrow> nat \<Rightarrow> number" where
  "cell_at a i = (if i < cell_count a then cell a i else NaN)"

definition set_cell :: "nat \<Rightarrow> number \<Rightarrow> float_array \<Rightarrow> float_array" where
  "set_cell i v a = (if i < cell_count a then a\<lparr>cell := (cell a)(i := v)\<rparr> else a)"

definition new_array :: "nat \<Rightarrow> float_array" where
  "new_array n = \<lparr>cell = (\<lambda>i. Fin 0), cell_count = n\<rparr>"

record store =
  ids :: "(jsstring, nat) js_map"
  store_keys :: "jsstring list"
  stats :: float_array
  store_size :: nat

definition makeStore :: store where
  "makeStore = \<lparr>ids = map_new, store_keys = [], stats = new_array (1024 * 60), store_size = 0\<rparr>"

definition grow :: "float_array \<Rightarrow> float_array" where
  "grow a = \<lparr>cell = (\<lambda>i. if i < cell_count a then cell a i else Fin 0), cell_count = cell_count a * 2\<rparr>"

definition ensure :: "store \<Rightarrow> store" where
  "ensure st = (if store_size st * 60 < cell_count (stats st) then st else st\<lparr>stats := grow (stats st)\<rparr>)"

text \<open>The identifier of a channel, a new one when the channel is new.\<close>

definition store_id :: "jsstring \<Rightarrow> store \<Rightarrow> nat \<times> store" where
  "store_id channel st =
     (case map_get (ids st) channel of
        Some i \<Rightarrow> (i, st)
      | None \<Rightarrow>
          (let i = store_size st; st = ensure (st\<lparr>store_size := i + 1\<rparr>)
           in (i, st\<lparr>ids := map_set channel i (ids st), store_keys := store_keys st @ [channel]\<rparr>)))"

definition record_message :: "nat \<Rightarrow> number \<Rightarrow> number \<Rightarrow> float_array \<Rightarrow> float_array" where
  "record_message p ml stamps st =
     (if cell_at st (p + 3) = Fin 0
      then set_cell (p + 4) stamps (set_cell (p + 3) (Fin 1) (set_cell (p + 2) ml (set_cell (p + 1) ml (set_cell p ml st))))
      else (let st = (if num_less ml (cell_at st p) then set_cell p ml st else st);
                st = (if num_less (cell_at st (p + 2)) ml then set_cell (p + 2) ml st else st);
                st = set_cell (p + 1) (num_add (cell_at st (p + 1)) ml) st;
                st = set_cell (p + 3) (num_add (cell_at st (p + 3)) (Fin 1)) st
            in set_cell (p + 4) (num_add (cell_at st (p + 4)) stamps) st))"

text \<open>The month of a day outside the table is undefined, and then so is every index: nothing is read or
  written.\<close>

definition month_of_time :: "int option \<Rightarrow> nat option" where
  "month_of_time ts = (case ts of
      None \<Rightarrow> None
    | Some t \<Rightarrow> (let d = (t - YEAR_START) div 86400 in
        if 0 \<le> d \<and> d < 365 then Some (MONTH_BY_DAY ! nat d) else None))"

definition processLine :: "store \<Rightarrow> jsstring \<Rightarrow> store" where
  "processLine st line =
     (if line = [] then st
      else
        (let month = month_of_time (timestamp10 line);
             c1 = index_from line 44 11; c2 = index_from line 44 (c1 + 1);
             channel = slice line 11 c1;
             (i, st) = store_id channel st;
             ml = string_to_number (slice line (c1 + 1) c2);
             stamps = string_to_number (slice_from line (c2 + 1))
         in case month of
              None \<Rightarrow> st
            | Some m \<Rightarrow> st\<lparr>stats := record_message (i * 60 + m * 5) ml stamps (stats st)\<rparr>))"

section \<open>A range of the file\<close>

definition ascii :: "byte list \<Rightarrow> jsstring" where
  "ascii bs = map (\<lambda>b. of_nat (unat b mod 128)) bs"

text \<open>A read gives at least one byte before the end of the file, and never more than it was asked for; in
  between, the operating system decides.  The first argument is the number of bytes it is ready to give,
  so a short read is one with a small number.\<close>

definition read_bytes :: "nat \<Rightarrow> byte list \<Rightarrow> nat \<Rightarrow> nat \<Rightarrow> byte list" where
  "read_bytes given content pos want = take (min want (max 1 given)) (drop pos content)"

text \<open>What is given to every read of a run: to the one of the header, to the reads of the search for
  the end of the \<open>i\<close>-th range and to those of the analysis of a range, the last two by their position.\<close>

record readings =
  header_given :: nat
  search_given :: "nat \<Rightarrow> nat \<Rightarrow> nat"
  range_given :: "nat \<times> nat \<Rightarrow> nat \<Rightarrow> nat"

definition range_buffer :: nat where
  "range_buffer = 8388608"

function read_range :: "(nat \<Rightarrow> nat) \<Rightarrow> byte list \<Rightarrow> nat \<Rightarrow> nat \<Rightarrow> jsstring \<Rightarrow> store \<Rightarrow> jsstring \<times> store" where
  "read_range given content pos stop carry st =
     (if pos < stop then
        (let text = read_bytes (given pos) content pos (min range_buffer (stop - pos)) in
         if text = [] then (carry, st)
         else (let parts = split_on 10 (carry @ ascii text)
               in read_range given content (pos + length text) stop (last parts) (foldl processLine st (butlast parts))))
      else (carry, st))"
  by pat_completeness auto

termination read_range
  by (relation "measure (\<lambda>(given, content, pos, stop, carry, st). stop - pos)") (auto simp: length_greater_0_conv [symmetric] simp del: length_greater_0_conv)

declare read_range.simps [simp del]

record range_result =
  result_keys :: "jsstring list"
  result_stats :: float_array

definition analyzeRange :: "readings \<Rightarrow> byte list \<Rightarrow> nat \<times> nat \<Rightarrow> range_result" where
  "analyzeRange reads content r =
     (let (carry, st) = read_range (range_given reads r) content (fst r) (snd r) [] makeStore;
          st = (if carry \<noteq> [] then processLine st carry else st)
      in \<lparr>result_keys = store_keys st,
          result_stats = (stats st)\<lparr>cell_count := min (cell_count (stats st)) (store_size st * 60)\<rparr>\<rparr>)"

section \<open>Merging\<close>

definition merge_month :: "float_array \<Rightarrow> nat \<Rightarrow> nat \<Rightarrow> float_array \<Rightarrow> nat \<Rightarrow> float_array" where
  "merge_month src si di st m =
     (let sp = si + m * 5; dp = di + m * 5 in
      if cell_at src (sp + 3) = Fin 0 then st
      else if cell_at st (dp + 3) = Fin 0
      then foldl (\<lambda>st j. set_cell (dp + j) (cell_at src (sp + j)) st) st [0..<5]
      else (let st = (if num_less (cell_at src sp) (cell_at st dp) then set_cell dp (cell_at src sp) st else st);
                st = (if num_less (cell_at st (dp + 2)) (cell_at src (sp + 2))
                      then set_cell (dp + 2) (cell_at src (sp + 2)) st else st);
                st = set_cell (dp + 1) (num_add (cell_at st (dp + 1)) (cell_at src (sp + 1))) st;
                st = set_cell (dp + 3) (num_add (cell_at st (dp + 3)) (cell_at src (sp + 3))) st
            in set_cell (dp + 4) (num_add (cell_at st (dp + 4)) (cell_at src (sp + 4))) st))"

definition merge_key :: "range_result \<Rightarrow> store \<Rightarrow> nat \<Rightarrow> store" where
  "merge_key result all i =
     (let (k, all) = store_id (result_keys result ! i) all
      in all\<lparr>stats := foldl (merge_month (result_stats result) (i * 60) (k * 60)) (stats all) [0..<12]\<rparr>)"

definition mergeResult :: "store \<Rightarrow> range_result \<Rightarrow> store" where
  "mergeResult all result = foldl (merge_key result) all [0..<length (result_keys result)]"

section \<open>Printing\<close>

definition format_mean :: "number \<Rightarrow> jsstring" where
  "format_mean value =
     (let bits = f64_bits value;
          eb = drop_bit 52 bits AND 0x7ff;
          fraction = bits AND (push_bit 52 1 - 1);
          (mantissa, exponent) = (if eb = 0 then (fraction, -1074) else (push_bit 52 1 OR fraction, eb - 1075));
          scaled = mantissa * 100;
          cents = (if 0 \<le> exponent then push_bit (nat exponent) scaled
            else (let denominator = push_bit (nat (- exponent)) 1;
                      cents = scaled div denominator;
                      remainder = scaled mod denominator;
                      twice = remainder * 2
                  in if twice > denominator \<or> (twice = denominator \<and> cents mod 2 = 1) then cents + 1 else cents))
      in int_to_string (cents div 100) @ js ''.'' @ pad_start 2 48 (int_to_string (cents mod 100)))"

definition output_line :: "float_array \<Rightarrow> jsstring \<Rightarrow> nat \<Rightarrow> nat \<Rightarrow> jsstring" where
  "output_line s key p m =
     key @ js '','' @ MONTH_LABEL ! m @ js ''='' @ number_to_string (cell_at s p) @ js ''/'' @
     format_mean (num_div (cell_at s (p + 1)) (cell_at s (p + 3))) @ js ''/'' @
     number_to_string (cell_at s (p + 2)) @ js ''/'' @ number_to_string (cell_at s (p + 3)) @ js ''/'' @
     number_to_string (cell_at s (p + 4)) @ [10]"

definition write_buffer :: nat where
  "write_buffer = 4194304"

text \<open>The state is what has been written, one string per call, and the pending output.\<close>

definition write_month :: "store \<Rightarrow> nat \<Rightarrow> jsstring list \<times> jsstring \<Rightarrow> nat \<Rightarrow> jsstring list \<times> jsstring" where
  "write_month all k acc m = (case acc of (written, pending) \<Rightarrow>
     (let p = k * 60 + m * 5 in
      if cell_at (stats all) (p + 3) = Fin 0 then (written, pending)
      else (let pending = pending @ output_line (stats all) (store_keys all ! k) p m in
            if write_buffer \<le> length pending then (written @ [pending], []) else (written, pending))))"

definition write_results :: "store \<Rightarrow> jsstring list" where
  "write_results all =
     (let order = sort_cmp (\<lambda>a b. compare_strings (store_keys all ! a) (store_keys all ! b)) [0..<store_size all];
          (written, pending) = foldl (\<lambda>acc k. foldl (write_month all k) acc [0..<12]) ([], []) order
      in if pending \<noteq> [] then written @ [pending] else written)"

section \<open>The program\<close>

definition newline_buffer :: nat where
  "newline_buffer = 1048576"

text \<open>The buffer keeps what an earlier read left behind the bytes of a short one, and the search runs
  over all of it.\<close>

function findNewline :: "(nat \<Rightarrow> nat) \<Rightarrow> byte list \<Rightarrow> byte list \<Rightarrow> nat \<Rightarrow> nat \<Rightarrow> nat" where
  "findNewline given content b pos stop =
     (if pos < stop then
        (let text = read_bytes (given pos) content pos (min (length b) (stop - pos));
             b' = text @ drop (length text) b
         in case position 10 b' of
              Some i \<Rightarrow> pos + i + 1
            | None \<Rightarrow> if text = [] then stop else findNewline given content b' (pos + length text) stop)
      else stop)"
  by pat_completeness auto

termination findNewline
  by (relation "measure (\<lambda>(given, content, b, pos, stop). stop - pos)") (auto simp: length_greater_0_conv [symmetric] simp del: length_greater_0_conv)

declare findNewline.simps [simp del]

record optimized_options =
  in_path :: jsstring
  out_path :: jsstring
  threads :: number
  profile :: bool

datatype optimized_error = Unknown_option jsstring | Options_required | Unsupported_header

text \<open>A missing value is undefined: for a path it counts as empty, as a number it is NaN.\<close>

fun parse_options :: "optimized_options \<Rightarrow> jsstring list \<Rightarrow> optimized_error + optimized_options" where
  "parse_options opts [] = Inr opts"
| "parse_options opts (a # rest) =
     (if a \<in> {js ''-i'', js ''--input''} then
        (case rest of [] \<Rightarrow> Inr (opts\<lparr>in_path := []\<rparr>) | b # r \<Rightarrow> parse_options (opts\<lparr>in_path := b\<rparr>) r)
      else if a \<in> {js ''-o'', js ''--output''} then
        (case rest of [] \<Rightarrow> Inr (opts\<lparr>out_path := []\<rparr>) | b # r \<Rightarrow> parse_options (opts\<lparr>out_path := b\<rparr>) r)
      else if a \<in> {js ''-t'', js ''--threads''} then
        (case rest of [] \<Rightarrow> Inr (opts\<lparr>threads := NaN\<rparr>)
         | b # r \<Rightarrow> parse_options (opts\<lparr>threads := string_to_number b\<rparr>) r)
      else if a = js ''--profile'' then parse_options (opts\<lparr>profile := True\<rparr>) rest
      else Inl (Unknown_option a))"

definition is_positive_integer :: "number \<Rightarrow> bool" where
  "is_positive_integer n = (case n of Fin r \<Rightarrow> of_int \<lfloor>r\<rfloor> = r \<and> 1 \<le> r | _ \<Rightarrow> False)"

definition parse_args :: "nat \<Rightarrow> jsstring list \<Rightarrow> optimized_error + optimized_options" where
  "parse_args cpus args =
     (if length args = 2 \<and> \<not> starts_with (args ! 0) (js ''-'') \<and> \<not> starts_with (args ! 1) (js ''-'')
      then Inr \<lparr>in_path = args ! 0, out_path = args ! 1, threads = of_integer (int cpus), profile = False\<rparr>
      else
        (case parse_options \<lparr>in_path = [], out_path = [], threads = of_integer (int cpus), profile = False\<rparr> args of
           Inl e \<Rightarrow> Inl e
         | Inr o' \<Rightarrow> if in_path o' = [] \<or> \<not> is_positive_integer (threads o') then Inl Options_required else Inr o'))"

definition csv_header :: "byte list" where
  "csv_header = map of_char ''unix_timestamp,channel_path,message_length,stamp_count'' @ [10]"

definition number_floor :: "number \<Rightarrow> int" where
  "number_floor n = (case n of Fin r \<Rightarrow> \<lfloor>r\<rfloor> | _ \<Rightarrow> 0)"

definition split_point :: "nat \<Rightarrow> nat \<Rightarrow> number \<Rightarrow> nat \<Rightarrow> nat" where
  "split_point first bytes n i =
     first + nat (number_floor (num_div (num_mul (of_integer (int (bytes - first))) (of_integer (int i + 1))) n))"

definition thread_count :: "number \<Rightarrow> nat" where
  "thread_count n = nat (number_floor n)"

definition next_range ::
    "readings \<Rightarrow> byte list \<Rightarrow> (nat \<Rightarrow> byte list) \<Rightarrow> nat \<Rightarrow> number \<Rightarrow> nat \<times> (nat \<times> nat) list \<Rightarrow> nat \<Rightarrow> nat \<times> (nat \<times> nat) list"
where
  "next_range reads content unfilled first n acc i = (case acc of (start, ranges) \<Rightarrow>
     (let stop = (if i + 1 = thread_count n then length content
                  else findNewline (search_given reads i) content (unfilled i) (split_point first (length content) n i) (length content))
      in (stop, ranges @ [(start, stop)])))"

definition ranges_of :: "readings \<Rightarrow> byte list \<Rightarrow> (nat \<Rightarrow> byte list) \<Rightarrow> nat \<Rightarrow> number \<Rightarrow> (nat \<times> nat) list" where
  "ranges_of reads content unfilled first n =
     snd (foldl (next_range reads content unfilled first n) (first, []) [0..<thread_count n])"

text \<open>The header is read with one call into a buffer of zeros and compared as a whole.\<close>

definition header_check :: "nat \<Rightarrow> byte list \<Rightarrow> byte list" where
  "header_check given content =
     (let text = read_bytes given content 0 (length csv_header)
      in text @ drop (length text) (replicate (length csv_header) 0))"

text \<open>The result is the output path (\<open>[]\<close> for standard output) and the strings written to it.\<close>

definition optimized_main ::
    "nat \<Rightarrow> readings \<Rightarrow> (nat \<Rightarrow> byte list) \<Rightarrow> (jsstring \<Rightarrow> byte list) \<Rightarrow> jsstring list \<Rightarrow>
     optimized_error + (jsstring \<times> jsstring list)" where
  "optimized_main cpus reads unfilled read args =
     (case parse_args cpus args of
        Inl e \<Rightarrow> Inl e
      | Inr o' \<Rightarrow>
          (let content = read (in_path o') in
           if header_check (header_given reads) content \<noteq> csv_header then Inl Unsupported_header
           else (let results = map (analyzeRange reads content) (ranges_of reads content unfilled (length csv_header) (threads o'))
                 in Inr (out_path o', write_results (foldl mergeResult makeStore results)))))"

end
