(* ===== verification/Js_Regex.thy ===== *)
theory Js_Regex
  imports Js_Prelude
begin

text \<open>
  Anchored regular expressions \<open>/^...$/\<close>.  The source's patterns are written as data of
  type \<open>regex\<close>; \<open>regex_test\<close> runs one by derivatives and \<open>lang\<close> is the set of strings it
  stands for.  The lemmas at the end turn the patterns of the source into statements about
  lengths and classes of code units.
\<close>

datatype regex =
    Cls "(code_unit \<times> code_unit) list"
  | Eps
  | Seq regex regex
  | Alt regex regex
  | Star regex

definition in_ranges :: "code_unit \<Rightarrow> (code_unit \<times> code_unit) list \<Rightarrow> bool" where
  "in_ranges c rs \<longleftrightarrow> list_ex (\<lambda>(lo, hi). lo \<le> c \<and> c \<le> hi) rs"

fun nullable :: "regex \<Rightarrow> bool" where
  "nullable (Cls rs) = False"
| "nullable Eps = True"
| "nullable (Seq a b) = (nullable a \<and> nullable b)"
| "nullable (Alt a b) = (nullable a \<or> nullable b)"
| "nullable (Star a) = True"

definition mk_seq :: "regex \<Rightarrow> regex \<Rightarrow> regex" where
  "mk_seq a b = (if a = Cls [] then Cls [] else if a = Eps then b else Seq a b)"

definition mk_alt :: "regex \<Rightarrow> regex \<Rightarrow> regex" where
  "mk_alt a b = (if a = Cls [] then b else if b = Cls [] then a else Alt a b)"

fun deriv :: "code_unit \<Rightarrow> regex \<Rightarrow> regex" where
  "deriv c (Cls rs) = (if in_ranges c rs then Eps else Cls [])"
| "deriv c Eps = Cls []"
| "deriv c (Seq a b) =
     (if nullable a then mk_alt (mk_seq (deriv c a) b) (deriv c b) else mk_seq (deriv c a) b)"
| "deriv c (Alt a b) = mk_alt (deriv c a) (deriv c b)"
| "deriv c (Star a) = mk_seq (deriv c a) (Star a)"

fun regex_test :: "regex \<Rightarrow> jsstring \<Rightarrow> bool" where
  "regex_test r [] = nullable r"
| "regex_test r (c # s) = regex_test (deriv c r) s"

section \<open>The language of a pattern\<close>

inductive_set star_lang :: "jsstring set \<Rightarrow> jsstring set" for A where
  star_Nil: "[] \<in> star_lang A"
| star_step: "u \<in> A \<Longrightarrow> v \<in> star_lang A \<Longrightarrow> u @ v \<in> star_lang A"

fun lang :: "regex \<Rightarrow> jsstring set" where
  "lang (Cls rs) = {[c] | c. in_ranges c rs}"
| "lang Eps = {[]}"
| "lang (Seq a b) = {u @ v | u v. u \<in> lang a \<and> v \<in> lang b}"
| "lang (Alt a b) = lang a \<union> lang b"
| "lang (Star a) = star_lang (lang a)"

lemma in_ranges_Nil [simp]: "\<not> in_ranges c []"
  by (simp add: in_ranges_def)

lemma nullable_lang: "nullable r \<longleftrightarrow> [] \<in> lang r"
  by (induction r) (auto intro: star_Nil)

lemma lang_mk_seq [simp]: "lang (mk_seq a b) = lang (Seq a b)"
  by (auto simp: mk_seq_def)

lemma lang_mk_alt [simp]: "lang (mk_alt a b) = lang (Alt a b)"
  by (auto simp: mk_alt_def)

lemma star_lang_Cons:
  "c # s \<in> star_lang A \<longleftrightarrow> (\<exists>u v. s = u @ v \<and> c # u \<in> A \<and> v \<in> star_lang A)"
proof
  have "t \<in> star_lang A \<Longrightarrow> t = c # s \<Longrightarrow> \<exists>u v. s = u @ v \<and> c # u \<in> A \<and> v \<in> star_lang A" for t
  proof (induction rule: star_lang.induct)
    case (star_step u v)
    then show ?case by (cases u) auto
  qed simp
  then show "c # s \<in> star_lang A \<Longrightarrow> \<exists>u v. s = u @ v \<and> c # u \<in> A \<and> v \<in> star_lang A"
    by blast
next
  assume "\<exists>u v. s = u @ v \<and> c # u \<in> A \<and> v \<in> star_lang A"
  then show "c # s \<in> star_lang A"
    using star_step by fastforce
qed

lemma lang_deriv: "s \<in> lang (deriv c r) \<longleftrightarrow> c # s \<in> lang r"
proof (induction r arbitrary: s)
  case (Seq a b)
  then show ?case
    by (auto simp: nullable_lang Cons_eq_append_conv)
next
  case (Star a)
  then show ?case by (auto simp: star_lang_Cons)
qed auto

lemma regex_test_lang: "regex_test r s \<longleftrightarrow> s \<in> lang r"
  by (induction s arbitrary: r) (simp_all add: nullable_lang lang_deriv)

section \<open>Derived patterns\<close>

definition one_or_more :: "regex \<Rightarrow> regex" where
  "one_or_more r = Seq r (Star r)"

fun exactly :: "nat \<Rightarrow> regex \<Rightarrow> regex" where
  "exactly 0 r = Eps"
| "exactly (Suc n) r = Seq r (exactly n r)"

fun at_most :: "nat \<Rightarrow> regex \<Rightarrow> regex" where
  "at_most 0 r = Eps"
| "at_most (Suc n) r = Alt Eps (Seq r (at_most n r))"

fun literal :: "jsstring \<Rightarrow> regex" where
  "literal [] = Eps"
| "literal (c # s) = Seq (Cls [(c, c)]) (literal s)"

definition digit_class :: "(code_unit \<times> code_unit) list" where
  "digit_class = [(48, 57)]"

lemma in_digit_class [simp]: "in_ranges c digit_class \<longleftrightarrow> is_digit c"
  by (simp add: in_ranges_def digit_class_def is_digit_def)

lemma lang_Seq_Cls:
  "s \<in> lang (Seq (Cls rs) r) \<longleftrightarrow> s \<noteq> [] \<and> in_ranges (hd s) rs \<and> tl s \<in> lang r"
proof (cases s)
  case (Cons c t)
  have "c # t \<in> lang (Seq (Cls rs) r) \<longleftrightarrow> in_ranges c rs \<and> t \<in> lang r"
  proof
    assume "in_ranges c rs \<and> t \<in> lang r"
    then have "[c] \<in> lang (Cls rs)" "t \<in> lang r" "c # t = [c] @ t" by auto
    then show "c # t \<in> lang (Seq (Cls rs) r)" unfolding lang.simps(3) by blast
  qed auto
  with Cons show ?thesis by simp
qed auto

lemma in_lang_literal [simp]: "s \<in> lang (literal l) \<longleftrightarrow> s = l"
proof (induction l arbitrary: s)
  case (Cons c l)
  have "s \<in> lang (literal (c # l)) \<longleftrightarrow> s \<noteq> [] \<and> in_ranges (hd s) [(c, c)] \<and> tl s = l"
    by (simp only: literal.simps lang_Seq_Cls Cons)
  then show ?case by (cases s) (auto simp: in_ranges_def)
qed simp

lemma star_lang_Cls: "s \<in> star_lang (lang (Cls rs)) \<longleftrightarrow> list_all (\<lambda>c. in_ranges c rs) s"
proof (induction s)
  case (Cons c s)
  then show ?case by (simp add: star_lang_Cons)
qed (simp add: star_Nil)

lemma in_lang_star_Cls [simp]: "s \<in> lang (Star (Cls rs)) \<longleftrightarrow> list_all (\<lambda>c. in_ranges c rs) s"
  by (simp only: lang.simps(5) star_lang_Cls)

lemma in_lang_one_or_more [simp]:
  "s \<in> lang (one_or_more (Cls rs)) \<longleftrightarrow> s \<noteq> [] \<and> list_all (\<lambda>c. in_ranges c rs) s"
  unfolding one_or_more_def lang_Seq_Cls in_lang_star_Cls by (cases s) auto

lemma in_lang_exactly [simp]:
  "s \<in> lang (exactly n (Cls rs)) \<longleftrightarrow> length s = n \<and> list_all (\<lambda>c. in_ranges c rs) s"
proof (induction n arbitrary: s)
  case (Suc n)
  show ?case unfolding exactly.simps lang_Seq_Cls Suc by (cases s) auto
qed auto

lemma in_lang_at_most [simp]:
  "s \<in> lang (at_most n (Cls rs)) \<longleftrightarrow> length s \<le> n \<and> list_all (\<lambda>c. in_ranges c rs) s"
proof (induction n arbitrary: s)
  case (Suc n)
  have "s \<in> lang (at_most (Suc n) (Cls rs)) \<longleftrightarrow> s = [] \<or> s \<in> lang (Seq (Cls rs) (at_most n (Cls rs)))"
    by (simp only: at_most.simps lang.simps(4) Un_iff) simp
  then show ?case unfolding lang_Seq_Cls Suc by (cases s) auto
qed auto

lemma in_lang_Seq: "s \<in> lang (Seq a b) \<longleftrightarrow> (\<exists>u v. s = u @ v \<and> u \<in> lang a \<and> v \<in> lang b)"
  by auto

lemmas in_lang_classes = in_lang_literal in_lang_one_or_more in_lang_exactly in_lang_at_most

text \<open>\<open>/^\d+$/\<close>, the pattern of every decimal string of the result protocol.\<close>

definition digits_regex :: regex where
  "digits_regex = one_or_more (Cls digit_class)"

lemma digits_regex_iff [simp]: "regex_test digits_regex s \<longleftrightarrow> all_digits s"
  by (simp add: regex_test_lang digits_regex_def all_digits_def)

section \<open>The characters of a pattern\<close>

fun over :: "(code_unit \<Rightarrow> bool) \<Rightarrow> regex \<Rightarrow> bool" where
  "over P (Cls rs) = (\<forall>c. in_ranges c rs \<longrightarrow> P c)"
| "over P Eps = True"
| "over P (Seq a b) = (over P a \<and> over P b)"
| "over P (Alt a b) = (over P a \<and> over P b)"
| "over P (Star a) = over P a"

lemma over_star: "s \<in> star_lang A \<Longrightarrow> (\<And>u. u \<in> A \<Longrightarrow> list_all P u) \<Longrightarrow> list_all P s"
  by (induction rule: star_lang.induct) simp_all

lemma over_lang: "over P r \<Longrightarrow> s \<in> lang r \<Longrightarrow> list_all P s"
  by (induction r arbitrary: s) (auto dest: over_star)

lemma over_exactly [simp]: "over P (exactly n r) \<longleftrightarrow> n = 0 \<or> over P r"
  by (induction n) auto

lemma in_ranges_singleton: "in_ranges c [(a, a)] \<longleftrightarrow> c = a"
  by (auto simp: in_ranges_def)

lemma over_literal [simp]: "over P (literal l) \<longleftrightarrow> list_all P l"
  by (induction l) (simp_all add: in_ranges_singleton)

end
