(* ===== verification/Js_Date.thy ===== *)
theory Js_Date
  imports Js_Regex
begin

text \<open>
  The calendar and the date strings of JavaScript.  A time value is the number of milliseconds
  since 1970 in UTC, \<open>None\<close> is an invalid date.  \<open>date_parse\<close> reads the ISO format with
  offset \<open>Z\<close>, which is what the API sends; every other string is left to a parameter, since the
  language leaves it to the implementation (or to the local time zone).
\<close>

section \<open>The calendar\<close>

definition leap_year :: "nat \<Rightarrow> bool" where
  "leap_year y \<longleftrightarrow> y mod 4 = 0 \<and> (y mod 100 \<noteq> 0 \<or> y mod 400 = 0)"

definition month_lengths :: "nat \<Rightarrow> nat list" where
  "month_lengths y = [31, if leap_year y then 29 else 28, 31, 30, 31, 30, 31, 31, 30, 31, 30, 31]"

definition unix_of_month :: "nat \<Rightarrow> nat \<Rightarrow> nat" where
  "unix_of_month y m =
     86400 * (sum_list (map (\<lambda>k. sum_list (month_lengths k)) [1970..<y])
              + sum_list (take (m - 1) (month_lengths y)))"

text \<open>Days from the first of January of year 0 to that of year \<open>y\<close>.\<close>

definition days_before_year :: "nat \<Rightarrow> nat" where
  "days_before_year y = 365 * y + (y + 3) div 4 - (y + 99) div 100 + (y + 399) div 400"

lemma year_length: "sum_list (month_lengths y) = (if leap_year y then 366 else 365)"
  by (simp add: month_lengths_def)

lemma div_step: "0 < k \<Longrightarrow> (y + k) div k = (y + (k - 1)) div k + (if y mod k = 0 then 1 else (0 :: nat))"
proof -
  assume k: "0 < k"
  have y: "y = k * (y div k) + y mod k" by simp
  show ?thesis
  proof (cases "y mod k = 0")
    case True
    then have "y + (k - 1) = (k - 1) + (y div k) * k" using y by (simp add: mult.commute)
    then have "(y + (k - 1)) div k = ((k - 1) + (y div k) * k) div k" by (rule arg_cong)
    also have "\<dots> = y div k" using k by (subst div_mult_self1) simp_all
    finally have "(y + (k - 1)) div k = y div k" .
    then show ?thesis using True k by (simp add: div_add_self2)
  next
    case False
    have "y + (k - 1) = (y mod k - 1) + (y div k + 1) * k"
    proof -
      have "(y div k + 1) * k = k * (y div k) + k" by simp
      then show ?thesis using y False k by linarith
    qed
    moreover have "(y mod k - 1) div k = 0"
      using mod_less_divisor [OF k, of y] by (intro div_less) linarith
    ultimately have "(y + (k - 1)) div k = y div k + 1" using k
      by (metis Nat.add_0_right add.commute div_mult_self1 less_not_refl2)
    then show ?thesis using False k by (simp add: div_add_self2)
  qed
qed

lemma leap_year_steps:
  "(if y mod 4 = 0 then 1 else 0) + (if y mod 400 = 0 then 1 else 0) =
   (if y mod 100 = 0 then 1 else 0) + (if leap_year y then 1 else (0 :: nat))"
proof -
  have "y mod 400 = 0 \<Longrightarrow> y mod 100 = 0" "y mod 100 = 0 \<Longrightarrow> y mod 4 = 0"
    by presburger+
  then show ?thesis by (cases "y mod 400 = 0"; cases "y mod 100 = 0"; cases "y mod 4 = 0") (simp_all add: leap_year_def)
qed

lemma days_before_year_Suc: "days_before_year (Suc y) = days_before_year y + sum_list (month_lengths y)"
proof -
  define a b c where "a = (y + 3) div 4" and "b = (y + 99) div 100" and "c = (y + 399) div 400"
  have steps: "(Suc y + 3) div 4 = a + (if y mod 4 = 0 then 1 else 0)"
    "(Suc y + 99) div 100 = b + (if y mod 100 = 0 then 1 else 0)"
    "(Suc y + 399) div 400 = c + (if y mod 400 = 0 then 1 else 0)"
    using div_step [of 4 y] div_step [of 100 y] div_step [of 400 y]
    by (simp_all only: a_def b_def c_def) (simp_all add: add.commute)
  have "b \<le> 365 * y" by (cases "y = 0") (auto simp: b_def)
  then show ?thesis
    using leap_year_steps [of y]
    unfolding days_before_year_def steps year_length a_def [symmetric] b_def [symmetric] c_def [symmetric]
    by (simp split: if_splits)
qed

lemma days_before_year_sum: "y0 \<le> y \<Longrightarrow>
  days_before_year y = days_before_year y0 + sum_list (map (\<lambda>k. sum_list (month_lengths k)) [y0..<y])"
  by (induction y rule: dec_induct) (simp_all add: days_before_year_Suc)

definition days_from_epoch :: "nat \<Rightarrow> nat \<Rightarrow> nat \<Rightarrow> int" where
  "days_from_epoch y m d = int (days_before_year y) - int (days_before_year 1970)
     + int (sum_list (take (m - 1) (month_lengths y))) + int d - 1"

record utc_fields =
  utc_year :: nat
  utc_month_number :: nat
  utc_day :: nat
  utc_hour :: nat
  utc_minute :: nat
  utc_second :: nat
  utc_millisecond :: nat

definition valid_fields :: "utc_fields \<Rightarrow> bool" where
  "valid_fields f \<longleftrightarrow> utc_year f < 10000 \<and> 1 \<le> utc_month_number f \<and> utc_month_number f \<le> 12
     \<and> 1 \<le> utc_day f \<and> utc_day f \<le> month_lengths (utc_year f) ! (utc_month_number f - 1)
     \<and> utc_hour f < 24 \<and> utc_minute f < 60 \<and> utc_second f < 60 \<and> utc_millisecond f < 1000"

definition utc_ms :: "utc_fields \<Rightarrow> int" where
  "utc_ms f = (((days_from_epoch (utc_year f) (utc_month_number f) (utc_day f) * 24 + int (utc_hour f)) * 60
     + int (utc_minute f)) * 60 + int (utc_second f)) * 1000 + int (utc_millisecond f)"

lemma unix_of_month_utc_ms:
  "1970 \<le> y \<Longrightarrow> 1000 * int (unix_of_month y m) =
    utc_ms \<lparr>utc_year = y, utc_month_number = m, utc_day = 1, utc_hour = 0, utc_minute = 0, utc_second = 0,
      utc_millisecond = 0\<rparr>"
  using days_before_year_sum [of 1970 y]
  by (simp add: unix_of_month_def utc_ms_def days_from_epoch_def)

section \<open>Date strings\<close>

text \<open>\<open>YYYY-MM-DDTHH:mm:ssZ\<close> and \<open>YYYY-MM-DDTHH:mm:ss.sssZ\<close>\<close>

definition iso_regex :: regex where
  "iso_regex =
     (let d = (\<lambda>n. exactly n (Cls digit_class)); t = (\<lambda>s. literal (js s)) in
      Seq (d 4) (Seq (t ''-'') (Seq (d 2) (Seq (t ''-'') (Seq (d 2) (Seq (t ''T'')
     (Seq (d 2) (Seq (t '':'') (Seq (d 2) (Seq (t '':'') (Seq (d 2)
     (Seq (Alt Eps (Seq (t ''.'') (d 3))) (t ''Z'')))))))))))))"

definition field_at :: "jsstring \<Rightarrow> nat \<Rightarrow> nat \<Rightarrow> nat" where
  "field_at s i n = digits_value (take n (drop i s))"

definition iso_fields :: "jsstring \<Rightarrow> utc_fields" where
  "iso_fields s = \<lparr>utc_year = field_at s 0 4, utc_month_number = field_at s 5 2, utc_day = field_at s 8 2,
     utc_hour = field_at s 11 2, utc_minute = field_at s 14 2, utc_second = field_at s 17 2,
     utc_millisecond = (if length s = 24 then field_at s 20 3 else 0)\<rparr>"

definition date_parse :: "(jsstring \<Rightarrow> int option) \<Rightarrow> jsstring \<Rightarrow> int option" where
  "date_parse other s =
     (if regex_test iso_regex s \<and> valid_fields (iso_fields s) then Some (utc_ms (iso_fields s)) else other s)"

definition digits_n :: "nat \<Rightarrow> nat \<Rightarrow> jsstring" where
  "digits_n k n = pad_start k 48 (nat_to_string n)"

text \<open>\<open>Date.prototype.toISOString\<close> for the years 0 to 9999.\<close>

definition iso_string :: "utc_fields \<Rightarrow> jsstring" where
  "iso_string f = digits_n 4 (utc_year f) @ js ''-'' @ digits_n 2 (utc_month_number f) @ js ''-''
     @ digits_n 2 (utc_day f) @ js ''T'' @ digits_n 2 (utc_hour f) @ js '':'' @ digits_n 2 (utc_minute f) @ js '':''
     @ digits_n 2 (utc_second f) @ (js ''.'' @ digits_n 3 (utc_millisecond f)) @ js ''Z''"

lemma length_nat_to_string_le: "n < 10 ^ k \<Longrightarrow> 0 < k \<Longrightarrow> length (nat_to_string n) \<le> k"
proof (induction k arbitrary: n)
  case (Suc k)
  show ?case
  proof (cases "n < 10")
    case True
    then show ?thesis by (simp add: nat_to_string_digit)
  next
    case False
    then have "0 < k" using Suc.prems by (cases k) auto
    moreover have "n div 10 < 10 ^ k" using Suc.prems by simp
    ultimately show ?thesis using Suc.IH [of "n div 10"] False by (simp add: nat_to_string_more)
  qed
qed simp

lemma digits_value_zeros: "digits_value (replicate k 48 @ s) = digits_value s"
  by (induction k) (simp_all add: digits_value_def digit_value_def)

lemma digits_n:
  assumes "n < 10 ^ k" "0 < k"
  shows "length (digits_n k n) = k" and "digits_value (digits_n k n) = n"
    and "list_all is_digit (digits_n k n)"
proof -
  have d: "list_all is_digit (nat_to_string n)" using set_nat_to_string by (auto simp: list_all_iff)
  show "length (digits_n k n) = k"
    using length_nat_to_string_le [OF assms] by (simp add: digits_n_def)
  show "digits_value (digits_n k n) = n"
    by (simp add: digits_n_def pad_start_def digits_value_zeros)
  show "list_all is_digit (digits_n k n)"
    using d by (auto simp: digits_n_def pad_start_def list_all_iff is_digit_def)
qed

lemma lang_SeqI: "u \<in> lang a \<Longrightarrow> v \<in> lang b \<Longrightarrow> u @ v \<in> lang (Seq a b)"
  by auto

lemma lang_AltI2: "s \<in> lang b \<Longrightarrow> s \<in> lang (Alt a b)"
  by auto

lemma date_parse_iso_string:
  assumes "valid_fields f"
  shows "date_parse other (iso_string f) = Some (utc_ms f)"
proof -
  have len: "month_lengths y ! i \<le> 31" if "i < 12" for y i
    using that nth_mem [of i "month_lengths y"] by (auto simp: month_lengths_def simp del: nth_mem)
  from assms have "utc_month_number f - 1 < 12" by (auto simp: valid_fields_def)
  from len [OF this] assms have day: "utc_day f \<le> 31" unfolding valid_fields_def by (meson order_trans)
  have b: "utc_year f < 10 ^ 4" "utc_month_number f < 10 ^ 2" "utc_day f < 10 ^ 2" "utc_hour f < 10 ^ 2"
    "utc_minute f < 10 ^ 2" "utc_second f < 10 ^ 2" "utc_millisecond f < 10 ^ 3"
    using assms day by (simp_all add: valid_fields_def)
  note L = digits_n(1) [OF b(1)] digits_n(1) [OF b(2)] digits_n(1) [OF b(3)] digits_n(1) [OF b(4)]
    digits_n(1) [OF b(5)] digits_n(1) [OF b(6)] digits_n(1) [OF b(7)]
  note V = digits_n(2) [OF b(1)] digits_n(2) [OF b(2)] digits_n(2) [OF b(3)] digits_n(2) [OF b(4)]
    digits_n(2) [OF b(5)] digits_n(2) [OF b(6)] digits_n(2) [OF b(7)]
  note D = digits_n(3) [OF b(1)] digits_n(3) [OF b(2)] digits_n(3) [OF b(3)] digits_n(3) [OF b(4)]
    digits_n(3) [OF b(5)] digits_n(3) [OF b(6)] digits_n(3) [OF b(7)]
  have "iso_fields (iso_string f) = f"
    by (simp add: iso_fields_def field_at_def iso_string_def L V)
  moreover have "regex_test iso_regex (iso_string f)"
    unfolding regex_test_lang iso_regex_def Let_def
    unfolding iso_string_def
    by (intro lang_SeqI lang_AltI2) (use L D in \<open>simp_all add: in_lang_classes\<close>)
  ultimately show ?thesis using assms by (simp add: date_parse_def)
qed

end
