(* ===== verification/Baseline.thy ===== *)
theory Baseline
  imports Fixed2 Js_Collections Js_Text Js_Date
begin

text \<open>
  The reference TypeScript program \<^verbatim>\<open>baselines/ts/main.ts\<close>: it reads the CSV of messages, groups
  them by channel and month, and prints one line per group.  Statistics are JavaScript numbers
  (\<open>Js_Number\<close>); a thrown \<open>Error\<close> is a value of \<open>baseline_error\<close>.
\<close>

record channel_stats =
  minLen :: number
  maxLen :: number
  totalLen :: number
  messages :: number
  stamps :: number

record options =
  opt_input :: jsstring
  opt_output :: jsstring

datatype baseline_error =
    Invalid_header nat
  | Invalid_line nat nat
  | Invalid_unix_timestamp jsstring
  | Timestamp_out_of_range number
  | Invalid_message_length nat
  | Invalid_stamp_count nat
  | Unknown_argument jsstring

definition monthStartUnix :: "int list" where
  "monthStartUnix =
     [1798761600, 1801440000, 1803859200, 1806537600, 1809129600, 1811808000,
      1814400000, 1817078400, 1819756800, 1822348800, 1825027200, 1827619200,
      1830297600]"

definition monthLabels :: "jsstring list" where
  "monthLabels =
     [js ''2027-01'', js ''2027-02'', js ''2027-03'', js ''2027-04'', js ''2027-05'', js ''2027-06'',
      js ''2027-07'', js ''2027-08'', js ''2027-09'', js ''2027-10'', js ''2027-11'', js ''2027-12'']"

definition in_month :: "number \<Rightarrow> nat \<Rightarrow> bool" where
  "in_month timestamp i \<longleftrightarrow>
     \<not> num_less timestamp (of_integer (monthStartUnix ! i)) \<and> timestamp \<noteq> NaN
     \<and> num_less timestamp (of_integer (monthStartUnix ! (i + 1)))"

fun month_search :: "number \<Rightarrow> nat \<Rightarrow> nat option" where
  "month_search timestamp 0 = (if in_month timestamp 0 then Some 0 else None)"
| "month_search timestamp (Suc i) =
     (if in_month timestamp (Suc i) then Some (Suc i) else month_search timestamp i)"

definition monthLabelFromUnixTimestamp :: "number \<Rightarrow> baseline_error + jsstring" where
  "monthLabelFromUnixTimestamp timestamp =
     (case month_search timestamp (length monthLabels - 1) of
        Some i \<Rightarrow> Inr (monthLabels ! i)
      | None \<Rightarrow> Inl (Timestamp_out_of_range timestamp))"

definition resultKey :: "jsstring \<Rightarrow> jsstring \<Rightarrow> baseline_error + jsstring" where
  "resultKey unixTimestamp channelPath =
     (let timestamp = parse_int10 unixTimestamp in
      if \<not> is_finite timestamp then Inl (Invalid_unix_timestamp unixTimestamp)
      else (case monthLabelFromUnixTimestamp timestamp of
              Inl e \<Rightarrow> Inl e
            | Inr label \<Rightarrow> Inr (channelPath @ js '','' @ label)))"

fun parseOptions :: "options \<Rightarrow> jsstring list \<Rightarrow> baseline_error + options" where
  "parseOptions opts [] = Inr opts"
| "parseOptions opts [a] = Inl (Unknown_argument a)"
| "parseOptions opts (a # b # rest) =
     (if a = js ''-i'' then parseOptions (opts\<lparr>opt_input := b\<rparr>) rest
      else if a = js ''-o'' then parseOptions (opts\<lparr>opt_output := b\<rparr>) rest
      else Inl (Unknown_argument a))"

definition parseArgs :: "jsstring list \<Rightarrow> baseline_error + options" where
  "parseArgs args =
     (if length args = 2 \<and> \<not> starts_with (args ! 0) (js ''-'') \<and> \<not> starts_with (args ! 1) (js ''-'')
      then Inr \<lparr>opt_input = args ! 0, opt_output = args ! 1\<rparr>
      else parseOptions \<lparr>opt_input = [], opt_output = []\<rparr> args)"

section \<open>Reading the records\<close>

record message =
  msg_key :: jsstring
  msg_length :: number
  msg_stamps :: number

definition parse_message :: "nat \<Rightarrow> jsstring \<Rightarrow> baseline_error + message" where
  "parse_message lineNumber line =
     (let record = split_on 44 line in
      if length record \<noteq> 4 then Inl (Invalid_line lineNumber (length record))
      else (case resultKey (record ! 0) (record ! 1) of
              Inl e \<Rightarrow> Inl e
            | Inr key \<Rightarrow>
                let messageLength = parse_int10 (record ! 2); stampCount = parse_int10 (record ! 3)
                in if \<not> is_finite messageLength then Inl (Invalid_message_length lineNumber)
                   else if \<not> is_finite stampCount then Inl (Invalid_stamp_count lineNumber)
                   else Inr \<lparr>msg_key = key, msg_length = messageLength, msg_stamps = stampCount\<rparr>))"

definition update_stats :: "channel_stats option \<Rightarrow> message \<Rightarrow> channel_stats" where
  "update_stats existing msg =
     (case existing of
        None \<Rightarrow> \<lparr>minLen = msg_length msg, maxLen = msg_length msg, totalLen = msg_length msg,
                messages = Fin 1, stamps = msg_stamps msg\<rparr>
      | Some s \<Rightarrow>
          \<lparr>minLen = (if num_less (msg_length msg) (minLen s) then msg_length msg else minLen s),
           maxLen = (if num_less (maxLen s) (msg_length msg) then msg_length msg else maxLen s),
           totalLen = num_add (totalLen s) (msg_length msg),
           messages = num_add (messages s) (Fin 1),
           stamps = num_add (stamps s) (msg_stamps msg)\<rparr>)"

type_synonym stats_map = "(jsstring, channel_stats) js_map"

definition add_message :: "stats_map \<Rightarrow> message \<Rightarrow> stats_map" where
  "add_message stats msg = map_set (msg_key msg) (update_stats (map_get stats (msg_key msg)) msg) stats"

fun analyze_lines :: "nat \<Rightarrow> stats_map \<Rightarrow> jsstring list \<Rightarrow> baseline_error + stats_map" where
  "analyze_lines lineNumber stats [] = Inr stats"
| "analyze_lines lineNumber stats (line # lines) =
     (if lineNumber = 1 then
        (let header = split_on 44 line in
         if length header \<noteq> 4 then Inl (Invalid_header (length header))
         else analyze_lines (lineNumber + 1) stats lines)
      else if length line = 0 then analyze_lines (lineNumber + 1) stats lines
      else (case parse_message lineNumber line of
              Inl e \<Rightarrow> Inl e
            | Inr msg \<Rightarrow> analyze_lines (lineNumber + 1) (add_message stats msg) lines))"

definition analyze :: "jsstring \<Rightarrow> baseline_error + stats_map" where
  "analyze input = analyze_lines 1 map_new (readline_lines input)"

section \<open>Writing the result\<close>

definition result_value :: "channel_stats \<Rightarrow> jsstring" where
  "result_value s =
     (let meanLen = num_div (totalLen s) (messages s) in
      number_to_string (minLen s) @ js ''/'' @ formatFixed2 meanLen @ js ''/''
      @ number_to_string (maxLen s) @ js ''/'' @ number_to_string (messages s) @ js ''/''
      @ number_to_string (stamps s))"

definition result_line :: "jsstring \<Rightarrow> channel_stats \<Rightarrow> jsstring" where
  "result_line key s = key @ js ''='' @ result_value s"

definition writeResult :: "stats_map \<Rightarrow> jsstring" where
  "writeResult stats =
     (let keys = sort_cmp compare_strings (map_keys stats) in
      concat (map (\<lambda>key. result_line key (the (map_get stats key)) @ [10]) keys))"

text \<open>\<open>main\<close>: \<open>read\<close> is the input text of a path (\<open>[]\<close> for standard input).  The result is the
  output path (\<open>[]\<close> for standard output) and the text written, or the error of exit status 1.\<close>

definition baseline_main :: "(jsstring \<Rightarrow> jsstring) \<Rightarrow> jsstring list \<Rightarrow> baseline_error + (jsstring \<times> jsstring)" where
  "baseline_main read args =
     (case parseArgs args of
        Inl e \<Rightarrow> Inl e
      | Inr opts \<Rightarrow>
          (case analyze (read (opt_input opts)) of
             Inl e \<Rightarrow> Inl e
           | Inr stats \<Rightarrow> Inr (opt_output opts, writeResult stats)))"


section \<open>The month of a timestamp\<close>

lemma length_monthStartUnix [simp]: "length monthStartUnix = 13"
  by (simp add: monthStartUnix_def)

lemma length_monthLabels [simp]: "length monthLabels = 12"
  by (simp add: monthLabels_def)

lemma days_before_2027: "sum_list (map (\<lambda>k. sum_list (month_lengths k)) [1970..<2027]) = 20819"
  by (simp add: month_lengths_def leap_year_def upt_conv_Cons)

lemma monthStartUnix_months:
  "monthStartUnix = map (\<lambda>i. int (86400 * (20819 + sum_list (take i (month_lengths 2027))))) [0..<13]"
  by (simp add: monthStartUnix_def month_lengths_def leap_year_def upt_conv_Cons)

lemma monthStartUnix_calendar: "i < 13 \<Longrightarrow> monthStartUnix ! i = int (unix_of_month 2027 (i + 1))"
  unfolding unix_of_month_def days_before_2027 by (simp add: monthStartUnix_months)

lemma monthLabels_months:
  "monthLabels = map (\<lambda>i. js ''2027-'' @ pad_start 2 48 (nat_to_string (i + 1))) [0..<12]"
  by code_simp

lemma monthLabels_calendar:
  "i < 12 \<Longrightarrow> monthLabels ! i = js ''2027-'' @ pad_start 2 48 (nat_to_string (i + 1))"
  by (simp add: monthLabels_months)

lemma sorted_monthStartUnix: "sorted monthStartUnix"
  by (simp add: monthStartUnix_def)

lemma monthStartUnix_small: "i < 13 \<Longrightarrow> of_integer (monthStartUnix ! i) = Fin (of_int (monthStartUnix ! i))"
proof -
  assume "i < 13"
  then have "monthStartUnix ! i \<in> set monthStartUnix" by simp
  then have "\<bar>monthStartUnix ! i\<bar> \<le> 2 ^ 53" by (auto simp: monthStartUnix_def)
  then show ?thesis by (rule of_integer_small)
qed

lemma in_month_int:
  "i < 12 \<Longrightarrow> in_month (Fin (of_int t)) i \<longleftrightarrow> monthStartUnix ! i \<le> t \<and> t < monthStartUnix ! (i + 1)"
  using monthStartUnix_small [of i] monthStartUnix_small [of "i + 1"] by (auto simp: in_month_def)

lemma in_month_unique:
  assumes "in_month (Fin (of_int t)) i" "in_month (Fin (of_int t)) j" "i < 12" "j < 12"
  shows "i = j"
proof -
  have False if "in_month (Fin (of_int t)) a" "in_month (Fin (of_int t)) b" "a < b" "b < 12" for a b
    using that sorted_nth_mono [OF sorted_monthStartUnix, of "a + 1" b]
    by (simp add: in_month_int)
  then show ?thesis using assms by (meson linorder_neqE_nat)
qed

lemma month_search_int:
  "n < 12 \<Longrightarrow> month_search (Fin (of_int t)) n = Some i \<longleftrightarrow> i \<le> n \<and> in_month (Fin (of_int t)) i"
proof (induction n)
  case (Suc n)
  then show ?case
    using in_month_unique [of t "Suc n" i] by (auto simp: le_Suc_eq)
qed auto

lemma month_label_int:
  "i < 12 \<Longrightarrow> monthStartUnix ! i \<le> t \<Longrightarrow> t < monthStartUnix ! (i + 1) \<Longrightarrow>
    monthLabelFromUnixTimestamp (Fin (of_int t)) = Inr (monthLabels ! i)"
  using month_search_int [of 11 t i] by (simp add: monthLabelFromUnixTimestamp_def in_month_int)

lemma month_label_out_of_range:
  assumes "t < 1798761600 \<or> 1830297600 \<le> t"
  shows "monthLabelFromUnixTimestamp (Fin (of_int t)) = Inl (Timestamp_out_of_range (Fin (of_int t)))"
proof -
  have "\<not> in_month (Fin (of_int t)) i" if "i < 12" for i
    using that assms sorted_nth_mono [OF sorted_monthStartUnix, of 0 i]
      sorted_nth_mono [OF sorted_monthStartUnix, of "i + 1" 12]
    by (auto simp: in_month_int monthStartUnix_def)
  then have "month_search (Fin (of_int t)) 11 \<noteq> Some i" for i
    using month_search_int [of 11 t i] by simp
  then have "month_search (Fin (of_int t)) 11 = None"
    by (cases "month_search (Fin (of_int t)) 11") blast+
  then show ?thesis by (simp add: monthLabelFromUnixTimestamp_def)
qed

lemma month_exists:
  assumes "1798761600 \<le> t" and "t < 1830297600"
  obtains i where "i < 12" "monthStartUnix ! i \<le> t" "t < monthStartUnix ! (i + 1)"
proof -
  let ?P = "\<lambda>i. i \<le> 12 \<and> monthStartUnix ! i \<le> t"
  have P0: "?P 0" using assms by (simp add: monthStartUnix_def)
  define i where "i = (GREATEST i. ?P i)"
  have i: "?P i" unfolding i_def by (rule GreatestI_nat [where P = ?P and b = 12, OF P0]) simp
  have "i \<noteq> 12" using i assms(2) by (auto simp: monthStartUnix_def)
  moreover have "\<not> ?P (i + 1)"
  proof
    assume "?P (i + 1)"
    then have "i + 1 \<le> i" unfolding i_def by (rule Greatest_le_nat [where b = 12]) simp
    then show False by simp
  qed
  ultimately show ?thesis using i that [of i] by auto
qed


section \<open>Valid input and what it means\<close>

text \<open>A row of the contest's CSV, its line, and the abstract statistics of a group of rows over
  exact naturals.\<close>

record row =
  row_time :: nat
  row_channel :: jsstring
  row_length :: nat
  row_stamps :: nat

definition valid_row :: "row \<Rightarrow> bool" where
  "valid_row r \<longleftrightarrow> 1798761600 \<le> row_time r \<and> row_time r < 1830297600
     \<and> 44 \<notin> set (row_channel r) \<and> no_line_end (row_channel r)"

definition row_line :: "row \<Rightarrow> jsstring" where
  "row_line r = join_with [44]
     [nat_to_string (row_time r), row_channel r, nat_to_string (row_length r), nat_to_string (row_stamps r)]"

definition header_line :: jsstring where
  "header_line = js ''unix_timestamp,channel_path,message_length,stamp_count''"

definition csv_text :: "row list \<Rightarrow> jsstring" where
  "csv_text rs = unlines (header_line # map row_line rs)"

definition utc_month :: "nat \<Rightarrow> nat" where
  "utc_month t = length (filter (\<lambda>m. unix_of_month 2027 m \<le> t) [2..<13])"

definition row_key :: "row \<Rightarrow> jsstring" where
  "row_key r = row_channel r @ js '','' @ js ''2027-'' @ pad_start 2 48 (nat_to_string (utc_month (row_time r) + 1))"

definition row_message :: "row \<Rightarrow> message" where
  "row_message r = \<lparr>msg_key = row_key r, msg_length = Fin (of_nat (row_length r)), msg_stamps = Fin (of_nat (row_stamps r))\<rparr>"

definition group_stats :: "row list \<Rightarrow> channel_stats option" where
  "group_stats rs =
     (if rs = [] then None
      else Some \<lparr>minLen = Fin (of_nat (Min (row_length ` set rs))),
                 maxLen = Fin (of_nat (Max (row_length ` set rs))),
                 totalLen = Fin (of_nat (sum_list (map row_length rs))),
                 messages = Fin (of_nat (length rs)),
                 stamps = Fin (of_nat (sum_list (map row_stamps rs)))\<rparr>)"

definition safe_rows :: "row list \<Rightarrow> bool" where
  "safe_rows rs \<longleftrightarrow> sum_list (map row_length rs) \<le> 2 ^ 53 \<and> sum_list (map row_stamps rs) \<le> 2 ^ 53
     \<and> length rs \<le> 2 ^ 53"

lemma utc_month_eq:
  assumes "i < 12" "monthStartUnix ! i \<le> int t" "int t < monthStartUnix ! (i + 1)"
  shows "utc_month t = i"
proof -
  have P: "unix_of_month 2027 m \<le> t \<longleftrightarrow> m \<le> i + 1" if "m \<in> set [2..<13]" for m
  proof -
    have m: "m - 1 < 13" "m - 1 + 1 = m" using that by auto
    have "int (unix_of_month 2027 m) = monthStartUnix ! (m - 1)"
      using monthStartUnix_calendar [OF m(1)] m(2) by simp
    moreover have "monthStartUnix ! (m - 1) \<le> monthStartUnix ! i" if "m \<le> i + 1"
      using that assms(1) by (intro sorted_nth_mono [OF sorted_monthStartUnix]) auto
    moreover have "monthStartUnix ! (i + 1) \<le> monthStartUnix ! (m - 1)" if "\<not> m \<le> i + 1"
      using that m by (intro sorted_nth_mono [OF sorted_monthStartUnix]) auto
    ultimately show ?thesis using assms(2,3) by (cases "m \<le> i + 1") auto
  qed
  have "filter (\<lambda>m. unix_of_month 2027 m \<le> t) [2..<13] = filter (\<lambda>m. m \<le> i + 1) [2..<13]"
    using P by (intro filter_cong) auto
  moreover have "[2..<13] = [2..<i + 2] @ [i + 2..<13]"
    using assms(1) upt_add_eq_append [of 2 "i + 2" "11 - i"] by simp
  moreover have "filter (\<lambda>m. m \<le> i + 1) ([2..<i + 2] @ [i + 2..<13]) = [2..<i + 2]"
    by (simp add: filter_empty_conv)
  ultimately have "filter (\<lambda>m. unix_of_month 2027 m \<le> t) [2..<13] = [2..<i + 2]"
    by (simp only:)
  then show ?thesis unfolding utc_month_def by (simp only: length_upt)
qed

lemma resultKey_row:
  assumes "valid_row r"
  shows "resultKey (nat_to_string (row_time r)) (row_channel r) = Inr (row_key r)"
proof -
  have t: "1798761600 \<le> int (row_time r)" "int (row_time r) < 1830297600"
    using assms by (auto simp: valid_row_def)
  obtain i where i: "i < 12" "monthStartUnix ! i \<le> int (row_time r)" "int (row_time r) < monthStartUnix ! (i + 1)"
    using month_exists [OF t] .
  have "parse_int10 (nat_to_string (row_time r)) = Fin (of_int (int (row_time r)))"
    using t by (simp add: parse_int10_digits)
  with i month_label_int [OF i] utc_month_eq [OF i] show ?thesis
    by (simp add: resultKey_def Let_def is_finite_def monthLabels_calendar row_key_def)
qed

lemma no_comma_digits: "44 \<notin> set (nat_to_string n)"
  using set_nat_to_string [of 44 n] by (auto simp: is_digit_def)

lemma split_row_line:
  assumes "valid_row r"
  shows "split_on 44 (row_line r) =
    [nat_to_string (row_time r), row_channel r, nat_to_string (row_length r), nat_to_string (row_stamps r)]"
  unfolding row_line_def using assms
  by (intro split_on_join) (auto simp: valid_row_def no_comma_digits)

lemma parse_message_row:
  assumes "valid_row r" "row_length r \<le> 2 ^ 53" "row_stamps r \<le> 2 ^ 53"
  shows "parse_message n (row_line r) = Inr (row_message r)"
proof -
  have "parse_int10 (nat_to_string k) = Fin (of_nat k)" if "k \<le> 2 ^ 53" for k
    using that by (simp add: parse_int10_digits)
  then show ?thesis
    using assms by (simp add: parse_message_def split_row_line resultKey_row is_finite_def row_message_def Let_def)
qed


lemma header_columns [simp]: "length (split_on 44 header_line) = 4"
  by (simp add: header_line_def js_eval)

lemma header_no_line_end: "no_line_end header_line"
  by (simp add: header_line_def js_eval no_line_end_def)

lemma row_line_no_line_end: "valid_row r \<Longrightarrow> no_line_end (row_line r)"
  using set_nat_to_string [of 10] set_nat_to_string [of 13]
  by (auto simp: row_line_def valid_row_def no_line_end_def is_digit_def)

lemma row_line_not_Nil: "row_line r \<noteq> []"
  by (simp add: row_line_def)

lemma readline_csv: "\<forall>r \<in> set rs. valid_row r \<Longrightarrow> readline_lines (csv_text rs) = header_line # map row_line rs"
  unfolding csv_text_def
  by (rule readline_unlines) (auto simp: header_no_line_end row_line_no_line_end)

lemma analyze_lines_rows:
  assumes "\<forall>r \<in> set rs. valid_row r \<and> row_length r \<le> 2 ^ 53 \<and> row_stamps r \<le> 2 ^ 53" and "1 < n"
  shows "analyze_lines n m (map row_line rs) = Inr (foldl add_message m (map row_message rs))"
  using assms by (induction rs arbitrary: n m) (auto simp: parse_message_row row_line_not_Nil)

lemma safe_row_bounds:
  assumes "safe_rows rs" "r \<in> set rs"
  shows "row_length r \<le> 2 ^ 53" "row_stamps r \<le> 2 ^ 53"
  using assms member_le_sum_list [of "row_length r" "map row_length rs"]
    member_le_sum_list [of "row_stamps r" "map row_stamps rs"]
  by (auto simp: safe_rows_def)

lemma analyze_csv:
  assumes "\<forall>r \<in> set rs. valid_row r" and "safe_rows rs"
  shows "analyze (csv_text rs) = Inr (foldl add_message map_new (map row_message rs))"
  using assms safe_row_bounds [OF assms(2)]
  by (simp add: analyze_def readline_csv analyze_lines_rows)

text \<open>Within a group the number arithmetic is exact, so the fold computes the minimum, maximum,
  sums and count.\<close>

lemma Fin_nat_add: "a + b \<le> 2 ^ 53 \<Longrightarrow> num_add (Fin (of_nat a)) (Fin (of_nat b)) = Fin (of_nat (a + b))"
  using num_add_int [of "int a" "int b"] by (simp del: num_add.simps)

lemma group_stats_snoc:
  assumes "safe_rows (rs @ [r])"
  shows "Some (update_stats (group_stats rs) (row_message r)) = group_stats (rs @ [r])"
proof (cases "rs = []")
  case True
  then show ?thesis by (simp add: group_stats_def update_stats_def row_message_def)
next
  case False
  then have ne: "row_length ` set rs \<noteq> {}" by simp
  note sums = assms [unfolded safe_rows_def]
  have "Min (row_length ` set (rs @ [r])) =
      (if row_length r < Min (row_length ` set rs) then row_length r else Min (row_length ` set rs))"
    using ne by (simp add: Min_insert min_def not_le del: Min_le_iff Min_less_iff Min_gr_iff Min_ge_iff)
  moreover have "Max (row_length ` set (rs @ [r])) =
      (if Max (row_length ` set rs) < row_length r then row_length r else Max (row_length ` set rs))"
    using ne by (simp add: Max_insert max_def not_le del: Max_le_iff Max_less_iff Max_gr_iff Max_ge_iff)
  moreover
  have "num_add (Fin (of_nat (length rs))) (Fin 1) = Fin (of_nat (length rs + 1))"
    using Fin_nat_add [of "length rs" 1] sums by (simp del: num_add.simps)
  ultimately show ?thesis using False sums
    by (simp add: group_stats_def update_stats_def row_message_def Fin_nat_add
        del: num_add.simps set_append Min_less_iff Min_gr_iff Max_less_iff Max_gr_iff)
qed

lemma fold_group_stats:
  assumes "safe_rows rs"
  shows "foldl (\<lambda>acc x. Some (update_stats acc x)) None (map row_message rs) = group_stats rs"
  using assms
proof (induction rs rule: rev_induct)
  case (snoc r rs)
  then have "safe_rows rs" by (simp add: safe_rows_def)
  with snoc show ?case by (simp add: group_stats_snoc del: foldl_map)
qed (simp add: group_stats_def)

lemma safe_rows_filter: "safe_rows rs \<Longrightarrow> safe_rows (filter P rs)"
proof -
  have "sum_list (map f (filter P rs)) \<le> sum_list (map f rs)" for f :: "row \<Rightarrow> nat"
    by (induction rs) auto
  moreover have "length (filter P rs) \<le> length rs" by simp
  ultimately show "safe_rows rs \<Longrightarrow> safe_rows (filter P rs)"
    unfolding safe_rows_def by (meson order_trans)
qed

lemma analyze_groups:
  assumes "safe_rows rs"
  shows "map_get (foldl add_message map_new (map row_message rs)) k =
    group_stats (filter (\<lambda>r. row_key r = k) rs)"
proof -
  have "map_get (foldl add_message map_new (map row_message rs)) k =
      foldl (\<lambda>acc x. Some (update_stats acc x)) None (filter (\<lambda>x. msg_key x = k) (map row_message rs))"
    unfolding add_message_def jm.get_foldl_upsert by (simp add: map_defs)
  also have "filter (\<lambda>x. msg_key x = k) (map row_message rs) = map row_message (filter (\<lambda>r. row_key r = k) rs)"
    by (simp add: filter_map comp_def row_message_def)
  finally show ?thesis
    using fold_group_stats [OF safe_rows_filter [OF assms]] by simp
qed

lemma analyze_keys:
  "set (map_keys (foldl add_message map_new (map row_message rs))) = row_key ` set rs"
  "distinct (map_keys (foldl add_message map_new (map row_message rs)))"
proof -
  show "set (map_keys (foldl add_message map_new (map row_message rs))) = row_key ` set rs"
    unfolding add_message_def jm.keys_foldl_upsert by (simp add: map_defs image_image row_message_def)
  show "distinct (map_keys (foldl add_message map_new (map row_message rs)))"
    unfolding add_message_def
    by (rule jm.distinct_keys_foldl [where val = "\<lambda>x m. update_stats (map_get m (msg_key x)) x"])
      (simp add: map_defs)
qed


section \<open>The printed lines\<close>

definition double_value :: "rat \<Rightarrow> rat" where
  "double_value r = (case f64 r of Fin v \<Rightarrow> v | _ \<Rightarrow> 0)"

definition mean_cents :: "nat \<Rightarrow> nat \<Rightarrow> int" where
  "mean_cents tot n = round_half_even (double_value (of_nat tot / of_nat n) * 100)"

definition group_value :: "row list \<Rightarrow> jsstring" where
  "group_value g = join_with (js ''/'')
     [nat_to_string (Min (row_length ` set g)),
      fixed2 (mean_cents (sum_list (map row_length g)) (length g)),
      nat_to_string (Max (row_length ` set g)),
      nat_to_string (length g),
      nat_to_string (sum_list (map row_stamps g))]"

definition group_line :: "row list \<Rightarrow> jsstring \<Rightarrow> jsstring" where
  "group_line rs k = k @ js ''='' @ group_value (filter (\<lambda>r. row_key r = k) rs)"

lemma number_to_string_nat: "n \<le> 2 ^ 53 \<Longrightarrow> number_to_string (Fin (of_nat n)) = nat_to_string n"
  using number_to_string_int [of "int n"] by (simp add: int_to_string_def del: number_to_string.simps)

lemma mean_le_total: "n \<noteq> 0 \<Longrightarrow> (of_nat tot / of_nat n :: rat) \<le> of_nat tot"
  by (simp add: divide_le_eq mult_left_mono [of 1 "of_nat n" "of_nat tot :: rat", simplified])

lemma mean_double:
  assumes "n \<noteq> 0" and "tot \<le> 2 ^ 53"
  obtains v where "f64 (of_nat tot / of_nat n) = Fin v" "representable v" "0 \<le> v"
    "double_value (of_nat tot / of_nat n) = v"
proof -
  have "(of_nat tot :: rat) \<le> of_nat (2 ^ 53)" using assms(2) by (rule of_nat_mono)
  with mean_le_total [OF assms(1), of tot]
  have "(of_nat tot / of_nat n :: rat) \<le> 2 ^ 53" by simp
  moreover have "0 \<le> (of_nat tot / of_nat n :: rat)" by simp
  ultimately obtain v where "f64 (of_nat tot / of_nat n) = Fin v" "representable v" "0 \<le> v"
    using f64_finite by blast
  then show ?thesis using that by (simp add: double_value_def)
qed

lemma formatFixed2_mean:
  assumes "n \<noteq> 0" and "tot \<le> 2 ^ 53"
  shows "formatFixed2 (num_div (Fin (of_nat tot)) (Fin (of_nat n))) = fixed2 (mean_cents tot n)"
proof -
  obtain v where "f64 (of_nat tot / of_nat n) = Fin v" "representable v" "0 \<le> v"
    "double_value (of_nat tot / of_nat n) = v"
    using mean_double [OF assms] .
  then show ?thesis
    using assms(1) by (simp add: formatFixed2_Fin mean_cents_def)
qed

lemma Min_Max_le_sum:
  assumes "g \<noteq> []"
  shows "Min (row_length ` set g) \<le> sum_list (map row_length g)"
    and "Max (row_length ` set g) \<le> sum_list (map row_length g)"
proof -
  have "x \<le> sum_list (map row_length g)" if "x \<in> row_length ` set g" for x
    using that member_le_sum_list [of x "map row_length g"] by auto
  then show "Min (row_length ` set g) \<le> sum_list (map row_length g)"
    "Max (row_length ` set g) \<le> sum_list (map row_length g)"
    using assms by (auto intro: Min_in Max_in)
qed

lemma result_value_group:
  assumes "group_stats g = Some s" and "safe_rows g"
  shows "result_value s = group_value g"
proof -
  have g: "g \<noteq> []" and s: "s = the (group_stats g)"
    using assms(1) by (auto simp: group_stats_def split: if_splits)
  have small: "Min (row_length ` set g) \<le> 2 ^ 53" "Max (row_length ` set g) \<le> 2 ^ 53"
    using Min_Max_le_sum [OF g] assms(2) unfolding safe_rows_def by (meson order_trans)+
  show ?thesis
    using g small assms(2) unfolding s safe_rows_def
    by (simp add: result_value_def group_value_def group_stats_def Let_def number_to_string_nat
        formatFixed2_mean del: number_to_string.simps num_div.simps)
qed

lemma writeResult_groups:
  assumes "safe_rows rs"
  shows "writeResult (foldl add_message map_new (map row_message rs)) =
    unlines (map (group_line rs) (sorted_list_of_set (row_key ` set rs)))"
proof -
  let ?m = "foldl add_message map_new (map row_message rs)"
  have keys: "sort_cmp compare_strings (map_keys ?m) = sorted_list_of_set (row_key ` set rs)"
    unfolding sort_strings analyze_keys(1) [symmetric]
    by (simp add: analyze_keys(2) sorted_list_of_set_sort_remdups distinct_remdups_id)
  have "result_line k (the (map_get ?m k)) = group_line rs k" if "k \<in> row_key ` set rs" for k
  proof -
    let ?g = "filter (\<lambda>r. row_key r = k) rs"
    have "?g \<noteq> []" using that by (auto simp: filter_empty_conv)
    then obtain s where s: "group_stats ?g = Some s" by (simp add: group_stats_def)
    have "map_get ?m k = Some s" using analyze_groups [OF assms, of k] s by simp
    then show ?thesis
      using result_value_group [OF s safe_rows_filter [OF assms]]
      by (simp add: result_line_def group_line_def)
  qed
  then show ?thesis
    unfolding writeResult_def keys Let_def unlines_def
    by (auto intro!: arg_cong [where f = concat])
qed

text \<open>C1: On a CSV of valid rows whose sums stay below \<open>2\<^sup>5\<^sup>3\<close>, the program called with an input
  and an output path writes exactly one line per channel and month that occurs, in the code-unit
  order of the keys, each with the minimum, the two-decimal mean, the maximum, the number of
  messages and the number of stamps of that group.\<close>

theorem baseline_main_correct:
  assumes "\<forall>r \<in> set rs. valid_row r" and "safe_rows rs" and "read i = csv_text rs"
    and "\<not> starts_with i (js ''-'')" and "\<not> starts_with out (js ''-'')"
  shows "baseline_main read [i, out] =
    Inr (out, unlines (map (group_line rs) (sorted_list_of_set (row_key ` set rs))))"
  using assms(3-5) analyze_csv [OF assms(1,2)] writeResult_groups [OF assms(2)]
  by (simp add: baseline_main_def parseArgs_def)

text \<open>C4: The mean printed for a group (the double nearest to the quotient, rounded half to even to
  hundredths) differs from the exact quotient by at most half a hundredth plus the relative
  rounding error of one division.\<close>

theorem mean_cents_error:
  assumes "0 < n" and "n \<le> 2 ^ 53" and "tot \<le> 2 ^ 53"
  shows "formatFixed2 (num_div (Fin (of_nat tot)) (Fin (of_nat n))) = fixed2 (mean_cents tot n)
    \<and> \<bar>of_int (mean_cents tot n) / 100 - of_nat tot / of_nat n\<bar>
        \<le> (1 / 200 + of_nat tot / of_nat n * 2 powi (-53) :: rat)"
proof -
  let ?q = "of_nat tot / of_nat n :: rat"
  obtain v where v: "f64 ?q = Fin v" "double_value ?q = v"
    using mean_double [OF _ assms(3)] assms(1) by auto
  have "\<bar>v - ?q\<bar> \<le> ?q * 2 powi (-53)"
  proof (cases "tot = 0")
    case True
    with v show ?thesis by (simp add: f64_def)
  next
    case False
    have "(of_nat n :: rat) \<le> of_nat (2 ^ 53)" using assms(2) by (rule of_nat_mono)
    moreover have "(1 :: rat) \<le> of_nat tot" using False by simp
    ultimately have "(1 :: rat) / 2 ^ 53 \<le> ?q" using assms(1) by (intro frac_le) simp_all
    moreover have "(2 :: rat) powi (-1022) \<le> 2 powi (-53)" by (intro power_int_increasing) simp_all
    moreover have "(1 :: rat) / 2 ^ 53 = 2 powi (-53)" by (simp add: power_int_minus)
    ultimately have "2 powi (-1022) \<le> ?q" by (metis order_trans)
    moreover have "0 < ?q" using False assms(1) by simp
    ultimately show ?thesis using f64_error v(1) by blast
  qed
  moreover have "\<bar>of_int (mean_cents tot n) / 100 - v\<bar> \<le> 1 / 200"
    using round_half_even_error [of "v * 100"] unfolding mean_cents_def v(2) abs_le_iff by linarith
  ultimately have "\<bar>of_int (mean_cents tot n) / 100 - ?q\<bar> \<le> 1 / 200 + ?q * 2 powi (-53)"
    by linarith
  then show ?thesis using formatFixed2_mean [of n tot] assms by simp
qed


section \<open>Months and malformed lines\<close>

lemma days_before_2028: "sum_list (map (\<lambda>k. sum_list (month_lengths k)) [1970..<2028]) = 21184"
  by (simp add: month_lengths_def leap_year_def upt_conv_Cons)

text \<open>C5: The month label of a timestamp is the UTC calendar month of that second, and a
  timestamp outside the year 2027 is an error.\<close>

theorem month_label_calendar:
  "monthLabelFromUnixTimestamp (Fin (of_int t)) =
    (if int (unix_of_month 2027 1) \<le> t \<and> t < int (unix_of_month 2028 1)
     then Inr (js ''2027-'' @ pad_start 2 48 (nat_to_string (utc_month (nat t) + 1)))
     else Inl (Timestamp_out_of_range (Fin (of_int t))))"
proof -
  have y: "unix_of_month 2027 1 = 1798761600" "unix_of_month 2028 1 = 1830297600"
    unfolding unix_of_month_def days_before_2027 days_before_2028 by simp_all
  show ?thesis
  proof (cases "1798761600 \<le> t \<and> t < 1830297600")
    case True
    then obtain i where i: "i < 12" "monthStartUnix ! i \<le> t" "t < monthStartUnix ! (i + 1)"
      using month_exists by blast
    moreover from True have "int (nat t) = t" by simp
    ultimately have "utc_month (nat t) = i" by (intro utc_month_eq) simp_all
    with i True y show ?thesis by (simp add: month_label_int monthLabels_calendar)
  next
    case False
    then show ?thesis using y month_label_out_of_range [of t] by auto
  qed
qed

lemma analyze_lines_append:
  "analyze_lines n m (xs @ ys) =
    (case analyze_lines n m xs of Inl e \<Rightarrow> Inl e | Inr m' \<Rightarrow> analyze_lines (n + length xs) m' ys)"
  by (induction n m xs rule: analyze_lines.induct) (auto simp: Let_def split: sum.splits)

text \<open>C6: Reading stops at the first malformed line: after any valid rows, a line that does not
  parse makes the whole analysis fail with that line's error and its line number, whatever follows.\<close>

theorem analyze_first_bad_line:
  assumes "\<forall>r \<in> set rs. valid_row r" and "safe_rows rs"
    and "no_line_end bad" and "bad \<noteq> []" and "\<forall>l \<in> set rest. no_line_end l"
    and "parse_message (length rs + 2) bad = Inl e"
  shows "analyze (unlines (header_line # map row_line rs @ bad # rest)) = Inl e"
proof -
  have "readline_lines (unlines (header_line # map row_line rs @ bad # rest)) =
      header_line # map row_line rs @ bad # rest"
    using assms(1,3,5) by (intro readline_unlines) (auto simp: header_no_line_end row_line_no_line_end)
  moreover have "analyze_lines 2 map_new (map row_line rs) = Inr (foldl add_message map_new (map row_message rs))"
    using assms(1) safe_row_bounds [OF assms(2)] by (intro analyze_lines_rows) auto
  ultimately show ?thesis
    using assms(4,6) by (simp add: analyze_def analyze_lines_append add.commute numeral_2_eq_2 [symmetric])
qed

text \<open>C7: For every double that is not negative, the bit manipulation of \<open>formatFixed2\<close> prints
  the exact value rounded half to even to two decimals; the sign of a negative double is lost.\<close>

theorem formatFixed2_exact:
  assumes "representable r"
  shows "formatFixed2 (Fin r) = fixed2 (round_half_even (\<bar>r\<bar> * 100))
    \<and> formatFixed2 (Fin (- r)) = formatFixed2 (Fin r)"
  using assms formatFixed2_Fin [of r] formatFixed2_Fin [of "- r"]
  by (simp add: representable_def ulp_exponent_def)

section \<open>Witnesses\<close>

definition demo_rows :: "row list" where
  "demo_rows =
     [\<lparr>row_time = 1798761600, row_channel = js ''team/dev'', row_length = 10, row_stamps = 1\<rparr>,
      \<lparr>row_time = 1798761660, row_channel = js ''team/dev'', row_length = 20, row_stamps = 2\<rparr>]"

lemma demo_rows_valid: "\<forall>r \<in> set demo_rows. valid_row r" "safe_rows demo_rows"
  by (simp_all add: demo_rows_def valid_row_def js_eval no_line_end_def safe_rows_def)

lemma demo_keys: "map row_key demo_rows = [js ''team/dev,2027-01'', js ''team/dev,2027-01'']"
proof -
  have "utc_month 1798761600 = 0" "utc_month 1798761660 = 0"
    by (rule utc_month_eq; simp add: monthStartUnix_def)+
  then show ?thesis
    by (simp add: demo_rows_def row_key_def js_eval pad_start_def digit_unit_def)
qed

lemma demo_group: "group_line demo_rows (js ''team/dev,2027-01'') = js ''team/dev,2027-01=10/15.00/20/2/3''"
proof -
  let ?k = "js ''team/dev,2027-01''"
  have f: "filter (\<lambda>r. row_key r = ?k) demo_rows = demo_rows"
    using demo_keys by (simp add: demo_rows_def)
  have parts: "Min (row_length ` set demo_rows) = 10" "Max (row_length ` set demo_rows) = 20"
    "sum_list (map row_length demo_rows) = 30" "length demo_rows = 2" "sum_list (map row_stamps demo_rows) = 3"
    by (simp_all add: demo_rows_def)
  have "double_value 15 = 15" using f64_int [of 15] by (simp add: double_value_def)
  then have "mean_cents 30 2 = 1500"
    using round_half_even_of_int [of 1500] by (simp add: mean_cents_def)
  then have "group_value demo_rows = js ''10/15.00/20/2/3''"
    by (simp add: group_value_def parts fixed2_def int_to_string_def pad_start_def digit_unit_def js_eval)
  with f show ?thesis by (simp add: group_line_def js_eval)
qed

theorem baseline_main_correct_witness:
  "baseline_main (\<lambda>_. csv_text demo_rows) [js ''in.csv'', js ''out.txt''] =
    Inr (js ''out.txt'', unlines [js ''team/dev,2027-01=10/15.00/20/2/3''])"
proof -
  have "row_key ` set demo_rows = set (map row_key demo_rows)" by simp
  then have "sorted_list_of_set (row_key ` set demo_rows) = [js ''team/dev,2027-01'']"
    unfolding demo_keys by simp
  moreover have "\<not> starts_with (js ''in.csv'') (js ''-'')" "\<not> starts_with (js ''out.txt'') (js ''-'')"
    by (simp_all add: starts_with_def js_eval)
  ultimately show ?thesis
    using baseline_main_correct [OF demo_rows_valid, of "\<lambda>_. csv_text demo_rows" "js ''in.csv''" "js ''out.txt''"]
    by (simp add: demo_group)
qed

theorem mean_cents_error_witness:
  "formatFixed2 (num_div (Fin (of_nat 2)) (Fin (of_nat 3))) = fixed2 (mean_cents 2 3)
    \<and> \<bar>of_int (mean_cents 2 3) / 100 - (of_nat 2 / of_nat 3 :: rat)\<bar>
        \<le> 1 / 200 + of_nat 2 / of_nat 3 * 2 powi (-53)"
  by (rule mean_cents_error) simp_all

theorem analyze_first_bad_line_witness:
  "analyze (unlines (header_line # map row_line demo_rows @ js ''1,2,3'' # [js ''x''])) = Inl (Invalid_line 4 3)"
proof (rule analyze_first_bad_line [OF demo_rows_valid])
  show "parse_message (length demo_rows + 2) (js ''1,2,3'') = Inl (Invalid_line 4 3)"
    by (simp add: demo_rows_def parse_message_def js_eval)
qed (simp_all add: no_line_end_def js_eval)

theorem formatFixed2_exact_witness:
  "formatFixed2 (Fin (5 / 8)) = js ''0.62'' \<and> formatFixed2 (Fin (- (5 / 8))) = js ''0.62''"
proof -
  have "(5 / 8 :: rat) / 2 powi (-52) = of_int (5 * 2 ^ 49)" by (simp add: power_int_minus)
  then have "(5 / 8 :: rat) / 2 powi (-52) \<in> \<int>" by (simp only: Ints_of_int)
  then have "representable (5 / 8)"
    by (intro representable_scaled [of _ "-52"]) (simp_all add: overflow_bound_def)
  note formatFixed2_exact [OF this]
  moreover have "\<lfloor>125 / 2 :: rat\<rfloor> = 62" by (simp add: floor_eq_iff)
  then have "round_half_even (\<bar>5 / 8\<bar> * 100) = 62" by (simp add: round_half_even_def)
  moreover have "fixed2 62 = js ''0.62''"
    by (simp add: fixed2_def int_to_string_def pad_start_def digit_unit_def js_eval)
  ultimately show ?thesis by simp
qed

end
