(* ===== verification/Optimized_Store.thy ===== *)
theory Optimized_Store
  imports Optimized Baseline
begin

text \<open>
  The typed array of the optimised analyser against the statistics of the reference program.  A
  store stands for the function \<open>store_value\<close> from channel and month to statistics; \<open>store_inv\<close> is
  its invariant; adding a message and merging a range commute with this abstraction.
\<close>

section \<open>Cells\<close>

lemma cell_at_set: "cell_at (set_cell i v a) j = (if i = j \<and> i < cell_count a then v else cell_at a j)"
  by (simp add: cell_at_def set_cell_def)

lemma cell_count_set [simp]: "cell_count (set_cell i v a) = cell_count a"
  by (simp add: set_cell_def)

definition slot :: "nat \<Rightarrow> nat \<Rightarrow> nat" where
  "slot k m = k * 60 + m * 5"

lemma slots_apart:
  assumes "m < 12" "m' < 12" "(k, m) \<noteq> (k', m')"
  shows "slot k m + 5 \<le> slot k' m' \<or> slot k' m' + 5 \<le> slot k m"
proof -
  have "12 * k + m \<noteq> 12 * k' + m'"
  proof
    assume eq: "12 * k + m = 12 * k' + m'"
    have "(12 * k + m) mod 12 = m" "(12 * k' + m') mod 12 = m'" using assms(1,2) by simp_all
    with eq have "m = m'" by metis
    with eq assms(3) show False by simp
  qed
  then show ?thesis unfolding slot_def by linarith
qed

definition entry :: "float_array \<Rightarrow> nat \<Rightarrow> channel_stats option" where
  "entry a p =
     (if cell_at a (p + 3) = Fin 0 then None
      else Some \<lparr>minLen = cell_at a p, maxLen = cell_at a (p + 2), totalLen = cell_at a (p + 1),
                 messages = cell_at a (p + 3), stamps = cell_at a (p + 4)\<rparr>)"

lemma entry_cong: "(\<And>j. p \<le> j \<Longrightarrow> j < p + 5 \<Longrightarrow> cell_at a j = cell_at b j) \<Longrightarrow> entry a p = entry b p"
  by (simp add: entry_def)

text \<open>An operation on one slot changes no cell outside it.\<close>

definition within_slot :: "nat \<Rightarrow> float_array \<Rightarrow> float_array \<Rightarrow> bool" where
  "within_slot p a b \<longleftrightarrow> cell_count b = cell_count a \<and> (\<forall>j. j < p \<or> p + 5 \<le> j \<longrightarrow> cell_at b j = cell_at a j)"

lemma within_slot_entry:
  assumes "within_slot (slot k m) a b" "m < 12" "m' < 12" "(k', m') \<noteq> (k, m)"
  shows "entry b (slot k' m') = entry a (slot k' m')"
proof (rule entry_cong)
  fix j
  assume "slot k' m' \<le> j" "j < slot k' m' + 5"
  moreover have "slot k m + 5 \<le> slot k' m' \<or> slot k' m' + 5 \<le> slot k m"
    by (intro slots_apart [OF assms(2,3)]) (use assms(4) in auto)
  ultimately have "j < slot k m \<or> slot k m + 5 \<le> j" by linarith
  with assms(1) show "cell_at b j = cell_at a j" unfolding within_slot_def by blast
qed

lemma record_message_within: "within_slot p a (record_message p ml n a)"
  by (simp add: within_slot_def record_message_def cell_at_set Let_def)

lemma record_message_entry:
  assumes "p + 4 < cell_count a"
    "\<And>s. entry a p = Some s \<Longrightarrow> num_add (messages s) (Fin 1) \<noteq> Fin 0"
  shows "entry (record_message p (msg_length x) (msg_stamps x) a) p = Some (update_stats (entry a p) x)"
  using assms by (auto simp: entry_def record_message_def update_stats_def cell_at_set Let_def)

section \<open>The store\<close>

definition store_inv :: "store \<Rightarrow> bool" where
  "store_inv st \<longleftrightarrow> length (store_keys st) = store_size st \<and> distinct (store_keys st) \<and>
     (\<forall>ch i. map_get (ids st) ch = Some i \<longleftrightarrow> i < store_size st \<and> store_keys st ! i = ch) \<and>
     60 \<le> cell_count (stats st) \<and> store_size st * 60 < cell_count (stats st) \<and>
     (\<forall>j. store_size st * 60 \<le> j \<and> j < cell_count (stats st) \<longrightarrow> cell_at (stats st) j = Fin 0)"

definition store_value :: "store \<Rightarrow> jsstring \<Rightarrow> nat \<Rightarrow> channel_stats option" where
  "store_value st ch m =
     (case map_get (ids st) ch of None \<Rightarrow> None | Some k \<Rightarrow> entry (stats st) (slot k m))"

lemma store_inv_makeStore: "store_inv makeStore" "store_value makeStore ch m = None"
  by (simp_all add: store_inv_def store_value_def makeStore_def new_array_def cell_at_def jm.get_empty)

lemma store_known: "store_inv st \<Longrightarrow> ch \<in> set (store_keys st) \<longleftrightarrow> map_get (ids st) ch \<noteq> None"
  by (fastforce simp: store_inv_def in_set_conv_nth)

definition add_id :: "jsstring \<Rightarrow> store \<Rightarrow> store" where
  "add_id ch st = snd (store_id ch st)"

lemma ensure_fields [simp]:
  "ids (ensure st) = ids st" "store_keys (ensure st) = store_keys st" "store_size (ensure st) = store_size st"
  by (simp_all add: ensure_def)

lemma ensure_cells:
  assumes "60 \<le> cell_count (stats st)" "store_size st * 60 < cell_count (stats st) + 60"
  shows "store_size st * 60 < cell_count (stats (ensure st))" "cell_count (stats st) \<le> cell_count (stats (ensure st))"
    "j < cell_count (stats st) \<Longrightarrow> cell_at (stats (ensure st)) j = cell_at (stats st) j"
    "cell_count (stats st) \<le> j \<Longrightarrow> j < cell_count (stats (ensure st)) \<Longrightarrow> cell_at (stats (ensure st)) j = Fin 0"
  using assms by (auto simp: ensure_def grow_def cell_at_def)

lemma store_id_new:
  assumes "map_get (ids st) ch = None"
  shows "store_id ch st = (store_size st, (ensure (st\<lparr>store_size := store_size st + 1\<rparr>))
    \<lparr>ids := map_set ch (store_size st) (ids st), store_keys := store_keys st @ [ch]\<rparr>)"
  using assms by (simp add: store_id_def Let_def)

lemma entry_ensure:
  assumes "store_inv st" "k < store_size st" "m < 12"
  shows "entry (stats (ensure (st\<lparr>store_size := store_size st + 1\<rparr>))) (slot k m) = entry (stats st) (slot k m)"
proof (rule entry_cong)
  let ?st = "st\<lparr>store_size := store_size st + 1\<rparr>"
  fix j
  assume "j < slot k m + 5"
  moreover have "slot k m + 5 \<le> store_size st * 60" using assms(2,3) unfolding slot_def by linarith
  ultimately have "j < cell_count (stats ?st)" using assms(1) by (simp add: store_inv_def)
  then show "cell_at (stats (ensure ?st)) j = cell_at (stats st) j"
    using ensure_cells(3) [of ?st j] assms(1) by (simp add: store_inv_def)
qed

lemma add_id_inv:
  assumes "store_inv st"
  shows "store_inv (add_id ch st)" "m < 12 \<Longrightarrow> store_value (add_id ch st) c m = store_value st c m"
    "map_get (ids (add_id ch st)) ch = Some (fst (store_id ch st))"
    "store_keys (add_id ch st) = (if ch \<in> set (store_keys st) then store_keys st else store_keys st @ [ch])"
proof -
  have all: "store_inv (add_id ch st) \<and> (m < 12 \<longrightarrow> store_value (add_id ch st) c m = store_value st c m) \<and>
      map_get (ids (add_id ch st)) ch = Some (fst (store_id ch st)) \<and>
      store_keys (add_id ch st) = (if ch \<in> set (store_keys st) then store_keys st else store_keys st @ [ch])"
  proof (cases "map_get (ids st) ch")
    case (Some k)
    then show ?thesis using assms by (simp add: add_id_def store_id_def store_known [OF assms])
  next
    case None
    let ?n = "store_size st"
    let ?st = "st\<lparr>store_size := ?n + 1\<rparr>"
    have st': "add_id ch st = (ensure ?st)\<lparr>ids := map_set ch ?n (ids st), store_keys := store_keys st @ [ch]\<rparr>"
      using store_id_new [OF None] by (simp add: add_id_def)
    have fresh: "ch \<notin> set (store_keys st)" using None store_known [OF assms] by simp
    have inv: "length (store_keys st) = ?n" "distinct (store_keys st)"
      "\<And>c i. map_get (ids st) c = Some i \<longleftrightarrow> i < ?n \<and> store_keys st ! i = c"
      "60 \<le> cell_count (stats ?st)" "?n * 60 < cell_count (stats st)"
      "\<And>j. ?n * 60 \<le> j \<Longrightarrow> j < cell_count (stats st) \<Longrightarrow> cell_at (stats st) j = Fin 0"
      using assms by (auto simp: store_inv_def)
    then have "store_size ?st * 60 < cell_count (stats ?st) + 60" by simp
    note cells = ensure_cells [OF inv(4) this]
    have "map_get (map_set ch ?n (ids st)) c = Some i \<longleftrightarrow> i < Suc ?n \<and> (store_keys st @ [ch]) ! i = c" for c i
      using inv(1,3) None fresh by (auto simp: jm.get_put nth_append less_Suc_eq)
    moreover have "cell_at (stats (ensure ?st)) j = Fin 0"
      if "Suc ?n * 60 \<le> j" "j < cell_count (stats (ensure ?st))" for j
      using that inv(6) [of j] cells(3) [of j] cells(4) [of j]
      by (cases "j < cell_count (stats st)") auto
    ultimately have "store_inv (add_id ch st)"
      using inv(1,2) cells(1,2) fresh inv(4) unfolding st' store_inv_def by auto
    moreover have "store_value (add_id ch st) c m = store_value st c m" if "m < 12"
    proof (cases "c = ch")
      case True
      have "cell_at (stats (ensure ?st)) (slot ?n m + 3) = Fin 0"
      proof (cases "slot ?n m + 3 < cell_count (stats st)")
        case True
        then show ?thesis using cells(3) [of "slot ?n m + 3"] inv(6) by (simp add: slot_def)
      next
        case False
        have "slot ?n m + 3 < Suc ?n * 60" using that by (simp add: slot_def)
        with False cells(1) show ?thesis using cells(4) [of "slot ?n m + 3"] by simp
      qed
      then show ?thesis using True None unfolding st' by (simp add: store_value_def jm.get_put entry_def)
    next
      case False
      show ?thesis
      proof (cases "map_get (ids st) c")
        case (Some k)
        then have "k < ?n" using inv(3) by blast
        with Some False show ?thesis
          using entry_ensure [OF assms _ that, of k] unfolding st' by (simp add: store_value_def jm.get_put)
      qed (use False in \<open>simp add: st' store_value_def jm.get_put\<close>)
    qed
    ultimately show ?thesis using fresh store_id_new [OF None] unfolding st' by (simp add: jm.get_put)
  qed
  then show "store_inv (add_id ch st)" "m < 12 \<Longrightarrow> store_value (add_id ch st) c m = store_value st c m"
    "map_get (ids (add_id ch st)) ch = Some (fst (store_id ch st))"
    "store_keys (add_id ch st) = (if ch \<in> set (store_keys st) then store_keys st else store_keys st @ [ch])"
    by blast+
qed

text \<open>An update of one slot of a known channel.\<close>

lemma update_slot:
  assumes "store_inv st" "map_get (ids st) ch = Some k" "m < 12" "within_slot (slot k m) (stats st) b"
  shows "store_inv (st\<lparr>stats := b\<rparr>)"
    "store_value (st\<lparr>stats := b\<rparr>) ch m = entry b (slot k m)"
    "m' < 12 \<Longrightarrow> (ch', m') \<noteq> (ch, m) \<Longrightarrow> store_value (st\<lparr>stats := b\<rparr>) ch' m' = store_value st ch' m'"
proof -
  have k: "k < store_size st" "store_keys st ! k = ch" using assms(1,2) by (simp_all add: store_inv_def)
  then have "slot k m + 5 \<le> store_size st * 60" using assms(3) unfolding slot_def by linarith
  then have "cell_at b j = cell_at (stats st) j" if "store_size st * 60 \<le> j" for j
    using assms(4) that by (simp add: within_slot_def)
  moreover have "cell_count b = cell_count (stats st)" using assms(4) by (simp add: within_slot_def)
  ultimately show "store_inv (st\<lparr>stats := b\<rparr>)" using assms(1) by (simp add: store_inv_def)
  show "store_value (st\<lparr>stats := b\<rparr>) ch m = entry b (slot k m)" using assms(2) by (simp add: store_value_def)
  assume m': "m' < 12" "(ch', m') \<noteq> (ch, m)"
  show "store_value (st\<lparr>stats := b\<rparr>) ch' m' = store_value st ch' m'"
  proof (cases "map_get (ids st) ch'")
    case (Some k')
    then have "(k', m') \<noteq> (k, m)" using k(2) m'(2) assms(1) by (auto simp: store_inv_def)
    with Some show ?thesis using within_slot_entry [OF assms(4,3) m'(1)] by (simp add: store_value_def)
  qed (simp add: store_value_def)
qed

section \<open>Adding a message\<close>

definition put_message :: "jsstring \<Rightarrow> nat \<Rightarrow> number \<Rightarrow> number \<Rightarrow> store \<Rightarrow> store" where
  "put_message ch m ml n st = (case store_id ch st of
     (k, st) \<Rightarrow> st\<lparr>stats := record_message (k * 60 + m * 5) ml n (stats st)\<rparr>)"

lemma slot_in_store: "store_inv st \<Longrightarrow> map_get (ids st) ch = Some k \<Longrightarrow> m < 12 \<Longrightarrow> slot k m + 4 < cell_count (stats st)"
  unfolding store_inv_def slot_def by fastforce

lemma put_message:
  fixes x :: message
  assumes "store_inv st" "m < 12"
    "\<forall>s. store_value st ch m = Some s \<longrightarrow> num_add (messages s) (Fin 1) \<noteq> Fin 0"
  defines "st' \<equiv> put_message ch m (msg_length x) (msg_stamps x) st"
  shows "store_inv st'" "store_keys st' = (if ch \<in> set (store_keys st) then store_keys st else store_keys st @ [ch])"
    "store_value st' ch m = Some (update_stats (store_value st ch m) x)"
    "m' < 12 \<Longrightarrow> (ch', m') \<noteq> (ch, m) \<Longrightarrow> store_value st' ch' m' = store_value st ch' m'"
proof -
  let ?k = "fst (store_id ch st)"
  let ?st = "add_id ch st"
  note inv = add_id_inv(1) [OF assms(1), of ch]
  note get = add_id_inv(3) [OF assms(1), of ch]
  have st': "st' = ?st\<lparr>stats := record_message (slot ?k m) (msg_length x) (msg_stamps x) (stats ?st)\<rparr>"
    by (simp add: st'_def put_message_def add_id_def slot_def split_beta)
  have val: "entry (stats ?st) (slot ?k m) = store_value st ch m"
    using add_id_inv(2) [OF assms(1,2), of ch ch] get by (simp add: store_value_def)
  note upd = update_slot [OF inv get assms(2) record_message_within]
  show "store_inv st'" unfolding st' by (rule upd(1))
  show "store_keys st' = (if ch \<in> set (store_keys st) then store_keys st else store_keys st @ [ch])"
    unfolding st' using add_id_inv(4) [OF assms(1), of ch] by simp
  show "store_value st' ch m = Some (update_stats (store_value st ch m) x)"
    unfolding st' upd(2)
    using record_message_entry [OF slot_in_store [OF inv get assms(2)], of x] assms(3) by (simp add: val)
  show "m' < 12 \<Longrightarrow> (ch', m') \<noteq> (ch, m) \<Longrightarrow> store_value st' ch' m' = store_value st ch' m'"
    unfolding st' using upd(3) add_id_inv(2) [OF assms(1)] by simp
qed

text \<open>The rows of a channel and a month.\<close>

definition row_month :: "row \<Rightarrow> nat" where
  "row_month r = utc_month (row_time r)"

definition group_of :: "row list \<Rightarrow> jsstring \<Rightarrow> nat \<Rightarrow> row list" where
  "group_of rs ch m = filter (\<lambda>r. row_channel r = ch \<and> row_month r = m) rs"

definition put_row :: "store \<Rightarrow> row \<Rightarrow> store" where
  "put_row st r = put_message (row_channel r) (row_month r) (Fin (of_nat (row_length r))) (Fin (of_nat (row_stamps r))) st"

definition first_occurrences :: "'a list \<Rightarrow> 'a list" where
  "first_occurrences xs = foldl (\<lambda>acc x. if x \<in> set acc then acc else acc @ [x]) [] xs"

lemma first_occurrences_snoc:
  "first_occurrences (xs @ [x]) = (if x \<in> set (first_occurrences xs) then first_occurrences xs else first_occurrences xs @ [x])"
  by (simp add: first_occurrences_def)

lemma first_occurrences: "set (first_occurrences xs) = set xs" "distinct (first_occurrences xs)"
  by (induction xs rule: rev_induct) (auto simp: first_occurrences_snoc, simp_all add: first_occurrences_def)

text \<open>A store that holds the statistics of some rows.\<close>

definition store_of :: "row list \<Rightarrow> store \<Rightarrow> bool" where
  "store_of rs st \<longleftrightarrow> store_inv st \<and> set (store_keys st) = row_channel ` set rs \<and>
     (\<forall>ch m. m < 12 \<longrightarrow> store_value st ch m = group_stats (group_of rs ch m))"

lemma utc_month_less: "utc_month t < 12"
proof -
  have "utc_month t \<le> length [2..<13::nat]" unfolding utc_month_def by (rule length_filter_le)
  then show ?thesis by simp
qed

lemma row_month_less: "row_month r < 12"
  by (simp add: row_month_def utc_month_less)

lemma num_add_messages:
  assumes "group_stats g = Some s" "length g < 2 ^ 53"
  shows "num_add (messages s) (Fin 1) \<noteq> Fin 0"
proof -
  have "messages s = Fin (of_nat (length g))" using assms(1) by (auto simp: group_stats_def split: if_splits)
  moreover have "num_add (Fin (of_nat (length g))) (Fin 1) = Fin (of_nat (length g + 1))"
    using Fin_nat_add [of "length g" 1] assms(2) by (simp del: num_add.simps)
  moreover have "(of_nat (length g + 1) :: rat) \<noteq> 0" unfolding of_nat_eq_0_iff by simp
  ultimately show ?thesis by (simp del: num_add.simps of_nat_add)
qed

lemma put_row_store:
  assumes "store_of rs st" "safe_rows (rs @ [r])"
  shows "store_of (rs @ [r]) (put_row st r)"
proof -
  let ?ch = "row_channel r" and ?m = "row_month r"
  have st: "store_inv st" "set (store_keys st) = row_channel ` set rs"
    "\<And>ch m. m < 12 \<Longrightarrow> store_value st ch m = group_stats (group_of rs ch m)"
    using assms(1) by (auto simp: store_of_def)
  have group: "group_of (rs @ [r]) ?ch ?m = group_of rs ?ch ?m @ [r]"
    "group_of (rs @ [r]) ch m = group_of rs ch m" if "(ch, m) \<noteq> (?ch, ?m)" for ch m
    using that by (auto simp: group_of_def)
  have safe: "safe_rows (group_of rs ?ch ?m @ [r])"
    using safe_rows_filter [OF assms(2), of "\<lambda>x. row_channel x = ?ch \<and> row_month x = ?m"] by (simp add: group_of_def)
  have "length (group_of rs ?ch ?m) < 2 ^ 53" using safe by (simp add: safe_rows_def)
  then have pos: "\<forall>s. store_value st ?ch ?m = Some s \<longrightarrow> num_add (messages s) (Fin 1) \<noteq> Fin 0"
    using num_add_messages by (simp add: st(3) row_month_less)
  note put = put_message [where ch = ?ch and m = ?m, OF st(1) row_month_less pos, where x = "row_message r"]
  have put_row: "put_row st r = put_message ?ch ?m (msg_length (row_message r)) (msg_stamps (row_message r)) st"
    by (simp add: put_row_def row_message_def)
  have "store_value (put_row st r) ch m = group_stats (group_of (rs @ [r]) ch m)" if "m < 12" for ch m
  proof (cases "(ch, m) = (?ch, ?m)")
    case True
    then show ?thesis
      using put(3) group_stats_snoc [OF safe] by (simp add: put_row group(1) st(3) row_month_less group_of_def)
  next
    case False
    then show ?thesis using put(4) [OF that] that by (simp add: put_row group(2) st(3))
  qed
  moreover have "set (store_keys (put_row st r)) = row_channel ` set (rs @ [r])"
    unfolding put_row put(2) using st(2) by auto
  ultimately show ?thesis using put(1) by (simp add: store_of_def put_row)
qed

lemma put_rows_store: "safe_rows rs \<Longrightarrow> store_of rs (foldl put_row makeStore rs)"
proof (induction rs rule: rev_induct)
  case Nil
  show ?case using store_inv_makeStore by (simp add: store_of_def group_of_def group_stats_def makeStore_def)
next
  case (snoc r rs)
  then have "safe_rows rs" by (simp add: safe_rows_def)
  with snoc show ?case by (simp add: put_row_store)
qed

end
