(* ===== verification/Optimized_Lines.thy ===== *)
theory Optimized_Lines
  imports Optimized_Store Js_Date
begin

text \<open>
  A line of the optimised analyser: the table of months, the positional reading of the timestamp and
  the two comma searches put exactly the message of the row into the store.
\<close>

section \<open>The table of months\<close>

definition month_days :: "int list" where
  "month_days = [0, 31, 59, 90, 120, 151, 181, 212, 243, 273, 304, 334, 365]"

lemma month_days:
  "m \<le> 12 \<Longrightarrow> MONTH_START ! m = YEAR_START + month_days ! m * 86400" "MONTH_START = monthStartUnix"
  "m < 12 \<Longrightarrow> month_days ! m < month_days ! (m + 1)"
  by (auto simp: MONTH_START_def YEAR_START_def month_days_def monthStartUnix_def le_Suc_eq less_Suc_eq numeral_eq_Suc)

definition day_in_month :: "nat \<Rightarrow> nat \<Rightarrow> bool" where
  "day_in_month d m \<longleftrightarrow> m < 12 \<and> month_days ! m \<le> int d \<and> int d < month_days ! (m + 1)"

text \<open>The filling loop keeps the month of the day before.\<close>

lemma fill_days:
  assumes "k \<le> 365"
  shows "case foldl fill_day (0, []) [0..<k] of (m, days) \<Rightarrow>
    m < 12 \<and> month_days ! m \<le> int k \<and> int k \<le> month_days ! (m + 1) \<and>
    length days = k \<and> (\<forall>d < k. day_in_month d (days ! d))"
  using assms
proof (induction k)
  case 0
  show ?case by (simp add: month_days_def)
next
  case (Suc k)
  obtain m days where acc: "foldl fill_day (0, []) [0..<k] = (m, days)" by fastforce
  with Suc have m: "m < 12" "month_days ! m \<le> int k" "int k \<le> month_days ! (m + 1)"
    and days: "length days = k" "\<forall>d < k. day_in_month d (days ! d)" by simp_all
  define m' where "m' = (if month_days ! (m + 1) \<le> int k then m + 1 else m)"
  have step: "fill_day (m, days) k = (m', days @ [m'])"
    using month_days(1) [of "m + 1"] m(1) by (simp add: fill_day_def m'_def)
  have "m + 1 \<noteq> 12" if "month_days ! (m + 1) \<le> int k"
    using that Suc.prems by (auto simp: month_days_def)
  then have "day_in_month k m'"
    using m month_days(3) [of "m + 1"] by (auto simp: day_in_month_def m'_def)
  then show ?case
    using acc step days by (auto simp: day_in_month_def nth_append less_Suc_eq)
qed

lemma month_by_day: "d < 365 \<Longrightarrow> day_in_month d (MONTH_BY_DAY ! d)"
  using fill_days [of 365] by (simp add: MONTH_BY_DAY_def split_beta)

lemma month_of_time_calendar:
  assumes "1798761600 \<le> t" "t < 1830297600"
  shows "month_of_time (Some (int t)) = Some (utc_month t)"
proof -
  define d where "d = nat ((int t - YEAR_START) div 86400)"
  have "0 \<le> (int t - YEAR_START) div 86400" "(int t - YEAR_START) div 86400 < 365"
    using assms by (simp_all add: YEAR_START_def)
  then have d: "d < 365" "int d = (int t - YEAR_START) div 86400" by (simp_all add: d_def)
  have "int t - YEAR_START = int d * 86400 + (int t - YEAR_START) mod 86400"
    unfolding d(2) by simp
  moreover have "0 \<le> (int t - YEAR_START) mod 86400" "(int t - YEAR_START) mod 86400 < 86400" by simp_all
  ultimately have "YEAR_START + int d * 86400 \<le> int t" "int t < YEAR_START + int d * 86400 + 86400"
    by linarith+
  then have "utc_month t = MONTH_BY_DAY ! d"
    using month_by_day [OF d(1)] month_days(1) [of "MONTH_BY_DAY ! d"] month_days(1) [of "MONTH_BY_DAY ! d + 1"]
    by (intro utc_month_eq) (simp_all add: day_in_month_def month_days(2))
  then show ?thesis
    using d by (simp add: month_of_time_def Let_def flip: d(2))
qed

section \<open>The timestamp\<close>

lemma digit_unat: "is_digit c \<Longrightarrow> int (digit_value c) = int (unat c) - 48"
  by (auto simp: is_digit_def digit_value_def word_le_nat_alt)

lemma timestamp_prefix:
  assumes "list_all is_digit (take (Suc k) s)" "k < length s"
  shows "foldl (\<lambda>x i. case (x, char_code s i) of (Some x, Some c) \<Rightarrow> Some (x * 10 + c - 48) | _ \<Rightarrow> None)
      (map_option (\<lambda>c. c - 48) (char_code s 0)) [1..<Suc k] = Some (int (digits_value (take (Suc k) s)))"
  using assms
proof (induction k)
  case 0
  then show ?case
    by (cases s) (simp_all add: char_code_def digits_value_def digit_unat)
next
  case (Suc k)
  have s: "take (Suc (Suc k)) s = take (Suc k) s @ [s ! Suc k]"
    using Suc.prems(2) by (simp add: take_Suc_conv_app_nth)
  then have "list_all is_digit (take (Suc k) s)" "is_digit (s ! Suc k)" using Suc.prems(1) by simp_all
  with Suc show ?case
    unfolding s by (simp add: char_code_def digits_value_snoc digit_unat)
qed

lemma timestamp10:
  assumes "all_digits d" "length d = 10"
  shows "timestamp10 (d @ s) = Some (int (digits_value d))"
proof -
  have "list_all is_digit (take (Suc 9) (d @ s))" using assms by (simp add: all_digits_def)
  from timestamp_prefix [OF this] assms(2) show ?thesis by (simp add: timestamp10_def)
qed

lemma length_nat_to_string_ge: "10 ^ k \<le> n \<Longrightarrow> k < length (nat_to_string n)"
proof (induction k arbitrary: n)
  case (Suc k)
  have "10 ^ k \<le> n div 10" using Suc.prems by (simp add: less_eq_div_iff_mult_less_eq)
  moreover have "10 \<le> n" using Suc.prems by (metis one_le_numeral one_le_power order_trans mult_le_mono2 mult.right_neutral power_Suc)
  ultimately show ?case using Suc.IH [of "n div 10"] by (simp add: nat_to_string_more)
qed (simp add: length_greater_0_conv)

lemma length_timestamp:
  assumes "1798761600 \<le> t" "t < 1830297600"
  shows "length (nat_to_string t) = 10"
  using length_nat_to_string_ge [of 9 t] length_nat_to_string_le [of t 10] assms by simp

section \<open>A line\<close>

lemma index_from_first:
  assumes "44 \<notin> set xs" "int (length pre) = a"
  shows "index_from (pre @ xs @ 44 # ys) 44 a = a + int (length xs)"
proof -
  have "nat a = length pre" using assms(2) by linarith
  then have "position 44 (drop (min (length (pre @ xs @ 44 # ys)) (nat a)) (pre @ xs @ 44 # ys)) = Some (length xs)"
    using assms(1) by (simp add: position_append_notin)
  then show ?thesis using assms(2) by (simp add: index_from_def Let_def)
qed

lemma slice_middle:
  assumes "int (length pre) = a" "int (length pre + length xs) = b"
  shows "slice (pre @ xs @ ys) a b = xs"
proof -
  have "clamp (pre @ xs @ ys) a = length pre" "clamp (pre @ xs @ ys) b = length pre + length xs"
    using assms by (auto simp: clamp_def)
  then show ?thesis by (simp add: slice_def)
qed

lemma slice_from_end: "int (length pre) = a \<Longrightarrow> slice_from (pre @ xs) a = xs"
  by (auto simp: slice_from_def clamp_def)

lemma row_line_parts: "row_line r = nat_to_string (row_time r) @ 44 # row_channel r @ 44 # nat_to_string (row_length r)
    @ 44 # nat_to_string (row_stamps r)"
  by (simp add: row_line_def)

lemma processLine_row:
  assumes "valid_row r" "row_length r \<le> 2 ^ 53" "row_stamps r \<le> 2 ^ 53"
  shows "processLine st (row_line r) = put_row st r"
proof -
  let ?t = "nat_to_string (row_time r)" and ?l = "nat_to_string (row_length r)" and ?n = "nat_to_string (row_stamps r)"
    and ?ch = "row_channel r" and ?line = "row_line r"
  have t: "1798761600 \<le> row_time r" "row_time r < 1830297600" and ch: "44 \<notin> set ?ch"
    using assms(1) by (simp_all add: valid_row_def)
  note len = length_timestamp [OF t]
  let ?c1 = "11 + int (length ?ch)" and ?c2 = "11 + int (length ?ch) + 1 + int (length ?l)"
  have line: "?line = (?t @ [44]) @ ?ch @ 44 # ?l @ 44 # ?n" "?line = (?t @ 44 # ?ch @ [44]) @ ?l @ 44 # ?n"
    "?line = (?t @ 44 # ?ch @ 44 # ?l @ [44]) @ ?n"
    by (simp_all add: row_line_parts)
  have c1: "index_from ?line 44 11 = ?c1"
    unfolding line(1) using ch len by (intro index_from_first) simp_all
  have c2: "index_from ?line 44 (?c1 + 1) = ?c2"
    unfolding line(2) using no_comma_digits len by (intro index_from_first [THEN trans]) simp_all
  have "slice ?line 11 ?c1 = ?ch"
    unfolding line(1) using len by (intro slice_middle) simp_all
  moreover have "slice ?line (?c1 + 1) ?c2 = ?l"
    unfolding line(2) using len by (intro slice_middle) simp_all
  moreover have "slice_from ?line (?c2 + 1) = ?n"
    unfolding line(3) using len by (intro slice_from_end) simp_all
  moreover have "month_of_time (timestamp10 ?line) = Some (row_month r)"
    using timestamp10 [of ?t] len month_of_time_calendar [OF t] by (simp add: row_line_parts row_month_def)
  moreover have "?line \<noteq> []" by (rule row_line_not_Nil)
  ultimately show ?thesis
    using assms(2,3) c1 c2
    by (simp add: processLine_def put_row_def put_message_def Let_def string_to_number_nat split: prod.splits)
qed

lemma processLine_rows:
  assumes "\<forall>r \<in> set rs. valid_row r \<and> row_length r \<le> 2 ^ 53 \<and> row_stamps r \<le> 2 ^ 53"
  shows "foldl processLine st (map row_line rs) = foldl put_row st rs"
  using assms by (induction rs arbitrary: st) (simp_all add: processLine_row)

end
