(* ===== verification/Optimized_Ranges.thy ===== *)
theory Optimized_Ranges
  imports Optimized_Lines
begin

text \<open>
  Reading the file in ranges: whatever the reads of a range give, short ones included, it is analysed as
  the lines of its text; the search for a line end needs a full first read or a buffer without newlines; and the ranges cut the file at line ends, so that every row is in exactly one of them.
\<close>

section \<open>Bytes and text\<close>

definition ascii_text :: "jsstring \<Rightarrow> bool" where
  "ascii_text s \<longleftrightarrow> (\<forall>c \<in> set s. c < 128)"

definition bytes_of :: "jsstring \<Rightarrow> byte list" where
  "bytes_of s = map ucast s"

lemma byte_of_unit:
  assumes "(c :: code_unit) < 128"
  shows "unat (ucast c :: byte) = unat c" "(ucast c :: byte) = 10 \<longleftrightarrow> c = 10"
proof -
  have "unat c < 128" using assms by (simp add: word_less_nat_alt)
  then have "take_bit 8 (unat c) = unat c" by (intro take_bit_nat_eq_self) simp
  then show u: "unat (ucast c :: byte) = unat c"
    using unsigned_of_nat [of "unat c", where 'b = 8] by simp
  have "unat (10 :: byte) = 10" "unat (10 :: code_unit) = 10" by simp_all
  with u show "(ucast c :: byte) = 10 \<longleftrightarrow> c = 10" by (metis word_unat_eq_iff)
qed

lemma length_bytes_of [simp]: "length (bytes_of s) = length s"
  by (simp add: bytes_of_def)

lemma ascii_bytes: "ascii_text s \<Longrightarrow> ascii (bytes_of s) = s"
  by (induction s) (auto simp: ascii_def bytes_of_def ascii_text_def byte_of_unit word_less_nat_alt)

lemma ascii_part: "ascii_text s \<Longrightarrow> ascii_text (take n (drop m s))"
  by (auto simp: ascii_text_def dest!: in_set_takeD in_set_dropD)

lemma bytes_part: "take n (drop m (bytes_of s)) = bytes_of (take n (drop m s))"
  by (simp add: bytes_of_def take_map drop_map)

section \<open>Reading a range\<close>

lemma split_on_continue:
  "split_on c (xs @ ys) = butlast (split_on c xs) @ split_on c (last (split_on c xs) @ ys)"
proof (induction xs)
  case (Cons x xs)
  obtain z zs where "split_on c xs = z # zs" by (cases "split_on c xs") auto
  with Cons show ?case by (cases zs) auto
qed simp

lemma butlast_append_split: "butlast (xs @ split_on c ys) = xs @ butlast (split_on c ys)"
  by (simp add: butlast_append)

lemma read_range_text:
  assumes "ascii_text T" "stop \<le> length T" "10 \<notin> set carry"
  shows "read_range given (bytes_of T) pos stop carry st =
    (let parts = split_on 10 (carry @ take (stop - pos) (drop pos T))
     in (last parts, foldl processLine st (butlast parts)))"
  using assms(2,3)
proof (induction given "bytes_of T" pos stop carry st rule: read_range.induct)
  case (1 given pos stop carry st)
  show ?case
  proof (cases "pos < stop")
    case True
    define n where "n = min (min range_buffer (stop - pos)) (max 1 (given pos))"
    have n: "0 < n" "n \<le> stop - pos" using True by (auto simp: n_def range_buffer_def)
    let ?text = "read_bytes (given pos) (bytes_of T) pos (min range_buffer (stop - pos))"
    let ?parts = "split_on 10 (carry @ take n (drop pos T))"
    have txt_eq: "?text = bytes_of (take n (drop pos T))" by (simp add: read_bytes_def bytes_part n_def)
    then have len: "length ?text = n" using n 1(2) by simp
    have ascii: "ascii ?text = take n (drop pos T)"
      unfolding txt_eq by (intro ascii_bytes ascii_part assms(1))
    have ne: "?text \<noteq> []" using len n(1) by force
    have "10 \<notin> set (last ?parts)" by (intro split_on_parts_notin [of _ 10 "carry @ take n (drop pos T)"]) simp
    then have IH: "read_range given (bytes_of T) (pos + n) stop (last ?parts) (foldl processLine st (butlast ?parts)) =
        (let parts = split_on 10 (last ?parts @ take (stop - (pos + n)) (drop (pos + n) T))
         in (last parts, foldl processLine (foldl processLine st (butlast ?parts)) (butlast parts)))"
      using 1(1) [OF True refl _ refl] 1(2) ne len ascii by simp
    have "take (stop - pos) (drop pos T) = take n (drop pos T) @ take (stop - (pos + n)) (drop (pos + n) T)"
      using n take_add [of n "stop - pos - n" "drop pos T"] by (simp add: add.commute)
    then have "split_on 10 (carry @ take (stop - pos) (drop pos T)) =
        butlast ?parts @ split_on 10 (last ?parts @ take (stop - (pos + n)) (drop (pos + n) T))"
      using split_on_continue [of 10 "carry @ take n (drop pos T)"] by simp
    then show ?thesis
      using True IH len ascii ne unfolding read_range.simps [of _ _ pos]
      by (simp add: Let_def butlast_append_split)
  next
    case False
    with 1(3) show ?thesis unfolding read_range.simps [of _ _ pos] by (simp add: split_on_notin)
  qed
qed

lemma split_unlines: "\<forall>l \<in> set ls. 10 \<notin> set l \<Longrightarrow> split_on 10 (unlines ls) = ls @ [[]]"
  by (induction ls) (simp_all add: unlines_def split_on_append)

definition result_of :: "store \<Rightarrow> range_result" where
  "result_of st = \<lparr>result_keys = store_keys st,
     result_stats = (stats st)\<lparr>cell_count := min (cell_count (stats st)) (store_size st * 60)\<rparr>\<rparr>"

lemma row_line_newline: "valid_row r \<Longrightarrow> 10 \<notin> set (row_line r)"
  using row_line_no_line_end by (simp add: no_line_end_def)

lemma analyzeRange_rows:
  assumes "ascii_text T" "b \<le> length T" "take (b - a) (drop a T) = unlines (map row_line rs)"
    "\<forall>r \<in> set rs. valid_row r \<and> row_length r \<le> 2 ^ 53 \<and> row_stamps r \<le> 2 ^ 53"
  shows "analyzeRange reads (bytes_of T) (a, b) = result_of (foldl put_row makeStore rs)"
proof -
  have "split_on 10 (take (b - a) (drop a T)) = map row_line rs @ [[]]"
    unfolding assms(3) using assms(4) by (intro split_unlines) (auto simp: row_line_newline)
  then have "read_range (range_given reads (a, b)) (bytes_of T) a b [] makeStore = ([], foldl put_row makeStore rs)"
    using read_range_text [OF assms(1,2), of "[]"] processLine_rows [OF assms(4)] by simp
  then show ?thesis by (simp add: analyzeRange_def result_of_def)
qed

section \<open>The next line end\<close>

definition next_line :: "byte list \<Rightarrow> nat \<Rightarrow> nat" where
  "next_line C pos = (case position 10 (drop pos C) of Some i \<Rightarrow> pos + i + 1 | None \<Rightarrow> length C)"

lemma position_append_Some: "position c xs = Some i \<Longrightarrow> position c (xs @ ys) = Some i"
  by (induction xs arbitrary: i) (auto split: if_splits)

text \<open>A search that goes on has found no newline in its whole buffer, so nothing stale is left behind
  the later reads, whatever they give.  Only the first read can leave a stale newline in the buffer: when
  it gives less than it was asked for and the buffer had a newline before.\<close>

lemma findNewline_clean:
  assumes "10 \<notin> set b" "b \<noteq> []"
  shows "findNewline given C b pos (length C) = next_line C pos"
  using assms
proof (induction given C b pos "length C" rule: findNewline.induct)
  case (1 given C b pos)
  show ?case
  proof (cases "pos < length C")
    case False
    then show ?thesis unfolding findNewline.simps [of _ _ _ pos] by (simp add: next_line_def)
  next
    case True
    define n where "n = min (min (length b) (length C - pos)) (max 1 (given pos))"
    let ?text = "take n (drop pos C)"
    let ?b = "?text @ drop n b"
    have n: "0 < n" "n \<le> length C - pos" "n \<le> length b" using True 1(3) by (auto simp: n_def)
    have txt_eq: "read_bytes (given pos) C pos (min (length b) (length C - pos)) = ?text" "length ?text = n"
      using n by (simp_all add: read_bytes_def n_def)
    have "drop pos C = ?text @ drop (pos + n) C" by (simp add: add.commute flip: drop_drop)
    then have rest: "position 10 (drop pos C) = position 10 (?text @ drop (pos + n) C)" by (rule arg_cong)
    show ?thesis
    proof (cases "position 10 ?text")
      case (Some i)
      then have "position 10 ?b = Some i" "position 10 (drop pos C) = Some i"
        unfolding rest by (simp_all add: position_append_Some)
      then show ?thesis
        using True txt_eq unfolding findNewline.simps [of _ _ _ pos] by (simp add: next_line_def Let_def)
    next
      case None
      then have notin: "10 \<notin> set ?text" by simp
      have clean: "10 \<notin> set ?b" using notin 1(2) in_set_dropD by fastforce
      have b: "position 10 ?b = None" "?b \<noteq> []" "length ?b = length b" using clean n txt_eq 1(3) by auto
      have "findNewline given C ?b (pos + n) (length C) = next_line C (pos + n)"
        using 1(1) [OF True refl refl] clean b txt_eq n by simp
      moreover have "next_line C (pos + n) = next_line C pos"
        unfolding next_line_def rest position_append_notin [OF notin] txt_eq(2)
        by (cases "position 10 (drop (pos + n) C)") (simp_all del: position_None_iff)
      ultimately show ?thesis
        using True txt_eq n b None unfolding findNewline.simps [of _ _ _ pos]
        by (simp add: Let_def del: position_None_iff length_take)
    qed
  qed
qed

definition search_reads :: "(nat \<Rightarrow> nat) \<Rightarrow> byte list \<Rightarrow> nat \<Rightarrow> nat \<Rightarrow> bool" where
  "search_reads given b pos stop \<longleftrightarrow> min (length b) (stop - pos) \<le> given pos \<or> 10 \<notin> set b"

lemma findNewline_next:
  assumes "last C = 10" "b \<noteq> []" "search_reads given b pos (length C)"
  shows "findNewline given C b pos (length C) = next_line C pos"
proof (cases "10 \<in> set b \<and> pos < length C")
  case False
  then consider "10 \<notin> set b" | "\<not> pos < length C" by blast
  then show ?thesis
  proof cases
    case 1
    then show ?thesis by (rule findNewline_clean [OF _ assms(2)])
  next
    case 2
    then show ?thesis unfolding findNewline.simps [of _ _ _ pos] by (simp add: next_line_def)
  qed
next
  case True
  define n where "n = min (length b) (length C - pos)"
  let ?text = "take n (drop pos C)"
  let ?b = "?text @ drop n b"
  have full: "min (length b) (length C - pos) \<le> given pos" using assms(3) True by (simp add: search_reads_def)
  have "0 < length b" using assms(2) by simp
  with full have n: "0 < n" "n \<le> length C - pos" "min (min (length b) (length C - pos)) (max 1 (given pos)) = n"
    using True by (auto simp: n_def)
  then have txt_eq: "read_bytes (given pos) C pos n = ?text" "length ?text = n" "?text \<noteq> []"
    by (auto simp: read_bytes_def n_def min_def)
  have "drop pos C = ?text @ drop (pos + n) C" by (simp add: add.commute flip: drop_drop)
  then have rest: "position 10 (drop pos C) = position 10 (?text @ drop (pos + n) C)" by (rule arg_cong)
  show ?thesis
  proof (cases "position 10 ?text")
    case (Some i)
    then have "position 10 ?b = Some i" "position 10 (drop pos C) = Some i"
      unfolding rest by (simp_all add: position_append_Some)
    then show ?thesis
      using True txt_eq unfolding findNewline.simps [of _ _ _ pos] by (simp add: next_line_def Let_def flip: n_def)
  next
    case None
    then have notin: "10 \<notin> set ?text" by simp
    have "n \<noteq> length C - pos"
    proof
      assume "n = length C - pos"
      then have "?text = drop pos C" by simp
      moreover have "last (drop pos C) = 10" "drop pos C \<noteq> []" using assms(1) True by auto
      ultimately show False using notin last_in_set by metis
    qed
    then have "drop n b = []" by (simp add: n_def)
    then have b: "?b = ?text" by simp
    have "findNewline given C ?text (pos + n) (length C) = next_line C (pos + n)"
      by (rule findNewline_clean [OF notin txt_eq(3)])
    moreover have "next_line C (pos + n) = next_line C pos"
      unfolding next_line_def rest position_append_notin [OF notin] txt_eq(2)
      by (cases "position 10 (drop (pos + n) C)") (simp_all del: position_None_iff)
    ultimately show ?thesis
      using True txt_eq b None unfolding findNewline.simps [of _ _ _ pos]
      by (simp add: Let_def del: position_None_iff length_take flip: n_def)
  qed
qed

text \<open>The condition is needed: with a stale newline behind a short first read the end of the range is
  inside a line.\<close>

lemma findNewline_stale:
  "findNewline (\<lambda>_. 1) (bytes_of (js ''12345'' @ [10])) [0, 10, 0, 0] 0 6 = 2 \<and>
   next_line (bytes_of (js ''12345'' @ [10])) 0 = 6"
  by (simp add: findNewline.simps read_bytes_def bytes_of_def next_line_def js_eval)

lemma next_line:
  assumes "last C = 10" "pos < length C"
  shows "pos < next_line C pos" "next_line C pos \<le> length C" "C ! (next_line C pos - 1) = 10"
    "\<And>j. pos \<le> j \<Longrightarrow> j < next_line C pos - 1 \<Longrightarrow> C ! j \<noteq> 10"
proof -
  have "last (drop pos C) = 10" "drop pos C \<noteq> []" using assms by auto
  then have "10 \<in> set (drop pos C)" using last_in_set by metis
  then obtain i where i: "position 10 (drop pos C) = Some i" by (cases "position 10 (drop pos C)") auto
  note split = position_Some_split [OF i]
  have at: "drop pos C ! i = 10" using split by (metis nth_append_length length_take min.absorb2 less_imp_le)
  have before: "drop pos C ! j \<noteq> 10" if "j < i" for j
    using split that nth_mem [of j "take i (drop pos C)"] by auto
  have nl: "next_line C pos = pos + i + 1" using i by (simp add: next_line_def)
  show "pos < next_line C pos" "next_line C pos \<le> length C" "C ! (next_line C pos - 1) = 10"
    using split at nl by auto
  show "C ! j \<noteq> 10" if "pos \<le> j" "j < next_line C pos - 1" for j
  proof -
    have "j - pos < i" using that nl by linarith
    from before [OF this] show ?thesis using that(1) assms(2) by simp
  qed
qed

lemma next_line_mono:
  assumes "last C = 10" "pos \<le> pos'"
  shows "next_line C pos \<le> next_line C pos'"
proof (cases "pos' < length C")
  case True
  then have "pos < length C" using assms(2) by simp
  note a = next_line [OF assms(1) this] and b = next_line [OF assms(1) True]
  show ?thesis
  proof (rule ccontr)
    assume "\<not> next_line C pos \<le> next_line C pos'"
    then show False using a(4) [of "next_line C pos' - 1"] b(1,3) assms(2) by linarith
  qed
next
  case False
  moreover have "next_line C pos \<le> length C"
    using next_line(2) [OF assms(1)] by (cases "pos < length C") (auto simp: next_line_def)
  ultimately show ?thesis by (simp add: next_line_def)
qed

section \<open>Where the ranges end\<close>

lemma next_line_start: "last C = 10 \<Longrightarrow> next_line C pos = length C \<or> 0 < next_line C pos \<and> C ! (next_line C pos - 1) = 10"
  using next_line(1,3) [of C pos] by (cases "pos < length C") (auto simp: next_line_def)

lemma next_line_le: "last C = 10 \<Longrightarrow> next_line C pos \<le> length C"
  using next_line(2) [of C pos] by (cases "pos < length C") (auto simp: next_line_def)

text \<open>A file of lines: \<open>line_start ls n\<close> is where its line number \<open>n\<close> starts.\<close>

definition line_start :: "jsstring list \<Rightarrow> nat \<Rightarrow> nat" where
  "line_start ls n = length (unlines (take n ls))"

lemma unlines_append: "unlines (xs @ ys) = unlines xs @ unlines ys"
  by (simp add: unlines_def)

lemma line_start_exists:
  assumes "\<forall>l \<in> set ls. 10 \<notin> set l" "p \<le> length (unlines ls)" "p = 0 \<or> unlines ls ! (p - 1) = 10"
  shows "\<exists>n \<le> length ls. p = line_start ls n"
  using assms
proof (induction ls arbitrary: p)
  case (Cons l ls)
  show ?case
  proof (cases "p = 0")
    case True
    then show ?thesis by (intro exI [of _ 0]) (simp add: line_start_def unlines_def)
  next
    case False
    have eq: "unlines (l # ls) = (l @ [10]) @ unlines ls" by (simp add: unlines_def)
    have "\<not> p \<le> length l"
    proof
      assume "p \<le> length l"
      then have "p - 1 < length l" using False by linarith
      then have "unlines (l # ls) ! (p - 1) \<in> set l" unfolding eq by (simp add: nth_append)
      with Cons.prems(1,3) False show False by auto
    qed
    then obtain q where q: "p = length l + 1 + q" by (metis Suc_eq_plus1 Suc_leI le_Suc_ex not_le)
    have "q = 0 \<or> unlines ls ! (q - 1) = 10" using Cons.prems(3) unfolding eq q by (cases q) (auto simp: nth_append)
    then obtain n where "n \<le> length ls" "q = line_start ls n"
      using Cons.IH [of q] Cons.prems(1,2) unfolding eq q by auto
    then show ?thesis unfolding q by (intro exI [of _ "Suc n"]) (simp add: line_start_def unlines_def)
  qed
qed (simp add: line_start_def unlines_def)

lemma line_start_less: "n < m \<Longrightarrow> m \<le> length ls \<Longrightarrow> line_start ls n < line_start ls m"
proof (induction m)
  case (Suc m)
  have "line_start ls m < line_start ls (Suc m)"
    using Suc.prems(2) by (simp add: line_start_def take_Suc_conv_app_nth unlines_append) (simp add: unlines_def)
  with Suc show ?case by (cases "n = m") auto
qed simp

lemma line_start_le: "n \<le> length ls \<Longrightarrow> m \<le> length ls \<Longrightarrow> line_start ls n \<le> line_start ls m \<longleftrightarrow> n \<le> m"
  using line_start_less [of n m ls] line_start_less [of m n ls] by (cases n m rule: linorder_cases) auto

lemma line_start_inj: "n \<le> length ls \<Longrightarrow> m \<le> length ls \<Longrightarrow> line_start ls n = line_start ls m \<Longrightarrow> n = m"
  using line_start_le [of n ls m] line_start_le [of m ls n] by simp

lemma lines_between:
  assumes "n \<le> m" "m \<le> length ls"
  shows "take (line_start ls m - line_start ls n) (drop (line_start ls n) (unlines ls)) = unlines (take (m - n) (drop n ls))"
proof -
  have "take m ls = take n ls @ take (m - n) (drop n ls)" using assms take_add [of n "m - n" ls] by simp
  then have m: "unlines (take m ls) = unlines (take n ls) @ unlines (take (m - n) (drop n ls))"
    by (simp add: unlines_append)
  have "unlines ls = unlines (take m ls) @ unlines (drop m ls)" by (simp flip: unlines_append)
  then show ?thesis unfolding line_start_def m by simp
qed

text \<open>Cutting a list at growing places.\<close>

lemma concat_pieces:
  assumes "\<And>j. j < k \<Longrightarrow> c j \<le> c (Suc j)" "i \<le> k"
  shows "concat (map (\<lambda>j. take (c (Suc j) - c j) (drop (c j) xs)) [0..<i]) = take (c i - c 0) (drop (c 0) xs) \<and> c 0 \<le> c i"
  using assms(2)
proof (induction i)
  case (Suc i)
  then have IH: "concat (map (\<lambda>j. take (c (Suc j) - c j) (drop (c j) xs)) [0..<i]) = take (c i - c 0) (drop (c 0) xs)"
    "c 0 \<le> c i" "c i \<le> c (Suc i)" using assms(1) by simp_all
  then have "take (c (Suc i) - c 0) (drop (c 0) xs) =
      take (c i - c 0) (drop (c 0) xs) @ take (c (Suc i) - c i) (drop (c i) xs)"
    using take_add [of "c i - c 0" "c (Suc i) - c i" "drop (c 0) xs"] by simp
  with IH show ?case by simp
qed simp

section \<open>Splitting at growing places\<close>

definition thread_number :: "nat \<Rightarrow> number" where
  "thread_number k = Fin (of_nat k)"

lemma thread_count [simp]: "thread_count (thread_number k) = k"
  by (simp add: thread_count_def thread_number_def number_floor_def)

lemma split_quotient:
  assumes "bytes - first = d" "d * k \<le> 2 ^ 53" "k \<le> 2 ^ 52" "i < k"
  shows "split_point first bytes (thread_number k) i =
    first + nat (number_floor (f64 (of_nat (d * (i + 1)) / of_nat k)))"
proof -
  let ?s = d
  have "?s * (i + 1) \<le> ?s * k" using assms(4) by (intro mult_le_mono2) simp
  with assms(2) have p: "?s * (i + 1) \<le> 2 ^ 53" by linarith
  have "?s \<le> 2 ^ 53" using assms(2,4) by (cases k) auto
  then have "of_integer (int ?s) = Fin (of_int (int ?s))" by (intro of_integer_small) simp
  moreover have "of_integer (int i + 1) = Fin (of_int (int i + 1))" using assms(3,4) by (intro of_integer_small) simp
  moreover have "f64 (of_int (int ?s * (int i + 1))) = Fin (of_int (int ?s * (int i + 1)))"
  proof (intro f64_int)
    have "int (?s * (i + 1)) \<le> 2 ^ 53" using p by (metis of_nat_le_iff of_nat_numeral of_nat_power)
    then show "\<bar>int ?s * (int i + 1)\<bar> \<le> 2 ^ 53" by (simp add: abs_mult algebra_simps)
  qed
  ultimately have "num_mul (of_integer (int ?s)) (of_integer (int i + 1)) = Fin (of_nat (?s * (i + 1)))"
    by (simp add: algebra_simps)
  then show ?thesis using assms(1,4) by (simp add: split_point_def thread_number_def del: of_nat_mult of_nat_add)
qed

lemma split_point_mono:
  assumes "bytes - first = d" "d * k \<le> 2 ^ 53" "k \<le> 2 ^ 52" "i + 1 < k"
  shows "split_point first bytes (thread_number k) i \<le> split_point first bytes (thread_number k) (i + 1)"
proof (cases "d = 0")
  case True
  then show ?thesis using assms by (simp add: split_quotient f64_def number_floor_def)
next
  case False
  let ?s = "of_nat d :: rat" and ?k = "of_nat k :: rat" and ?e = "2 powi (-53) :: rat"
  let ?q = "\<lambda>i. of_nat (d * (i + 1)) / of_nat k :: rat"
  have k: "1 \<le> ?k" "?k \<le> 2 ^ 52" using assms(3,4) of_nat_mono [OF assms(3)] by simp_all
  have s: "1 \<le> ?s" using False by simp
  have small: "?s / ?k \<le> ?q j" "?q j \<le> ?s" if "j < k" for j
  proof -
    have "?s * (of_nat j + 1) \<le> ?s * ?k" using that s by (intro mult_left_mono) (simp_all flip: of_nat_Suc)
    then show "?q j \<le> ?s" using k(1) by (simp add: divide_le_eq algebra_simps)
    show "?s / ?k \<le> ?q j" using k(1) s by (simp add: divide_right_mono algebra_simps)
  qed
  have "?s \<le> 2 ^ 53"
  proof -
    have "d \<le> 2 ^ 53" using assms(2,4) by (cases k) auto
    then show ?thesis using of_nat_mono [of d "2 ^ 53"] by simp
  qed
  have "2 powi (-1022) \<le> (1 / 2 ^ 52 :: rat)" by (simp add: power_int_minus field_simps)
  also have "\<dots> \<le> ?s / ?k" using s k by (intro frac_le) simp_all
  finally have tiny: "2 powi (-1022) \<le> ?s / ?k" .
  have quot: "\<exists>v. f64 (?q j) = Fin v \<and> \<bar>v - ?q j\<bar> \<le> ?s * ?e" if "j < k" for j
  proof -
    have "0 < ?s / ?k" using s k by simp
    then have q: "0 < ?q j" "?q j \<le> 2 ^ 53" using small [OF that] \<open>?s \<le> 2 ^ 53\<close> by linarith+
    then obtain v where v: "f64 (?q j) = Fin v" using f64_finite [of "?q j"] by force
    have "\<bar>v - ?q j\<bar> \<le> ?q j * ?e" using f64_error [OF q(1) v] tiny small(1) [OF that] by linarith
    also have "?q j * ?e \<le> ?s * ?e" using small(2) [OF that] by (intro mult_right_mono) simp_all
    finally show ?thesis using v by blast
  qed
  obtain v w where v: "f64 (?q i) = Fin v" "\<bar>v - ?q i\<bar> \<le> ?s * ?e"
    and w: "f64 (?q (i + 1)) = Fin w" "\<bar>w - ?q (i + 1)\<bar> \<le> ?s * ?e"
    using quot [of i] quot [of "i + 1"] assms(4) by auto
  have "?q (i + 1) - ?q i = ?s / ?k" using k(1) by (simp add: field_simps)
  moreover have "?s * ?e + ?s * ?e \<le> ?s / ?k"
  proof -
    have "2 * ?e = 1 / 2 ^ 52" by (simp add: power_int_minus field_simps)
    also have "\<dots> \<le> 1 / ?k" using k by (intro frac_le) simp_all
    finally have "?s * (2 * ?e) \<le> ?s * (1 / ?k)" using s by (intro mult_left_mono) simp_all
    then show ?thesis by (simp add: algebra_simps)
  qed
  ultimately have "v \<le> w" using v(2) w(2) by linarith
  then have "\<lfloor>v\<rfloor> \<le> \<lfloor>w\<rfloor>" by (rule floor_mono)
  then show ?thesis
    using assms v(1) w(1) by (simp add: split_quotient number_floor_def nat_mono del: of_nat_mult of_nat_add)
qed

section \<open>The ranges of a file of rows\<close>

lemma csv_header: "csv_header = bytes_of (header_line @ [10])" "length csv_header = length header_line + 1"
proof -
  show "csv_header = bytes_of (header_line @ [10])" by code_simp
  then have "length csv_header = length (bytes_of (header_line @ [10]))" by (rule arg_cong)
  then show "length csv_header = length header_line + 1" by simp
qed

definition range_end :: "byte list \<Rightarrow> nat \<Rightarrow> nat \<Rightarrow> nat \<Rightarrow> nat" where
  "range_end C first k j =
     (if j = 0 then first else if j = k then length C
      else next_line C (split_point first (length C) (thread_number k) (j - 1)))"

lemma ranges_of_ends:
  assumes "last C = 10" "\<And>i. unfilled i \<noteq> []" "0 < k"
    "\<And>i. search_reads (search_given reads i) (unfilled i) (split_point first (length C) (thread_number k) i) (length C)"
  shows "ranges_of reads C unfilled first (thread_number k) =
    map (\<lambda>j. (range_end C first k j, range_end C first k (Suc j))) [0..<k]"
proof -
  let ?e = "range_end C first k"
  have "foldl (next_range reads C unfilled first (thread_number k)) (first, []) [0..<i] =
      (?e i, map (\<lambda>j. (?e j, ?e (Suc j))) [0..<i])" if "i \<le> k" for i
    using that
  proof (induction i)
    case 0
    show ?case by (simp add: range_end_def)
  next
    case (Suc i)
    then show ?case by (simp add: next_range_def range_end_def findNewline_next [OF assms(1,2,4)] Let_def)
  qed
  then show ?thesis by (simp add: ranges_of_def)
qed

lemma range_end_mono:
  assumes "last C = 10" "(length C - first) * k \<le> 2 ^ 53" "k \<le> 2 ^ 52" "first \<le> length C" "j < k"
  shows "range_end C first k j \<le> range_end C first k (Suc j)"
proof -
  consider "Suc j = k" | "j = 0" "Suc j \<noteq> k" | "0 < j" "Suc j < k" using assms(5) by linarith
  then show ?thesis
  proof cases
    case 1
    then show ?thesis using assms(4) next_line_le [OF assms(1)] by (simp add: range_end_def)
  next
    case 2
    let ?p = "split_point first (length C) (thread_number k) 0"
    have "first \<le> ?p" by (simp add: split_point_def)
    then have "first \<le> next_line C ?p"
      using next_line(1) [OF assms(1), of ?p] assms(4) by (cases "?p < length C") (auto simp: next_line_def)
    with 2 show ?thesis by (simp add: range_end_def)
  next
    case 3
    then show ?thesis
      using split_point_mono [OF refl assms(2,3), of "j - 1"] next_line_mono [OF assms(1)] by (simp add: range_end_def)
  qed
qed

lemma csv_lines:
  assumes "\<forall>r \<in> set rs. valid_row r"
  shows "\<forall>l \<in> set (header_line # map row_line rs). 10 \<notin> set l"
  using assms header_no_line_end row_line_newline by (auto simp: no_line_end_def)

lemma last_bytes: "ascii_text (csv_text rs) \<Longrightarrow> last (bytes_of (csv_text rs)) = 10"
proof -
  have "last (csv_text rs) = 10" "csv_text rs \<noteq> []"
    by (simp_all add: csv_text_def unlines_def) (induction rs, auto)
  then show ?thesis by (simp add: bytes_of_def last_map)
qed

text \<open>Every end of a range is the start of a line.\<close>

lemma csv_line_starts:
  "length csv_header = line_start (header_line # map row_line rs) 1" "length csv_header \<le> length (bytes_of (csv_text rs))"
  "length (bytes_of (csv_text rs)) = line_start (header_line # map row_line rs) (length (header_line # map row_line rs))"
  by (simp_all add: csv_header(2) line_start_def csv_text_def unlines_def)

lemma range_end_line_start:
  assumes "\<forall>r \<in> set rs. valid_row r" "ascii_text (csv_text rs)" "0 < k"
  shows "\<exists>n \<le> length (header_line # map row_line rs).
    range_end (bytes_of (csv_text rs)) (length csv_header) k j = line_start (header_line # map row_line rs) n"
proof -
  let ?T = "csv_text rs" and ?ls = "header_line # map row_line rs"
  let ?C = "bytes_of ?T" let ?e = "range_end ?C (length csv_header) k"
  note last = last_bytes [OF assms(2)] and lines = csv_lines [OF assms(1)] and starts = csv_line_starts [of rs]
  consider "j = 0" | "j = k" | "j \<noteq> 0" "j \<noteq> k" by blast
  then show ?thesis
  proof cases
    case 1
    then show ?thesis using starts(1) by (intro exI [of _ 1]) (simp add: range_end_def)
  next
    case 2
    then show ?thesis using starts(3) assms(3) by (intro exI [of _ "length ?ls"]) (simp add: range_end_def)
  next
    case 3
    then obtain p where p: "?e j = next_line ?C p" by (auto simp: range_end_def)
    show ?thesis
    proof (cases "?e j = length ?C")
      case False
      then have "0 < ?e j" "?C ! (?e j - 1) = 10" "?e j \<le> length ?T"
        using next_line_start [OF last, of p] next_line_le [OF last, of p] p by auto
      moreover from this have "?T ! (?e j - 1) = 10"
        using assms(2) byte_of_unit(2) [of "?T ! (?e j - 1)"] by (simp add: bytes_of_def ascii_text_def)
      ultimately show ?thesis using line_start_exists [OF lines, of "?e j"] by (simp add: csv_text_def)
    qed (use starts(3) in auto)
  qed
qed

lemma ranges_rows:
  assumes rows: "\<forall>r \<in> set rs. valid_row r \<and> row_length r \<le> 2 ^ 53 \<and> row_stamps r \<le> 2 ^ 53"
    and "ascii_text (csv_text rs)" "\<And>i. unfilled i \<noteq> []"
    and "0 < k" "k \<le> 2 ^ 52" "(length (csv_text rs) - length csv_header) * k \<le> 2 ^ 53"
    and searches: "\<And>i. search_reads (search_given reads i) (unfilled i)
      (split_point (length csv_header) (length (csv_text rs)) (thread_number k) i) (length (csv_text rs))"
  shows "\<exists>rss. concat rss = rs \<and>
    map (analyzeRange reads (bytes_of (csv_text rs))) (ranges_of reads (bytes_of (csv_text rs)) unfilled (length csv_header) (thread_number k)) =
    map (\<lambda>rs. result_of (foldl put_row makeStore rs)) rss"
proof -
  let ?T = "csv_text rs" and ?ls = "header_line # map row_line rs"
  let ?C = "bytes_of ?T" and ?h = "length csv_header"
  let ?e = "range_end ?C ?h k"
  have T: "?T = unlines ?ls" by (simp add: csv_text_def)
  have valid: "\<forall>r \<in> set rs. valid_row r" using rows by blast
  note last = last_bytes [OF assms(2)] and lines = csv_lines [OF valid]
  note h = csv_line_starts(1,2) [of rs] and all = csv_line_starts(3) [of rs]
  note starts = range_end_line_start [OF valid assms(2,4)]
  obtain n where n: "\<And>j. n j \<le> length ?ls" "\<And>j. ?e j = line_start ?ls (n j)" using starts by metis
  have mono: "n j \<le> n (Suc j)" if "j < k" for j
    using range_end_mono [OF last _ assms(5) h(2) that] assms(6) line_start_le [OF n(1) n(1), of j "Suc j"] n(2) by simp
  have "?e 0 = ?h" "?e k = length ?C" using assms(4) by (simp_all add: range_end_def)
  then have "line_start ?ls (n 0) = line_start ?ls 1" "line_start ?ls (n k) = line_start ?ls (length ?ls)"
    using n(2) h(1) all by metis+
  then have n0: "n 0 = 1" and nk: "n k = length ?ls"
    using line_start_inj [OF n(1), of 1] line_start_inj [OF n(1) order_refl] by simp_all
  define piece where "piece j = take (n (Suc j) - n j) (drop (n j - 1) rs)" for j
  have pos: "1 \<le> n j" if "j \<le> k" for j
    using concat_pieces [of k n j "[] :: row list"] mono that n0 by simp
  have "map (analyzeRange reads ?C) (ranges_of reads ?C unfilled ?h (thread_number k)) =
      map (\<lambda>rs. result_of (foldl put_row makeStore rs)) (map piece [0..<k])"
  proof -
    have "analyzeRange reads ?C (?e j, ?e (Suc j)) = result_of (foldl put_row makeStore (piece j))" if "j < k" for j
    proof (rule analyzeRange_rows [OF assms(2)])
      show "?e (Suc j) \<le> length ?T" using n(1) line_start_le [of "n (Suc j)" ?ls "length ?ls"] n(2) all by simp
      have "take (n (Suc j) - n j) (drop (n j) ?ls) = map row_line (piece j)"
        using pos [of j] that by (cases "n j") (simp_all add: piece_def take_map drop_map)
      then show "take (?e (Suc j) - ?e j) (drop (?e j) ?T) = unlines (map row_line (piece j))"
        unfolding n(2) using lines_between [OF mono [OF that] n(1)] by (simp add: T)
      show "\<forall>r \<in> set (piece j). valid_row r \<and> row_length r \<le> 2 ^ 53 \<and> row_stamps r \<le> 2 ^ 53"
        using rows by (auto simp: piece_def dest!: in_set_takeD in_set_dropD)
    qed
    then show ?thesis by (simp add: ranges_of_ends [OF last assms(3,4)] searches)
  qed
  moreover have "concat (map piece [0..<k]) = rs"
  proof -
    have "piece j = take ((n (Suc j) - 1) - (n j - 1)) (drop (n j - 1) rs)" if "j < k" for j
      using pos [of j] that by (simp add: piece_def)
    then have "concat (map piece [0..<k]) =
        concat (map (\<lambda>j. take ((n (Suc j) - 1) - (n j - 1)) (drop (n j - 1) rs)) [0..<k])"
      by (intro arg_cong [where f = concat] map_cong) simp_all
    then show ?thesis
      using concat_pieces [of k "\<lambda>j. n j - 1" k rs] mono n0 nk by (simp add: diff_le_mono)
  qed
  ultimately show ?thesis by blast
qed

end
