(* ===== verification/Optimized_Merge.thy ===== *)
theory Optimized_Merge
  imports Optimized_Ranges
begin

text \<open>
  Merging the results of the ranges: if a store holds the statistics of some rows and a result those
  of others, merging gives a store that holds the statistics of all of them.
\<close>

section \<open>Two groups\<close>

fun merge_entry :: "channel_stats option \<Rightarrow> channel_stats option \<Rightarrow> channel_stats option" where
  "merge_entry d None = d"
| "merge_entry None (Some s) = Some s"
| "merge_entry (Some d) (Some s) =
     Some \<lparr>minLen = (if num_less (minLen s) (minLen d) then minLen s else minLen d),
           maxLen = (if num_less (maxLen d) (maxLen s) then maxLen s else maxLen d),
           totalLen = num_add (totalLen d) (totalLen s),
           messages = num_add (messages d) (messages s),
           stamps = num_add (stamps d) (stamps s)\<rparr>"

definition counts_stay :: "channel_stats option \<Rightarrow> channel_stats option \<Rightarrow> bool" where
  "counts_stay d s \<longleftrightarrow> (\<forall>x y. d = Some x \<longrightarrow> s = Some y \<longrightarrow> num_add (messages x) (messages y) \<noteq> Fin 0)"

lemma set_min_max:
  fixes A B :: "nat set"
  assumes "A \<noteq> {}" "B \<noteq> {}" "finite A" "finite B"
  shows "Min (A \<union> B) = (if Min B < Min A then Min B else Min A)" "Max (A \<union> B) = (if Max A < Max B then Max B else Max A)"
proof -
  have "min x y = (if y < x then y else x)" "max x y = (if x < y then y else x)" for x y :: nat by simp_all
  then show "Min (A \<union> B) = (if Min B < Min A then Min B else Min A)" "Max (A \<union> B) = (if Max A < Max B then Max B else Max A)"
    using Min_Un [OF assms(3,1,4,2)] Max_Un [OF assms(3,1,4,2)] by (simp_all only:)
qed

lemma merge_groups:
  assumes "safe_rows (g @ h)"
  shows "merge_entry (group_stats g) (group_stats h) = group_stats (g @ h)" "counts_stay (group_stats g) (group_stats h)"
proof -
  note sums = assms [unfolded safe_rows_def]
  have "merge_entry (group_stats g) (group_stats h) = group_stats (g @ h) \<and> counts_stay (group_stats g) (group_stats h)"
  proof (cases "g = [] \<or> h = []")
    case True
    then show ?thesis by (auto simp: group_stats_def counts_stay_def)
  next
    case False
    have add: "num_add (Fin (of_nat a)) (Fin (of_nat b)) = Fin (of_nat (a + b))" if "a + b \<le> 2 ^ 53" for a b
      using Fin_nat_add [OF that] .
    have "(of_nat (length g + length h) :: rat) \<noteq> 0" unfolding of_nat_eq_0_iff using False by simp
    with False sums show ?thesis
      by (simp add: group_stats_def counts_stay_def image_Un set_min_max add del: num_add.simps of_nat_add)
  qed
  then show "merge_entry (group_stats g) (group_stats h) = group_stats (g @ h)" "counts_stay (group_stats g) (group_stats h)"
    by blast+
qed

section \<open>A month\<close>

lemma five_cells: "[0..<5] = [0, 1, 2, 3, 4 :: nat]"
  by code_simp

lemma merge_month_within: "within_slot (di + m * 5) a (merge_month src si di a m)"
  by (simp add: within_slot_def merge_month_def cell_at_set Let_def five_cells)

lemma merge_month_entry:
  assumes "di + m * 5 + 4 < cell_count a" "counts_stay (entry a (di + m * 5)) (entry src (si + m * 5))"
  shows "entry (merge_month src si di a m) (di + m * 5) = merge_entry (entry a (di + m * 5)) (entry src (si + m * 5))"
  using assms by (auto simp: entry_def merge_month_def counts_stay_def cell_at_set Let_def five_cells)

lemma merge_months:
  assumes "store_inv st" "map_get (ids st) ch = Some k" "M \<le> 12"
    "\<forall>m < 12. counts_stay (store_value st ch m) (entry src (slot i m))"
  shows "let st' = st\<lparr>stats := foldl (merge_month src (i * 60) (k * 60)) (stats st) [0..<M]\<rparr> in
    store_inv st' \<and>
    (\<forall>m < 12. store_value st' ch m = (if m < M then merge_entry (store_value st ch m) (entry src (slot i m)) else store_value st ch m)) \<and>
    (\<forall>c m. m < 12 \<longrightarrow> c \<noteq> ch \<longrightarrow> store_value st' c m = store_value st c m)"
  using assms(3)
proof (induction M)
  case 0
  then show ?case using assms(1) by simp
next
  case (Suc M)
  define st' where "st' = st\<lparr>stats := foldl (merge_month src (i * 60) (k * 60)) (stats st) [0..<M]\<rparr>"
  have IH: "store_inv st'"
    "\<And>m. m < 12 \<Longrightarrow> store_value st' ch m = (if m < M then merge_entry (store_value st ch m) (entry src (slot i m)) else store_value st ch m)"
    "\<And>c m. m < 12 \<Longrightarrow> c \<noteq> ch \<Longrightarrow> store_value st' c m = store_value st c m"
    using Suc by (simp_all add: st'_def Let_def)
  have get: "map_get (ids st') ch = Some k" using assms(2) by (simp add: st'_def)
  have M: "M < 12" using Suc.prems by simp
  let ?b = "merge_month src (i * 60) (k * 60) (stats st') M"
  have within: "within_slot (slot k M) (stats st') ?b" using merge_month_within by (simp add: slot_def)
  note upd = update_slot [OF IH(1) get M within]
  have val: "entry (stats st') (slot k M) = store_value st ch M"
    using IH(2) [OF M] get by (simp add: store_value_def)
  have "entry ?b (slot k M) = merge_entry (store_value st ch M) (entry src (slot i M))"
    using merge_month_entry [of "k * 60" M "stats st'" src "i * 60"] slot_in_store [OF IH(1) get M] assms(4) M val
    by (simp add: slot_def)
  moreover have st'': "st\<lparr>stats := foldl (merge_month src (i * 60) (k * 60)) (stats st) [0..<Suc M]\<rparr> = st'\<lparr>stats := ?b\<rparr>"
    by (simp add: st'_def)
  moreover have "store_value (st'\<lparr>stats := ?b\<rparr>) ch m = store_value st' ch m" if "m < 12" "m \<noteq> M" for m
    using upd(3) [of m ch] that by simp
  moreover have "store_value (st'\<lparr>stats := ?b\<rparr>) c m = store_value st' c m" if "m < 12" "c \<noteq> ch" for c m
    using upd(3) [of m c] that by simp
  ultimately show ?case
    unfolding st'' Let_def using upd(1,2) IH(2,3) M by (auto simp: less_Suc_eq)
qed

section \<open>A result\<close>

lemma merge_key:
  assumes "store_inv all" "i < length (result_keys r)"
    "\<forall>m < 12. counts_stay (store_value all (result_keys r ! i) m) (entry (result_stats r) (slot i m))"
  shows "store_inv (merge_key r all i)"
    "set (store_keys (merge_key r all i)) = insert (result_keys r ! i) (set (store_keys all))"
    "m < 12 \<Longrightarrow> store_value (merge_key r all i) c m =
      (if c = result_keys r ! i then merge_entry (store_value all c m) (entry (result_stats r) (slot i m))
       else store_value all c m)"
proof -
  let ?ch = "result_keys r ! i"
  let ?st = "add_id ?ch all" and ?k = "fst (store_id ?ch all)"
  have eq: "merge_key r all i = ?st\<lparr>stats := foldl (merge_month (result_stats r) (i * 60) (?k * 60)) (stats ?st) [0..<12]\<rparr>"
    by (simp add: merge_key_def add_id_def split_beta)
  note inv = add_id_inv(1) [OF assms(1), of ?ch] and get = add_id_inv(3) [OF assms(1), of ?ch]
    and keys = add_id_inv(4) [OF assms(1), of ?ch] and same = add_id_inv(2) [OF assms(1), of _ ?ch]
  have "\<forall>m < 12. counts_stay (store_value ?st ?ch m) (entry (result_stats r) (slot i m))"
    using assms(3) same by simp
  note months = merge_months [OF inv get order_refl this, folded eq, unfolded Let_def]
  show "store_inv (merge_key r all i)" using months by blast
  show "set (store_keys (merge_key r all i)) = insert ?ch (set (store_keys all))"
    using keys by (auto simp: eq)
  show "store_value (merge_key r all i) c m =
      (if c = ?ch then merge_entry (store_value all c m) (entry (result_stats r) (slot i m)) else store_value all c m)" if "m < 12"
    using months that same by simp
qed

lemma entry_result:
  assumes "store_inv st" "i < store_size st" "m < 12"
  shows "entry (result_stats (result_of st)) (slot i m) = store_value st (store_keys st ! i) m"
proof -
  have get: "map_get (ids st) (store_keys st ! i) = Some i" using assms by (simp add: store_inv_def)
  have "slot i m + 5 \<le> store_size st * 60" using assms(2,3) unfolding slot_def by linarith
  moreover have "store_size st * 60 < cell_count (stats st)" using assms(1) by (simp add: store_inv_def)
  ultimately have "entry (result_stats (result_of st)) (slot i m) = entry (stats st) (slot i m)"
    by (intro entry_cong) (simp add: result_of_def cell_at_def)
  then show ?thesis by (simp add: store_value_def get)
qed

lemma group_of_append: "group_of (xs @ ys) ch m = group_of xs ch m @ group_of ys ch m"
  by (simp add: group_of_def)

lemma safe_group: "safe_rows rs \<Longrightarrow> safe_rows (group_of rs ch m)"
  unfolding group_of_def by (rule safe_rows_filter)

lemma merge_result:
  assumes "store_of rs all" "store_of rs' st" "safe_rows (rs @ rs')"
  shows "store_of (rs @ rs') (mergeResult all (result_of st))"
proof -
  let ?r = "result_of st" and ?G = "\<lambda>xs c m. group_stats (group_of xs c m)"
  have all: "store_inv all" "set (store_keys all) = row_channel ` set rs" "\<And>c m. m < 12 \<Longrightarrow> store_value all c m = ?G rs c m"
    and st: "store_inv st" "set (store_keys st) = row_channel ` set rs'" "\<And>c m. m < 12 \<Longrightarrow> store_value st c m = ?G rs' c m"
    using assms(1,2) by (auto simp: store_of_def)
  have size: "length (store_keys st) = store_size st" "distinct (store_keys st)" using st(1) by (simp_all add: store_inv_def)
  have keys: "result_keys ?r = store_keys st" by (simp add: result_of_def)
  note merge = merge_groups [OF safe_group [OF assms(3), unfolded group_of_append]]
  have "store_inv (foldl (merge_key ?r) all [0..<n]) \<and>
      set (store_keys (foldl (merge_key ?r) all [0..<n])) = set (store_keys all) \<union> set (take n (store_keys st)) \<and>
      (\<forall>c m. m < 12 \<longrightarrow> store_value (foldl (merge_key ?r) all [0..<n]) c m =
        (if c \<in> set (take n (store_keys st)) then ?G (rs @ rs') c m else ?G rs c m))" if "n \<le> store_size st" for n
    using that
  proof (induction n)
    case 0
    then show ?case using all by simp
  next
    case (Suc n)
    let ?all = "foldl (merge_key ?r) all [0..<n]" and ?ch = "store_keys st ! n"
    have n: "n < store_size st" using Suc.prems by simp
    have new: "?ch \<notin> set (take n (store_keys st))"
      using size n by (auto simp: in_set_conv_nth nth_eq_iff_index_eq)
    have IH: "store_inv ?all" "set (store_keys ?all) = set (store_keys all) \<union> set (take n (store_keys st))"
      "\<And>c m. m < 12 \<Longrightarrow> store_value ?all c m = (if c \<in> set (take n (store_keys st)) then ?G (rs @ rs') c m else ?G rs c m)"
      using Suc by auto
    have src: "entry (result_stats ?r) (slot n m) = ?G rs' ?ch m" if "m < 12" for m
      using entry_result [OF st(1) n that] st(3) [OF that] by simp
    have "\<forall>m < 12. counts_stay (store_value ?all (result_keys ?r ! n) m) (entry (result_stats ?r) (slot n m))"
      using IH(3) new src merge(2) by (simp add: keys)
    note key = merge_key [OF IH(1) _ this]
    have take: "set (take (Suc n) (store_keys st)) = insert ?ch (set (take n (store_keys st)))"
      using n size by (simp add: take_Suc_conv_app_nth)
    have "store_value (merge_key ?r ?all n) c m = (if c \<in> set (take (Suc n) (store_keys st)) then ?G (rs @ rs') c m else ?G rs c m)"
      if "m < 12" for c m
    proof (cases "c = ?ch")
      case True
      then show ?thesis
        using key(3) [OF _ that, of c] IH(3) [OF that, of c] new src [OF that] merge(1) n size
        by (simp add: keys take group_of_append)
    next
      case False
      then show ?thesis using key(3) [OF _ that, of c] IH(3) [OF that, of c] n size by (simp add: keys take)
    qed
    then show ?case
      using key(1,2) IH(2) n size by (auto simp: keys take)
  qed
  from this [of "store_size st"]
  have "store_inv (mergeResult all ?r)" "set (store_keys (mergeResult all ?r)) = set (store_keys all) \<union> set (store_keys st)"
    and val: "\<And>c m. m < 12 \<Longrightarrow> store_value (mergeResult all ?r) c m =
      (if c \<in> set (store_keys st) then ?G (rs @ rs') c m else ?G rs c m)"
    using size by (simp_all add: mergeResult_def keys)
  moreover have "?G rs c m = ?G (rs @ rs') c m" if "c \<notin> set (store_keys st)" for c m
  proof -
    have "group_of rs' c m = []" using that st(2) by (auto simp: group_of_def filter_empty_conv)
    then show ?thesis by (simp add: group_of_append)
  qed
  ultimately show ?thesis using all(2) st(2) by (auto simp: store_of_def)
qed

lemma safe_rows_append: "safe_rows (xs @ ys) \<Longrightarrow> safe_rows xs \<and> safe_rows ys"
  by (simp add: safe_rows_def)

lemma merge_results:
  assumes "safe_rows (concat rss)"
  shows "store_of (concat rss)
    (foldl mergeResult makeStore (map (\<lambda>rs. result_of (foldl put_row makeStore rs)) rss))"
  using assms
proof (induction rss rule: rev_induct)
  case Nil
  show ?case using put_rows_store [of "[]"] by (simp add: safe_rows_def)
next
  case (snoc rs rss)
  then have safe: "safe_rows (concat rss)" "safe_rows rs" using safe_rows_append [of "concat rss" rs] by auto
  have "safe_rows (concat rss @ rs)" using snoc.prems by simp
  from merge_result [OF snoc.IH [OF safe(1)] put_rows_store [OF safe(2)] this] show ?case by simp
qed

end
