(* ===== verification/Optimized_Equiv.thy ===== *)
theory Optimized_Equiv
  imports Optimized_Merge
begin

text \<open>
  What the optimised analyser prints: for every file of valid rows it writes the lines of the
  reference program, in the order of channel and month.
\<close>

section \<open>Keys\<close>

definition month_key :: "jsstring \<Rightarrow> nat \<Rightarrow> jsstring" where
  "month_key ch m = ch @ 44 # js ''2027-'' @ digits_n 2 (m + 1)"

lemma row_key_month: "row_key r = month_key (row_channel r) (row_month r)"
  by (simp add: row_key_def month_key_def row_month_def digits_n_def js_eval)

lemma MONTH_LABEL: "m < 12 \<Longrightarrow> MONTH_LABEL ! m = js ''2027-'' @ digits_n 2 (m + 1)"
proof -
  have "MONTH_LABEL = monthLabels" by code_simp
  then show "m < 12 \<Longrightarrow> MONTH_LABEL ! m = js ''2027-'' @ digits_n 2 (m + 1)"
    using monthLabels_calendar [of m] by (simp add: digits_n_def)
qed

lemma split_first: "c \<notin> set xs \<Longrightarrow> c \<notin> set ys \<Longrightarrow> xs @ c # as = ys @ c # bs \<longleftrightarrow> xs = ys \<and> as = bs"
proof (induction xs arbitrary: ys)
  case Nil
  then show ?case by (cases ys) auto
next
  case (Cons x xs)
  then show ?case by (cases ys) auto
qed

lemma month_key_inj:
  assumes "44 \<notin> set ch" "44 \<notin> set ch'" "m < 12" "m' < 12"
  shows "month_key ch m = month_key ch' m' \<longleftrightarrow> ch = ch' \<and> m = m'"
proof -
  have "digits_n 2 (m + 1) = digits_n 2 (m' + 1) \<Longrightarrow> m = m'"
    using digits_n(2) [of "m + 1" 2] digits_n(2) [of "m' + 1" 2] assms(3,4) by simp
  then show ?thesis unfolding month_key_def split_first [OF assms(1,2)] by auto
qed

lemma key_rows:
  assumes "\<forall>r \<in> set rs. valid_row r" "44 \<notin> set ch" "m < 12"
  shows "filter (\<lambda>r. row_key r = month_key ch m) rs = group_of rs ch m"
  unfolding group_of_def using assms
  by (intro filter_cong) (auto simp: row_key_month month_key_inj row_month_less valid_row_def)

section \<open>Lines\<close>

lemma format_mean: "format_mean v = formatFixed2 v"
proof -
  have "decode_f64 b = (if drop_bit 52 b AND 0x7ff = 0 then (b AND (push_bit 52 1 - 1), -1074)
      else (push_bit 52 1 OR (b AND (push_bit 52 1 - 1)), (drop_bit 52 b AND 0x7ff) - 1075))" for b
  proof -
    have "(-1022 - 52 :: int) = -1074" "(1023 + 52 :: int) = 1075" by simp_all
    then show ?thesis unfolding decode_f64_def Let_def diff_diff_eq by (simp only:)
  qed
  then show ?thesis
    unfolding format_mean_def formatFixed2_def round_cents_def fixed2_def Let_def by (simp only:)
qed

lemma output_line_group:
  assumes "entry a p = Some s" "group_stats g = Some s" "safe_rows g" "m < 12"
  shows "output_line a ch p m = month_key ch m @ js ''='' @ group_value g @ [10]"
proof -
  have "s = \<lparr>minLen = cell_at a p, maxLen = cell_at a (p + 2), totalLen = cell_at a (p + 1),
      messages = cell_at a (p + 3), stamps = cell_at a (p + 4)\<rparr>"
    using assms(1) by (auto simp: entry_def split: if_splits)
  then show ?thesis
    using result_value_group [OF assms(2,3)] MONTH_LABEL [OF assms(4)]
    by (simp add: output_line_def result_value_def format_mean month_key_def js_eval Let_def
        del: number_to_string.simps num_div.simps)
qed

section \<open>Writing\<close>

definition month_output :: "store \<Rightarrow> nat \<Rightarrow> nat \<Rightarrow> jsstring" where
  "month_output all k m =
     (if entry (stats all) (slot k m) = None then [] else output_line (stats all) (store_keys all ! k) (slot k m) m)"

definition flushed :: "jsstring list \<times> jsstring \<Rightarrow> jsstring" where
  "flushed acc = concat (fst acc) @ snd acc"

lemma write_month_flushed: "flushed (write_month all k acc m) = flushed acc @ month_output all k m"
  by (cases acc) (simp add: write_month_def flushed_def month_output_def entry_def slot_def Let_def)

lemma write_months_flushed:
  "flushed (foldl (write_month all k) acc ms) = flushed acc @ concat (map (month_output all k) ms)"
  by (induction ms arbitrary: acc) (simp_all add: write_month_flushed)

definition channel_output :: "store \<Rightarrow> nat \<Rightarrow> jsstring" where
  "channel_output all k = concat (map (month_output all k) [0..<12])"

definition key_order :: "store \<Rightarrow> nat list" where
  "key_order all = sort_cmp (\<lambda>a b. compare_strings (store_keys all ! a) (store_keys all ! b)) [0..<store_size all]"

lemma write_results_concat: "concat (write_results all) = concat (map (channel_output all) (key_order all))"
proof -
  have "flushed (foldl (\<lambda>acc k. foldl (write_month all k) acc [0..<12]) acc ks) =
      flushed acc @ concat (map (channel_output all) ks)" for acc ks
    by (induction ks arbitrary: acc) (simp_all add: write_months_flushed channel_output_def del: upt_Suc)
  from this [of "([], [])" "key_order all"] show ?thesis
    by (auto simp: write_results_def key_order_def flushed_def Let_def split_beta)
qed

lemma key_order:
  assumes "length (store_keys all) = store_size all"
  shows "map (\<lambda>k. store_keys all ! k) (key_order all) = sort (store_keys all)" "set (key_order all) = {..<store_size all}"
proof -
  let ?f = "\<lambda>k. store_keys all ! k"
  have "key_comparator (\<lambda>a b. compare_strings (?f a) (?f b)) ?f"
    by unfold_locales (rule string_order.cmp_key)
  then have order: "key_order all = sort_key ?f [0..<store_size all]"
    unfolding key_order_def by (rule key_comparator.sort_cmp_sort_key)
  have "map ?f [0..<store_size all] = store_keys all" using map_nth [of "store_keys all"] assms by simp
  moreover have "mset (map ?f (key_order all)) = mset (map ?f [0..<store_size all])" by (simp only: mset_map order mset_sort)
  ultimately show "map ?f (key_order all) = sort (store_keys all)"
    using sorted_sort_key [of ?f "[0..<store_size all]"] order by (intro properties_for_sort [symmetric]) simp_all
  show "set (key_order all) = {..<store_size all}" by (auto simp: order)
qed

definition channel_lines :: "row list \<Rightarrow> jsstring \<Rightarrow> jsstring list" where
  "channel_lines rs ch = map (month_key ch) (filter (\<lambda>m. group_of rs ch m \<noteq> []) [0..<12])"

definition channel_month_keys :: "row list \<Rightarrow> jsstring list" where
  "channel_month_keys rs = concat (map (channel_lines rs) (sorted_list_of_set (row_channel ` set rs)))"

lemma channel_output_lines:
  assumes "store_of rs all" "k < store_size all" "\<forall>r \<in> set rs. valid_row r" "safe_rows rs"
  shows "channel_output all k = unlines (map (group_line rs) (channel_lines rs (store_keys all ! k)))"
proof -
  let ?ch = "store_keys all ! k"
  have inv: "store_inv all" using assms(1) by (simp add: store_of_def)
  have get: "map_get (ids all) ?ch = Some k" using inv assms(2) by (simp add: store_inv_def)
  have "?ch \<in> row_channel ` set rs" using assms(1,2) by (auto simp: store_of_def store_inv_def dest: nth_mem)
  then have comma: "44 \<notin> set ?ch" using assms(3) by (auto simp: valid_row_def)
  have "month_output all k m =
      (if group_of rs ?ch m \<noteq> [] then group_line rs (month_key ?ch m) @ [10] else [])" if "m < 12" for m
  proof -
    have "entry (stats all) (slot k m) = store_value all ?ch m" using get by (simp add: store_value_def)
    then have val: "entry (stats all) (slot k m) = group_stats (group_of rs ?ch m)"
      using assms(1) that by (simp add: store_of_def)
    show ?thesis
    proof (cases "group_of rs ?ch m = []")
      case True
      with val show ?thesis by (simp add: month_output_def group_stats_def)
    next
      case False
      then obtain s where s: "group_stats (group_of rs ?ch m) = Some s" by (simp add: group_stats_def)
      have safe: "safe_rows (group_of rs ?ch m)" by (rule safe_group [OF assms(4)])
      from s val have e: "entry (stats all) (slot k m) = Some s" by simp
      show ?thesis
        using False output_line_group [OF e s safe that] e key_rows [OF assms(3) comma that]
        by (simp add: month_output_def group_line_def)
    qed
  qed
  then have "channel_output all k = concat (map (\<lambda>m. if group_of rs ?ch m \<noteq> [] then group_line rs (month_key ?ch m) @ [10] else []) [0..<12])"
    unfolding channel_output_def by (intro arg_cong [where f = concat] map_cong) simp_all
  moreover have "concat (map (\<lambda>m. if P m then f m @ [10] else []) ms) = unlines (map f (filter P ms))"
    for P and f :: "nat \<Rightarrow> jsstring" and ms
    by (induction ms) (simp_all add: unlines_def)
  ultimately show ?thesis by (simp add: channel_lines_def comp_def)
qed

lemma write_results_lines:
  assumes "store_of rs all" "\<forall>r \<in> set rs. valid_row r" "safe_rows rs"
  shows "concat (write_results all) = unlines (map (group_line rs) (channel_month_keys rs))"
proof -
  have inv: "length (store_keys all) = store_size all" "distinct (store_keys all)" "set (store_keys all) = row_channel ` set rs"
    using assms(1) by (simp_all add: store_of_def store_inv_def)
  have "concat (map unlines (map F xs)) = unlines (concat (map F xs))" for F :: "jsstring \<Rightarrow> jsstring list" and xs
    by (induction xs) (simp_all add: unlines_append, simp add: unlines_def)
  note unl = this [of "\<lambda>ch. map (group_line rs) (channel_lines rs ch)"]
  have "concat (write_results all) =
      concat (map unlines (map (\<lambda>ch. map (group_line rs) (channel_lines rs ch)) (map (\<lambda>k. store_keys all ! k) (key_order all))))"
    unfolding write_results_concat
    using channel_output_lines [OF assms(1) _ assms(2,3)] key_order(2) [OF inv(1)]
    by (auto intro!: arg_cong [where f = concat])
  also have "\<dots> = unlines (map (group_line rs) (channel_month_keys rs))"
    using inv(2,3) unfolding unl key_order(1) [OF inv(1)]
    by (simp add: channel_month_keys_def map_concat comp_def sorted_list_of_set_sort_remdups distinct_remdups_id flip: inv(3))
  finally show ?thesis .
qed

section \<open>The same lines\<close>

lemma group_of_Nil: "group_of rs ch m \<noteq> [] \<longleftrightarrow> (\<exists>r \<in> set rs. row_channel r = ch \<and> row_month r = m)"
  by (auto simp: group_of_def filter_empty_conv)

lemma set_channel_month_keys: "set (channel_month_keys rs) = row_key ` set rs"
proof
  show "set (channel_month_keys rs) \<subseteq> row_key ` set rs"
  proof
    fix key
    assume "key \<in> set (channel_month_keys rs)"
    then obtain ch m where key: "key = month_key ch m" "group_of rs ch m \<noteq> []"
      by (auto simp: channel_month_keys_def channel_lines_def)
    from key(2) obtain r where "r \<in> set rs" "row_channel r = ch" "row_month r = m" unfolding group_of_Nil by blast
    then show "key \<in> row_key ` set rs" using key(1) by (auto simp: row_key_month)
  qed
next
  have "row_key r \<in> set (channel_lines rs (row_channel r))" if "r \<in> set rs" for r
    using that row_month_less [of r] group_of_Nil [of rs "row_channel r" "row_month r"]
    by (auto simp: channel_lines_def row_key_month simp del: upt_Suc)
  then show "row_key ` set rs \<subseteq> set (channel_month_keys rs)"
    by (auto simp: channel_month_keys_def)
qed

text \<open>Pieces that are sorted and come in a sorted order.\<close>

lemma sorted_wrt_concat:
  assumes "sorted_wrt P xs" "\<And>x. x \<in> set xs \<Longrightarrow> sorted_wrt Q (f x)"
    "\<And>x y a b. P x y \<Longrightarrow> x \<in> set xs \<Longrightarrow> y \<in> set xs \<Longrightarrow> a \<in> set (f x) \<Longrightarrow> b \<in> set (f y) \<Longrightarrow> Q a b"
  shows "sorted_wrt Q (concat (map f xs))"
  using assms by (induction xs) (auto simp: sorted_wrt_append)

lemma distinct_iff_sorted_wrt: "distinct xs \<longleftrightarrow> sorted_wrt (\<noteq>) xs"
  by (induction xs) auto

lemma sorted_channels: "sorted_wrt (<) (sorted_list_of_set (A :: jsstring set))"
  using strict_sorted_list_of_set [of A] by simp

lemma channel_commas:
  assumes "\<forall>r \<in> set rs. valid_row r" "ch \<in> set (sorted_list_of_set (row_channel ` set rs))"
  shows "44 \<notin> set ch"
  using assms by (auto simp: valid_row_def)

lemma distinct_channel_month_keys:
  assumes "\<forall>r \<in> set rs. valid_row r"
  shows "distinct (channel_month_keys rs)"
  unfolding channel_month_keys_def distinct_iff_sorted_wrt
proof (rule sorted_wrt_concat)
  show "sorted_wrt (<) (sorted_list_of_set (row_channel ` set rs))" by (rule sorted_channels)
  fix ch assume "ch \<in> set (sorted_list_of_set (row_channel ` set rs))"
  note comma = channel_commas [OF assms this]
  show "sorted_wrt (\<noteq>) (channel_lines rs ch)"
    unfolding channel_lines_def distinct_iff_sorted_wrt [symmetric] distinct_map
    using month_key_inj [OF comma comma] by (auto simp: inj_on_def simp del: upt_Suc)
next
  fix ch ch' a b
  assume "ch < ch'" "ch \<in> set (sorted_list_of_set (row_channel ` set rs))"
    "ch' \<in> set (sorted_list_of_set (row_channel ` set rs))" "a \<in> set (channel_lines rs ch)" "b \<in> set (channel_lines rs ch')"
  then show "a \<noteq> b"
    using month_key_inj [OF channel_commas [OF assms] channel_commas [OF assms]]
    by (auto simp: channel_lines_def simp del: upt_Suc)
qed

lemma mset_channel_month_keys:
  assumes "\<forall>r \<in> set rs. valid_row r"
  shows "mset (channel_month_keys rs) = mset (sorted_list_of_set (row_key ` set rs))"
  using distinct_channel_month_keys [OF assms] set_channel_month_keys [of rs]
  by (simp add: set_eq_iff_mset_eq_distinct [symmetric])

text \<open>The orders agree when no channel has a character up to the comma.\<close>

lemma less_before:
  assumes "(xs :: jsstring) < ys" "\<forall>c \<in> set ys. 44 < c"
  shows "xs @ 44 # as < ys @ 44 # bs"
  using assms
proof (induction xs arbitrary: ys)
  case Nil
  then show ?case by (cases ys) auto
next
  case (Cons x xs)
  then show ?case by (cases ys) auto
qed

lemma less_append: "(xs :: jsstring) @ as < xs @ bs \<longleftrightarrow> as < bs"
  by (induction xs) auto

lemma sorted_months: "sorted_wrt (<) (map (month_key ch) [0..<12])"
proof -
  have "sorted_wrt (<) (map (month_key []) [0..<12])" by code_simp
  moreover have "month_key ch m = ch @ month_key [] m" for m by (simp add: month_key_def)
  ultimately show ?thesis by (simp add: sorted_wrt_map less_append)
qed

lemma sorted_channel_month_keys:
  assumes "\<forall>r \<in> set rs. \<forall>c \<in> set (row_channel r). 44 < c"
  shows "channel_month_keys rs = sorted_list_of_set (row_key ` set rs)"
proof -
  have "sorted_wrt (<) (channel_month_keys rs)"
    unfolding channel_month_keys_def
  proof (rule sorted_wrt_concat)
    show "sorted_wrt (<) (sorted_list_of_set (row_channel ` set rs))" by (rule sorted_channels)
    fix ch
    show "sorted_wrt (<) (channel_lines rs ch)"
      using sorted_months [of ch] unfolding channel_lines_def sorted_wrt_map by (rule sorted_wrt_filter)
  next
    fix ch ch' a b
    assume less: "ch < ch'" and "ch' \<in> set (sorted_list_of_set (row_channel ` set rs))"
      and ab: "a \<in> set (channel_lines rs ch)" "b \<in> set (channel_lines rs ch')"
    then have "\<forall>c \<in> set ch'. 44 < c" using assms by auto
    then show "a < b" using ab less_before [OF less] by (auto simp: channel_lines_def month_key_def simp del: upt_Suc)
  qed
  then have "sorted (channel_month_keys rs)" "distinct (channel_month_keys rs)"
    by (simp_all add: strict_sorted_iff)
  then show ?thesis using set_channel_month_keys [of rs] by (intro sorted_distinct_set_unique) simp_all
qed

section \<open>The program\<close>

lemma ascii_csv:
  assumes "\<forall>r \<in> set rs. ascii_text (row_channel r)"
  shows "ascii_text (csv_text rs)"
proof -
  have "is_digit c \<Longrightarrow> c < 128" for c :: code_unit
    unfolding is_digit_def by (erule conjE) (erule order_le_less_trans, simp)
  then have digits: "ascii_text (nat_to_string n)" for n
    using set_nat_to_string [of _ n] by (auto simp: ascii_text_def)
  have append: "ascii_text (xs @ ys) \<longleftrightarrow> ascii_text xs \<and> ascii_text ys"
    "ascii_text (x # xs) \<longleftrightarrow> x < 128 \<and> ascii_text xs" "ascii_text []" for xs ys x
    by (auto simp: ascii_text_def)
  have "ascii_text (unlines ls)" if "\<forall>l \<in> set ls. ascii_text l" for ls
    using that by (induction ls) (simp_all add: unlines_def append)
  moreover have "ascii_text header_line" by (simp add: header_line_def js_eval append)
  ultimately show ?thesis using assms by (auto simp: csv_text_def row_line_parts append digits)
qed

lemma header_check_full:
  assumes "length csv_header \<le> given" "take (length csv_header) content = csv_header"
  shows "header_check given content = csv_header"
proof -
  have "read_bytes given content 0 (length csv_header) = csv_header"
    using assms by (simp add: read_bytes_def min_def max_def)
  then show ?thesis by (simp add: header_check_def)
qed

text \<open>A short read of the header is not repeated: the program then refuses the file.\<close>

lemma header_check_short:
  assumes "given < length csv_header"
  shows "header_check given content \<noteq> csv_header"
proof
  assume same: "header_check given content = csv_header"
  have "length (read_bytes given content 0 (length csv_header)) < length csv_header"
    using assms by (auto simp: read_bytes_def csv_header_def min_def max_def)
  then have "last (header_check given content) = 0" by (simp add: header_check_def Let_def last_append)
  moreover have "last csv_header = 10" by (simp add: csv_header_def)
  ultimately show False using same by simp
qed

lemma optimized_main_rows:
  assumes "\<forall>r \<in> set rs. valid_row r" "safe_rows rs" "\<forall>r \<in> set rs. ascii_text (row_channel r)"
    "\<forall>i. length (unfilled i) = newline_buffer" "parse_args cpus args = Inr opts" "threads opts = thread_number k"
    "0 < k" "k \<le> 2 ^ 52" "length (csv_text rs) * k \<le> 2 ^ 53" "read (in_path opts) = bytes_of (csv_text rs)"
    "length csv_header \<le> header_given reads"
    "\<forall>i. search_reads (search_given reads i) (unfilled i)
      (split_point (length csv_header) (length (csv_text rs)) (threads opts) i) (length (csv_text rs))"
  shows "\<exists>written. optimized_main cpus reads unfilled read args = Inr (out_path opts, written) \<and>
    concat written = unlines (map (group_line rs) (channel_month_keys rs))"
proof -
  let ?C = "bytes_of (csv_text rs)"
  have rows: "\<forall>r \<in> set rs. valid_row r \<and> row_length r \<le> 2 ^ 53 \<and> row_stamps r \<le> 2 ^ 53"
    using assms(1) safe_row_bounds [OF assms(2)] by blast
  have buffer: "unfilled i \<noteq> []" for i using assms(4) by (metis length_0_conv newline_buffer_def zero_neq_numeral)
  have "(length (csv_text rs) - length csv_header) * k \<le> length (csv_text rs) * k" by (intro mult_le_mono1) simp
  then obtain rss where rss: "concat rss = rs"
    "map (analyzeRange reads ?C) (ranges_of reads ?C unfilled (length csv_header) (thread_number k)) =
      map (\<lambda>rs. result_of (foldl put_row makeStore rs)) rss"
    using ranges_rows [OF rows ascii_csv [OF assms(3)] buffer assms(7,8) _ assms(12)[unfolded assms(6), rule_format]] assms(9)
    by (meson order_trans)
  have "header_check (header_given reads) ?C = csv_header"
    by (rule header_check_full [OF assms(11)]) (simp add: csv_text_def unlines_def bytes_of_def csv_header)
  then have "optimized_main cpus reads unfilled read args = Inr (out_path opts,
      write_results (foldl mergeResult makeStore (map (\<lambda>rs. result_of (foldl put_row makeStore rs)) rss)))"
    by (simp add: optimized_main_def assms(5,6,10) rss(2) Let_def)
  moreover have "store_of rs (foldl mergeResult makeStore (map (\<lambda>rs. result_of (foldl put_row makeStore rs)) rss))"
    using merge_results [of rss] assms(2) by (simp add: rss(1))
  ultimately show ?thesis using write_results_lines [OF _ assms(1,2)] by simp
qed

text \<open>C2: On every ASCII file of valid rows, whatever the number of threads and however short the
  reads of the ranges are, the optimised analyser writes exactly the lines the reference program writes
  for it; and it writes the same text when no channel has a character up to the comma.  The header has to
  arrive in one read, and the first read of every search for a line end has to fill the buffer (or to reach
  the end of the file) unless the uninitialised buffer has no newline in it; the later reads may give what
  they like.\<close>

theorem optimized_equivalent:
  assumes "\<forall>r \<in> set rs. valid_row r" "safe_rows rs" "\<forall>r \<in> set rs. ascii_text (row_channel r)"
    "\<forall>i. length (unfilled i) = newline_buffer" "parse_args cpus args = Inr opts" "threads opts = thread_number k"
    "0 < k" "k \<le> 2 ^ 52" "length (csv_text rs) * k \<le> 2 ^ 53" "read (in_path opts) = bytes_of (csv_text rs)"
    "length csv_header \<le> header_given reads"
    "\<forall>i. let start = split_point (length csv_header) (length (csv_text rs)) (threads opts) i in
       min newline_buffer (length (csv_text rs) - start) \<le> search_given reads i start \<or> 10 \<notin> set (unfilled i)"
    "\<not> starts_with i (js ''-'')" "\<not> starts_with out (js ''-'')"
  shows "\<exists>written keys keys'. optimized_main cpus reads unfilled read args = Inr (out_path opts, written) \<and>
    concat written = unlines (map (group_line rs) keys) \<and>
    baseline_main (\<lambda>_. csv_text rs) [i, out] = Inr (out, unlines (map (group_line rs) keys')) \<and>
    mset keys = mset keys' \<and>
    ((\<forall>r \<in> set rs. \<forall>c \<in> set (row_channel r). 44 < c) \<longrightarrow> keys = keys')"
proof -
  have "baseline_main (\<lambda>_. csv_text rs) [i, out] =
      Inr (out, unlines (map (group_line rs) (sorted_list_of_set (row_key ` set rs))))"
    using analyze_csv [OF assms(1,2)] writeResult_groups [OF assms(2)] assms(13,14)
    by (simp add: baseline_main_def parseArgs_def)
  moreover have "\<forall>i. search_reads (search_given reads i) (unfilled i)
      (split_point (length csv_header) (length (csv_text rs)) (threads opts) i) (length (csv_text rs))"
    using assms(4,12) by (simp add: search_reads_def Let_def)
  ultimately show ?thesis
    using optimized_main_rows [of rs unfilled cpus args opts k read reads, OF assms(1-11)]
      mset_channel_month_keys [OF assms(1)] sorted_channel_month_keys [of rs] by metis
qed

section \<open>Witness\<close>

text \<open>One byte per read of the ranges, full buffers elsewhere, and uninitialised memory that is all
  newlines.\<close>

definition slow_reads :: readings where
  "slow_reads = \<lparr>header_given = 55, search_given = (\<lambda>_ _. newline_buffer), range_given = (\<lambda>_ _. 1)\<rparr>"

theorem optimized_equivalent_witness:
  "\<exists>written text. optimized_main 3 slow_reads (\<lambda>_. replicate newline_buffer 10) (\<lambda>_. bytes_of (csv_text demo_rows))
      [js ''in.csv'', js ''out.txt''] = Inr (js ''out.txt'', written) \<and>
    baseline_main (\<lambda>_. csv_text demo_rows) [js ''in.csv'', js ''out.txt''] = Inr (js ''out.txt'', text) \<and>
    concat written = text"
proof -
  have dash: "\<not> starts_with (js ''in.csv'') (js ''-'')" "\<not> starts_with (js ''out.txt'') (js ''-'')"
    by (simp_all add: starts_with_def js_eval)
  let ?o = "\<lparr>in_path = js ''in.csv'', out_path = js ''out.txt'', threads = of_integer (int 3), profile = False\<rparr>"
  have args: "parse_args 3 [js ''in.csv'', js ''out.txt''] = Inr ?o" using dash by (simp add: parse_args_def)
  have three: "threads ?o = thread_number 3" by (simp add: thread_number_def)
  have "\<forall>r \<in> set demo_rows. ascii_text (row_channel r)" by (simp add: demo_rows_def ascii_text_def js_eval)
  moreover have "length (csv_text demo_rows) \<le> 1000"
    by (simp add: csv_text_def unlines_def demo_rows_def row_line_def header_line_def js_eval)
  then have "length (csv_text demo_rows) * 3 \<le> 2 ^ 53" by simp
  moreover have "\<forall>r \<in> set demo_rows. \<forall>c \<in> set (row_channel r). 44 < c" by (simp add: demo_rows_def js_eval)
  moreover have "\<forall>i. length (replicate newline_buffer (10 :: byte)) = newline_buffer" by simp
  moreover have "length csv_header \<le> header_given slow_reads"
    "min newline_buffer n \<le> search_given slow_reads i m" for i m n
    by (simp_all add: slow_reads_def csv_header_def)
  ultimately show ?thesis
    using optimized_equivalent [OF demo_rows_valid _ _ args three, of "\<lambda>_. replicate newline_buffer 10"
        "\<lambda>_. bytes_of (csv_text demo_rows)" slow_reads "js ''in.csv''" "js ''out.txt''"] dash by auto
qed

end
