(* ===== verification/Compare.thy ===== *)
theory Compare
  imports Js_Regex Js_Collections Js_Text
begin

text \<open>
  The judge's output comparison, \<^verbatim>\<open>apps/runner/src/compare.ts\<close>: both outputs are parsed line by
  line into maps, malformed or duplicate lines fail, and the maps are compared as maps.  A
  \<open>Result\<close> of neverthrow is a sum, a thrown \<open>Error\<close> is its message.  Reading a file yields its
  decoded text or the message of the error the stream raised.
\<close>

datatype comparison_code = Malformed | Duplicate | Missing | Extra | Mismatch | Io

record comparison_error =
  err_code :: comparison_code
  err_message :: jsstring

type_synonym records = "(jsstring, jsstring) js_map"

section \<open>Comparing two maps\<close>

fun compare_actual :: "records \<Rightarrow> (jsstring \<times> jsstring) list \<Rightarrow> comparison_error option" where
  "compare_actual expected [] = None"
| "compare_actual expected ((key, value) # rest) =
     (case map_get expected key of
        None \<Rightarrow> Some \<lparr>err_code = Extra, err_message = js ''unexpected key: '' @ key\<rparr>
      | Some wanted \<Rightarrow>
          if wanted \<noteq> value then Some \<lparr>err_code = Mismatch, err_message = js ''value mismatch: '' @ key\<rparr>
          else compare_actual expected rest)"

fun compare_missing :: "records \<Rightarrow> jsstring list \<Rightarrow> comparison_error option" where
  "compare_missing actual [] = None"
| "compare_missing actual (key # rest) =
     (if \<not> map_has actual key then Some \<lparr>err_code = Missing, err_message = js ''missing key: '' @ key\<rparr>
      else compare_missing actual rest)"

definition compareRecords :: "records \<Rightarrow> records \<Rightarrow> comparison_error + unit" where
  "compareRecords actual expected =
     (case compare_actual expected actual of
        Some e \<Rightarrow> Inl e
      | None \<Rightarrow> (case compare_missing actual (map_keys expected) of Some e \<Rightarrow> Inl e | None \<Rightarrow> Inr ()))"

section \<open>Loading a result file\<close>

text \<open>\<open>/^\d+\/\d+\.\d{2}\/\d+\/\d+\/\d+$/\<close>\<close>

definition value_regex :: regex where
  "value_regex =
     Seq (one_or_more (Cls digit_class)) (Seq (literal (js ''/''))
    (Seq (one_or_more (Cls digit_class)) (Seq (literal (js ''.''))
    (Seq (exactly 2 (Cls digit_class)) (Seq (literal (js ''/''))
    (Seq (one_or_more (Cls digit_class)) (Seq (literal (js ''/''))
    (Seq (one_or_more (Cls digit_class)) (Seq (literal (js ''/''))
         (one_or_more (Cls digit_class)))))))))))"

definition load_line :: "nat \<Rightarrow> jsstring \<Rightarrow> records \<Rightarrow> jsstring + records" where
  "load_line lineNumber line records =
     (let separator = index_of line 61 in
      if separator \<le> 0 \<or> separator = int (length line) - 1
      then Inl (js ''malformed line '' @ nat_to_string lineNumber)
      else let key = take (nat separator) line; value = drop (nat separator + 1) line in
        if map_has records key
        then Inl (js ''duplicate key on line '' @ nat_to_string lineNumber @ js '': '' @ key)
        else if \<not> regex_test value_regex value
        then Inl (js ''malformed value on line '' @ nat_to_string lineNumber @ js '': '' @ key)
        else Inr (map_set key value records))"

fun load_lines :: "nat \<Rightarrow> records \<Rightarrow> jsstring list \<Rightarrow> jsstring + records" where
  "load_lines lineNumber records [] = Inr records"
| "load_lines lineNumber records (raw # rest) =
     (if length raw = 0 then load_lines (lineNumber + 1) records rest
      else (case load_line (lineNumber + 1) raw records of
              Inl e \<Rightarrow> Inl e
            | Inr records' \<Rightarrow> load_lines (lineNumber + 1) records' rest))"

definition loadRecords :: "jsstring + jsstring \<Rightarrow> jsstring + records" where
  "loadRecords file =
     (case file of Inl e \<Rightarrow> Inl e | Inr text \<Rightarrow> load_lines 0 map_new (readline_lines text))"

definition ioError :: "jsstring \<Rightarrow> comparison_error" where
  "ioError message =
     (if starts_with message (js ''duplicate'') then \<lparr>err_code = Duplicate, err_message = message\<rparr>
      else if starts_with message (js ''malformed'') then \<lparr>err_code = Malformed, err_message = message\<rparr>
      else \<lparr>err_code = Io, err_message = message\<rparr>)"

text \<open>\<open>read\<close> opens a path; the expected file is loaded first.\<close>

definition compareOutput ::
    "(jsstring \<Rightarrow> jsstring + jsstring) \<Rightarrow> jsstring \<Rightarrow> jsstring \<Rightarrow> comparison_error + unit" where
  "compareOutput read actualPath expectedPath =
     (case loadRecords (read expectedPath) of
        Inl e \<Rightarrow> Inl (ioError e)
      | Inr expected \<Rightarrow>
          (case loadRecords (read actualPath) of
             Inl e \<Rightarrow> Inl (ioError e)
           | Inr actual \<Rightarrow> compareRecords actual expected))"

section \<open>The comparison decides equality of maps\<close>

lemma compare_actual_None:
  "compare_actual expected xs = None \<longleftrightarrow> (\<forall>(k, v) \<in> set xs. map_get expected k = Some v)"
  by (induction expected xs rule: compare_actual.induct) (auto split: option.splits)

lemma compare_missing_None:
  "compare_missing actual ks = None \<longleftrightarrow> set ks \<subseteq> set (map_keys actual)"
  by (induction ks) (auto simp: map_has_iff)

lemma compareRecords_Inr:
  assumes "distinct (map_keys actual)"
  shows "compareRecords actual expected = Inr () \<longleftrightarrow> map_get actual = map_get expected"
proof
  assume "compareRecords actual expected = Inr ()"
  then have a: "\<forall>(k, v) \<in> set actual. map_get expected k = Some v"
    and m: "set (map_keys expected) \<subseteq> set (map_keys actual)"
    by (auto simp: compareRecords_def compare_actual_None [symmetric] compare_missing_None [symmetric]
        split: option.splits)
  show "map_get actual = map_get expected"
  proof
    fix k
    show "map_get actual k = map_get expected k"
    proof (cases "map_get actual k")
      case None
      then have "k \<notin> set (map_keys expected)" using m jm.keys_get [of k actual] by auto
      then show ?thesis using None jm.keys_get [of k expected] by simp
    next
      case (Some v)
      with a assms show ?thesis by (auto simp: map_get_entry)
    qed
  qed
next
  assume e: "map_get actual = map_get expected"
  have "compare_actual expected actual = None"
    unfolding compare_actual_None e [symmetric] using assms by (auto simp: map_get_entry)
  moreover have "compare_missing actual (map_keys expected) = None"
    unfolding compare_missing_None using e by (auto simp: jm.keys_get)
  ultimately show "compareRecords actual expected = Inr ()" by (simp add: compareRecords_def)
qed


section \<open>The loader\<close>

definition record_line :: "jsstring \<times> jsstring \<Rightarrow> jsstring" where
  "record_line = (\<lambda>(k, v). k @ 61 # v)"

definition valid_record :: "jsstring \<times> jsstring \<Rightarrow> bool" where
  "valid_record = (\<lambda>(k, v). k \<noteq> [] \<and> 61 \<notin> set k \<and> regex_test value_regex v)"

definition value_chars :: "(code_unit \<times> code_unit) list" where
  "value_chars = [(46, 57)]"

lemma lang_value_chars:
  "list_all (\<lambda>c. is_digit c) s \<Longrightarrow> list_all (\<lambda>c. in_ranges c value_chars) s"
  by (auto simp: list_all_iff in_ranges_def value_chars_def is_digit_def word_le_nat_alt)

lemma value_regex_chars:
  assumes "regex_test value_regex v"
  shows "v \<noteq> []" and "list_all (\<lambda>c. in_ranges c value_chars) v"
proof -
  from assms obtain a b c d e f where v: "v = a @ js ''/'' @ b @ js ''.'' @ c @ js ''/'' @ d @ js ''/'' @ e @ js ''/'' @ f"
    and digits: "list_all is_digit a" "list_all is_digit b" "list_all is_digit c" "list_all is_digit d"
      "list_all is_digit e" "list_all is_digit f"
    unfolding regex_test_lang value_regex_def in_lang_Seq in_lang_classes in_digit_class by blast
  have sep: "list_all (\<lambda>c. in_ranges c value_chars) (js ''/'')" "list_all (\<lambda>c. in_ranges c value_chars) (js ''.'')"
    by (simp_all add: js_eval in_ranges_def value_chars_def)
  show "v \<noteq> []" by (simp add: v)
  show "list_all (\<lambda>c. in_ranges c value_chars) v"
    unfolding v using digits sep by (simp add: lang_value_chars)
qed

lemma map_set_new: "k \<notin> set (map_keys m) \<Longrightarrow> map_set k v m = m @ [(k, v)]"
  by (induction m) (auto simp: map_defs)

lemma load_line_Inr:
  "load_line n line m = Inr m' \<longleftrightarrow>
    (\<exists>r. line = record_line r \<and> valid_record r \<and> fst r \<notin> set (map_keys m) \<and> m' = m @ [r])"
proof
  assume l: "load_line n line m = Inr m'"
  let ?sep = "index_of line 61"
  from l have sep: "0 < ?sep" "?sep \<noteq> int (length line) - 1"
    by (auto simp: load_line_def Let_def split: if_splits)
  then obtain i where pos: "position 61 line = Some i" and i: "0 < i" "?sep = int i"
    by (auto simp: index_of_def split: option.splits)
  let ?k = "take i line" and ?v = "drop (Suc i) line"
  have split: "line = ?k @ 61 # ?v" "61 \<notin> set ?k" "i < length line"
    using position_Some_split [OF pos] by auto
  then have "?k \<noteq> []" using i by auto
  moreover from l have "?k \<notin> set (map_keys m)" "regex_test value_regex ?v" "m' = map_set ?k ?v m"
    unfolding load_line_def Let_def i(2) using sep i(2) by (auto simp: map_has_iff nat_add_distrib split: if_splits)
  ultimately show "\<exists>r. line = record_line r \<and> valid_record r \<and> fst r \<notin> set (map_keys m) \<and> m' = m @ [r]"
    using split by (intro exI [of _ "(?k, ?v)"]) (simp add: record_line_def valid_record_def map_set_new)
next
  assume "\<exists>r. line = record_line r \<and> valid_record r \<and> fst r \<notin> set (map_keys m) \<and> m' = m @ [r]"
  then obtain k v where line: "line = k @ 61 # v" and k: "k \<noteq> []" "61 \<notin> set k" "k \<notin> set (map_keys m)"
    and v: "regex_test value_regex v" and m': "m' = m @ [(k, v)]"
    by (auto simp: record_line_def valid_record_def)
  have "v \<noteq> []" using value_regex_chars(1) [OF v] .
  then show "load_line n line m = Inr m'"
    using k v m' index_of_first [OF k(2), of v]
    by (simp add: load_line_def line Let_def map_has_iff map_set_new nat_add_distrib)
qed

lemma record_line_not_Nil: "record_line r \<noteq> []"
  by (simp add: record_line_def split: prod.splits)

lemma takeWhile_separator: "c \<notin> set k \<Longrightarrow> takeWhile (\<lambda>x. x \<noteq> c) (k @ c # v) = k"
  by (induction k) auto

lemma record_line_inj:
  assumes "valid_record r" "valid_record r'" "record_line r = record_line r'"
  shows "r = r'"
proof -
  obtain k v k' v' where r: "r = (k, v)" "r' = (k', v')" by (cases r; cases r')
  have "takeWhile (\<lambda>c. c \<noteq> 61) (k @ 61 # v) = k" "takeWhile (\<lambda>c. c \<noteq> 61) (k' @ 61 # v') = k'"
    using assms(1,2) by (auto simp: r valid_record_def intro: takeWhile_separator)
  with assms(3) show ?thesis by (simp add: r record_line_def)
qed

definition loaded :: "records \<Rightarrow> jsstring list \<Rightarrow> records \<Rightarrow> bool" where
  "loaded m ls rs \<longleftrightarrow> filter (\<lambda>l. l \<noteq> []) ls = map record_line rs \<and> list_all valid_record rs
     \<and> distinct (map_keys (m @ rs))"

lemma loaded_Cons:
  "l \<noteq> [] \<Longrightarrow> loaded m (l # ls) rs \<longleftrightarrow>
    (\<exists>r rs'. rs = r # rs' \<and> l = record_line r \<and> valid_record r \<and> loaded (m @ [r]) ls rs')"
  by (auto simp: loaded_def Cons_eq_map_conv)

lemma loaded_new: "loaded (m @ [r]) ls rs \<Longrightarrow> fst r \<notin> set (map_keys m)"
  by (auto simp: loaded_def map_keys_def)

lemma load_lines_Inr:
  "distinct (map_keys m) \<Longrightarrow> load_lines n m ls = Inr m' \<longleftrightarrow> (\<exists>rs. loaded m ls rs \<and> m' = m @ rs)"
proof (induction n m ls rule: load_lines.induct)
  case (1 n m)
  then show ?case by (auto simp: loaded_def map_keys_def)
next
  case (2 n m l ls)
  show ?case
  proof (cases "l = []")
    case True
    then show ?thesis using 2 by (simp add: loaded_def)
  next
    case False
    note Cons = loaded_Cons [OF False, of m ls]
    show ?thesis
    proof (cases "load_line (n + 1) l m")
      case (Inl e)
      then have "\<not> (valid_record r \<and> l = record_line r \<and> fst r \<notin> set (map_keys m))" for r
        using load_line_Inr [of "n + 1" l m "m @ [r]"] by (metis Inl_Inr_False)
      then have "\<nexists>rs. loaded m (l # ls) rs" unfolding Cons using loaded_new by blast
      then show ?thesis using False Inl by simp
    next
      case (Inr m1)
      then obtain r where r: "l = record_line r" "valid_record r" "fst r \<notin> set (map_keys m)" "m1 = m @ [r]"
        unfolding load_line_Inr by blast
      then have "distinct (map_keys m1)" using "2.prems" by (auto simp: map_keys_def)
      with False Inr have step: "load_lines n m (l # ls) = Inr m' \<longleftrightarrow> (\<exists>rs. loaded m1 ls rs \<and> m' = m1 @ rs)"
        using "2.IH"(2) by simp
      have first: "loaded m (l # ls) rs \<longleftrightarrow> (\<exists>rs'. rs = r # rs' \<and> loaded m1 ls rs')" for rs
      proof
        assume "loaded m (l # ls) rs"
        then obtain r' rs' where o: "rs = r' # rs'" "l = record_line r'" "valid_record r'" "loaded (m @ [r']) ls rs'"
          unfolding Cons by blast
        moreover have "r = r'" using record_line_inj [OF r(2) o(3)] r(1) o(2) by simp
        ultimately show "\<exists>rs'. rs = r # rs' \<and> loaded m1 ls rs'" using r(4) by blast
      next
        assume "\<exists>rs'. rs = r # rs' \<and> loaded m1 ls rs'"
        then show "loaded m (l # ls) rs" unfolding Cons using r(1,2,4) by blast
      qed
      show ?thesis unfolding step first r(4) by auto
    qed
  qed
qed

text \<open>C19: The loader accepts exactly the texts whose non-empty lines are \<open>key=value\<close> records with
  a non-empty key, a value of the published format and no key twice, and it returns those
  records in order.\<close>

theorem loadRecords_iff:
  "loadRecords (Inr text) = Inr m \<longleftrightarrow>
    filter (\<lambda>l. l \<noteq> []) (readline_lines text) = map record_line m \<and> list_all valid_record m
      \<and> distinct (map_keys m)"
proof -
  have "distinct (map_keys (map_new :: records))" by (simp add: map_defs)
  from load_lines_Inr [OF this, of 0 "readline_lines text" m] show ?thesis
    by (auto simp: loadRecords_def loaded_def map_new_def)
qed

text \<open>C20: A result file is accepted exactly when it and the expected file load to the same set of
  records: neither the order of the lines nor blank lines matter, and nothing else is accepted.\<close>

theorem compareOutput_accepts_iff:
  "compareOutput read actual expected = Inr () \<longleftrightarrow>
    (\<exists>xs ys. loadRecords (read actual) = Inr xs \<and> loadRecords (read expected) = Inr ys \<and> set xs = set ys)"
proof -
  have d: "distinct (map_keys m)" if "loadRecords f = Inr m" for f m
    using that loadRecords_iff by (cases f) (auto simp: loadRecords_def)
  show ?thesis
    by (auto simp: compareOutput_def compareRecords_Inr d map_eqI_set split: sum.splits)
qed

lemma load_line_error:
  "load_line n l m = Inl e \<Longrightarrow> starts_with e (js ''malformed'') \<or> starts_with e (js ''duplicate'')"
  by (auto simp: load_line_def Let_def starts_with_def js_eval split: if_splits)

lemma load_lines_error:
  "load_lines n m ls = Inl e \<Longrightarrow> starts_with e (js ''malformed'') \<or> starts_with e (js ''duplicate'')"
  by (induction n m ls rule: load_lines.induct) (auto split: if_splits sum.splits dest: load_line_error)

text \<open>A file that could be read but not accepted by the loader is reported as malformed or
  duplicate, never as an input/output error.\<close>

theorem load_error_classified:
  "case loadRecords (Inr text) of
     Inl e \<Rightarrow> err_code (ioError e) \<in> {Malformed, Duplicate} \<and> err_message (ioError e) = e
   | Inr m \<Rightarrow> distinct (map_keys m)"
proof (cases "loadRecords (Inr text)")
  case (Inl e)
  then show ?thesis using load_lines_error by (fastforce simp: loadRecords_def ioError_def)
next
  case (Inr m)
  then have "distinct (map_keys m)" unfolding loadRecords_iff by simp
  with Inr show ?thesis by simp
qed

end
