(* ===== verification/Js_Math.thy ===== *)
theory Js_Math
  imports Js_Number
begin

text \<open>
  \<open>Math.floor\<close>, \<open>Math.ceil\<close>, \<open>Math.max\<close>, \<open>Math.min\<close> and the remainder on numbers.  The remainder of two doubles
  is exact.  Dividing two integers below \<open>2\<^sup>5\<^sup>3\<close> and rounding to an integer gives the exact quotient.
\<close>

fun num_floor :: "number \<Rightarrow> number" where
  "num_floor (Fin a) = Fin (of_int \<lfloor>a\<rfloor>)"
| "num_floor x = x"

fun num_ceil :: "number \<Rightarrow> number" where
  "num_ceil (Fin a) = Fin (of_int \<lceil>a\<rceil>)"
| "num_ceil x = x"

fun num_max :: "number \<Rightarrow> number \<Rightarrow> number" where
  "num_max NaN _ = NaN"
| "num_max _ NaN = NaN"
| "num_max a b = (if num_less a b then b else a)"

fun num_min :: "number \<Rightarrow> number \<Rightarrow> number" where
  "num_min NaN _ = NaN"
| "num_min _ NaN = NaN"
| "num_min a b = (if num_less b a then b else a)"

definition truncate :: "rat \<Rightarrow> int" where
  "truncate r = (if 0 \<le> r then \<lfloor>r\<rfloor> else \<lceil>r\<rceil>)"

fun num_mod :: "number \<Rightarrow> number \<Rightarrow> number" where
  "num_mod (Fin a) (Fin b) = (if b = 0 then NaN else Fin (a - b * of_int (truncate (a / b))))"
| "num_mod (Fin a) PosInf = Fin a"
| "num_mod (Fin a) NegInf = Fin a"
| "num_mod _ _ = NaN"

lemma round_half_even_nonneg: "0 \<le> r \<Longrightarrow> 0 \<le> round_half_even r"
  by (simp add: round_half_even_def Let_def)

lemma ceil_negative:
  assumes "r \<le> 0"
  shows "num_max (Fin 0) (num_ceil (f64 r)) = Fin 0"
proof (cases "r = 0")
  case False
  let ?v = "of_int (round_half_even (\<bar>r\<bar> / 2 powi ulp_exponent r)) * 2 powi ulp_exponent r :: rat"
  have "0 \<le> ?v" by (intro mult_nonneg_nonneg) (simp_all add: round_half_even_nonneg)
  then have "\<lceil>- ?v\<rceil> \<le> 0" by (simp add: ceiling_le_iff)
  then show ?thesis using assms False by (auto simp: f64_def Let_def)
qed (simp add: f64_def)

text \<open>The double nearest to a quotient stays on the same side of every integer.\<close>

lemma quotient_near:
  assumes "0 < b" "b \<le> 2 ^ 53" "a < 2 ^ 53" "a mod b \<noteq> 0"
  obtains v where "f64 (of_nat a / of_nat b) = Fin v" "of_nat (a div b) < v" "v < of_nat (a div b) + 1"
proof -
  let ?a = "of_nat a :: rat" and ?b = "of_nat b :: rat" and ?k = "of_nat (a div b) :: rat" and ?e = "2 powi (-53) :: rat"
  let ?q = "?a / ?b"
  have b: "1 \<le> ?b" using assms(1) by simp
  have a: "1 \<le> ?a" "?a < 2 ^ 53"
  proof -
    show "1 \<le> ?a" using assms(4) by (cases a) simp_all
    show "?a < 2 ^ 53" using assms(3) by (metis of_nat_less_iff of_nat_numeral of_nat_power)
  qed
  have split: "?a = ?k * ?b + of_nat (a mod b)" by (metis of_nat_add of_nat_mult mult_div_mod_eq mult.commute)
  have "1 \<le> a mod b" "a mod b + 1 \<le> b" using assms(1,4) by (simp_all add: Suc_leI)
  then have r: "1 \<le> (of_nat (a mod b) :: rat)" "of_nat (a mod b) + 1 \<le> ?b"
    using of_nat_mono [of 1 "a mod b"] of_nat_mono [of "a mod b + 1" b] by simp_all
  have low: "?k + 1 / ?b \<le> ?q" and high: "?q \<le> ?k + 1 - 1 / ?b"
  proof -
    have "?q = ?k + of_nat (a mod b) / ?b" unfolding split using b by (simp add: add_divide_distrib)
    moreover have "1 / ?b \<le> of_nat (a mod b) / ?b" using r(1) b by (intro divide_right_mono) simp_all
    moreover have "(of_nat (a mod b) + 1) / ?b \<le> ?b / ?b" using r(2) b by (intro divide_right_mono) simp_all
    ultimately show "?k + 1 / ?b \<le> ?q" "?q \<le> ?k + 1 - 1 / ?b" using b by (simp_all add: add_divide_distrib)
  qed
  have q: "0 < ?q" "?q \<le> 2 ^ 53" using a b by (simp_all add: divide_le_eq mult_le_cancel_left1 order.trans [of ?a "2 ^ 53"])
  obtain v where v: "f64 ?q = Fin v" using f64_finite [of ?q] q by force
  have "?q * ?e < 1 / ?b"
  proof -
    have "?a * ?e < 1" using a(2) by (simp add: power_int_minus field_simps)
    then have "?a * ?e / ?b < 1 / ?b" using b by (intro divide_strict_right_mono) simp_all
    then show ?thesis by (simp add: mult.commute)
  qed
  moreover have "\<bar>v - ?q\<bar> \<le> ?q * ?e"
  proof (rule f64_error [OF q(1) v])
    have "(2 :: rat) powi (-1022) \<le> 2 powi (-53)" by (intro power_int_increasing) simp_all
    also have "\<dots> \<le> 1 / 2 ^ 53" by (simp add: power_int_minus field_simps)
    also have "\<dots> \<le> ?q"
    proof -
      have "?b \<le> 2 ^ 53" using of_nat_mono [OF assms(2)] by simp
      then show ?thesis using a(1) b by (intro frac_le) simp_all
    qed
    finally show "2 powi (-1022) \<le> ?q" .
  qed
  ultimately have "?k < v" "v < ?k + 1" using low high by (simp_all add: abs_le_iff)
  with v show ?thesis using that by blast
qed

lemma floor_quotient:
  assumes "0 < b" "b \<le> 2 ^ 53" "a < 2 ^ 53"
  shows "num_floor (num_div (Fin (of_nat a)) (Fin (of_nat b))) = Fin (of_nat (a div b))"
proof (cases "a mod b = 0")
  case True
  then have "a = a div b * b" by (metis add.right_neutral div_mult_mod_eq)
  then have "(of_nat a / of_nat b :: rat) = of_int (int (a div b))"
    using assms(1) by (metis nonzero_mult_div_cancel_right of_int_of_nat_eq of_nat_eq_0_iff of_nat_mult not_less0)
  moreover have "a div b \<le> a" by simp
  then have "a div b \<le> 2 ^ 53" using assms(3) by linarith
  then have "f64 (of_int (int (a div b))) = Fin (of_int (int (a div b)))" by (intro f64_int) simp
  ultimately show ?thesis using assms(1) by simp
next
  case False
  obtain v where v: "f64 (of_nat a / of_nat b) = Fin v" "of_nat (a div b) < v" "v < of_nat (a div b) + 1"
    using quotient_near [OF assms False] .
  then have "\<lfloor>v\<rfloor> = int (a div b)" by (simp add: floor_eq_iff)
  then show ?thesis using v(1) assms(1) by simp
qed

lemma ceil_quotient:
  assumes "0 < b" "b \<le> 2 ^ 53" "a < 2 ^ 53"
  shows "num_ceil (num_div (Fin (of_nat a)) (Fin (of_nat b))) = Fin (of_nat ((a + b - 1) div b))"
proof (cases "a mod b = 0")
  case True
  then obtain c where c: "a = c * b" by (metis add.right_neutral div_mult_mod_eq)
  have "c * b + b - 1 = (b - 1) + c * b" using assms(1) by simp
  moreover have "((b - 1) + c * b) div b = c" using assms(1) by (subst div_mult_self1) simp_all
  ultimately have "(a + b - 1) div b = c" unfolding c by (simp only:)
  moreover have "(of_nat a / of_nat b :: rat) = of_int (int c)" using assms(1) by (simp add: c)
  moreover have "c \<le> a" using assms(1) by (simp add: c)
  then have "f64 (of_int (int c)) = Fin (of_int (int c))" using assms(3) by (intro f64_int) simp
  ultimately show ?thesis using assms(1) by simp
next
  case False
  obtain v where v: "f64 (of_nat a / of_nat b) = Fin v" "of_nat (a div b) < v" "v < of_nat (a div b) + 1"
    using quotient_near [OF assms False] .
  then have "\<lceil>v\<rceil> = int (a div b) + 1" by (simp add: ceiling_eq_iff)
  moreover have "(a + b - 1) div b = a div b + 1"
  proof -
    have "a = a mod b + a div b * b" by simp
    moreover have "(a div b + 1) * b = a div b * b + b" by simp
    ultimately have "a + b - 1 = (a mod b - 1) + (a div b + 1) * b" using False by linarith
    moreover have "a mod b - 1 < b" using assms(1) by (metis less_imp_diff_less mod_less_divisor)
    then have "((a mod b - 1) + (a div b + 1) * b) div b = a div b + 1"
      using assms(1) by (subst div_mult_self1) simp_all
    ultimately show ?thesis by (simp only:)
  qed
  ultimately show ?thesis using v(1) assms(1) by simp
qed

lemma num_mod_nat: "0 < b \<Longrightarrow> num_mod (Fin (of_nat a)) (Fin (of_nat b)) = Fin (of_nat (a mod b))"
proof -
  assume b: "0 < b"
  have "\<lfloor>of_nat a / of_nat b :: rat\<rfloor> = int (a div b)" by (simp add: floor_divide_of_nat_eq)
  moreover have "0 \<le> (of_nat a / of_nat b :: rat)" by simp
  moreover have "(of_nat a :: rat) - of_nat b * of_nat (a div b) = of_nat (a mod b)"
    by (metis add_diff_cancel_left' mult_div_mod_eq of_nat_add of_nat_mult)
  ultimately show ?thesis using b by (simp add: truncate_def)
qed

end
