(* ===== verification/Judge_Baseline.thy ===== *)
theory Judge_Baseline
  imports Optimized_Equiv Compare Js_Math
begin

text \<open>
  The judge and the reference program together: the expected output the judge loads is the one the
  reference program writes, and a submitted output is accepted exactly when it has the same lines.
\<close>

section \<open>The value of a group is a value of the judge\<close>

lemma digits_in_lang:
  "nat_to_string n \<in> lang (one_or_more (Cls digit_class))" "n < 100 \<Longrightarrow> digits_n 2 n \<in> lang (exactly 2 (Cls digit_class))"
proof -
  show "nat_to_string n \<in> lang (one_or_more (Cls digit_class))"
    using set_nat_to_string [of _ n] by (auto simp: in_lang_classes list_all_iff)
  show "digits_n 2 n \<in> lang (exactly 2 (Cls digit_class))" if "n < 100"
    using digits_n(1,3) [of n 2] that by (simp add: in_lang_classes)
qed

lemma fixed2_nat: "fixed2 (int n) = nat_to_string (n div 100) @ js ''.'' @ digits_n 2 (n mod 100)"
proof -
  have "int n div 100 = int (n div 100)" "int n mod 100 = int (n mod 100)" by (simp_all add: zdiv_int zmod_int)
  then show ?thesis by (simp add: fixed2_def int_to_string_def digits_n_def)
qed

lemma group_value_regex:
  assumes "g \<noteq> []" "safe_rows g"
  shows "regex_test value_regex (group_value g)"
proof -
  let ?c = "mean_cents (sum_list (map row_length g)) (length g)"
  obtain v where "double_value (of_nat (sum_list (map row_length g)) / of_nat (length g)) = v" "0 \<le> v"
    using mean_double [of "length g" "sum_list (map row_length g)"] assms by (auto simp: safe_rows_def)
  then have "0 \<le> ?c" by (simp add: mean_cents_def round_half_even_nonneg)
  then obtain c where c: "?c = int c" using nonneg_int_cases by blast
  have "n mod 100 < 100" for n :: nat by simp
  note lang = digits_in_lang(1) digits_in_lang(2) [OF this]
  have val: "group_value g = nat_to_string (Min (row_length ` set g)) @ js ''/'' @ nat_to_string (c div 100) @ js ''.'' @
      digits_n 2 (c mod 100) @ js ''/'' @ nat_to_string (Max (row_length ` set g)) @ js ''/'' @ nat_to_string (length g) @
      js ''/'' @ nat_to_string (sum_list (map row_stamps g))"
    by (simp add: group_value_def c fixed2_nat)
  show ?thesis
    unfolding regex_test_lang value_regex_def val
    by (intro lang_SeqI lang) (simp_all add: in_lang_literal)
qed

lemma value_no_line_end: "regex_test value_regex v \<Longrightarrow> no_line_end v"
  using value_regex_chars(2) [of v] by (auto simp: no_line_end_def list_all_iff in_ranges_def value_chars_def)

section \<open>The expected records\<close>

definition expected_record :: "row list \<Rightarrow> jsstring \<Rightarrow> jsstring \<times> jsstring" where
  "expected_record rs k = (k, group_value (filter (\<lambda>r. row_key r = k) rs))"

lemma group_line_record: "group_line rs k = record_line (expected_record rs k)"
  by (simp add: group_line_def record_line_def expected_record_def js_eval)

lemma expected_records:
  assumes "\<forall>r \<in> set rs. valid_row r \<and> 61 \<notin> set (row_channel r)" "safe_rows rs" "k \<in> row_key ` set rs"
  shows "valid_record (expected_record rs k)" "no_line_end (group_line rs k)"
proof -
  obtain r where r: "r \<in> set rs" "k = month_key (row_channel r) (row_month r)"
    using assms(3) by (auto simp: row_key_month)
  have digits: "list_all is_digit (digits_n 2 (row_month r + 1))"
    using row_month_less [of r] by (intro digits_n(3)) simp_all
  then have digit: "c \<notin> set (digits_n 2 (row_month r + 1))" if "\<not> is_digit c" for c
    using that by (auto simp: list_all_iff)
  have k: "k \<noteq> []" "61 \<notin> set k" "no_line_end k"
    using r(1) assms(1) digit [of 61] digit [of 10] digit [of 13]
    by (auto simp: r(2) month_key_def js_eval is_digit_def no_line_end_def valid_row_def)
  have "filter (\<lambda>r. row_key r = k) rs \<noteq> []" using assms(3) by (auto simp: filter_empty_conv)
  then have v: "regex_test value_regex (group_value (filter (\<lambda>r. row_key r = k) rs))"
    by (intro group_value_regex safe_rows_filter assms(2))
  then show "valid_record (expected_record rs k)" using k by (simp add: valid_record_def expected_record_def)
  show "no_line_end (group_line rs k)"
    using k(3) value_no_line_end [OF v] by (auto simp: group_line_def no_line_end_def js_eval)
qed

lemma mset_map_permuted:
  assumes "mset xs = mset (map f ys)"
  shows "\<exists>zs. mset zs = mset ys \<and> xs = map f zs"
  using assms
proof (induction xs arbitrary: ys)
  case (Cons x xs)
  then have "x \<in># mset (map f ys)" by (metis list.set_intros(1) set_mset_mset)
  then obtain y where y: "y \<in> set ys" "x = f y" by auto
  then have ys: "mset ys = add_mset y (mset (remove1 y ys))" by simp
  have "mset (map f ys) = add_mset (f y) (mset (map f (remove1 y ys)))"
    by (simp only: mset_map ys image_mset_add_mset)
  then have "mset xs = mset (map f (remove1 y ys))" using Cons.prems y(2) by (simp only: mset.simps add_mset_add_mset_same_iff)
  then obtain zs where "mset zs = mset (remove1 y ys)" "xs = map f zs" using Cons.IH by blast
  then show ?case using y by (intro exI [of _ "y # zs"]) (simp add: insert_DiffM)
qed simp

section \<open>Accepted outputs\<close>

lemma loaded_lines:
  "loadRecords (Inr t) = Inr m \<longleftrightarrow> filter (\<lambda>l. l \<noteq> []) (readline_lines t) = map record_line m \<and>
    list_all valid_record m \<and> distinct (map_keys m)"
  using load_lines_Inr [of map_new 0 "readline_lines t" m]
  by (auto simp: loadRecords_def loaded_def map_new_def map_keys_def)

lemma reference_lines:
  assumes "\<forall>r \<in> set rs. valid_row r \<and> 61 \<notin> set (row_channel r)" "safe_rows rs"
    and "set ks \<subseteq> row_key ` set rs" "distinct ks"
  shows "readline_lines (unlines (map (group_line rs) ks)) = map (group_line rs) ks"
    "loadRecords (Inr (unlines (map (group_line rs) ks))) = Inr (map (expected_record rs) ks)"
proof -
  have ok: "valid_record (expected_record rs k)" "no_line_end (group_line rs k)" if "k \<in> set ks" for k
    using expected_records [OF assms(1,2) subsetD [OF assms(3) that]] by simp_all
  show lines: "readline_lines (unlines (map (group_line rs) ks)) = map (group_line rs) ks"
    using ok(2) by (intro readline_unlines) auto
  have recs: "map (group_line rs) ks = map record_line (map (expected_record rs) ks)"
    by (simp add: group_line_record)
  have "filter (\<lambda>l. l \<noteq> []) (map (group_line rs) ks) = map (group_line rs) ks"
    using record_line_not_Nil by (intro filter_True) (auto simp: group_line_record)
  then have "filter (\<lambda>l. l \<noteq> []) (map (group_line rs) ks) = map record_line (map (expected_record rs) ks)"
    unfolding recs .
  moreover have "distinct (map_keys (map (expected_record rs) ks))"
    using assms(4) by (simp add: map_keys_def expected_record_def comp_def)
  ultimately show "loadRecords (Inr (unlines (map (group_line rs) ks))) = Inr (map (expected_record rs) ks)"
    using ok(1) unfolding loaded_lines lines by (intro conjI) (auto simp: list_all_iff)
qed

lemma accepts_records:
  assumes "loadRecords (read expected) = Inr ys" "distinct (map_keys ys)" "read actual = Inr t"
  shows "compareOutput read actual expected = Inr () \<longleftrightarrow>
    (\<exists>xs. loadRecords (Inr t) = Inr xs \<and> set xs = set ys)"
proof (cases "loadRecords (Inr t)")
  case (Inl e)
  then show ?thesis using assms by (simp add: compareOutput_def)
next
  case (Inr xs)
  then have "distinct (map_keys xs)" using loaded_lines by blast
  then show ?thesis
    using Inr assms map_eqI_set [of xs ys] by (simp add: compareOutput_def compareRecords_Inr)
qed

text \<open>C3: Against the output of the reference program on a file of valid rows whose channels have no
  equals sign, the judge accepts a text exactly when its non-empty lines are a permutation of the
  reference lines.\<close>

theorem judge_accepts_reference_lines:
  assumes "\<forall>r \<in> set rs. valid_row r \<and> 61 \<notin> set (row_channel r)" "safe_rows rs"
    "baseline_main (\<lambda>_. csv_text rs) [js ''in.csv'', js ''out.txt''] = Inr (js ''out.txt'', reference)"
    "read expected = Inr reference" "read actual = Inr t"
  shows "compareOutput read actual expected = Inr () \<longleftrightarrow>
    mset (filter (\<lambda>l. l \<noteq> []) (readline_lines t)) = mset (readline_lines reference)"
proof -
  let ?ks = "sorted_list_of_set (row_key ` set rs)"
  let ?ys = "map (expected_record rs) ?ks"
  have valid: "\<forall>r \<in> set rs. valid_row r" using assms(1) by blast
  have "\<not> starts_with (js ''in.csv'') (js ''-'')" "\<not> starts_with (js ''out.txt'') (js ''-'')"
    by (simp_all add: starts_with_def js_eval)
  then have ref: "reference = unlines (map (group_line rs) ?ks)"
    using assms(3) analyze_csv [OF valid assms(2)] writeResult_groups [OF assms(2)]
    by (simp add: baseline_main_def parseArgs_def)
  have ks: "set ?ks \<subseteq> row_key ` set rs" "distinct ?ks" by simp_all
  note ref_lines = reference_lines [OF assms(1,2) ks, folded ref]
  have distinct: "distinct (map_keys m) \<Longrightarrow> distinct m" for m :: records
    by (simp add: map_keys_def distinct_map)
  have "distinct (map_keys ?ys)" using ref_lines(2) unfolding loaded_lines by blast
  then have ys: "loadRecords (read expected) = Inr ?ys" "distinct (map_keys ?ys)" "distinct ?ys"
    using ref_lines(2) assms(4) distinct by (simp_all only:)
  have lines: "readline_lines reference = map record_line ?ys" by (simp add: ref_lines(1) group_line_record)
  have yv: "list_all valid_record ?ys" using ref_lines(2) loaded_lines by blast
  show ?thesis
    unfolding accepts_records [of read expected ?ys actual t, OF ys(1,2) assms(5)] lines
  proof
    assume "\<exists>xs. loadRecords (Inr t) = Inr xs \<and> set xs = set ?ys"
    then obtain xs where xs: "filter (\<lambda>l. l \<noteq> []) (readline_lines t) = map record_line xs" "distinct (map_keys xs)"
      "set xs = set ?ys" using loaded_lines [of t] by blast
    then have "distinct xs" using distinct by blast
    then have "mset xs = mset ?ys" using xs(3) ys(3) by (simp only: set_eq_iff_mset_eq_distinct)
    then show "mset (filter (\<lambda>l. l \<noteq> []) (readline_lines t)) = mset (map record_line ?ys)"
      unfolding xs(1) mset_map by simp
  next
    assume "mset (filter (\<lambda>l. l \<noteq> []) (readline_lines t)) = mset (map record_line ?ys)"
    then obtain zs where zs: "mset zs = mset ?ys" "filter (\<lambda>l. l \<noteq> []) (readline_lines t) = map record_line zs"
      using mset_map_permuted by blast
    have "set zs = set ?ys" using zs(1) by (rule mset_eq_setD)
    moreover have "distinct (map_keys zs)"
      using ys(2) zs(1) unfolding map_keys_def by (metis mset_map mset_eq_imp_distinct_iff)
    ultimately show "\<exists>xs. loadRecords (Inr t) = Inr xs \<and> set xs = set ?ys"
      using zs(2) yv loaded_lines [of t zs] by (auto simp: list_all_iff)
  qed
qed

text \<open>In particular it accepts what the optimised analyser writes for the same file.\<close>

lemma optimized_accepted:
  assumes "\<forall>r \<in> set rs. valid_row r \<and> 61 \<notin> set (row_channel r)" "safe_rows rs"
    "read expected = Inr (unlines (map (group_line rs) (sorted_list_of_set (row_key ` set rs))))"
    "read actual = Inr (unlines (map (group_line rs) (channel_month_keys rs)))"
  shows "compareOutput read actual expected = Inr ()"
proof -
  have valid: "\<forall>r \<in> set rs. valid_row r" using assms(1) by blast
  have sorted: "set (sorted_list_of_set (row_key ` set rs)) \<subseteq> row_key ` set rs" "distinct (sorted_list_of_set (row_key ` set rs))"
    by simp_all
  have grouped: "set (channel_month_keys rs) \<subseteq> row_key ` set rs" "distinct (channel_month_keys rs)"
    using set_channel_month_keys [of rs] distinct_channel_month_keys [OF valid] by simp_all
  note e = reference_lines(2) [OF assms(1,2) sorted, folded assms(3)]
  note a = reference_lines(2) [OF assms(1,2) grouped]
  have "distinct (map_keys (map (expected_record rs) (sorted_list_of_set (row_key ` set rs))))"
    using reference_lines(2) [OF assms(1,2) sorted] unfolding loaded_lines by blast
  then show ?thesis
    using accepts_records [of read expected _ actual, OF e _ assms(4)] a set_channel_month_keys [of rs] by auto
qed

section \<open>Witness\<close>

definition demo_line :: jsstring where
  "demo_line = js ''team/dev,2027-01=10/15.00/20/2/3''"

lemma demo_reference:
  "baseline_main (\<lambda>_. csv_text demo_rows) [js ''in.csv'', js ''out.txt''] = Inr (js ''out.txt'', unlines [demo_line])"
proof -
  have "row_key ` set demo_rows = set (map row_key demo_rows)" by simp
  then have "sorted_list_of_set (row_key ` set demo_rows) = [js ''team/dev,2027-01'']"
    unfolding demo_keys by simp
  moreover have "\<not> starts_with (js ''in.csv'') (js ''-'')" "\<not> starts_with (js ''out.txt'') (js ''-'')"
    by (simp_all add: starts_with_def js_eval)
  ultimately show ?thesis
    using analyze_csv [OF demo_rows_valid] writeResult_groups [OF demo_rows_valid(2)]
    by (simp add: baseline_main_def parseArgs_def demo_group demo_line_def)
qed

theorem judge_accepts_reference_lines_witness:
  "compareOutput (\<lambda>p. Inr (if p = js ''expected'' then unlines [demo_line] else 10 # demo_line))
    (js ''actual'') (js ''expected'') = Inr ()"
proof -
  let ?read = "\<lambda>p. Inr (if p = js ''expected'' then unlines [demo_line] else 10 # demo_line)"
  have "\<forall>r \<in> set demo_rows. valid_row r \<and> 61 \<notin> set (row_channel r)"
    using demo_rows_valid(1) by (simp add: demo_rows_def js_eval)
  note iff = judge_accepts_reference_lines [OF this demo_rows_valid(2) demo_reference,
      of ?read "js ''expected''" "js ''actual''" "10 # demo_line"]
  moreover have "filter (\<lambda>l. l \<noteq> []) (readline_lines (10 # demo_line)) = readline_lines (unlines [demo_line])"
    by code_simp
  ultimately show ?thesis by simp
qed

end
