(* ===== verification/Node.thy ===== *)
theory Node
  imports Js_Number Js_Text
begin

text \<open>
  What the runner uses of Node.js: \<open>path.join\<close>, asynchronous operations that succeed or throw,
  and the file system.  An operation is a function from a world to a result (the message of the
  thrown error, or a value) and a new world.  The host is a parameter: which operation fails with
  which message, how much of a content a failed copy, write or upload leaves behind, what an external program answers and does to the files, random identifiers and
  the clock.  Every operation advances the world's counter, so the host may answer differently
  each time.
\<close>

section \<open>Paths\<close>

fun normalize_segments :: "bool \<Rightarrow> jsstring list \<Rightarrow> jsstring list \<Rightarrow> jsstring list" where
  "normalize_segments absolute acc [] = acc"
| "normalize_segments absolute acc (seg # rest) =
     (if seg = [] \<or> seg = js ''.'' then normalize_segments absolute acc rest
      else if seg = js ''..''
      then (if acc \<noteq> [] \<and> last acc \<noteq> js ''..'' then normalize_segments absolute (butlast acc) rest
            else if absolute then normalize_segments absolute acc rest
            else normalize_segments absolute (acc @ [seg]) rest)
      else normalize_segments absolute (acc @ [seg]) rest)"

definition path_normalize :: "jsstring \<Rightarrow> jsstring" where
  "path_normalize p =
     (if p = [] then js ''.''
      else let absolute = (hd p = 47); trailing = (last p = 47);
               body = join_with [47] (normalize_segments absolute [] (split_on 47 p))
           in if body = [] then (if absolute then js ''/'' else if trailing then js ''./'' else js ''.'')
              else (if absolute then [47] else []) @ body @ (if trailing then [47] else []))"

definition path_join :: "jsstring list \<Rightarrow> jsstring" where
  "path_join parts =
     (let nonempty = filter (\<lambda>p. p \<noteq> []) parts in
      if nonempty = [] then js ''.'' else path_normalize (join_with [47] nonempty))"

section \<open>Operations that may throw\<close>

type_synonym ('w, 'a) io = "'w \<Rightarrow> (jsstring + 'a) \<times> 'w"

definition io_return :: "'a \<Rightarrow> ('w, 'a) io" where
  "io_return x = (\<lambda>w. (Inr x, w))"

definition io_throw :: "jsstring \<Rightarrow> ('w, 'a) io" where
  "io_throw e = (\<lambda>w. (Inl e, w))"

definition io_bind :: "('w, 'a) io \<Rightarrow> ('a \<Rightarrow> ('w, 'b) io) \<Rightarrow> ('w, 'b) io" where
  "io_bind m f = (\<lambda>w. case m w of (Inl e, w') \<Rightarrow> (Inl e, w') | (Inr x, w') \<Rightarrow> f x w')"

definition io_then :: "('w, 'a) io \<Rightarrow> ('w, 'b) io \<Rightarrow> ('w, 'b) io" where
  "io_then m n = io_bind m (\<lambda>x. n)"

definition io_catch :: "('w, 'a) io \<Rightarrow> (jsstring \<Rightarrow> ('w, 'a) io) \<Rightarrow> ('w, 'a) io" where
  "io_catch m f = (\<lambda>w. case m w of (Inl e, w') \<Rightarrow> f e w' | (Inr x, w') \<Rightarrow> (Inr x, w'))"

text \<open>\<open>try { m } finally { f }\<close>: an error of \<open>f\<close> replaces the outcome of \<open>m\<close>.\<close>

definition io_finally :: "('w, 'a) io \<Rightarrow> ('w, 'b) io \<Rightarrow> ('w, 'a) io" where
  "io_finally m f = (\<lambda>w. case m w of (r, w') \<Rightarrow> (case f w' of (Inl e, w'') \<Rightarrow> (Inl e, w'') | (Inr y, w'') \<Rightarrow> (r, w'')))"

definition io_when :: "bool \<Rightarrow> ('w, unit) io \<Rightarrow> ('w, unit) io" where
  "io_when b m = (if b then m else io_return ())"

text \<open>\<open>ensures P Q m\<close>: from a world with \<open>P\<close>, whatever the outcome of \<open>m\<close>, the outcome and the
  world satisfy \<open>Q\<close>.\<close>

definition ensures :: "('w \<Rightarrow> bool) \<Rightarrow> (jsstring + 'a \<Rightarrow> 'w \<Rightarrow> bool) \<Rightarrow> ('w, 'a) io \<Rightarrow> bool" where
  "ensures P Q m \<longleftrightarrow> (\<forall>w. P w \<longrightarrow> (case m w of (r, w') \<Rightarrow> Q r w'))"

definition preserves :: "('w \<Rightarrow> bool) \<Rightarrow> ('w, 'a) io \<Rightarrow> bool" where
  "preserves P m \<longleftrightarrow> (\<forall>w. P w \<longrightarrow> P (snd (m w)))"

named_theorems preserved \<open>operations that keep an invariant of the world\<close>

lemma preserves_return [preserved]: "preserves P (io_return x)"
  and preserves_throw [preserved]: "preserves P (io_throw e)"
  by (simp_all add: preserves_def io_return_def io_throw_def)

lemma preserves_bind [preserved]: "preserves P m \<Longrightarrow> (\<And>x. preserves P (f x)) \<Longrightarrow> preserves P (io_bind m f)"
  unfolding preserves_def io_bind_def by (force split: prod.splits sum.splits)

lemma preserves_then [preserved]: "preserves P m \<Longrightarrow> preserves P n \<Longrightarrow> preserves P (io_then m n)"
  by (simp add: io_then_def preserves_bind)

lemma preserves_catch [preserved]: "preserves P m \<Longrightarrow> (\<And>e. preserves P (f e)) \<Longrightarrow> preserves P (io_catch m f)"
  unfolding preserves_def io_catch_def by (force split: prod.splits sum.splits)

lemma preserves_finally [preserved]: "preserves P m \<Longrightarrow> preserves P f \<Longrightarrow> preserves P (io_finally m f)"
  unfolding preserves_def io_finally_def by (force split: prod.splits sum.splits)

lemma preserves_when [preserved]: "preserves P m \<Longrightarrow> preserves P (io_when b m)"
  by (simp add: io_when_def preserves_return)

lemma preserves_if [preserved]: "preserves P m \<Longrightarrow> preserves P n \<Longrightarrow> preserves P (if b then m else n)"
  by simp

text \<open>What a sequence that returned did.\<close>

lemma io_bind_Inr:
  "io_bind m f w = (Inr y, w'') \<longleftrightarrow> (\<exists>x w'. m w = (Inr x, w') \<and> f x w' = (Inr y, w''))"
  by (auto simp: io_bind_def split: prod.splits sum.splits)

lemma io_then_Inr:
  "io_then m n w = (Inr y, w'') \<longleftrightarrow> (\<exists>x w'. m w = (Inr x, w') \<and> n w' = (Inr y, w''))"
  by (simp add: io_then_def io_bind_Inr)

lemma io_return_iff [simp]: "io_return x w = (r, w') \<longleftrightarrow> r = Inr x \<and> w' = w"
  and io_throw_iff [simp]: "io_throw e w = (r, w') \<longleftrightarrow> r = Inl e \<and> w' = w"
  by (auto simp: io_return_def io_throw_def)

section \<open>The world\<close>

type_synonym byte = "8 word"

record file_stat =
  stat_size :: nat
  stat_mtimeMs :: number

datatype node = Directory | File "byte list" number nat

type_synonym files = "jsstring \<Rightarrow> node option"

datatype command_result = Exited nat jsstring | Not_run jsstring

record executed =
  program :: jsstring
  arguments :: "jsstring list"
  environment :: "(jsstring \<times> jsstring) list"
  time_limit :: "nat option"
  output_limit :: "nat option"

record world =
  files :: files
  counter :: nat
  slept :: nat
  executions :: "(executed \<times> command_result) list"
  stdout_text :: jsstring
  stderr_text :: jsstring
  exit_code :: nat

record host =
  host_command :: "nat \<Rightarrow> executed \<Rightarrow> files \<Rightarrow> command_result \<times> files"
  host_fault :: "nat \<Rightarrow> jsstring option"
  host_read_fault :: "nat \<Rightarrow> jsstring \<Rightarrow> jsstring option"
  host_message :: "nat \<Rightarrow> jsstring"
  host_uuid :: "nat \<Rightarrow> jsstring"
  host_now :: "nat \<Rightarrow> nat \<Rightarrow> int"
  host_date_of :: "number \<Rightarrow> number"
  host_partial :: "nat \<Rightarrow> nat"
  host_decode :: "byte list \<Rightarrow> jsstring"
  host_sha256 :: "byte list \<Rightarrow> jsstring"
  host_directory :: file_stat

type_synonym 'a action = "(world, 'a) io"

definition below :: "jsstring \<Rightarrow> jsstring \<Rightarrow> bool" where
  "below directory p \<longleftrightarrow> p = directory \<or> starts_with p (directory @ js ''/'')"

text \<open>The directories on the way to a path, the path included.\<close>

definition ancestors :: "jsstring \<Rightarrow> jsstring list" where
  "ancestors p = filter (\<lambda>q. q \<noteq> [])
     (map (\<lambda>n. join_with [47] (take n (split_on 47 p))) [1..<Suc (length (split_on 47 p))])"

definition parent :: "jsstring \<Rightarrow> jsstring" where
  "parent p = (let q = join_with [47] (butlast (split_on 47 p)) in if q = [] then js ''/'' else q)"

text \<open>An operation on the file system: the host may make it fail; otherwise \<open>f\<close> is its outcome.\<close>

definition fs_action :: "host \<Rightarrow> (files \<Rightarrow> (jsstring + ('a \<times> files))) \<Rightarrow> 'a action" where
  "fs_action h f = (\<lambda>w.
     let w' = w\<lparr>counter := counter w + 1\<rparr> in
     case host_fault h (counter w) of
       Some e \<Rightarrow> (Inl e, w')
     | None \<Rightarrow> (case f (files w) of Inl e \<Rightarrow> (Inl e, w') | Inr (x, fs) \<Rightarrow> (Inr x, w'\<lparr>files := fs\<rparr>)))"

definition with_node :: "files \<Rightarrow> jsstring \<Rightarrow> (node \<Rightarrow> jsstring + 'a) \<Rightarrow> jsstring + 'a" where
  "with_node fs p f = (case fs p of None \<Rightarrow> Inl (js ''ENOENT'') | Some n \<Rightarrow> f n)"

definition access :: "host \<Rightarrow> jsstring \<Rightarrow> unit action" where
  "access h p = fs_action h (\<lambda>fs. with_node fs p (\<lambda>n. Inr ((), fs)))"

definition node_stat :: "host \<Rightarrow> node \<Rightarrow> file_stat" where
  "node_stat h n = (case n of
     Directory \<Rightarrow> host_directory h
   | File content mtime mode \<Rightarrow> \<lparr>stat_size = length content, stat_mtimeMs = mtime\<rparr>)"

definition stat :: "host \<Rightarrow> jsstring \<Rightarrow> file_stat action" where
  "stat h p = fs_action h (\<lambda>fs. with_node fs p (\<lambda>n. Inr (node_stat h n, fs)))"

definition make_directories :: "jsstring list \<Rightarrow> files \<Rightarrow> files" where
  "make_directories ps fs = (\<lambda>q. if q \<in> set ps then Some Directory else fs q)"

definition mkdir_recursive :: "host \<Rightarrow> jsstring \<Rightarrow> nat \<Rightarrow> unit action" where
  "mkdir_recursive h p mode = fs_action h (\<lambda>fs.
     if list_ex (\<lambda>q. case fs q of Some (File c t m) \<Rightarrow> True | _ \<Rightarrow> False) (ancestors p) then Inl (js ''EEXIST'')
     else Inr ((), make_directories (ancestors p) fs))"

definition rm_recursive :: "host \<Rightarrow> jsstring \<Rightarrow> unit action" where
  "rm_recursive h p = fs_action h (\<lambda>fs. Inr ((), \<lambda>q. if below p q then None else fs q))"

text \<open>\<open>rm(path, { force: true })\<close> does not remove a directory.\<close>

definition rm_force :: "host \<Rightarrow> jsstring \<Rightarrow> unit action" where
  "rm_force h p = fs_action h (\<lambda>fs. if fs p = Some Directory then Inl (js ''EISDIR'') else Inr ((), fs(p := None)))"

definition put_file :: "files \<Rightarrow> jsstring \<Rightarrow> byte list \<Rightarrow> number \<Rightarrow> nat \<Rightarrow> jsstring + (unit \<times> files)" where
  "put_file fs p content mtime mode =
     (if fs (parent p) \<noteq> Some Directory then Inl (js ''ENOENT'')
      else if fs p = Some Directory then Inl (js ''EISDIR'')
      else Inr ((), fs(p \<mapsto> File content mtime mode)))"

definition now_number :: "host \<Rightarrow> world \<Rightarrow> number" where
  "now_number h w = Fin (of_int (host_now h (counter w) (slept w)))"

text \<open>Storing a content takes several writes.  One that fails may have created the file and written a part
  of the content: nothing is left behind when the host's number is 0, the first \<open>k\<close> bytes when it is
  \<open>k + 1\<close>.\<close>

definition left_part :: "host \<Rightarrow> jsstring \<Rightarrow> byte list \<Rightarrow> nat \<Rightarrow> world \<Rightarrow> files" where
  "left_part h p content mode w =
     (case host_partial h (counter w) of
        0 \<Rightarrow> files w
      | Suc k \<Rightarrow>
          (case put_file (files w) p (take k content) (now_number h w) mode of
             Inl e \<Rightarrow> files w
           | Inr (u, fs) \<Rightarrow> fs))"

definition store_file :: "host \<Rightarrow> jsstring \<Rightarrow> byte list \<Rightarrow> nat \<Rightarrow> unit action" where
  "store_file h p content mode = (\<lambda>w.
     let w' = w\<lparr>counter := counter w + 1\<rparr> in
     case host_fault h (counter w) of
       Some e \<Rightarrow> (Inl e, w'\<lparr>files := left_part h p content mode w\<rparr>)
     | None \<Rightarrow>
         (case put_file (files w) p content (now_number h w) mode of
            Inl e \<Rightarrow> (Inl e, w')
          | Inr (u, fs) \<Rightarrow> (Inr u, w'\<lparr>files := fs\<rparr>)))"

definition writeFile :: "host \<Rightarrow> jsstring \<Rightarrow> byte list \<Rightarrow> nat \<Rightarrow> unit action" where
  "writeFile h p content mode = store_file h p content mode"

definition copyFile :: "host \<Rightarrow> jsstring \<Rightarrow> jsstring \<Rightarrow> unit action" where
  "copyFile h src dst = (\<lambda>w.
     case files w src of
       Some (File content mtime mode) \<Rightarrow> store_file h dst content mode w
     | n \<Rightarrow> fs_action h (\<lambda>fs. with_node fs src (\<lambda>n. Inl (js ''EISDIR''))) w)"

lemma preserves_copyFile:
  assumes "\<And>content mode. preserves P (store_file h dst content mode)"
    and "preserves P (fs_action h (\<lambda>fs. with_node fs src (\<lambda>n. Inl (js ''EISDIR''))) :: unit action)"
  shows "preserves P (copyFile h src dst)"
  unfolding preserves_def
proof (intro allI impI)
  fix w
  assume "P w"
  with assms show "P (snd (copyFile h src dst w))"
    by (simp add: preserves_def copyFile_def split: option.split node.split)
qed

definition utimes :: "host \<Rightarrow> jsstring \<Rightarrow> number \<Rightarrow> unit action" where
  "utimes h p mtime = fs_action h (\<lambda>fs. with_node fs p (\<lambda>n. Inr ((), case n of
       Directory \<Rightarrow> fs | File content t mode \<Rightarrow> fs(p \<mapsto> File content mtime mode))))"

definition chmod :: "host \<Rightarrow> jsstring \<Rightarrow> nat \<Rightarrow> unit action" where
  "chmod h p mode = fs_action h (\<lambda>fs. with_node fs p (\<lambda>n. Inr ((), case n of
       Directory \<Rightarrow> fs | File content t m \<Rightarrow> fs(p \<mapsto> File content t mode))))"

definition rename_file :: "host \<Rightarrow> jsstring \<Rightarrow> jsstring \<Rightarrow> unit action" where
  "rename_file h src dst = fs_action h (\<lambda>fs. with_node fs src (\<lambda>n. case n of
       Directory \<Rightarrow> Inl (js ''EISDIR'')
     | File content t mode \<Rightarrow> map_sum id (map_prod id (\<lambda>fs'. if src = dst then fs' else fs'(src := None))) (put_file fs dst content t mode)))"

definition write_stdout :: "jsstring \<Rightarrow> unit action" where
  "write_stdout s = (\<lambda>w. (Inr (), w\<lparr>stdout_text := stdout_text w @ s\<rparr>))"

text \<open>Run a program to its end, with additional environment variables, a time limit in
  milliseconds and a limit of the captured output (\<open>None\<close>: no limit).  The host decides what it
  answers and does to the files.\<close>

definition run_program ::
    "host \<Rightarrow> jsstring \<Rightarrow> jsstring list \<Rightarrow> (jsstring \<times> jsstring) list \<Rightarrow> nat option \<Rightarrow> nat option \<Rightarrow> command_result action" where
  "run_program h exe args env limit max_output = (\<lambda>w.
     let e = \<lparr>program = exe, arguments = args, environment = env, time_limit = limit, output_limit = max_output\<rparr> in
     case host_command h (counter w) e (files w) of
       (r, fs) \<Rightarrow> (Inr r, w\<lparr>counter := counter w + 1, files := fs, executions := executions w @ [(e, r)]\<rparr>))"

definition random_uuid :: "host \<Rightarrow> jsstring action" where
  "random_uuid h = (\<lambda>w. (Inr (host_uuid h (counter w)), w\<lparr>counter := counter w + 1\<rparr>))"

definition date_now :: "host \<Rightarrow> int action" where
  "date_now h = (\<lambda>w. (Inr (host_now h (counter w) (slept w)), w\<lparr>counter := counter w + 1\<rparr>))"

definition sleep :: "nat \<Rightarrow> unit action" where
  "sleep ms = (\<lambda>w. (Inr (), w\<lparr>slept := slept w + ms\<rparr>))"

text \<open>The clock does not run backwards, and a pause takes at least its time.\<close>

definition clock_runs :: "host \<Rightarrow> bool" where
  "clock_runs h \<longleftrightarrow> (\<forall>n n' s s'. n \<le> n' \<longrightarrow> s \<le> s' \<longrightarrow>
     host_now h n s + int (s' - s) \<le> host_now h n' s')"

text \<open>The decoded text of a file, as the comparison reads it.\<close>

definition read_text :: "host \<Rightarrow> world \<Rightarrow> jsstring \<Rightarrow> jsstring + jsstring" where
  "read_text h w p =
     (case host_read_fault h (counter w) p of
        Some e \<Rightarrow> Inl e
      | None \<Rightarrow> with_node (files w) p (\<lambda>n. case n of
          Directory \<Rightarrow> Inl (js ''EISDIR'') | File content t m \<Rightarrow> Inr (host_decode h content)))"

text \<open>An error thrown by a library, with a message of the library's.\<close>

definition library_error :: "host \<Rightarrow> 'a action" where
  "library_error h = (\<lambda>w. (Inl (host_message h (counter w)), w\<lparr>counter := counter w + 1\<rparr>))"

section \<open>Every operation moves forward\<close>

definition later :: "nat \<Rightarrow> nat \<Rightarrow> world \<Rightarrow> bool" where
  "later c s w \<longleftrightarrow> c \<le> counter w \<and> s \<le> slept w"

lemma forward [preserved]:
  "preserves (later c s) (fs_action h f)"
  "preserves (later c s) (store_file h p content mode)"
  "preserves (later c s) (write_stdout t)"
  "preserves (later c s) (run_program h exe args env limit max_output)"
  "preserves (later c s) (random_uuid h)"
  "preserves (later c s) (date_now h)"
  "preserves (later c s) (sleep ms)"
  "preserves (later c s) (library_error h)"
  by (auto simp: preserves_def later_def fs_action_def store_file_def write_stdout_def run_program_def random_uuid_def
      date_now_def sleep_def library_error_def Let_def split: option.splits sum.splits prod.splits)

section \<open>A host without faults\<close>

text \<open>A host on which nothing fails, for applying the theorems at concrete inputs: programs succeed
  and print nothing, the clock counts operations and pauses.\<close>

definition calm_host :: host where
  "calm_host = \<lparr>host_command = (\<lambda>n e fs. (Exited 0 [], fs)), host_fault = (\<lambda>n. None),
     host_read_fault = (\<lambda>n p. None), host_message = (\<lambda>n. js ''error''), host_uuid = (\<lambda>n. js ''0a1b2c3d''),
     host_now = (\<lambda>n s. int n + int s), host_date_of = (\<lambda>t. t), host_partial = (\<lambda>n. 0),
     host_decode = (\<lambda>bs. map ucast bs), host_sha256 = (\<lambda>bs. replicate 64 48),
     host_directory = \<lparr>stat_size = 0, stat_mtimeMs = Fin 0\<rparr>\<rparr>"

definition empty_world :: world where
  "empty_world = \<lparr>files = (\<lambda>p. if p = js ''/'' then Some Directory else None), counter = 0, slept = 0, executions = [],
     stdout_text = [], stderr_text = [], exit_code = 0\<rparr>"

lemma calm_clock: "clock_runs calm_host"
  by (auto simp: clock_runs_def calm_host_def)

end
