(* ===== verification/Zod.thy ===== *)
theory Zod
  imports Js_Json Js_Date
begin

text \<open>
  The schemas the program builds with the validation library zod, as data, and the documented
  meaning of the combinators as the laws of the locale \<open>zod\<close>.  The library itself is not part of
  the repository: every definition that validates takes \<open>accepts\<close> as an argument.
  \<open>documented_accepts\<close> is one implementation of the laws; it shows that they are consistent.
\<close>

datatype string_check = Min_length nat | Max_length nat | Prefix jsstring | Pattern regex

datatype schema =
    Literal json
  | Enumeration "jsstring list"
  | Text "string_check list"
  | Positive_integer
  | Boolean
  | Null
  | Iso_datetime
  | Nullable schema
  | List_of nat schema
  | Tuple "schema list"
  | Object "(jsstring \<times> schema) list"
  | Strict_object "(jsstring \<times> schema) list"
  | Union "schema list"

fun string_check_ok :: "string_check \<Rightarrow> jsstring \<Rightarrow> bool" where
  "string_check_ok (Min_length n) s = (n \<le> length s)"
| "string_check_ok (Max_length n) s = (length s \<le> n)"
| "string_check_ok (Prefix p) s = starts_with s p"
| "string_check_ok (Pattern r) s = regex_test r s"

definition positive_integer :: "json \<Rightarrow> bool" where
  "positive_integer v \<longleftrightarrow> (case v of JNum (Fin r) \<Rightarrow> of_int \<lfloor>r\<rfloor> = r \<and> 0 < r \<and> r \<le> 2 ^ 53 - 1 | _ \<Rightarrow> False)"

definition is_text :: "string_check list \<Rightarrow> json \<Rightarrow> bool" where
  "is_text cs v \<longleftrightarrow> (case v of JStr s \<Rightarrow> list_all (\<lambda>c. string_check_ok c s) cs | _ \<Rightarrow> False)"

definition is_name :: "jsstring list \<Rightarrow> json \<Rightarrow> bool" where
  "is_name names v \<longleftrightarrow> (case v of JStr s \<Rightarrow> s \<in> set names | _ \<Rightarrow> False)"

definition is_object :: "json \<Rightarrow> bool" where
  "is_object v \<longleftrightarrow> (case v of JObj ms \<Rightarrow> True | _ \<Rightarrow> False)"

definition no_other_members :: "jsstring list \<Rightarrow> json \<Rightarrow> bool" where
  "no_other_members ks v \<longleftrightarrow> (case v of JObj ms \<Rightarrow> set (map fst ms) \<subseteq> set ks | _ \<Rightarrow> False)"

locale zod =
  fixes accepts :: "schema \<Rightarrow> json \<Rightarrow> bool"
  assumes literal_law: "accepts (Literal l) v \<longleftrightarrow> v = l"
    and enum_law: "accepts (Enumeration names) v \<longleftrightarrow> is_name names v"
    and text_law: "accepts (Text cs) v \<longleftrightarrow> is_text cs v"
    and integer_law: "accepts Positive_integer v \<longleftrightarrow> positive_integer v"
    and boolean_law: "accepts Boolean v \<longleftrightarrow> (\<exists>b. v = JBool b)"
    and null_law: "accepts Null v \<longleftrightarrow> v = JNull"
    and datetime_law: "accepts Iso_datetime v \<Longrightarrow> \<exists>s. v = JStr s"
    and nullable_law: "accepts (Nullable s) v \<longleftrightarrow> v = JNull \<or> accepts s v"
    and list_law: "accepts (List_of n s) v \<longleftrightarrow> (\<exists>vs. v = JArr vs \<and> n \<le> length vs \<and> (\<forall>x \<in> set vs. accepts s x))"
    and tuple_law: "accepts (Tuple ss) v \<longleftrightarrow> (\<exists>vs. v = JArr vs \<and> list_all2 accepts ss vs)"
    and object_law: "accepts (Object fs) v \<longleftrightarrow>
      is_object v \<and> (\<forall>(k, s) \<in> set fs. \<exists>x. member v k = Some x \<and> accepts s x)"
    and strict_law: "accepts (Strict_object fs) v \<longleftrightarrow> accepts (Object fs) v \<and> no_other_members (map fst fs) v"
    and union_law: "accepts (Union ss) v \<longleftrightarrow> (\<exists>s \<in> set ss. accepts s v)"
begin

lemmas laws = literal_law enum_law text_law integer_law boolean_law null_law nullable_law
  list_law tuple_law union_law

lemma strict_iff:
  "accepts (Strict_object fs) v \<longleftrightarrow>
    is_object v \<and> (\<forall>(k, s) \<in> set fs. \<exists>x. member v k = Some x \<and> accepts s x)
    \<and> (\<forall>k. k \<notin> set (map fst fs) \<longrightarrow> member v k = None)"
proof -
  have "no_other_members ks v \<longleftrightarrow> (\<forall>k. k \<notin> set ks \<longrightarrow> member v k = None)" if "is_object v" for ks
    using that by (cases v) (auto simp: is_object_def no_other_members_def member_def map_of_eq_None_iff)
  then show ?thesis unfolding strict_law object_law by blast
qed

end

function documented_accepts :: "schema \<Rightarrow> json \<Rightarrow> bool" where
  "documented_accepts (Literal l) v = (v = l)"
| "documented_accepts (Enumeration names) v = is_name names v"
| "documented_accepts (Text cs) v = is_text cs v"
| "documented_accepts Positive_integer v = positive_integer v"
| "documented_accepts Boolean v = (case v of JBool b \<Rightarrow> True | _ \<Rightarrow> False)"
| "documented_accepts Null v = (v = JNull)"
| "documented_accepts Iso_datetime v = (case v of JStr s \<Rightarrow> regex_test iso_regex s | _ \<Rightarrow> False)"
| "documented_accepts (Nullable s) v = (v = JNull \<or> documented_accepts s v)"
| "documented_accepts (List_of n s) v =
     (case v of JArr vs \<Rightarrow> n \<le> length vs \<and> list_all (documented_accepts s) vs | _ \<Rightarrow> False)"
| "documented_accepts (Tuple ss) v =
     (case v of JArr vs \<Rightarrow> length ss = length vs \<and> list_all (\<lambda>p. documented_accepts (fst p) (snd p)) (zip ss vs)
      | _ \<Rightarrow> False)"
| "documented_accepts (Object fs) v =
     (is_object v \<and>
      list_all (\<lambda>f. case member v (fst f) of None \<Rightarrow> False | Some x \<Rightarrow> documented_accepts (snd f) x) fs)"
| "documented_accepts (Strict_object fs) v =
     (is_object v \<and>
      list_all (\<lambda>f. case member v (fst f) of None \<Rightarrow> False | Some x \<Rightarrow> documented_accepts (snd f) x) fs \<and>
      no_other_members (map fst fs) v)"
| "documented_accepts (Union ss) v = list_ex (\<lambda>s. documented_accepts s v) ss"
  by pat_completeness auto

lemma size_schema_in: "s \<in> set ss \<Longrightarrow> size s < Suc (size_list size ss)"
  by (induction ss) auto

lemma size_field_in: "(k, s) \<in> set fs \<Longrightarrow> size s < Suc (size_list (size_prod (\<lambda>x. 0) size) fs)"
  using size_list_estimation [of "(k, s)" fs "size s" "size_prod (\<lambda>x. 0) size"] by simp

termination documented_accepts
  by (relation "measure (\<lambda>(s, v). size s)")
    (auto intro: size_field_in size_schema_in dest: set_zip_leftD)

interpretation documented: zod documented_accepts
proof unfold_locales
  show "documented_accepts (Tuple ss) v \<longleftrightarrow> (\<exists>vs. v = JArr vs \<and> list_all2 documented_accepts ss vs)" for ss v
    by (cases v) (auto simp: list_all2_iff list_all_iff)
  show "documented_accepts (Object fs) v \<longleftrightarrow>
      is_object v \<and> (\<forall>(k, s) \<in> set fs. \<exists>x. member v k = Some x \<and> documented_accepts s x)" for fs v
    by (auto simp: list_all_iff split: option.splits)
qed (auto simp: list_all_iff list_ex_iff split: json.splits)

end
