(* ===== verification/Domain.thy ===== *)
theory Domain
  imports Zod
begin

text \<open>
  The shared rules of the contest, \<^verbatim>\<open>packages/domain/src/index.ts\<close>: limits, the enumerations
  and their order, the schedule, durations in nanoseconds, the schemas of the runner's results
  and the consistency check of a dataset manifest.  Enumerations are datatypes with their names;
  a function that may throw a \<open>SyntaxError\<close> returns an option.
\<close>

section \<open>Policies\<close>

record benchmark_policy =
  repetitions :: nat
  slowFirstAttemptSeconds :: nat
  timeoutSeconds :: nat
  pidLimit :: nat
  stdioLimitBytes :: nat
  outputLimitBytes :: nat

definition benchmarkPolicy :: benchmark_policy where
  "benchmarkPolicy = \<lparr>repetitions = 3, slowFirstAttemptSeconds = 60, timeoutSeconds = 900, pidLimit = 4096,
     stdioLimitBytes = 1024 * 1024, outputLimitBytes = 256 * 1024 * 1024\<rparr>"

record submission_policy =
  sourceLimitBytes :: nat
  binaryLimitBytes :: nat
  uploadTimeoutMs :: nat

definition submissionPolicy :: submission_policy where
  "submissionPolicy = \<lparr>sourceLimitBytes = 1024 * 1024, binaryLimitBytes = 64 * 1024 * 1024,
     uploadTimeoutMs = 15 * 60 * 1000\<rparr>"

definition shouldStopAfterFirstAttempt :: "nat \<Rightarrow> jsstring \<Rightarrow> bool option" where
  "shouldStopAfterFirstAttempt attempt durationNs =
     (let threshold = int (slowFirstAttemptSeconds benchmarkPolicy) * 1000000000 in
      if attempt = 1 then map_option (\<lambda>d. d > threshold) (BigInt durationNs) else Some False)"

section \<open>Enumerations\<close>

datatype script_kind = Javascript | Typescript | Bun | Ruby

datatype execution_kind = Native | Script script_kind

datatype native_language = Lang_c | Lang_cpp | Lang_go | Lang_rust | Lang_zig | Lang_csharp | Lang_other

datatype language = Native_language native_language | Script_language script_kind

datatype submission_status =
  Uploading | Queued | Running | Completed | Rejected | Infrastructure_error_status | Disqualified_status

datatype verdict =
  Accepted | Wrong_answer | Runtime_error | Time_limit | Output_limit | Invalid_submission
  | Infrastructure_error | Disqualified

datatype board = Public_board | Private_board

definition scriptExecutionKinds :: "script_kind list" where
  "scriptExecutionKinds = [Javascript, Typescript, Bun, Ruby]"

fun script_kind_name :: "script_kind \<Rightarrow> jsstring" where
  "script_kind_name Javascript = js ''javascript''"
| "script_kind_name Typescript = js ''typescript''"
| "script_kind_name Bun = js ''bun''"
| "script_kind_name Ruby = js ''ruby''"

definition executionKinds :: "execution_kind list" where
  "executionKinds = Native # map Script scriptExecutionKinds"

fun execution_kind_name :: "execution_kind \<Rightarrow> jsstring" where
  "execution_kind_name Native = js ''native''"
| "execution_kind_name (Script k) = script_kind_name k"

definition executionKindSchema :: schema where
  "executionKindSchema = Enumeration (map execution_kind_name executionKinds)"

definition nativeLanguages :: "native_language list" where
  "nativeLanguages = [Lang_c, Lang_cpp, Lang_go, Lang_rust, Lang_zig, Lang_csharp, Lang_other]"

fun native_language_name :: "native_language \<Rightarrow> jsstring" where
  "native_language_name Lang_c = js ''c''"
| "native_language_name Lang_cpp = js ''cpp''"
| "native_language_name Lang_go = js ''go''"
| "native_language_name Lang_rust = js ''rust''"
| "native_language_name Lang_zig = js ''zig''"
| "native_language_name Lang_csharp = js ''csharp''"
| "native_language_name Lang_other = js ''other''"

definition nativeLanguageSchema :: schema where
  "nativeLanguageSchema = Enumeration (map native_language_name nativeLanguages)"

definition languages :: "language list" where
  "languages = map Native_language nativeLanguages @ map Script_language scriptExecutionKinds"

fun language_name :: "language \<Rightarrow> jsstring" where
  "language_name (Native_language l) = native_language_name l"
| "language_name (Script_language k) = script_kind_name k"

definition languageSchema :: schema where
  "languageSchema = Enumeration (map language_name languages)"

definition submissionStatuses :: "submission_status list" where
  "submissionStatuses =
     [Uploading, Queued, Running, Completed, Rejected, Infrastructure_error_status, Disqualified_status]"

fun status_name :: "submission_status \<Rightarrow> jsstring" where
  "status_name Uploading = js ''uploading''"
| "status_name Queued = js ''queued''"
| "status_name Running = js ''running''"
| "status_name Completed = js ''completed''"
| "status_name Rejected = js ''rejected''"
| "status_name Infrastructure_error_status = js ''infrastructure_error''"
| "status_name Disqualified_status = js ''disqualified''"

definition submissionStatusSchema :: schema where
  "submissionStatusSchema = Enumeration (map status_name submissionStatuses)"

definition activeSubmissionStatuses :: "submission_status list" where
  "activeSubmissionStatuses = [Uploading, Queued, Running]"

definition isSubmissionActive :: "jsstring \<Rightarrow> bool" where
  "isSubmissionActive status = List.member (map status_name activeSubmissionStatuses) status"

definition verdicts :: "verdict list" where
  "verdicts = [Accepted, Wrong_answer, Runtime_error, Time_limit, Output_limit, Invalid_submission,
     Infrastructure_error, Disqualified]"

fun verdict_name :: "verdict \<Rightarrow> jsstring" where
  "verdict_name Accepted = js ''accepted''"
| "verdict_name Wrong_answer = js ''wrong_answer''"
| "verdict_name Runtime_error = js ''runtime_error''"
| "verdict_name Time_limit = js ''time_limit''"
| "verdict_name Output_limit = js ''output_limit''"
| "verdict_name Invalid_submission = js ''invalid_submission''"
| "verdict_name Infrastructure_error = js ''infrastructure_error''"
| "verdict_name Disqualified = js ''disqualified''"

definition verdictSchema :: schema where
  "verdictSchema = Enumeration (map verdict_name verdicts)"

definition leaderboardBoards :: "board list" where
  "leaderboardBoards = [Public_board, Private_board]"

fun board_name :: "board \<Rightarrow> jsstring" where
  "board_name Public_board = js ''public''"
| "board_name Private_board = js ''private''"

definition leaderboardBoardSchema :: schema where
  "leaderboardBoardSchema = Enumeration (map board_name leaderboardBoards)"

text \<open>The value of an enumeration that a validated string names.\<close>

definition named :: "('a \<Rightarrow> jsstring) \<Rightarrow> 'a list \<Rightarrow> jsstring \<Rightarrow> 'a option" where
  "named name vals s = find (\<lambda>v. name v = s) vals"

section \<open>Schedule and durations\<close>

datatype date_input = Date_string jsstring | Date_object "int option"

fun new_date :: "(jsstring \<Rightarrow> int option) \<Rightarrow> date_input \<Rightarrow> int option" where
  "new_date other (Date_string s) = date_parse other s"
| "new_date other (Date_object t) = t"

record contest_schedule =
  startAt :: date_input
  endAt :: date_input

text \<open>A comparison with an invalid date is false.\<close>

definition date_at_least :: "int option \<Rightarrow> int option \<Rightarrow> bool" where
  "date_at_least a b = (case (a, b) of (Some x, Some y) \<Rightarrow> x \<ge> y | _ \<Rightarrow> False)"

definition hasContestStarted ::
    "(jsstring \<Rightarrow> int option) \<Rightarrow> 'a contest_schedule_scheme \<Rightarrow> int option \<Rightarrow> bool" where
  "hasContestStarted other contest now = date_at_least now (new_date other (startAt contest))"

definition isSubmissionOpen ::
    "(jsstring \<Rightarrow> int option) \<Rightarrow> 'a contest_schedule_scheme \<Rightarrow> int option \<Rightarrow> bool" where
  "isSubmissionOpen other contest now = hasContestStarted other contest now"

definition compareNanoseconds :: "jsstring \<Rightarrow> jsstring \<Rightarrow> int option" where
  "compareNanoseconds left right =
     (case (BigInt left, BigInt right) of
        (Some leftNs, Some rightNs) \<Rightarrow> Some (if leftNs < rightNs then -1 else if leftNs > rightNs then 1 else 0)
      | _ \<Rightarrow> None)"

section \<open>Result schemas\<close>

definition nanosecondsSchema :: schema where
  "nanosecondsSchema = Text [Pattern digits_regex]"

definition failedVerdictSchema :: schema where
  "failedVerdictSchema = Enumeration (map verdict_name (filter (\<lambda>v. v \<noteq> Accepted) verdicts))"

definition benchmarkAttemptResultSchema :: schema where
  "benchmarkAttemptResultSchema = Union
     [Strict_object
        [(js ''verdict'', Literal (JStr (js ''accepted''))),
         (js ''durationNs'', nanosecondsSchema),
         (js ''error'', Null)],
      Strict_object
        [(js ''verdict'', failedVerdictSchema),
         (js ''durationNs'', Null),
         (js ''error'', Nullable (Text []))]]"

definition benchmarkResultSchema :: schema where
  "benchmarkResultSchema = Union
     [Strict_object
        [(js ''verdict'', Literal (JStr (js ''accepted''))),
         (js ''durationsNs'', Union
            [Tuple [nanosecondsSchema],
             Tuple [nanosecondsSchema, nanosecondsSchema, nanosecondsSchema]]),
         (js ''medianNs'', nanosecondsSchema),
         (js ''error'', Null)],
      Strict_object
        [(js ''verdict'', failedVerdictSchema),
         (js ''durationsNs'', Null),
         (js ''medianNs'', Null),
         (js ''error'', Nullable (Text []))]]"

definition runnerJobResultSchema :: schema where
  "runnerJobResultSchema = Strict_object
     [(js ''public'', benchmarkResultSchema),
      (js ''private'', Nullable benchmarkResultSchema),
      (js ''environmentId'', Text [Min_length 1])]"

section \<open>Languages\<close>

fun native_extensions :: "native_language \<Rightarrow> jsstring list" where
  "native_extensions Lang_c = [js ''.c'']"
| "native_extensions Lang_cpp = [js ''.cc'', js ''.cpp'', js ''.cxx'']"
| "native_extensions Lang_go = [js ''.go'']"
| "native_extensions Lang_rust = [js ''.rs'']"
| "native_extensions Lang_zig = [js ''.zig'']"
| "native_extensions Lang_csharp = [js ''.cs'']"
| "native_extensions Lang_other = []"

fun sourceExtensions :: "language \<Rightarrow> jsstring list" where
  "sourceExtensions (Native_language l) = native_extensions l"
| "sourceExtensions (Script_language Javascript) = [js ''.js'']"
| "sourceExtensions (Script_language Typescript) = [js ''.ts'']"
| "sourceExtensions (Script_language Bun) = [js ''.js'', js ''.ts'']"
| "sourceExtensions (Script_language Ruby) = [js ''.rb'']"

definition inferLanguage ::
    "(schema \<Rightarrow> json \<Rightarrow> bool) \<Rightarrow> execution_kind \<Rightarrow> jsstring option \<Rightarrow> language option" where
  "inferLanguage accepts kind requested =
     (case kind of
        Script k \<Rightarrow> Some (Script_language k)
      | Native \<Rightarrow>
          (case requested of
             None \<Rightarrow> None
           | Some r \<Rightarrow>
               if accepts nativeLanguageSchema (JStr r)
               then map_option Native_language (named native_language_name nativeLanguages r)
               else None))"

section \<open>Enumerations and their names\<close>

lemma named_name:
  "inj_on name (set vals) \<Longrightarrow> v \<in> set vals \<Longrightarrow> named name vals (name v) = Some v"
  by (induction vals) (auto simp: named_def dest: inj_onD)

lemma inj_names:
  "inj script_kind_name" "inj native_language_name" "inj verdict_name" "inj status_name" "inj board_name"
proof -
  show "inj script_kind_name"
  proof
    fix x y
    show "script_kind_name x = script_kind_name y \<Longrightarrow> x = y" by (cases x; cases y) simp_all
  qed
  show "inj native_language_name"
  proof
    fix x y
    show "native_language_name x = native_language_name y \<Longrightarrow> x = y" by (cases x; cases y) simp_all
  qed
  show "inj verdict_name"
  proof
    fix x y
    show "verdict_name x = verdict_name y \<Longrightarrow> x = y" by (cases x; cases y) simp_all
  qed
  show "inj status_name"
  proof
    fix x y
    show "status_name x = status_name y \<Longrightarrow> x = y" by (cases x; cases y) simp_all
  qed
  show "inj board_name"
  proof
    fix x y
    show "board_name x = board_name y \<Longrightarrow> x = y" by (cases x; cases y) simp_all
  qed
qed

lemma in_enumerations [simp]:
  "k \<in> set scriptExecutionKinds" "n \<in> set nativeLanguages" "v \<in> set verdicts" "s \<in> set submissionStatuses"
  "b \<in> set leaderboardBoards"
  by ((cases k; simp add: scriptExecutionKinds_def), (cases n; simp add: nativeLanguages_def),
      (cases v; simp add: verdicts_def), (cases s; simp add: submissionStatuses_def),
      (cases b; simp add: leaderboardBoards_def))

lemma in_languages [simp]: "l \<in> set languages"
  by (cases l) (simp_all add: languages_def)

lemma named_native [simp]: "named native_language_name nativeLanguages (native_language_name n) = Some n"
  using inj_names(2) by (intro named_name) (auto intro: inj_on_subset)

lemma named_verdict [simp]: "named verdict_name verdicts (verdict_name n) = Some n"
  using inj_names(3) by (intro named_name) (auto intro: inj_on_subset)

text \<open>A script kind is its own language; for a native submission the language is the requested
  one exactly when it names a native language, and nothing otherwise.\<close>

theorem inferLanguage_iff:
  assumes "zod accepts"
  shows "inferLanguage accepts kind requested = Some l \<longleftrightarrow>
    (case kind of
       Script k \<Rightarrow> l = Script_language k
     | Native \<Rightarrow> (\<exists>n. requested = Some (native_language_name n) \<and> l = Native_language n))"
proof -
  have "accepts nativeLanguageSchema (JStr r) \<longleftrightarrow> (\<exists>n. r = native_language_name n)" for r
    unfolding nativeLanguageSchema_def zod.enum_law [OF assms] by (auto simp: is_name_def)
  then show ?thesis
    by (auto simp: inferLanguage_def split: execution_kind.splits option.splits)
qed

theorem inferLanguage_iff_witness:
  "inferLanguage documented_accepts Native (Some (js ''zig'')) = Some (Native_language Lang_zig)"
  unfolding inferLanguage_iff [OF documented.zod_axioms] by (auto intro: exI [of _ Lang_zig])

section \<open>Schedule\<close>

text \<open>A contest whose start is an ISO instant has started exactly from that instant on, with
  valid clocks only, and submissions are open at exactly the same times, whatever the end of the
  contest is.\<close>

theorem contest_started_iff:
  assumes "valid_fields f" and "startAt contest = Date_string (iso_string f)"
  shows "hasContestStarted other contest now = (\<exists>t. now = Some t \<and> utc_ms f \<le> t)
    \<and> isSubmissionOpen other (contest\<lparr>endAt := e\<rparr>) now = hasContestStarted other contest now"
  using assms
  by (auto simp: hasContestStarted_def isSubmissionOpen_def date_at_least_def date_parse_iso_string split: option.splits)

definition demo_start :: utc_fields where
  "demo_start = \<lparr>utc_year = 2027, utc_month_number = 2, utc_day = 28, utc_hour = 23, utc_minute = 59,
     utc_second = 59, utc_millisecond = 7\<rparr>"

lemma demo_start_valid: "valid_fields demo_start" "utc_ms demo_start = 1803859199007"
  by (simp_all add: demo_start_def valid_fields_def utc_ms_def days_from_epoch_def days_before_year_def
      month_lengths_def leap_year_def)

definition demo_contest :: contest_schedule where
  "demo_contest = \<lparr>startAt = Date_string (iso_string demo_start), endAt = Date_object None\<rparr>"

theorem contest_started_iff_witness:
  "hasContestStarted (\<lambda>s. None) demo_contest (Some 1803859199007)
   \<and> \<not> hasContestStarted (\<lambda>s. None) demo_contest (Some 1803859199006)"
proof -
  have "startAt demo_contest = Date_string (iso_string demo_start)" by (simp add: demo_contest_def)
  note iff = contest_started_iff [OF demo_start_valid(1) this, of "\<lambda>s. None", THEN conjunct1]
  show ?thesis unfolding iff by (simp add: demo_start_valid(2))
qed

section \<open>Durations\<close>

definition ns_value :: "jsstring \<Rightarrow> nat" where
  "ns_value s = digits_value s"

lemma compareNanoseconds_digits:
  "all_digits a \<Longrightarrow> all_digits b \<Longrightarrow>
    compareNanoseconds a b = Some (if ns_value a < ns_value b then -1 else if ns_value b < ns_value a then 1 else 0)"
  by (simp add: compareNanoseconds_def ns_value_def)

text \<open>On every string that \<open>BigInt\<close> reads the comparison is by value.\<close>

definition compare_ns :: "jsstring \<Rightarrow> jsstring \<Rightarrow> int" where
  "compare_ns a b = (if ns_value a < ns_value b then -1 else if ns_value b < ns_value a then 1 else 0)"

interpretation ns_order: key_comparator compare_ns ns_value
  by unfold_locales (auto simp: compare_ns_def)

lemma array_sort_compareNanoseconds:
  assumes "\<forall>d \<in> set ds. all_digits d"
  shows "array_sort compareNanoseconds ds = Some (sort_key ns_value ds)"
proof -
  have "sort_cmp (\<lambda>x y. the (compareNanoseconds x y)) ds = sort_cmp compare_ns ds"
    using assms by (intro sort_cmp_cong) (simp add: compareNanoseconds_digits compare_ns_def)
  moreover have "\<not> (\<exists>x \<in> set ds. \<exists>y \<in> set ds. compareNanoseconds x y = None)"
    using assms by (auto simp: compareNanoseconds_digits)
  ultimately show ?thesis by (simp add: array_sort_def ns_order.sort_cmp_sort_key)
qed

lemma shouldStop_iff:
  "all_digits d \<Longrightarrow>
    shouldStopAfterFirstAttempt n d = Some (n = 1 \<and> 60 * 10 ^ 9 < ns_value d)"
  by (auto simp: shouldStopAfterFirstAttempt_def benchmarkPolicy_def ns_value_def)

section \<open>The results the schemas describe\<close>

datatype attempt_result = Attempt_accepted jsstring | Attempt_failed verdict "jsstring option"

datatype benchmark_result =
  Benchmark_accepted "jsstring list" jsstring | Benchmark_failed verdict "jsstring option"

record job_result =
  job_public :: benchmark_result
  job_private :: "benchmark_result option"
  job_environment :: jsstring

definition json_text :: "jsstring option \<Rightarrow> json" where
  "json_text s = (case s of None \<Rightarrow> JNull | Some t \<Rightarrow> JStr t)"

fun attempt_json :: "attempt_result \<Rightarrow> json" where
  "attempt_json (Attempt_accepted d) =
     JObj [(js ''verdict'', JStr (verdict_name Accepted)), (js ''durationNs'', JStr d), (js ''error'', JNull)]"
| "attempt_json (Attempt_failed v e) =
     JObj [(js ''verdict'', JStr (verdict_name v)), (js ''durationNs'', JNull), (js ''error'', json_text e)]"

fun benchmark_json :: "benchmark_result \<Rightarrow> json" where
  "benchmark_json (Benchmark_accepted ds m) =
     JObj [(js ''verdict'', JStr (verdict_name Accepted)), (js ''durationsNs'', JArr (map JStr ds)),
       (js ''medianNs'', JStr m), (js ''error'', JNull)]"
| "benchmark_json (Benchmark_failed v e) =
     JObj [(js ''verdict'', JStr (verdict_name v)), (js ''durationsNs'', JNull), (js ''medianNs'', JNull),
       (js ''error'', json_text e)]"

definition job_json :: "job_result \<Rightarrow> json" where
  "job_json r =
     JObj [(js ''public'', benchmark_json (job_public r)),
       (js ''private'', case job_private r of None \<Rightarrow> JNull | Some b \<Rightarrow> benchmark_json b),
       (js ''environmentId'', JStr (job_environment r))]"

fun attempt_ok :: "attempt_result \<Rightarrow> bool" where
  "attempt_ok (Attempt_accepted d) = all_digits d"
| "attempt_ok (Attempt_failed v e) = (v \<noteq> Accepted)"

fun benchmark_ok :: "benchmark_result \<Rightarrow> bool" where
  "benchmark_ok (Benchmark_accepted ds m) = (length ds \<in> {1, 3} \<and> list_all all_digits ds \<and> all_digits m)"
| "benchmark_ok (Benchmark_failed v e) = (v \<noteq> Accepted)"

definition job_ok :: "job_result \<Rightarrow> bool" where
  "job_ok r \<longleftrightarrow> benchmark_ok (job_public r) \<and> pred_option benchmark_ok (job_private r) \<and> job_environment r \<noteq> []"

text \<open>Two objects with the same members, in any order.\<close>

definition same_members :: "json \<Rightarrow> json \<Rightarrow> bool" where
  "same_members v w \<longleftrightarrow> is_object v \<and> is_object w \<and> (\<forall>k. member v k = member w k)"

lemma is_name_iff: "is_name names v \<longleftrightarrow> (\<exists>s \<in> set names. v = JStr s)"
  by (cases v) (auto simp: is_name_def)

lemma is_text_iff: "is_text cs v \<longleftrightarrow> (\<exists>s. v = JStr s \<and> list_all (\<lambda>c. string_check_ok c s) cs)"
  by (cases v) (auto simp: is_text_def)

lemma is_object_iff: "is_object v \<longleftrightarrow> (\<exists>ms. v = JObj ms)"
  by (cases v) (auto simp: is_object_def)

context zod
begin

lemma nanoseconds: "accepts nanosecondsSchema v \<longleftrightarrow> (\<exists>d. v = JStr d \<and> all_digits d)"
  by (simp add: nanosecondsSchema_def text_law is_text_iff)

lemma failed_verdict: "accepts failedVerdictSchema v \<longleftrightarrow> (\<exists>w. w \<noteq> Accepted \<and> v = JStr (verdict_name w))"
  by (auto simp: failedVerdictSchema_def enum_law is_name_iff)

lemma optional_text: "accepts (Nullable (Text [])) v \<longleftrightarrow> (\<exists>e. v = json_text e)"
  by (auto simp: nullable_law text_law is_text_iff json_text_def split: option.splits)

lemma attempt_accepts:
  "accepts benchmarkAttemptResultSchema v \<longleftrightarrow> (\<exists>a. attempt_ok a \<and> same_members v (attempt_json a))"
    (is "?l \<longleftrightarrow> ?r")
proof
  assume ?l
  then consider (ok) d where "is_object v" "member v (js ''verdict'') = Some (JStr (js ''accepted''))"
      "member v (js ''durationNs'') = Some (JStr d)" "all_digits d" "member v (js ''error'') = Some JNull"
      "\<forall>k. k \<notin> {js ''verdict'', js ''durationNs'', js ''error''} \<longrightarrow> member v k = None"
    | (failed) w e where "is_object v" "member v (js ''verdict'') = Some (JStr (verdict_name w))" "w \<noteq> Accepted"
      "member v (js ''durationNs'') = Some JNull" "member v (js ''error'') = Some (json_text e)"
      "\<forall>k. k \<notin> {js ''verdict'', js ''durationNs'', js ''error''} \<longrightarrow> member v k = None"
    unfolding benchmarkAttemptResultSchema_def union_law
    by (auto simp: strict_iff nanoseconds failed_verdict optional_text literal_law null_law)
  then show ?r
  proof cases
    case ok
    then have "same_members v (attempt_json (Attempt_accepted d))"
      by (auto simp: same_members_def is_object_iff member_def split: json.splits)
    then show ?thesis using ok by (intro exI [of _ "Attempt_accepted d"]) simp
  next
    case failed
    then have "same_members v (attempt_json (Attempt_failed w e))"
      by (auto simp: same_members_def is_object_iff member_def split: json.splits)
    then show ?thesis using failed by (intro exI [of _ "Attempt_failed w e"]) simp
  qed
next
  assume ?r
  then obtain a where a: "attempt_ok a" "same_members v (attempt_json a)" by blast
  then have m: "is_object v" "\<And>k. member v k = member (attempt_json a) k" by (simp_all add: same_members_def)
  show ?l
    unfolding benchmarkAttemptResultSchema_def union_law
    using a(1) m
    by (cases a) (auto simp: strict_iff nanoseconds failed_verdict optional_text literal_law null_law member_def)
qed

lemma durations:
  "accepts (Union [Tuple [nanosecondsSchema], Tuple [nanosecondsSchema, nanosecondsSchema, nanosecondsSchema]]) v
    \<longleftrightarrow> (\<exists>ds. v = JArr (map JStr ds) \<and> length ds \<in> {1, 3} \<and> list_all all_digits ds)" (is "?l \<longleftrightarrow> ?r")
proof
  assume ?l
  then consider d where "v = JArr [JStr d]" "all_digits d"
    | d e f where "v = JArr [JStr d, JStr e, JStr f]" "all_digits d" "all_digits e" "all_digits f"
    by (auto simp: union_law tuple_law nanoseconds list_all2_Cons1)
  then show ?r
  proof cases
    case 1
    then show ?thesis by (intro exI [of _ "[d]"]) simp
  next
    case 2
    then show ?thesis by (intro exI [of _ "[d, e, f]"]) simp
  qed
next
  assume ?r
  then show ?l
    by (auto simp: union_law tuple_law nanoseconds length_Suc_conv numeral_3_eq_3)
qed

lemma benchmark_accepts:
  "accepts benchmarkResultSchema v \<longleftrightarrow> (\<exists>b. benchmark_ok b \<and> same_members v (benchmark_json b))"
    (is "?l \<longleftrightarrow> ?r")
proof
  let ?keys = "{js ''verdict'', js ''durationsNs'', js ''medianNs'', js ''error''}"
  assume ?l
  then consider (ok) ds m where "is_object v" "member v (js ''verdict'') = Some (JStr (js ''accepted''))"
      "member v (js ''durationsNs'') = Some (JArr (map JStr ds))" "length ds \<in> {1, 3}" "list_all all_digits ds"
      "member v (js ''medianNs'') = Some (JStr m)" "all_digits m" "member v (js ''error'') = Some JNull"
      "\<forall>k. k \<notin> ?keys \<longrightarrow> member v k = None"
    | (failed) w e where "is_object v" "member v (js ''verdict'') = Some (JStr (verdict_name w))" "w \<noteq> Accepted"
      "member v (js ''durationsNs'') = Some JNull" "member v (js ''medianNs'') = Some JNull"
      "member v (js ''error'') = Some (json_text e)" "\<forall>k. k \<notin> ?keys \<longrightarrow> member v k = None"
    unfolding benchmarkResultSchema_def union_law [of "[Strict_object _, Strict_object _]"]
    by (auto simp: strict_iff durations nanoseconds failed_verdict optional_text literal_law null_law)
  then show ?r
  proof cases
    case ok
    then have "same_members v (benchmark_json (Benchmark_accepted ds m))"
      by (auto simp: same_members_def is_object_iff member_def split: json.splits)
    then show ?thesis using ok by (intro exI [of _ "Benchmark_accepted ds m"]) simp
  next
    case failed
    then have "same_members v (benchmark_json (Benchmark_failed w e))"
      by (auto simp: same_members_def is_object_iff member_def split: json.splits)
    then show ?thesis using failed by (intro exI [of _ "Benchmark_failed w e"]) simp
  qed
next
  assume ?r
  then obtain b where b: "benchmark_ok b" "same_members v (benchmark_json b)" by blast
  then have m: "is_object v" "\<And>k. member v k = member (benchmark_json b) k" by (simp_all add: same_members_def)
  show ?l
    unfolding benchmarkResultSchema_def union_law [of "[Strict_object _, Strict_object _]"]
    using b(1) m
    by (cases b)
      (auto simp: strict_iff durations nanoseconds failed_verdict optional_text literal_law null_law member_def)
qed

lemma benchmark_typed: "accepts benchmarkResultSchema (benchmark_json b) \<longleftrightarrow> benchmark_ok b"
proof -
  have "b = c" if "same_members (benchmark_json b) (benchmark_json c)" for c
  proof -
    from that have m: "member (benchmark_json b) k = member (benchmark_json c) k" for k
      by (simp add: same_members_def)
    show ?thesis
      using m [of "js ''verdict''"] m [of "js ''durationsNs''"] m [of "js ''medianNs''"] m [of "js ''error''"] inj_names(3)
      by (cases b; cases c)
        (auto simp: member_def json_text_def inj_map_eq_map inj_def split: option.splits)
  qed
  moreover have "same_members (benchmark_json b) (benchmark_json b)"
    by (cases b) (simp_all add: same_members_def is_object_def)
  ultimately show ?thesis unfolding benchmark_accepts by blast
qed

lemma job_typed: "accepts runnerJobResultSchema (job_json r) \<longleftrightarrow> job_ok r"
proof -
  have "benchmark_json b \<noteq> JNull" for b by (cases b) simp_all
  then show ?thesis
    by (auto simp: runnerJobResultSchema_def job_json_def strict_iff nullable_law text_law is_text_iff benchmark_typed
        job_ok_def member_def is_object_def Suc_le_eq split: option.splits)
qed

end

text \<open>The schema of a measured attempt accepts exactly the objects that are, up to the order of
  their members, an accepted attempt with a decimal duration and no error, or a failed one with a
  verdict other than \<open>accepted\<close> and no duration.\<close>

theorem attempt_schema_iff:
  assumes "zod accepts"
  shows "accepts benchmarkAttemptResultSchema v \<longleftrightarrow> (\<exists>a. attempt_ok a \<and> same_members v (attempt_json a))"
  using zod.attempt_accepts [OF assms] .

theorem attempt_schema_iff_witness:
  "documented_accepts benchmarkAttemptResultSchema
     (JObj [(js ''error'', JNull), (js ''durationNs'', JStr (js ''60'')), (js ''verdict'', JStr (js ''accepted''))])"
  unfolding attempt_schema_iff [OF documented.zod_axioms]
  by (rule exI [of _ "Attempt_accepted (js ''60'')"])
    (simp add: same_members_def is_object_def member_def js_eval all_digits_def is_digit_def)

text \<open>The schema of a job result accepts the object of a result exactly when each benchmark in it
  is consistent (one or three durations and a median, or a verdict other than \<open>accepted\<close> and
  none) and the environment is named.\<close>

theorem job_schema_iff:
  assumes "zod accepts"
  shows "accepts runnerJobResultSchema (job_json r) \<longleftrightarrow>
    benchmark_ok (job_public r) \<and> pred_option benchmark_ok (job_private r) \<and> job_environment r \<noteq> []"
  using zod.job_typed [OF assms, of r] by (simp add: job_ok_def)

theorem job_schema_iff_witness:
  "documented_accepts runnerJobResultSchema
     (job_json \<lparr>job_public = Benchmark_accepted [js ''7''] (js ''7''),
        job_private = Some (Benchmark_failed Wrong_answer None), job_environment = js ''c6i''\<rparr>)"
  unfolding job_schema_iff [OF documented.zod_axioms] by (simp add: js_eval all_digits_def is_digit_def)

end
