(* ===== verification/Runner_Tools.thy ===== *)
theory Runner_Tools
  imports Node Domain
begin

text \<open>
  The two helpers of the runner: the arguments of \<open>docker create\<close>
  (\<^verbatim>\<open>apps/runner/src/container-command.ts\<close>) and the lock taken through \<open>flock\<close>
  (\<^verbatim>\<open>apps/runner/src/run-lock.ts\<close>).  Waiting for the lock is a loop that polls until the lock is
  free or a deadline has passed; it is a partial function, and \<open>waitForFileLock_returns\<close> shows
  that it returns whenever the clock runs.
\<close>

section \<open>The container\<close>

record container_options =
  container :: jsstring
  workDirectory :: jsstring
  artifact :: jsstring
  containerArtifact :: jsstring
  container_input :: jsstring
  image :: jsstring
  kind_text :: jsstring

definition buildContainerCreateArgs :: "container_options \<Rightarrow> jsstring list" where
  "buildContainerCreateArgs opts =
     [js ''create'',
      js ''--name'', container opts,
      js ''--network'', js ''none'',
      js ''--read-only'',
      js ''--user'', js ''65534:65534'',
      js ''--cap-drop'', js ''ALL'',
      js ''--security-opt'', js ''no-new-privileges=true'',
      js ''--pids-limit'', nat_to_string (pidLimit benchmarkPolicy),
      js ''--mount'', js ''type=bind,src='' @ workDirectory opts @ js '',dst=/work'',
      js ''--mount'', js ''type=bind,src='' @ artifact opts @ js '',dst='' @ containerArtifact opts @ js '',readonly'',
      js ''--mount'', js ''type=bind,src='' @ container_input opts @ js '',dst=/input/data.csv,readonly'',
      image opts,
      js ''/opt/bun/bin/bun'',
      js ''/opt/1brc/measure.mjs'',
      kind_text opts,
      containerArtifact opts,
      js ''/input/data.csv'',
      js ''/work/output.txt'',
      nat_to_string (timeoutSeconds benchmarkPolicy),
      nat_to_string (stdioLimitBytes benchmarkPolicy),
      nat_to_string (outputLimitBytes benchmarkPolicy)]"

section \<open>The lock\<close>

datatype lock_result = Busy | Exit nat

definition runWithFileLock ::
    "host \<Rightarrow> jsstring \<Rightarrow> jsstring \<Rightarrow> jsstring list \<Rightarrow> (jsstring \<times> jsstring) list \<Rightarrow> lock_result action" where
  "runWithFileLock h lockFile command args env =
     io_bind (run_program h (js ''flock'')
               ([js ''--nonblock'', js ''--conflict-exit-code'', js ''75'', lockFile, command] @ args) env None None)
       (\<lambda>r. io_return (case r of Exited n out \<Rightarrow> if n = 75 then Busy else Exit n | Not_run e \<Rightarrow> Exit 1))"

partial_function (option) poll_lock ::
    "host \<Rightarrow> jsstring \<Rightarrow> int \<Rightarrow> unit action \<Rightarrow> world \<Rightarrow> ((jsstring + unit) \<times> world) option" where
  [code]: "poll_lock h lockFile deadline whileBusy w =
     (case runWithFileLock h lockFile (js ''true'') [] [] w of
        (Inl e, w1) \<Rightarrow> Some (Inl e, w1)
      | (Inr (Exit n), w1) \<Rightarrow> Some (Inr (), w1)
      | (Inr Busy, w1) \<Rightarrow>
          (case whileBusy w1 of
             (Inl e, w2) \<Rightarrow> Some (Inl e, w2)
           | (Inr u, w2) \<Rightarrow>
               (case date_now h w2 of
                  (Inl e, w3) \<Rightarrow> Some (Inl e, w3)
                | (Inr now, w3) \<Rightarrow>
                    if now \<ge> deadline then Some (Inl (js ''runner cancellation timed out''), w3)
                    else poll_lock h lockFile deadline whileBusy (snd (sleep 100 w3)))))"

definition waitForFileLock ::
    "host \<Rightarrow> jsstring \<Rightarrow> nat \<Rightarrow> unit action \<Rightarrow> world \<Rightarrow> ((jsstring + unit) \<times> world) option" where
  "waitForFileLock h lockFile timeoutMs whileBusy w =
     (case date_now h w of
        (Inl e, w1) \<Rightarrow> Some (Inl e, w1)
      | (Inr now, w1) \<Rightarrow> poll_lock h lockFile (now + int timeoutMs) whileBusy w1)"

lemma runWithFileLock_forward [preserved]: "preserves (later c s) (runWithFileLock h l cmd args env)"
  unfolding runWithFileLock_def by (intro preserved)

lemma later_preserved:
  assumes "\<And>c s. preserves (later c s) m" and "m w = (r, w')"
  shows "counter w \<le> counter w' \<and> slept w \<le> slept w'"
proof -
  have "later (counter w) (slept w) (snd (m w))"
    using assms(1) [of "counter w" "slept w"] by (simp add: preserves_def later_def)
  then show ?thesis using assms(2) by (simp add: later_def)
qed

text \<open>The number of pauses left until the deadline decreases with every turn.\<close>

lemma poll_lock_returns:
  assumes clock: "clock_runs h" and busy: "\<And>c s. preserves (later c s) whileBusy"
  shows "\<exists>r. poll_lock h lockFile deadline whileBusy w = Some r"
proof (induction "nat (deadline - host_now h (counter w) (slept w))" arbitrary: w rule: less_induct)
  case less
  obtain r1 w1 where lock: "runWithFileLock h lockFile (js ''true'') [] [] w = (r1, w1)" by fastforce
  obtain r2 w2 where run: "whileBusy w1 = (r2, w2)" by fastforce
  define now where "now = host_now h (counter w2) (slept w2)"
  define w3 where "w3 = w2\<lparr>counter := counter w2 + 1\<rparr>"
  define w4 where "w4 = snd (sleep 100 w3)"
  have now: "date_now h w2 = (Inr now, w3)" by (simp add: date_now_def now_def w3_def)
  have w4: "counter w4 = counter w2 + 1" "slept w4 = slept w2 + 100" by (simp_all add: w4_def w3_def sleep_def)
  have "counter w \<le> counter w2" "slept w \<le> slept w2"
    using later_preserved [OF runWithFileLock_forward lock] later_preserved [OF busy run] by auto
  then have "host_now h (counter w) (slept w) \<le> now"
    using clock unfolding clock_runs_def now_def by (metis le_add_same_cancel1 of_nat_0_le_iff order_trans)
  moreover have "now + 100 \<le> host_now h (counter w4) (slept w4)"
    using clock [unfolded clock_runs_def, rule_format, of "counter w2" "counter w4" "slept w2" "slept w4"] w4
    by (simp add: now_def)
  ultimately have step: "\<exists>r. poll_lock h lockFile deadline whileBusy w4 = Some r" if "now < deadline"
    using that by (intro less) linarith
  show ?case
    by (subst poll_lock.simps)
      (use step in \<open>auto simp: lock run now w4_def [symmetric] not_le split: sum.splits lock_result.splits\<close>)
qed

text \<open>When it returns without an error, the last thing that happened is an attempt to take the lock which did
  not report a conflict: \<open>flock\<close>, asked to end with 75 when another process has the lock, did not end
  with 75.\<close>

definition found_free :: "host \<Rightarrow> jsstring \<Rightarrow> world \<Rightarrow> bool" where
  "found_free h lockFile w' \<longleftrightarrow>
     (\<exists>w r. run_program h (js ''flock'')
        [js ''--nonblock'', js ''--conflict-exit-code'', js ''75'', lockFile, js ''true''] [] None None w = (Inr r, w')
        \<and> (\<forall>out. r \<noteq> Exited 75 out))"

lemma runWithFileLock_free:
  "runWithFileLock h lockFile (js ''true'') [] [] w = (Inr (Exit n), w') \<Longrightarrow> found_free h lockFile w'"
proof -
  assume "runWithFileLock h lockFile (js ''true'') [] [] w = (Inr (Exit n), w')"
  then obtain r where "run_program h (js ''flock'')
        [js ''--nonblock'', js ''--conflict-exit-code'', js ''75'', lockFile, js ''true''] [] None None w = (Inr r, w')"
    and "(case r of Exited n out \<Rightarrow> if n = 75 then Busy else Exit n | Not_run e \<Rightarrow> Exit 1) = Exit n"
    by (auto simp: runWithFileLock_def io_bind_Inr)
  moreover from this(2) have "\<forall>out. r \<noteq> Exited 75 out" by auto
  ultimately show ?thesis unfolding found_free_def by blast
qed

text \<open>What \<open>flock --nonblock --conflict-exit-code c\<close> documents: it ends with \<open>c\<close> while another
  process has the lock.  The argument \<open>held\<close> says when that is, by the counter of the world.\<close>

definition flock_reports :: "host \<Rightarrow> jsstring \<Rightarrow> (nat \<Rightarrow> bool) \<Rightarrow> bool" where
  "flock_reports h lockFile held \<longleftrightarrow>
     (\<forall>n e fs c command. program e = js ''flock'' \<longrightarrow>
        arguments e = [js ''--nonblock'', js ''--conflict-exit-code'', nat_to_string c, lockFile] @ command \<longrightarrow> held n \<longrightarrow>
        (\<exists>out. fst (host_command h n e fs) = Exited c out))"

lemma found_free_not_held:
  assumes "found_free h lockFile w'" "flock_reports h lockFile held"
  shows "\<exists>n. counter w' = Suc n \<and> \<not> held n"
proof -
  have code: "js ''75'' = nat_to_string 75" by code_simp
  let ?e = "\<lparr>program = js ''flock'', arguments = [js ''--nonblock'', js ''--conflict-exit-code'', js ''75'', lockFile, js ''true''],
    environment = [], time_limit = None, output_limit = None\<rparr>"
  obtain w r where "run_program h (js ''flock'')
        [js ''--nonblock'', js ''--conflict-exit-code'', js ''75'', lockFile, js ''true''] [] None None w = (Inr r, w')"
    and r: "\<forall>out. r \<noteq> Exited 75 out" using assms(1) by (auto simp: found_free_def)
  then have w': "counter w' = Suc (counter w)" and "fst (host_command h (counter w) ?e (files w)) = r"
    by (auto simp: run_program_def Let_def split: prod.splits)
  moreover have "\<exists>out. fst (host_command h (counter w) ?e (files w)) = Exited 75 out" if "held (counter w)"
    using assms(2) [unfolded flock_reports_def, rule_format, of ?e 75 "[js ''true'']"] code that by simp
  ultimately have "\<not> held (counter w)" using r by metis
  then show ?thesis using w' by blast
qed

text \<open>A \<open>flock\<close> that cannot be run counts as a free lock.\<close>

lemma unusable_flock_is_free:
  assumes "\<And>n fs. fst (host_command h n
      \<lparr>program = js ''flock'', arguments = [js ''--nonblock'', js ''--conflict-exit-code'', js ''75'', lockFile, js ''true''],
       environment = [], time_limit = None, output_limit = None\<rparr> fs) = Not_run e"
  shows "\<exists>w'. poll_lock h lockFile deadline whileBusy w = Some (Inr (), w')"
proof -
  let ?e = "\<lparr>program = js ''flock'', arguments = [js ''--nonblock'', js ''--conflict-exit-code'', js ''75'', lockFile, js ''true''],
    environment = [], time_limit = None, output_limit = None\<rparr>"
  obtain fs where "host_command h (counter w) ?e (files w) = (Not_run e, fs)"
    using assms by (metis prod.collapse)
  then show ?thesis
    by (subst poll_lock.simps) (simp add: runWithFileLock_def io_bind_def io_return_def run_program_def Let_def)
qed

lemma poll_lock_free:
  assumes "poll_lock h lockFile deadline whileBusy w = Some z"
  shows "\<forall>w'. z = (Inr (), w') \<longrightarrow> found_free h lockFile w'"
  by (rule poll_lock.raw_induct [where P = "\<lambda>h l d b w z. \<forall>w'. z = (Inr (), w') \<longrightarrow> found_free h l w'", OF _ assms])
    (fastforce intro: runWithFileLock_free split: prod.splits sum.splits lock_result.splits if_splits)

lemma wait_returns:
  assumes "clock_runs h" and "\<forall>c s. preserves (later c s) whileBusy"
  shows "\<exists>r w'. waitForFileLock h lockFile timeoutMs whileBusy w = Some (r, w') \<and>
    (case r of Inl e \<Rightarrow> True | Inr u \<Rightarrow> found_free h lockFile w')"
proof -
  obtain t w1 where now: "date_now h w = (Inr t, w1)" by (simp add: date_now_def)
  obtain z where "poll_lock h lockFile (t + int timeoutMs) whileBusy w1 = Some z"
    using poll_lock_returns [OF assms(1)] assms(2) by blast
  then show ?thesis
    using poll_lock_free [of h lockFile "t + int timeoutMs" whileBusy w1 z] now
    by (cases z) (auto simp: waitForFileLock_def split: sum.splits)
qed

text \<open>C16: Waiting for the lock of a cancelled run always ends once the clock runs: either the
  last attempt to take the lock reported no conflict, or an error is reported; the pauses cannot go on for ever.\<close>

theorem waitForFileLock_returns:
  assumes "clock_runs h" and "\<forall>c s. preserves (later c s) whileBusy"
  shows "\<exists>r w'. waitForFileLock h lockFile timeoutMs whileBusy w = Some (r, w') \<and>
    (case r of Inl e \<Rightarrow> True | Inr u \<Rightarrow> found_free h lockFile w')"
  using wait_returns [OF assms] .

theorem waitForFileLock_returns_witness:
  "\<exists>r w'. waitForFileLock calm_host (js ''/run.lock'') 30000 (io_return ()) empty_world = Some (r, w') \<and>
    (case r of Inl e \<Rightarrow> True | Inr u \<Rightarrow> found_free calm_host (js ''/run.lock'') w')"
  by (rule waitForFileLock_returns [OF calm_clock]) (simp add: preserves_return)

end
