(* ===== verification/Gateway.thy ===== *)
theory Gateway
  imports Runner_Tools Compare
begin

text \<open>
  The runner's command gateway, \<^verbatim>\<open>apps/runner/src/gateway.ts\<close>: the commands \<open>upload\<close>, \<open>run\<close>,
  \<open>cleanup\<close> and \<open>cancel\<close> as operations on the world of theory \<open>Node\<close>.  Docker, \<open>flock\<close>, faults of
  the file system, random identifiers and the clock are the host; zod is the argument \<open>accepts\<close>.
\<close>

section \<open>Configuration\<close>

record config =
  RUNNER_ROOT :: jsstring
  RUNNER_WORK_ROOT :: jsstring
  RUNNER_IMAGE :: jsstring
  RUNNER_PUBLIC_INPUT :: jsstring
  RUNNER_PUBLIC_EXPECTED :: jsstring
  RUNNER_PRIVATE_INPUT :: jsstring
  RUNNER_PRIVATE_EXPECTED :: jsstring
  BENCHMARK_ENVIRONMENT_ID :: jsstring

type_synonym environment = "(jsstring \<times> jsstring) list"

definition with_default :: "environment \<Rightarrow> string \<Rightarrow> string \<Rightarrow> jsstring" where
  "with_default env name value = (case map_of env (js name) of None \<Rightarrow> js value | Some v \<Rightarrow> v)"

definition required :: "(schema \<Rightarrow> json \<Rightarrow> bool) \<Rightarrow> environment \<Rightarrow> string \<Rightarrow> jsstring option" where
  "required accepts env name =
     (case map_of env (js name) of
        None \<Rightarrow> None
      | Some v \<Rightarrow> if accepts (Text [Min_length 1]) (JStr v) then Some v else None)"

text \<open>\<open>None\<close>: the schema rejects the environment and the program ends before it reads a command.\<close>

definition parse_config :: "(schema \<Rightarrow> json \<Rightarrow> bool) \<Rightarrow> environment \<Rightarrow> config option" where
  "parse_config accepts env =
     (case (required accepts env ''RUNNER_IMAGE'', required accepts env ''RUNNER_PUBLIC_INPUT'',
            required accepts env ''RUNNER_PUBLIC_EXPECTED'', required accepts env ''RUNNER_PRIVATE_INPUT'',
            required accepts env ''RUNNER_PRIVATE_EXPECTED'', required accepts env ''BENCHMARK_ENVIRONMENT_ID'')
      of (Some i, Some d1, Some e1, Some d2, Some e2, Some b) \<Rightarrow>
           Some \<lparr>RUNNER_ROOT = with_default env ''RUNNER_ROOT'' ''/var/lib/1brc'',
             RUNNER_WORK_ROOT = with_default env ''RUNNER_WORK_ROOT'' ''/var/lib/1brc/work'',
             RUNNER_IMAGE = i, RUNNER_PUBLIC_INPUT = d1, RUNNER_PUBLIC_EXPECTED = e1,
             RUNNER_PRIVATE_INPUT = d2, RUNNER_PRIVATE_EXPECTED = e2, BENCHMARK_ENVIRONMENT_ID = b\<rparr>
       | _ \<Rightarrow> None)"

section \<open>Names and paths of a job\<close>

definition hex_class :: "(code_unit \<times> code_unit) list" where
  "hex_class = [(48, 57), (97, 102), (65, 70)]"

text \<open>\<open>/^[0-9a-f]{8}-[0-9a-f]{4}-4[0-9a-f]{3}-[89ab][0-9a-f]{3}-[0-9a-f]{12}$/i\<close>\<close>

definition uuid_regex :: regex where
  "uuid_regex =
     (let x = (\<lambda>n. exactly n (Cls hex_class)); dash = literal (js ''-'') in
      Seq (x 8) (Seq dash (Seq (x 4) (Seq dash (Seq (literal (js ''4'')) (Seq (x 3) (Seq dash
     (Seq (Cls [(56, 57), (97, 98), (65, 66)]) (Seq (x 3) (Seq dash (x 12)))))))))))"

definition valid_id :: "jsstring \<Rightarrow> bool" where
  "valid_id i \<longleftrightarrow> i \<noteq> [] \<and> regex_test uuid_regex i"

definition validateId :: "jsstring option \<Rightarrow> jsstring action" where
  "validateId arg =
     (case arg of
        None \<Rightarrow> io_throw (js ''invalid submission id'')
      | Some i \<Rightarrow> if valid_id i then io_return i else io_throw (js ''invalid submission id''))"

definition jobDirectory :: "config \<Rightarrow> jsstring \<Rightarrow> jsstring" where
  "jobDirectory cfg i = path_join [RUNNER_ROOT cfg, js ''jobs'', i]"

fun artifactExtension :: "execution_kind \<Rightarrow> jsstring" where
  "artifactExtension (Script Typescript) = js ''.ts''"
| "artifactExtension (Script Bun) = js ''.ts''"
| "artifactExtension (Script Javascript) = js ''.js''"
| "artifactExtension (Script Ruby) = js ''.rb''"
| "artifactExtension Native = []"

definition artifactPath :: "config \<Rightarrow> jsstring \<Rightarrow> execution_kind \<Rightarrow> jsstring" where
  "artifactPath cfg i kind = path_join [jobDirectory cfg i, js ''artifact'' @ artifactExtension kind]"

definition attempt_directory :: "config \<Rightarrow> jsstring \<Rightarrow> board \<Rightarrow> nat \<Rightarrow> jsstring" where
  "attempt_directory cfg i dataset attempt =
     path_join [RUNNER_WORK_ROOT cfg, i, board_name dataset @ js ''-'' @ nat_to_string attempt]"

section \<open>Shared steps\<close>

definition arg_at :: "jsstring list \<Rightarrow> nat \<Rightarrow> jsstring option" where
  "arg_at args n = (if n < length args then Some (args ! n) else None)"

definition parse_kind :: "host \<Rightarrow> (schema \<Rightarrow> json \<Rightarrow> bool) \<Rightarrow> jsstring option \<Rightarrow> execution_kind action" where
  "parse_kind h accepts arg =
     (case arg of
        None \<Rightarrow> library_error h
      | Some s \<Rightarrow>
          if accepts executionKindSchema (JStr s)
          then (case named execution_kind_name executionKinds s of Some k \<Rightarrow> io_return k | None \<Rightarrow> library_error h)
          else library_error h)"

definition execute :: "host \<Rightarrow> jsstring \<Rightarrow> jsstring list \<Rightarrow> nat \<Rightarrow> nat \<Rightarrow> jsstring action" where
  "execute h executable args timeout maxOutput =
     io_bind (run_program h executable args [] (Some timeout) (Some maxOutput))
       (\<lambda>r. case r of
          Exited n out \<Rightarrow> if n = 0 then io_return out else library_error h
        | Not_run e \<Rightarrow> io_throw e)"

definition default_max_output :: nat where
  "default_max_output = 256 * 1024"

definition removeAttemptWork :: "host \<Rightarrow> config \<Rightarrow> jsstring \<Rightarrow> board \<Rightarrow> nat \<Rightarrow> unit action" where
  "removeAttemptWork h cfg i dataset attempt = rm_recursive h (attempt_directory cfg i dataset attempt)"

definition throwIfCancelled :: "host \<Rightarrow> config \<Rightarrow> jsstring \<Rightarrow> unit action" where
  "throwIfCancelled h cfg i =
     io_bind (io_catch (io_then (access h (path_join [jobDirectory cfg i, js ''cancelled''])) (io_return True))
               (\<lambda>e. io_return False))
       (\<lambda>cancelled. if cancelled then io_throw (js ''job cancelled'') else io_return ())"

section \<open>Upload\<close>

text \<open>The chunks of the standard input up to the one that exceeds the limit.\<close>

fun receive_chunks :: "nat \<Rightarrow> byte list \<Rightarrow> byte list list \<Rightarrow> byte list + byte list" where
  "receive_chunks limit seen [] = Inr seen"
| "receive_chunks limit seen (chunk # rest) =
     (if length (seen @ chunk) > limit then Inl (seen @ chunk) else receive_chunks limit (seen @ chunk) rest)"

definition receive_upload ::
    "host \<Rightarrow> byte list list \<Rightarrow> nat \<Rightarrow> jsstring \<Rightarrow> nat \<Rightarrow> byte list action" where
  "receive_upload h chunks limit temporary mode = (\<lambda>w.
     case receive_chunks limit [] chunks of
       Inl seen \<Rightarrow>
         (Inl (case host_fault h (counter w) of Some e \<Rightarrow> e | None \<Rightarrow> js ''artifact size limit exceeded''),
          w\<lparr>counter := counter w + 1, files := left_part h temporary seen mode w\<rparr>)
     | Inr content \<Rightarrow>
         (case store_file h temporary content mode w of
            (Inl e, w') \<Rightarrow> (Inl e, w')
          | (Inr u, w') \<Rightarrow> (Inr content, w')))"

definition sha256_hex :: regex where
  "sha256_hex = exactly 64 (Cls [(97, 102), (48, 57)])"

definition upload_limit :: "execution_kind \<Rightarrow> nat" where
  "upload_limit kind =
     (if kind = Native then binaryLimitBytes submissionPolicy else sourceLimitBytes submissionPolicy)"

definition artifact_mode :: "execution_kind \<Rightarrow> nat" where
  "artifact_mode kind = (if kind = Native then 493 else 420)"

definition upload ::
    "host \<Rightarrow> (schema \<Rightarrow> json \<Rightarrow> bool) \<Rightarrow> config \<Rightarrow> byte list list \<Rightarrow> jsstring list \<Rightarrow> unit action" where
  "upload h accepts cfg stdin args =
     io_bind (validateId (arg_at args 0)) (\<lambda>i.
     io_bind (parse_kind h accepts (arg_at args 1)) (\<lambda>kind.
     case arg_at args 2 of
       None \<Rightarrow> io_throw (js ''invalid digest'')
     | Some wantedDigest \<Rightarrow>
         if wantedDigest = [] \<or> \<not> regex_test sha256_hex wantedDigest then io_throw (js ''invalid digest'')
         else
           let directory = jobDirectory cfg i;
               temporary = path_join [directory, js ''artifact.uploading''];
               final = artifactPath cfg i kind in
           io_then (mkdir_recursive h directory 448)
          (io_bind (receive_upload h stdin (upload_limit kind) temporary (artifact_mode kind)) (\<lambda>content.
           if host_sha256 h content \<noteq> wantedDigest then io_throw (js ''artifact checksum mismatch'')
           else
             io_then (rm_force h final)
            (io_then (rename_file h temporary final)
            (io_then (chmod h final (artifact_mode kind))
                     (write_stdout (js ''ok'' @ [10]))))))))"

section \<open>Benchmark\<close>

fun trunc_equal :: "number \<Rightarrow> number \<Rightarrow> bool" where
  "trunc_equal (Fin a) (Fin b) = ((if a < 0 then \<lceil>a\<rceil> else \<lfloor>a\<rfloor>) = (if b < 0 then \<lceil>b\<rceil> else \<lfloor>b\<rfloor>))"
| "trunc_equal PosInf PosInf = True"
| "trunc_equal NegInf NegInf = True"
| "trunc_equal a b = False"

definition cache_path :: "config \<Rightarrow> board \<Rightarrow> jsstring" where
  "cache_path cfg dataset = path_join [RUNNER_ROOT cfg, js ''ram-data'', board_name dataset @ js ''.csv'']"

definition cache_hit :: "file_stat option \<Rightarrow> file_stat \<Rightarrow> bool" where
  "cache_hit cachedStats sourceStats =
     (case cachedStats of
        None \<Rightarrow> False
      | Some c \<Rightarrow> stat_size c = stat_size sourceStats \<and> trunc_equal (stat_mtimeMs c) (stat_mtimeMs sourceStats))"

definition cacheInput :: "host \<Rightarrow> config \<Rightarrow> board \<Rightarrow> jsstring \<Rightarrow> jsstring action" where
  "cacheInput h cfg dataset source =
     (let cached = cache_path cfg dataset in
      io_bind (stat h source) (\<lambda>sourceStats.
      io_bind (io_catch (io_bind (stat h cached) (\<lambda>c. io_return (Some c))) (\<lambda>e. io_return None)) (\<lambda>cachedStats.
      if cache_hit cachedStats sourceStats then io_return cached
      else
        io_then (rm_force h cached)
          (io_catch
            (io_then (copyFile h source cached)
              (io_then (utimes h cached (host_date_of h (stat_mtimeMs sourceStats)))
                (io_then (chmod h cached 292) (io_return cached))))
            (\<lambda>e. io_then (rm_force h cached) (io_throw e))))))"

text \<open>The message for an output over the limit, as code units.\<close>

definition output_limit_message :: jsstring where
  "output_limit_message = [0x51fa, 0x529b, 0x30b5, 0x30a4, 0x30ba, 0x306e, 0x4e0a, 0x9650, 0x3092, 0x8d85, 0x3048,
     0x307e, 0x3057, 0x305f]"

text \<open>The fields of a validated attempt.\<close>

definition attempt_of_json :: "json \<Rightarrow> attempt_result option" where
  "attempt_of_json v =
     (case member v (js ''verdict'') of
        Some (JStr s) \<Rightarrow>
          (case named verdict_name verdicts s of
             None \<Rightarrow> None
           | Some Accepted \<Rightarrow> (case member v (js ''durationNs'') of Some (JStr d) \<Rightarrow> Some (Attempt_accepted d) | _ \<Rightarrow> None)
           | Some w \<Rightarrow>
               (case member v (js ''error'') of
                  Some (JStr e) \<Rightarrow> Some (Attempt_failed w (Some e))
                | Some JNull \<Rightarrow> Some (Attempt_failed w None)
                | _ \<Rightarrow> None))
      | _ \<Rightarrow> None)"

definition parse_attempt :: "host \<Rightarrow> (schema \<Rightarrow> json \<Rightarrow> bool) \<Rightarrow> jsstring \<Rightarrow> attempt_result action" where
  "parse_attempt h accepts raw =
     (case json_parse (trim raw) of
        None \<Rightarrow> library_error h
      | Some v \<Rightarrow>
          if accepts benchmarkAttemptResultSchema v
          then (case attempt_of_json v of Some a \<Rightarrow> io_return a | None \<Rightarrow> library_error h)
          else library_error h)"

definition container_name :: "jsstring \<Rightarrow> board \<Rightarrow> nat \<Rightarrow> jsstring \<Rightarrow> jsstring" where
  "container_name i dataset attempt uuid =
     js ''onebrc-'' @ i @ js ''-'' @ board_name dataset @ js ''-'' @ nat_to_string attempt @ js ''-'' @ take 6 uuid"

definition docker :: jsstring where
  "docker = js ''docker''"

text \<open>Start the container and read the result; the container exists.\<close>

definition run_container ::
    "host \<Rightarrow> (schema \<Rightarrow> json \<Rightarrow> bool) \<Rightarrow> jsstring \<Rightarrow> jsstring \<Rightarrow> (attempt_result \<times> jsstring) action" where
  "run_container h accepts name out_path =
     io_bind (execute h docker [js ''start'', js ''-a'', name]
               ((timeoutSeconds benchmarkPolicy + 30) * 1000) (stdioLimitBytes benchmarkPolicy)) (\<lambda>raw.
     io_bind (parse_attempt h accepts raw) (\<lambda>result.
     case result of
       Attempt_accepted d \<Rightarrow>
         io_bind (stat h out_path) (\<lambda>outputStats.
           io_return (if stat_size outputStats > outputLimitBytes benchmarkPolicy
             then Attempt_failed Output_limit (Some output_limit_message) else result, out_path))
     | Attempt_failed v e \<Rightarrow> io_return (result, out_path)))"

definition attempt_options ::
    "config \<Rightarrow> jsstring \<Rightarrow> execution_kind \<Rightarrow> board \<Rightarrow> nat \<Rightarrow> jsstring \<Rightarrow> jsstring \<Rightarrow> container_options" where
  "attempt_options cfg i kind dataset attempt cached name =
     \<lparr>container = name, workDirectory = attempt_directory cfg i dataset attempt, artifact = artifactPath cfg i kind,
        containerArtifact = js ''/submission/artifact'' @ artifactExtension kind, container_input = cached,
        image = RUNNER_IMAGE cfg, kind_text = execution_kind_name kind\<rparr>"

definition remove_container :: "host \<Rightarrow> jsstring \<Rightarrow> unit action" where
  "remove_container h name =
     io_catch (io_then (execute h docker [js ''rm'', js ''-f'', name] 30000 default_max_output) (io_return ()))
       (\<lambda>e. io_return ())"

definition runAttempt ::
    "host \<Rightarrow> (schema \<Rightarrow> json \<Rightarrow> bool) \<Rightarrow> config \<Rightarrow> jsstring \<Rightarrow> execution_kind \<Rightarrow> board \<Rightarrow> nat \<Rightarrow> jsstring \<Rightarrow>
     (attempt_result \<times> jsstring) action" where
  "runAttempt h accepts cfg i kind dataset attempt cached =
     io_bind (random_uuid h) (\<lambda>uuid.
     let name = container_name i dataset attempt uuid;
         work = attempt_directory cfg i dataset attempt;
         out_path = path_join [work, js ''output.txt''] in
     io_then (rm_recursive h work)
    (io_then (mkdir_recursive h work 511)
    (io_then (chmod h work 1023)
    (io_then (execute h docker (buildContainerCreateArgs (attempt_options cfg i kind dataset attempt cached name))
                60000 default_max_output)
       (io_finally (run_container h accepts name out_path) (remove_container h name))))))"

text \<open>\<open>compareOutput\<close> reads two files of the world.\<close>

definition compare_action :: "host \<Rightarrow> jsstring \<Rightarrow> jsstring \<Rightarrow> (comparison_error + unit) action" where
  "compare_action h actualPath expectedPath =
     (\<lambda>w. (Inr (compareOutput (read_text h w) actualPath expectedPath), w\<lparr>counter := counter w + 1\<rparr>))"

text \<open>The attempts of a dataset: \<open>Inl\<close> an early result, \<open>Inr\<close> the durations.\<close>

fun benchmark_attempts ::
    "host \<Rightarrow> (schema \<Rightarrow> json \<Rightarrow> bool) \<Rightarrow> config \<Rightarrow> jsstring \<Rightarrow> execution_kind \<Rightarrow> board \<Rightarrow> jsstring \<Rightarrow> jsstring \<Rightarrow>
     nat list \<Rightarrow> jsstring list \<Rightarrow> (benchmark_result + jsstring list) action" where
  "benchmark_attempts h accepts cfg i kind dataset cached expected [] durations = io_return (Inr durations)"
| "benchmark_attempts h accepts cfg i kind dataset cached expected (attempt # rest) durations =
     io_then (throwIfCancelled h cfg i)
    (io_bind (runAttempt h accepts cfg i kind dataset attempt cached) (\<lambda>(result, outputPath).
     case result of
       Attempt_failed v e \<Rightarrow>
         io_then (removeAttemptWork h cfg i dataset attempt) (io_return (Inl (Benchmark_failed v e)))
     | Attempt_accepted durationNs \<Rightarrow>
         io_bind (compare_action h outputPath expected) (\<lambda>comparison.
         io_then (removeAttemptWork h cfg i dataset attempt)
           (case comparison of
              Inl e \<Rightarrow> io_return (Inl (Benchmark_failed Wrong_answer (Some (err_message e))))
            | Inr u \<Rightarrow>
                (case shouldStopAfterFirstAttempt attempt durationNs of
                   None \<Rightarrow> library_error h
                 | Some stop \<Rightarrow>
                     if stop then io_return (Inr (durations @ [durationNs]))
                     else benchmark_attempts h accepts cfg i kind dataset cached expected rest
                            (durations @ [durationNs]))))))"

definition benchmark ::
    "host \<Rightarrow> (schema \<Rightarrow> json \<Rightarrow> bool) \<Rightarrow> config \<Rightarrow> jsstring \<Rightarrow> execution_kind \<Rightarrow> board \<Rightarrow> jsstring \<Rightarrow> jsstring \<Rightarrow>
     benchmark_result action" where
  "benchmark h accepts cfg i kind dataset source expected =
     io_bind (cacheInput h cfg dataset source) (\<lambda>cachedInput.
     io_bind (benchmark_attempts h accepts cfg i kind dataset cachedInput expected
               [1..<repetitions benchmarkPolicy + 1] []) (\<lambda>attempts.
     case attempts of
       Inl result \<Rightarrow> io_return result
     | Inr durations \<Rightarrow>
         (case array_sort compareNanoseconds durations of
            None \<Rightarrow> library_error h
          | Some ordered \<Rightarrow> io_return (Benchmark_accepted durations (ordered ! (length ordered div 2))))))"

definition run ::
    "host \<Rightarrow> (schema \<Rightarrow> json \<Rightarrow> bool) \<Rightarrow> config \<Rightarrow> jsstring list \<Rightarrow> unit action" where
  "run h accepts cfg args =
     io_bind (validateId (arg_at args 0)) (\<lambda>i.
     io_bind (parse_kind h accepts (arg_at args 1)) (\<lambda>kind.
     io_then (access h (artifactPath cfg i kind))
    (io_bind (benchmark h accepts cfg i kind Public_board (RUNNER_PUBLIC_INPUT cfg) (RUNNER_PUBLIC_EXPECTED cfg))
       (\<lambda>publicResult.
     io_bind (case publicResult of
                Benchmark_accepted ds m \<Rightarrow>
                  io_bind (benchmark h accepts cfg i kind Private_board (RUNNER_PRIVATE_INPUT cfg)
                    (RUNNER_PRIVATE_EXPECTED cfg)) (\<lambda>r. io_return (Some r))
              | Benchmark_failed v e \<Rightarrow> io_return None) (\<lambda>privateResult.
       write_stdout (stringify (job_json \<lparr>job_public = publicResult, job_private = privateResult,
         job_environment = BENCHMARK_ENVIRONMENT_ID cfg\<rparr>) @ [10]))))))"

section \<open>The lock, cleanup and cancellation\<close>

record process =
  env_variables :: environment
  argv :: "jsstring list"
  execPath :: jsstring
  filename :: jsstring
  stdin_chunks :: "byte list list"

definition set_exit_code :: "nat \<Rightarrow> unit action" where
  "set_exit_code n = (\<lambda>w. (Inr (), w\<lparr>exit_code := n\<rparr>))"

definition lock_path :: "config \<Rightarrow> jsstring" where
  "lock_path cfg = path_join [RUNNER_ROOT cfg, js ''run.lock'']"

definition runUnderLock :: "host \<Rightarrow> config \<Rightarrow> process \<Rightarrow> unit action" where
  "runUnderLock h cfg p =
     io_then (mkdir_recursive h (RUNNER_ROOT cfg) 511)
    (io_bind (runWithFileLock h (lock_path cfg) (execPath p) (filename p # argv p)
                ((js ''ONEBRC_RUN_LOCKED'', js ''1'') # env_variables p)) (\<lambda>r.
     case r of
       Busy \<Rightarrow> io_throw (js ''runner is busy'')
     | Exit n \<Rightarrow> io_when (n \<noteq> 0) (set_exit_code n)))"

definition cleanup :: "host \<Rightarrow> config \<Rightarrow> jsstring list \<Rightarrow> unit action" where
  "cleanup h cfg args =
     io_bind (validateId (arg_at args 0)) (\<lambda>i.
     io_then (rm_recursive h (jobDirectory cfg i))
    (io_then (rm_recursive h (path_join [RUNNER_WORK_ROOT cfg, i]))
             (write_stdout (js ''ok'' @ [10]))))"

definition removeContainers :: "host \<Rightarrow> jsstring \<Rightarrow> unit action" where
  "removeContainers h i =
     io_bind (execute h docker [js ''ps'', js ''-aq'', js ''--filter'', js ''name=onebrc-'' @ i @ js ''-''] 30000
                default_max_output) (\<lambda>containers.
     let found = filter (\<lambda>s. s \<noteq> []) (split_space (trim containers)) in
     io_when (found \<noteq> [])
       (io_then (execute h docker ([js ''rm'', js ''-f''] @ found) 30000 default_max_output) (io_return ())))"

text \<open>Cancellation waits for the lock and may not return: \<open>None\<close>.\<close>

definition cancel :: "host \<Rightarrow> config \<Rightarrow> jsstring list \<Rightarrow> world \<Rightarrow> ((jsstring + unit) \<times> world) option" where
  "cancel h cfg args w =
     (case io_bind (validateId (arg_at args 0)) (\<lambda>i.
            io_then (mkdir_recursive h (jobDirectory cfg i) 448)
           (io_then (writeFile h (path_join [jobDirectory cfg i, js ''cancelled'']) [] 384)
           (io_then (removeContainers h i) (io_return i)))) w of
        (Inl e, w1) \<Rightarrow> Some (Inl e, w1)
      | (Inr i, w1) \<Rightarrow>
          (case waitForFileLock h (lock_path cfg) 30000 (removeContainers h i) w1 of
             None \<Rightarrow> None
           | Some (Inl e, w2) \<Rightarrow> Some (Inl e, w2)
           | Some (Inr u, w2) \<Rightarrow> Some (cleanup h cfg [i] w2)))"

section \<open>The command line\<close>

definition command_parts :: "process \<Rightarrow> jsstring list" where
  "command_parts p =
     split_space (trim (case map_of (env_variables p) (js ''SSH_ORIGINAL_COMMAND'') of
       Some text \<Rightarrow> text | None \<Rightarrow> join_with [32] (argv p)))"

definition dispatch ::
    "host \<Rightarrow> (schema \<Rightarrow> json \<Rightarrow> bool) \<Rightarrow> config \<Rightarrow> process \<Rightarrow> world \<Rightarrow> ((jsstring + unit) \<times> world) option" where
  "dispatch h accepts cfg p w =
     (let command = hd (command_parts p); parts = tl (command_parts p) in
      if command = js ''upload'' then Some (upload h accepts cfg (stdin_chunks p) parts w)
      else if command = js ''run''
      then Some ((if map_of (env_variables p) (js ''ONEBRC_RUN_LOCKED'') = Some (js ''1'')
                  then run h accepts cfg parts else runUnderLock h cfg p) w)
      else if command = js ''cleanup'' then Some (cleanup h cfg parts w)
      else if command = js ''cancel'' then cancel h cfg parts w
      else Some (io_throw (js ''unsupported runner command'') w))"

text \<open>The outer \<open>try\<close>: an error is printed and makes the exit code 1.\<close>

definition gateway_main ::
    "host \<Rightarrow> (schema \<Rightarrow> json \<Rightarrow> bool) \<Rightarrow> config \<Rightarrow> process \<Rightarrow> world \<Rightarrow> world option" where
  "gateway_main h accepts cfg p w =
     (case dispatch h accepts cfg p w of
        None \<Rightarrow> None
      | Some (Inr u, w') \<Rightarrow> Some w'
      | Some (Inl message, w') \<Rightarrow> Some (w'\<lparr>stderr_text := stderr_text w' @ message @ [10], exit_code := 1\<rparr>))"

end
