(* ===== verification/Node_Paths.thy ===== *)
theory Node_Paths
  imports Node
begin

text \<open>
  Facts about \<open>path.join\<close>: normalised paths are fixed points, and joining a plain name to a path
  that ends in a plain name appends it.  They are what makes the directories of two jobs disjoint.
\<close>

definition plain_name :: "jsstring \<Rightarrow> bool" where
  "plain_name s \<longleftrightarrow> s \<noteq> [] \<and> s \<noteq> js ''.'' \<and> s \<noteq> js ''..'' \<and> 47 \<notin> set s"

lemma split_on_snoc: "c \<notin> set b \<Longrightarrow> split_on c (p @ c # b) = split_on c p @ [b]"
proof (induction p)
  case (Cons x p)
  then show ?case by (cases "split_on c p") simp_all
qed (simp add: split_on_notin)

lemma normalize_append:
  "normalize_segments ab acc (xs @ ys) = normalize_segments ab (normalize_segments ab acc xs) ys"
  by (induction xs arbitrary: acc) auto

lemma normalize_snoc: "plain_name b \<Longrightarrow> normalize_segments ab acc (xs @ [b]) = normalize_segments ab acc xs @ [b]"
  by (simp add: normalize_append plain_name_def)

text \<open>Normal segments: dots only as leading \<open>..\<close> of a relative path.\<close>

definition normal_segments :: "bool \<Rightarrow> jsstring list \<Rightarrow> bool" where
  "normal_segments ab segs \<longleftrightarrow>
     (\<exists>k rest. segs = replicate k (js ''..'') @ rest \<and> list_all plain_name rest \<and> (ab \<longrightarrow> k = 0))"

lemma normal_no_slash: "normal_segments ab segs \<Longrightarrow> \<forall>s \<in> set segs. 47 \<notin> set s \<and> s \<noteq> []"
proof -
  assume "normal_segments ab segs"
  then obtain k rest where "segs = replicate k (js ''..'') @ rest" "list_all plain_name rest"
    by (auto simp: normal_segments_def)
  then have "set segs \<subseteq> insert (js ''..'') {s. plain_name s}" by (auto simp: list_all_iff)
  then have cases: "s = js ''..'' \<or> plain_name s" if "s \<in> set segs" for s using that by auto
  show ?thesis
  proof
    fix s
    assume "s \<in> set segs"
    from cases [OF this] show "47 \<notin> set s \<and> s \<noteq> []"
      by (elim disjE) (simp add: js_eval, simp add: plain_name_def)
  qed
qed

lemma normal_snoc: "normal_segments ab acc \<Longrightarrow> plain_name b \<Longrightarrow> normal_segments ab (acc @ [b])"
proof -
  assume "normal_segments ab acc" and b: "plain_name b"
  then obtain k rest where "acc = replicate k (js ''..'') @ rest" "list_all plain_name rest" "ab \<longrightarrow> k = 0"
    by (auto simp: normal_segments_def)
  then have "acc @ [b] = replicate k (js ''..'') @ (rest @ [b])" "list_all plain_name (rest @ [b])" "ab \<longrightarrow> k = 0"
    using b by simp_all
  then show ?thesis unfolding normal_segments_def by blast
qed

lemma normal_butlast: "normal_segments ab acc \<Longrightarrow> acc \<noteq> [] \<Longrightarrow> last acc \<noteq> js ''..'' \<Longrightarrow> normal_segments ab (butlast acc)"
proof -
  assume "normal_segments ab acc" and last: "acc \<noteq> []" "last acc \<noteq> js ''..''"
  then obtain k rest where acc: "acc = replicate k (js ''..'') @ rest" "list_all plain_name rest" "ab \<longrightarrow> k = 0"
    by (auto simp: normal_segments_def)
  have "rest \<noteq> []"
  proof
    assume "rest = []"
    with acc(1) last(1) have "k \<noteq> 0" "last acc = js ''..''" by (auto simp: last_replicate)
    with last(2) show False by simp
  qed
  then have "butlast acc = replicate k (js ''..'') @ butlast rest" using acc(1) by (simp add: butlast_append)
  moreover have "list_all plain_name (butlast rest)" using acc(2) by (auto simp: list_all_iff dest: in_set_butlastD)
  ultimately show ?thesis using acc(3) unfolding normal_segments_def by blast
qed

lemma normal_up: "normal_segments False acc \<Longrightarrow> acc = [] \<or> last acc = js ''..'' \<Longrightarrow> normal_segments False (acc @ [js ''..''])"
proof -
  assume "normal_segments False acc" and last: "acc = [] \<or> last acc = js ''..''"
  then obtain k rest where acc: "acc = replicate k (js ''..'') @ rest" "list_all plain_name rest"
    by (auto simp: normal_segments_def)
  have "rest = []"
  proof (rule ccontr)
    assume "rest \<noteq> []"
    then have "plain_name (last acc)" using acc by (simp add: list_all_iff)
    then show False using last acc \<open>rest \<noteq> []\<close> by (auto simp: plain_name_def)
  qed
  then have "acc @ [js ''..''] = replicate (Suc k) (js ''..'') @ []"
    using acc(1) by (simp add: replicate_append_same)
  moreover have "list_all plain_name []" by simp
  ultimately show ?thesis unfolding normal_segments_def by blast
qed

lemma normal_normalize:
  "normal_segments ab acc \<Longrightarrow> \<forall>s \<in> set segs. 47 \<notin> set s \<Longrightarrow> normal_segments ab (normalize_segments ab acc segs)"
proof (induction ab acc segs rule: normalize_segments.induct)
  case (2 ab acc seg rest)
  then show ?case
    using normal_up [of acc]
    by (auto simp: normal_butlast normal_snoc plain_name_def dest: normal_up)
qed simp

lemma normalize_dots:
  "normalize_segments False (replicate j (js ''..'')) (replicate k (js ''..'')) = replicate (j + k) (js ''..'')"
proof (induction k arbitrary: j)
  case (Suc k)
  have "replicate j (js ''..'') @ [js ''..''] = replicate (Suc j) (js ''..'')" by (simp add: replicate_append_same)
  moreover have "0 < j \<Longrightarrow> last (replicate j (js ''..'')) = js ''..''" by simp
  ultimately have "normalize_segments False (replicate j (js ''..'')) (js ''..'' # replicate k (js ''..'')) =
      normalize_segments False (replicate (Suc j) (js ''..'')) (replicate k (js ''..''))"
    by (cases j) (simp_all del: replicate_Suc)
  then show ?case using Suc.IH [of "Suc j"] by simp
qed simp

lemma normalize_plain: "list_all plain_name rest \<Longrightarrow> normalize_segments ab acc rest = acc @ rest"
  by (induction rest arbitrary: acc) (simp_all add: plain_name_def)

lemma normalize_normal: "normal_segments ab segs \<Longrightarrow> normalize_segments ab [] segs = segs"
proof -
  assume "normal_segments ab segs"
  then obtain k rest where segs: "segs = replicate k (js ''..'') @ rest" "list_all plain_name rest" "ab \<longrightarrow> k = 0"
    by (auto simp: normal_segments_def)
  show ?thesis
  proof (cases ab)
    case True
    then show ?thesis using segs by (simp add: normalize_plain)
  next
    case False
    then show ?thesis using segs normalize_dots [of 0 k] by (simp add: normalize_append normalize_plain)
  qed
qed

text \<open>The segments of a path, and a path that ends in a name.\<close>

definition path_segments :: "jsstring \<Rightarrow> jsstring list" where
  "path_segments p = normalize_segments (p \<noteq> [] \<and> hd p = 47) [] (split_on 47 p)"

definition ends_in_name :: "jsstring \<Rightarrow> bool" where
  "ends_in_name p \<longleftrightarrow> p \<noteq> [] \<and> last p \<noteq> 47 \<and> path_segments p \<noteq> [] \<and> plain_name (last (path_segments p))"

lemma path_segments_snoc:
  "p \<noteq> [] \<Longrightarrow> plain_name b \<Longrightarrow> path_segments (p @ 47 # b) = path_segments p @ [b]"
  by (simp add: path_segments_def split_on_snoc normalize_snoc plain_name_def)

lemma join_with_snoc: "xs \<noteq> [] \<Longrightarrow> join_with s (xs @ [b]) = join_with s xs @ s @ b"
  by (induction s xs rule: join_with.induct) simp_all

lemma join_with_not_Nil: "xs \<noteq> [] \<Longrightarrow> last xs \<noteq> [] \<Longrightarrow> join_with s xs \<noteq> []"
  by (induction s xs rule: join_with.induct) (auto split: if_splits)

lemma last_join_with: "xs \<noteq> [] \<Longrightarrow> last xs \<noteq> [] \<Longrightarrow> last (join_with s xs) = last (last xs)"
proof (induction s xs rule: join_with.induct)
  case (3 s x y ys)
  then have "join_with s (y # ys) \<noteq> []" by (intro join_with_not_Nil) (auto split: if_splits)
  with 3 show ?case by (simp split: if_splits)
qed simp_all

lemma path_normalize_name:
  "ends_in_name p \<Longrightarrow> path_normalize p = (if hd p = 47 then [47] else []) @ join_with [47] (path_segments p)"
proof -
  assume p: "ends_in_name p"
  then have ne: "p \<noteq> []" "last p \<noteq> 47" by (simp_all add: ends_in_name_def)
  have "join_with [47] (path_segments p) \<noteq> []"
    using p by (intro join_with_not_Nil) (auto simp: ends_in_name_def plain_name_def)
  moreover have "path_segments p = normalize_segments (hd p = 47) [] (split_on 47 p)"
    using ne by (simp add: path_segments_def)
  ultimately show ?thesis using ne by (simp add: path_normalize_def Let_def)
qed

lemma ends_in_name_snoc: "p \<noteq> [] \<Longrightarrow> plain_name b \<Longrightarrow> ends_in_name (p @ 47 # b)"
  by (cases "b = []") (auto simp: ends_in_name_def path_segments_snoc plain_name_def dest: last_in_set)

lemma path_normalize_snoc:
  assumes "ends_in_name p" "plain_name b"
  shows "path_normalize (p @ 47 # b) = path_normalize p @ 47 # b"
proof -
  have p: "p \<noteq> []" using assms(1) by (simp add: ends_in_name_def)
  then show ?thesis
    using path_normalize_name [OF ends_in_name_snoc [OF p assms(2)]] path_normalize_name [OF assms(1)] assms(1)
    by (simp add: path_segments_snoc [OF p assms(2)] join_with_snoc ends_in_name_def)
qed


text \<open>A path in normal form that ends in a name.\<close>

definition clean :: "jsstring \<Rightarrow> bool" where
  "clean p \<longleftrightarrow> ends_in_name p \<and> path_normalize p = p"

lemma clean_normalize:
  assumes "ends_in_name p"
  shows "clean (path_normalize p)"
proof -
  let ?ab = "hd p = 47" and ?segs = "path_segments p"
  have p: "p \<noteq> []" and segs: "?segs \<noteq> []" "plain_name (last ?segs)" using assms by (auto simp: ends_in_name_def)
  have ab: "(p \<noteq> [] \<and> hd p = 47) = ?ab" using p by simp
  have normal: "normal_segments ?ab ?segs"
    unfolding path_segments_def ab
    using split_on_parts_notin [of _ 47 p] by (intro normal_normalize) (auto simp: normal_segments_def)
  note no47 = normal_no_slash [OF normal]
  let ?body = "join_with [47] ?segs"
  have q: "path_normalize p = (if ?ab then [47] else []) @ ?body" by (rule path_normalize_name [OF assms])
  have body: "?body \<noteq> []" using segs by (intro join_with_not_Nil) (auto simp: plain_name_def)
  have split: "split_on 47 ?body = ?segs" using segs(1) no47 by (intro split_on_join) auto
  have hd_body: "hd ?body \<noteq> 47" if "\<not> ?ab"
  proof
    assume "hd ?body = 47"
    then obtain t where "?body = 47 # t" using body by (cases ?body) auto
    then have "[] \<in> set ?segs" using split [symmetric] by simp
    then show False using no47 by blast
  qed
  have ab': "hd (path_normalize p) = 47 \<longleftrightarrow> ?ab" using q body hd_body by auto
  have segs': "path_segments (path_normalize p) = ?segs"
    using ab' q body split normalize_normal [OF normal] by (cases ?ab) (simp_all add: path_segments_def)
  have last: "last (path_normalize p) \<noteq> 47"
  proof -
    have "last ?body = last (last ?segs)" using segs by (intro last_join_with) (simp_all add: plain_name_def)
    moreover have "last (last ?segs) \<in> set (last ?segs)" using segs(2) by (simp add: plain_name_def)
    ultimately have "last ?body \<noteq> 47" using segs(2) by (metis plain_name_def)
    then show ?thesis using q body by simp
  qed
  have "ends_in_name (path_normalize p)"
    using q body segs segs' last by (auto simp: ends_in_name_def)
  moreover from this have "path_normalize (path_normalize p) = path_normalize p"
    using path_normalize_name segs' ab' q by simp
  ultimately show ?thesis by (simp add: clean_def)
qed

lemma clean_snoc: "clean p \<Longrightarrow> plain_name b \<Longrightarrow> clean (p @ 47 # b)"
  using ends_in_name_snoc [of p b] path_normalize_snoc [of p b] by (simp add: clean_def ends_in_name_def)

lemma clean_join: "clean p \<Longrightarrow> plain_name b \<Longrightarrow> path_join [p, b] = p @ 47 # b"
  using path_normalize_snoc [of p b]
  by (auto simp: clean_def path_join_def Let_def ends_in_name_def plain_name_def)

text \<open>A directory of the configuration with a name under it, and a name under that.\<close>

definition under :: "jsstring \<Rightarrow> jsstring \<Rightarrow> jsstring" where
  "under base a = path_join [base, a]"

lemma ends_in_name_plain: "plain_name a \<Longrightarrow> ends_in_name a"
  by (cases a) (auto simp: ends_in_name_def path_segments_def split_on_notin plain_name_def dest: last_in_set)

lemma clean_under: "plain_name a \<Longrightarrow> clean (under base a)"
proof -
  assume a: "plain_name a"
  show ?thesis
  proof (cases "base = []")
    case True
    then show ?thesis using a clean_normalize [OF ends_in_name_plain [OF a]]
      by (simp add: under_def path_join_def plain_name_def)
  next
    case False
    then show ?thesis using a clean_normalize [OF ends_in_name_snoc [OF False a]]
      by (simp add: under_def path_join_def plain_name_def)
  qed
qed

lemma join3: "plain_name a \<Longrightarrow> plain_name b \<Longrightarrow> path_join [base, a, b] = under base a @ 47 # b"
proof -
  assume a: "plain_name a" and b: "plain_name b"
  define p where "p = (if base = [] then a else base @ 47 # a)"
  have p: "ends_in_name p" using a ends_in_name_snoc [of base a] ends_in_name_plain by (simp add: p_def)
  have "path_join [base, a, b] = path_normalize (p @ 47 # b)" "under base a = path_normalize p"
    using a b by (auto simp: path_join_def under_def p_def plain_name_def)
  then show ?thesis using path_normalize_snoc [OF p b] by simp
qed

lemma below_same_root:
  assumes "47 \<notin> set a" "47 \<notin> set b" "below (r @ 47 # a) p" "below (r @ 47 # b) p"
  shows "a = b"
proof -
  have ends: "\<exists>s. p = r @ 47 # x @ s \<and> (s = [] \<or> hd s = 47)" if "below (r @ 47 # x) p" for x
    using that by (fastforce simp: below_def starts_with_iff js_eval)
  obtain s where s: "p = r @ 47 # a @ s" "s = [] \<or> hd s = 47" using ends [OF assms(3)] by blast
  obtain t where t: "p = r @ 47 # b @ t" "t = [] \<or> hd t = 47" using ends [OF assms(4)] by blast
  from s(1) t(1) have "a @ s = b @ t" by simp
  moreover have "takeWhile (\<lambda>c. c \<noteq> 47) (a @ s) = a" "takeWhile (\<lambda>c. c \<noteq> 47) (b @ t) = b"
    using assms(1,2) s(2) t(2)
    by (cases s; cases t; auto simp: takeWhile_append)+
  ultimately show ?thesis by simp
qed

text \<open>The name at the end of \<open>under base a\<close> stands behind a prefix that does not depend on it, so the
  paths below two names under the same base are different.\<close>

lemma under_prefix: "\<exists>pre. \<forall>a. plain_name a \<longrightarrow> under base a = pre @ a"
proof (cases "base = []")
  case True
  have "under base a = [] @ a" if "plain_name a" for a
    using True that path_normalize_name [OF ends_in_name_plain [OF that]]
    by (cases a) (auto simp: under_def path_join_def path_segments_def split_on_notin plain_name_def)
  then show ?thesis by blast
next
  case False
  define pre where "pre = (if hd base = 47 then [47] else []) @
    (if path_segments base = [] then [] else join_with [47] (path_segments base) @ [47])"
  have "under base a = pre @ a" if "plain_name a" for a
    using False that path_normalize_name [OF ends_in_name_snoc [OF False that]]
    by (auto simp: under_def path_join_def pre_def path_segments_snoc join_with_snoc plain_name_def)
  then show ?thesis by blast
qed

lemma below_parts: "below q p \<longleftrightarrow> (\<exists>s. p = q @ s \<and> (s = [] \<or> hd s = 47))"
proof
  assume "below q p"
  then show "\<exists>s. p = q @ s \<and> (s = [] \<or> hd s = 47)"
    by (auto simp: below_def starts_with_iff js_eval)
next
  assume "\<exists>s. p = q @ s \<and> (s = [] \<or> hd s = 47)"
  then obtain s where s: "p = q @ s" "s = [] \<or> hd s = 47" by blast
  then show "below q p" by (cases s) (auto simp: below_def starts_with_iff js_eval)
qed

lemma below_same_prefix:
  assumes "47 \<notin> set a" "47 \<notin> set b" "below (pre @ a) p" "below (pre @ b) p"
  shows "a = b"
proof -
  obtain s where s: "p = pre @ a @ s" "s = [] \<or> hd s = 47" using assms(3) by (auto simp: below_parts)
  obtain t where t: "p = pre @ b @ t" "t = [] \<or> hd t = 47" using assms(4) by (auto simp: below_parts)
  from s(1) t(1) have "a @ s = b @ t" by simp
  moreover have "takeWhile (\<lambda>c. c \<noteq> 47) (a @ s) = a" "takeWhile (\<lambda>c. c \<noteq> 47) (b @ t) = b"
    using assms(1,2) s(2) t(2)
    by (cases s; cases t; auto simp: takeWhile_append)+
  ultimately show ?thesis by simp
qed

lemma below_under:
  assumes "plain_name a" "plain_name b" "below (under base a) p" "below (under base b) p"
  shows "a = b"
proof -
  obtain pre where "\<forall>a. plain_name a \<longrightarrow> under base a = pre @ a" using under_prefix by blast
  then show ?thesis using below_same_prefix [of a b pre p] assms by (auto simp: plain_name_def)
qed

lemma below_trans: "below a b \<Longrightarrow> below b c \<Longrightarrow> below a c"
  unfolding below_parts by (metis append.assoc append_Nil2 hd_append2)

text \<open>Two paths above the same path are one below the other.\<close>

lemma below_comparable:
  assumes "below a p" "below b p"
  shows "below a b \<or> below b a"
proof -
  obtain s t where s: "p = a @ s" "s = [] \<or> hd s = 47" and t: "p = b @ t" "t = [] \<or> hd t = 47"
    using assms unfolding below_parts by blast
  then obtain u where "a = b @ u \<and> u @ s = t \<or> a @ u = b \<and> s = u @ t"
    using append_eq_append_conv2 [of a s b t] by auto
  moreover have "u = [] \<or> hd u = 47" if "u @ s = t" using that t(2) by (cases u) auto
  moreover have "u = [] \<or> hd u = 47" if "s = u @ t" using that s(2) by (cases u) auto
  ultimately have "(\<exists>u. a = b @ u \<and> (u = [] \<or> hd u = 47)) \<or> (\<exists>u. b = a @ u \<and> (u = [] \<or> hd u = 47))" by blast
  then show ?thesis unfolding below_parts by blast
qed

lemma join_take:
  "xs \<noteq> [] \<Longrightarrow> ys \<noteq> [] \<Longrightarrow> join_with s (xs @ ys) = join_with s xs @ s @ join_with s ys"
proof (induction s xs rule: join_with.induct)
  case (2 s x)
  then show ?case by (cases ys) simp_all
qed simp_all

lemma ancestors_below: "q \<in> set (ancestors p) \<Longrightarrow> below q p"
proof -
  assume "q \<in> set (ancestors p)"
  then obtain n where n: "1 \<le> n" "q = join_with [47] (take n (split_on 47 p))"
    by (auto simp: ancestors_def)
  show ?thesis
  proof (cases "drop n (split_on 47 p) = []")
    case True
    then have "take n (split_on 47 p) = split_on 47 p" by simp
    then have "q = p" using n(2) join_split_on [of 47 p] by argo
    then show ?thesis by (simp add: below_def)
  next
    case False
    then have "take n (split_on 47 p) \<noteq> []" using n(1) by (cases "split_on 47 p"; cases n) auto
    from join_take [OF this False, of "[47]"] have "p = q @ 47 # join_with [47] (drop n (split_on 47 p))"
      using n(2) join_split_on [of 47 p] by simp
    then show ?thesis unfolding below_parts by (metis list.sel(1))
  qed
qed

end
