(* ===== verification/Gateway_Paths.thy ===== *)
theory Gateway_Paths
  imports Gateway Node_Paths
begin

text \<open>
  What a validated submission id guarantees: it is a plain name, so every path of a job lies below
  the job's own directories, and the directories of two jobs do not overlap.  An upload for one job
  leaves the files of every other job alone, and cleaning up removes exactly the job's own.
\<close>

lemma valid_id_chars: "valid_id i \<Longrightarrow> list_all (\<lambda>c. in_ranges c (hex_class @ [(45, 45)])) i"
  unfolding valid_id_def regex_test_lang
  by (rule over_lang [of _ uuid_regex])
    (auto simp: uuid_regex_def Let_def js_eval in_ranges_def hex_class_def word_le_nat_alt)

lemma valid_id_no: "valid_id i \<Longrightarrow> 47 \<notin> set i \<and> 44 \<notin> set i \<and> 46 \<notin> set i"
  using valid_id_chars [of i] by (auto simp: list_all_iff in_ranges_def hex_class_def word_le_nat_alt)

lemma valid_id_plain: "valid_id i \<Longrightarrow> plain_name i"
  using valid_id_no [of i] by (auto simp: plain_name_def valid_id_def js_eval)

lemma plain_names:
  "plain_name (js ''jobs'')" "plain_name (js ''artifact.uploading'')" "plain_name (js ''cancelled'')"
  "plain_name (js ''artifact'' @ artifactExtension kind)" "plain_name (js ''output.txt'')"
  "plain_name (board_name dataset @ js ''-'' @ nat_to_string n)"
proof -
  show "plain_name (js ''artifact'' @ artifactExtension kind)"
    by (cases kind rule: artifactExtension.cases) (simp_all add: plain_name_def js_eval)
  show "plain_name (board_name dataset @ js ''-'' @ nat_to_string n)"
    using set_nat_to_string [of 47 n] by (cases dataset) (auto simp: plain_name_def js_eval is_digit_def)
qed (simp_all add: plain_name_def js_eval)

definition jobs_root :: "config \<Rightarrow> jsstring" where
  "jobs_root cfg = path_join [RUNNER_ROOT cfg, js ''jobs'']"

lemma jobDirectory_valid: "valid_id i \<Longrightarrow> jobDirectory cfg i = jobs_root cfg @ 47 # i"
  using join3 [OF plain_names(1) valid_id_plain, of i "RUNNER_ROOT cfg"]
  by (simp add: jobDirectory_def jobs_root_def under_def)

lemma clean_jobDirectory: "valid_id i \<Longrightarrow> clean (jobDirectory cfg i)"
  using clean_snoc [OF clean_under valid_id_plain, OF plain_names(1)]
  by (simp add: jobDirectory_valid jobs_root_def under_def)

lemma in_job:
  "valid_id i \<Longrightarrow> plain_name b \<Longrightarrow> path_join [jobDirectory cfg i, b] = jobDirectory cfg i @ 47 # b"
  using clean_join [OF clean_jobDirectory] .

lemma artifactPath_valid: "valid_id i \<Longrightarrow> artifactPath cfg i kind = jobDirectory cfg i @ 47 # js ''artifact'' @ artifactExtension kind"
  using in_job [OF _ plain_names(4)] by (simp add: artifactPath_def)

lemma attempt_directory_valid:
  "valid_id i \<Longrightarrow> attempt_directory cfg i dataset n =
    path_join [RUNNER_WORK_ROOT cfg, i] @ 47 # board_name dataset @ js ''-'' @ nat_to_string n"
  using join3 [OF valid_id_plain plain_names(6)] by (simp add: attempt_directory_def under_def)

lemma below_snoc: "below p (p @ 47 # b)"
  by (simp add: below_def starts_with_def js_eval)

section \<open>The paths of a job\<close>

definition work_directory :: "config \<Rightarrow> jsstring \<Rightarrow> jsstring" where
  "work_directory cfg i = path_join [RUNNER_WORK_ROOT cfg, i]"

text \<open>The paths the gateway handles for an id: the marker of a cancellation, the artifact of every kind and
  its temporary file, and for every attempt its directory and the output in it.\<close>

definition job_paths :: "config \<Rightarrow> jsstring \<Rightarrow> jsstring set" where
  "job_paths cfg i =
     {path_join [jobDirectory cfg i, js ''cancelled''], path_join [jobDirectory cfg i, js ''artifact.uploading'']}
     \<union> range (artifactPath cfg i)"

definition attempt_paths :: "config \<Rightarrow> jsstring \<Rightarrow> jsstring set" where
  "attempt_paths cfg i =
     (\<Union>dataset n. {attempt_directory cfg i dataset n, path_join [attempt_directory cfg i dataset n, js ''output.txt'']})"

definition roots_apart :: "config \<Rightarrow> jsstring \<Rightarrow> bool" where
  "roots_apart cfg i \<longleftrightarrow> \<not> below (jobs_root cfg) (work_directory cfg i) \<and> \<not> below (work_directory cfg i) (jobs_root cfg)"

lemma below_job:
  assumes "valid_id i"
  shows "below (jobs_root cfg) (jobDirectory cfg i)" "p \<in> job_paths cfg i \<Longrightarrow> below (jobDirectory cfg i) p"
proof -
  show "below (jobs_root cfg) (jobDirectory cfg i)" using below_snoc assms by (simp add: jobDirectory_valid)
  have "below (jobDirectory cfg i) (artifactPath cfg i kind)" for kind
    unfolding artifactPath_valid [OF assms] by (rule below_snoc)
  then show "p \<in> job_paths cfg i \<Longrightarrow> below (jobDirectory cfg i) p"
    using below_snoc by (auto simp: job_paths_def in_job [OF assms plain_names(2)] in_job [OF assms plain_names(3)])
qed

lemma below_work:
  assumes "valid_id i" "p \<in> attempt_paths cfg i"
  shows "below (work_directory cfg i) p"
proof -
  have d: "below (work_directory cfg i) (attempt_directory cfg i dataset n)" for dataset n
    unfolding attempt_directory_valid [OF assms(1)] work_directory_def by (rule below_snoc)
  have "clean (attempt_directory cfg i dataset n)" for dataset n
    using clean_snoc [OF clean_under [OF valid_id_plain [OF assms(1)]] plain_names(6)]
    by (simp add: attempt_directory_valid [OF assms(1)] under_def)
  then have "path_join [attempt_directory cfg i dataset n, js ''output.txt''] =
      attempt_directory cfg i dataset n @ 47 # js ''output.txt''" for dataset n
    by (rule clean_join [OF _ plain_names(5)])
  then have "below (work_directory cfg i) (path_join [attempt_directory cfg i dataset n, js ''output.txt''])" for dataset n
    using below_trans [OF d below_snoc] by simp
  then show ?thesis using assms(2) d by (auto simp: attempt_paths_def)
qed

lemma directories_apart:
  assumes "valid_id i" "valid_id j" "i \<noteq> j"
  shows "\<not> (below (jobDirectory cfg i) p \<and> below (jobDirectory cfg j) p)"
    "\<not> (below (work_directory cfg i) p \<and> below (work_directory cfg j) p)"
    "roots_apart cfg j \<Longrightarrow> \<not> (below (jobDirectory cfg i) p \<and> below (work_directory cfg j) p)"
proof -
  show "\<not> (below (jobDirectory cfg i) p \<and> below (jobDirectory cfg j) p)"
    using below_same_root [of i j "jobs_root cfg" p] valid_id_no assms by (auto simp: jobDirectory_valid)
  show "\<not> (below (work_directory cfg i) p \<and> below (work_directory cfg j) p)"
    using below_under [OF valid_id_plain valid_id_plain] assms unfolding work_directory_def under_def by blast
  show "\<not> (below (jobDirectory cfg i) p \<and> below (work_directory cfg j) p)" if "roots_apart cfg j"
    using below_comparable [OF below_trans [OF below_job(1) [OF assms(1)]]] that unfolding roots_apart_def by blast
qed

section \<open>What an upload leaves alone\<close>

lemma fs_action_keeps:
  assumes "\<And>fs x fs'. f fs = Inr (x, fs') \<Longrightarrow> fs' p = fs p"
  shows "preserves (\<lambda>w. files w p = v) (fs_action h f)"
  using assms by (auto simp: preserves_def fs_action_def Let_def split: option.splits sum.splits)

lemma put_file_keeps: "put_file fs q content t m = Inr (u, fs') \<Longrightarrow> p \<noteq> q \<Longrightarrow> fs' p = fs p"
  by (auto simp: put_file_def split: if_splits)

lemma left_part_keeps: "p \<noteq> q \<Longrightarrow> left_part h q content m w p = files w p"
  by (auto simp: left_part_def put_file_keeps split: nat.splits sum.splits)

lemma store_keeps:
  assumes "p \<noteq> q"
  shows "preserves (\<lambda>w. files w p = v) (store_file h q content m)"
    "preserves (\<lambda>w. files w p = v) (receive_upload h chunks limit q m)"
proof -
  show s: "preserves (\<lambda>w. files w p = v) (store_file h q content m)" for content
    by (auto simp: preserves_def store_file_def Let_def left_part_keeps [OF assms] put_file_keeps [OF _ assms]
        split: option.splits sum.splits)
  show "preserves (\<lambda>w. files w p = v) (receive_upload h chunks limit q m)"
    unfolding preserves_def
  proof (intro allI impI)
    fix w :: world
    assume v: "files w p = v"
    have "files w' p = v" if "store_file h q content m w = (x, w')" for content x w'
      using s [of content] v that unfolding preserves_def by (metis snd_conv)
    with v show "files (snd (receive_upload h chunks limit q m w)) p = v"
      by (cases "receive_chunks limit [] chunks")
        (auto simp: receive_upload_def left_part_keeps [OF assms] split: prod.splits sum.splits)
  qed
qed

lemma operations_keep:
  "p \<noteq> q \<Longrightarrow> preserves (\<lambda>w. files w p = v) (rm_force h q)"
  "p \<noteq> q \<Longrightarrow> preserves (\<lambda>w. files w p = v) (chmod h q m)"
  "p \<noteq> q \<Longrightarrow> preserves (\<lambda>w. files w p = v) (utimes h q t)"
  "p \<noteq> q \<Longrightarrow> p \<noteq> r \<Longrightarrow> preserves (\<lambda>w. files w p = v) (rename_file h q r)"
  "p \<notin> set (ancestors q) \<Longrightarrow> preserves (\<lambda>w. files w p = v) (mkdir_recursive h q m)"
  unfolding rm_force_def chmod_def utimes_def rename_file_def mkdir_recursive_def
  by (rule fs_action_keeps;
      auto simp: with_node_def make_directories_def put_file_def split: option.splits node.splits if_splits)+

lemma others_keep:
  "preserves (\<lambda>w. files w p = v) (write_stdout t)"
  "preserves (\<lambda>w. files w p = v) (library_error h)"
  "preserves (\<lambda>w. files w p = v) (validateId arg)"
  "preserves (\<lambda>w. files w p = v) (parse_kind h accepts arg)"
  by (auto simp: preserves_def write_stdout_def library_error_def validateId_def parse_kind_def io_return_def io_throw_def
      split: option.splits)

lemma upload_keeps:
  assumes "valid_id i \<Longrightarrow> \<not> below (jobDirectory cfg i) p \<and> \<not> below p (jobDirectory cfg i)"
  shows "files (snd (upload h accepts cfg stdin (i # rest) w)) p = files w p"
proof (cases "valid_id i")
  case False
  then show ?thesis by (simp add: upload_def validateId_def arg_at_def io_bind_def io_throw_def)
next
  case True
  note paths = below_job(2) [OF True, of _ cfg, unfolded job_paths_def]
  have ne: "p \<noteq> path_join [jobDirectory cfg i, js ''artifact.uploading'']" "\<And>kind. p \<noteq> artifactPath cfg i kind"
    using assms [OF True] paths by blast+
  have "p \<notin> set (ancestors (jobDirectory cfg i))" using assms [OF True] ancestors_below by blast
  note keep = store_keeps(2) [OF ne(1)] operations_keep(1,2) [OF ne(2)] operations_keep(4) [OF ne(1) ne(2)]
    operations_keep(5) [OF this] others_keep
  have "preserves (\<lambda>w'. files w' p = files w p) (upload h accepts cfg stdin (i # rest))"
  proof -
    let ?P = "\<lambda>w'. files w' p = files w p"
    have id: "io_bind (validateId (arg_at (i # rest) 0)) f = f i" for f :: "jsstring \<Rightarrow> unit action"
      using True by (simp add: validateId_def arg_at_def io_bind_def io_return_def)
    show ?thesis
      unfolding upload_def id Let_def
      by (intro preserves_bind [of ?P] preserves_then [of ?P] preserves_return keep;
          auto split: option.splits intro!: preserves_bind preserves_then preserves_throw keep)
  qed
  then show ?thesis by (simp add: preserves_def)
qed

text \<open>C12: Every path the gateway handles for a validated id lies below that id's job directory or below its
  work directory.  No path lies below the job directories of two ids, or below their work directories; with
  the work directories outside the directory of the jobs, none lies below the job directory of one and the work
  directory of another.  So an id cannot name another job's files, and an upload for it changes no
  file below the directories of another id, whatever its outcome.\<close>

theorem job_paths_confined:
  assumes "valid_id i" and "valid_id j" and "i \<noteq> j"
  shows "(\<forall>p \<in> job_paths cfg i. below (jobDirectory cfg i) p)
    \<and> (\<forall>p \<in> attempt_paths cfg i. below (work_directory cfg i) p)
    \<and> below (jobs_root cfg) (jobDirectory cfg i)
    \<and> \<not> (below (jobDirectory cfg i) p \<and> below (jobDirectory cfg j) p)
    \<and> \<not> (below (work_directory cfg i) p \<and> below (work_directory cfg j) p)
    \<and> (roots_apart cfg j \<longrightarrow> \<not> (below (jobDirectory cfg i) p \<and> below (work_directory cfg j) p))
    \<and> (below (jobDirectory cfg j) p \<or> roots_apart cfg j \<and> below (work_directory cfg j) p \<longrightarrow>
         files (snd (upload h accepts cfg stdin (i # rest) w)) p = files w p)"
proof -
  have "files (snd (upload h accepts cfg stdin (i # rest) w)) p = files w p"
    if "below (jobDirectory cfg j) p \<or> roots_apart cfg j \<and> below (work_directory cfg j) p"
  proof (rule upload_keeps)
    have "\<not> below (jobDirectory cfg i) p"
      using directories_apart [OF assms, of cfg p] that by blast
    moreover have "\<not> below p (jobDirectory cfg i)"
      using directories_apart [OF assms, of cfg "jobDirectory cfg i"] that below_trans [of _ p "jobDirectory cfg i"]
      by (auto simp: below_def [of "jobDirectory cfg i" "jobDirectory cfg i"])
    ultimately show "\<not> below (jobDirectory cfg i) p \<and> \<not> below p (jobDirectory cfg i)" by blast
  qed
  then show ?thesis
    using below_job [OF assms(1)] below_work [OF assms(1)] directories_apart [OF assms, of cfg p] by blast
qed

definition demo_id :: jsstring where
  "demo_id = js ''0123abcd-0000-4000-8000-000000000001''"

definition other_id :: jsstring where
  "other_id = js ''0123abcd-0000-4000-8000-000000000002''"

lemma demo_ids: "valid_id demo_id" "valid_id other_id" "demo_id \<noteq> other_id"
  by code_simp+

definition demo_config :: config where
  "demo_config = \<lparr>RUNNER_ROOT = js ''/var/lib/1brc'', RUNNER_WORK_ROOT = js ''/var/lib/1brc/work'',
     RUNNER_IMAGE = js ''runner'', RUNNER_PUBLIC_INPUT = js ''/data/public.csv'',
     RUNNER_PUBLIC_EXPECTED = js ''/data/public.txt'', RUNNER_PRIVATE_INPUT = js ''/data/private.csv'',
     RUNNER_PRIVATE_EXPECTED = js ''/data/private.txt'', BENCHMARK_ENVIRONMENT_ID = js ''c6i''\<rparr>"

lemma demo_roots: "roots_apart demo_config other_id"
  by code_simp

theorem job_paths_confined_witness:
  "below (jobDirectory demo_config demo_id) (artifactPath demo_config demo_id Native)
    \<and> below (work_directory demo_config demo_id)
        (path_join [attempt_directory demo_config demo_id Public_board 1, js ''output.txt''])
    \<and> \<not> (below (jobDirectory demo_config demo_id) [] \<and> below (jobDirectory demo_config other_id) [])
    \<and> files (snd (upload calm_host (\<lambda>_ _. True) demo_config [[1]] [demo_id, js ''native'', replicate 64 48] empty_world))
        (path_join [work_directory demo_config other_id, js ''public-1'']) =
      files empty_world (path_join [work_directory demo_config other_id, js ''public-1''])"
proof -
  have "below (work_directory demo_config other_id) (path_join [work_directory demo_config other_id, js ''public-1''])"
    by code_simp
  moreover have "artifactPath demo_config demo_id Native \<in> job_paths demo_config demo_id"
    "path_join [attempt_directory demo_config demo_id Public_board 1, js ''output.txt''] \<in> attempt_paths demo_config demo_id"
    by (auto simp: job_paths_def attempt_paths_def)
  ultimately show ?thesis
    using job_paths_confined [OF demo_ids, of demo_config "path_join [work_directory demo_config other_id, js ''public-1'']"
        calm_host "\<lambda>_ _. True" "[[1]]" "[js ''native'', replicate 64 48]" empty_world]
      job_paths_confined [OF demo_ids, of demo_config "[]"] demo_roots by blast
qed

section \<open>Mounts\<close>

lemma comma_free_under:
  assumes "clean base" "44 \<notin> set base" "plain_name b" "44 \<notin> set b"
  shows "44 \<notin> set (path_join [base, b])"
  using assms by (simp add: clean_join)

text \<open>C39: A validated id cannot change the mounts of its container: with directories and an input
  path free of commas, each \<open>--mount\<close> value splits at its commas into exactly the fields written in
  the program, the artifact and the input read-only.\<close>

theorem mounts_exact:
  assumes "valid_id i" and "44 \<notin> set (jobs_root cfg)" and "44 \<notin> set (path_join [RUNNER_WORK_ROOT cfg, i])"
    and "44 \<notin> set cached"
  shows "let args = buildContainerCreateArgs (attempt_options cfg i kind dataset n cached name) in
    split_on 44 (args ! 15) =
      [js ''type=bind'', js ''src='' @ attempt_directory cfg i dataset n, js ''dst=/work'']
    \<and> split_on 44 (args ! 17) =
      [js ''type=bind'', js ''src='' @ artifactPath cfg i kind,
       js ''dst=/submission/artifact'' @ artifactExtension kind, js ''readonly'']
    \<and> split_on 44 (args ! 19) =
      [js ''type=bind'', js ''src='' @ cached, js ''dst=/input/data.csv'', js ''readonly'']"
proof -
  have ext: "44 \<notin> set (artifactExtension kind)"
    by (cases kind rule: artifactExtension.cases) (simp_all add: js_eval)
  have "44 \<notin> set (nat_to_string n)" using set_nat_to_string [of 44 n] by (auto simp: is_digit_def)
  then have work: "44 \<notin> set (attempt_directory cfg i dataset n)"
    using assms(1,3) by (cases dataset) (simp_all add: attempt_directory_valid js_eval)
  have art: "44 \<notin> set (artifactPath cfg i kind)"
    using assms(1,2) ext valid_id_no by (simp add: artifactPath_valid jobDirectory_valid js_eval)
  let ?args = "buildContainerCreateArgs (attempt_options cfg i kind dataset n cached name)"
  let ?m1 = "[js ''type=bind'', js ''src='' @ attempt_directory cfg i dataset n, js ''dst=/work'']"
  let ?m2 = "[js ''type=bind'', js ''src='' @ artifactPath cfg i kind,
       js ''dst=/submission/artifact'' @ artifactExtension kind, js ''readonly'']"
  let ?m3 = "[js ''type=bind'', js ''src='' @ cached, js ''dst=/input/data.csv'', js ''readonly'']"
  have args: "?args ! 15 = join_with [44] ?m1" "?args ! 17 = join_with [44] ?m2" "?args ! 19 = join_with [44] ?m3"
    by (simp_all add: buildContainerCreateArgs_def attempt_options_def js_eval)
  have split: "split_on 44 (join_with [44] fs) = fs" if "fs \<noteq> []" "list_all (\<lambda>f. 44 \<notin> set f) fs" for fs :: "jsstring list"
    using that by (intro split_on_join) (auto simp: list_all_iff)
  have "split_on 44 (join_with [44] ?m1) = ?m1" "split_on 44 (join_with [44] ?m2) = ?m2"
    "split_on 44 (join_with [44] ?m3) = ?m3"
    by (rule split; use work art ext assms(4) in \<open>simp add: js_eval\<close>)+
  then show ?thesis unfolding Let_def args by blast
qed

theorem mounts_exact_witness:
  "let args = buildContainerCreateArgs (attempt_options demo_config demo_id Native Public_board 1 (js ''/ram/public.csv'') []) in
    split_on 44 (args ! 15) =
      [js ''type=bind'', js ''src='' @ attempt_directory demo_config demo_id Public_board 1, js ''dst=/work'']
    \<and> split_on 44 (args ! 17) =
      [js ''type=bind'', js ''src='' @ artifactPath demo_config demo_id Native,
       js ''dst=/submission/artifact'' @ artifactExtension Native, js ''readonly'']
    \<and> split_on 44 (args ! 19) =
      [js ''type=bind'', js ''src='' @ js ''/ram/public.csv'', js ''dst=/input/data.csv'', js ''readonly'']"
  by (rule mounts_exact [OF demo_ids(1)]) code_simp+

section \<open>Cleanup\<close>

lemma rm_recursive_Inr:
  "rm_recursive h p w = (Inr u, w') \<longleftrightarrow>
    host_fault h (counter w) = None \<and> w' = w\<lparr>counter := counter w + 1, files := (\<lambda>q. if below p q then None else files w q)\<rparr>"
  by (auto simp: rm_recursive_def fs_action_def Let_def split: option.splits)

text \<open>Cleanup rejects an id that is not a version 4 UUID; for a valid one that returns, exactly the
  files below the job's directory and its work directory are gone, and so no file below
  another job's directory is touched.\<close>

theorem cleanup_exact:
  "case cleanup h cfg args w of
     (Inl e, w') \<Rightarrow> (case args of i # rest \<Rightarrow> valid_id i \<or> files w' = files w | [] \<Rightarrow> files w' = files w)
   | (Inr u, w') \<Rightarrow> (\<exists>i rest. args = i # rest \<and> valid_id i \<and>
       (\<forall>p. files w' p = (if below (jobDirectory cfg i) p \<or> below (path_join [RUNNER_WORK_ROOT cfg, i]) p
                        then None else files w p)))"
proof (cases args)
  case Nil
  then show ?thesis by (simp add: cleanup_def validateId_def arg_at_def io_bind_def io_throw_def)
next
  case (Cons i rest)
  show ?thesis
  proof (cases "valid_id i")
    case False
    with Cons show ?thesis by (simp add: cleanup_def validateId_def arg_at_def io_bind_def io_throw_def)
  next
    case True
    obtain r w' where run: "cleanup h cfg args w = (r, w')" by fastforce
    show ?thesis
    proof (cases r)
      case (Inl e)
      with run True Cons show ?thesis by simp
    next
      case (Inr u)
      have "files w' p = (if below (jobDirectory cfg i) p \<or> below (path_join [RUNNER_WORK_ROOT cfg, i]) p
                        then None else files w p)" for p
        using run [unfolded Inr] True Cons
        by (auto simp: cleanup_def validateId_def arg_at_def io_bind_Inr io_then_Inr rm_recursive_Inr write_stdout_def)
      then show ?thesis using run Inr True Cons by simp
    qed
  qed
qed

end
