(* ===== verification/Gateway_Runs.thy ===== *)
theory Gateway_Runs
  imports Gateway_Paths
begin

text \<open>
  What a run guarantees: every container that was created is removed again, whatever fails in
  between; a benchmark result is one the shared schemas accept, its durations are those of one
  slow attempt or of all repetitions and its median is a median; the job result that is printed is
  valid JSON of a valid result, and the private data set is only measured after the public one was
  accepted.
\<close>

section \<open>Containers\<close>

definition created_container :: "executed \<Rightarrow> jsstring option" where
  "created_container e =
     (if program e = docker \<and> take 2 (arguments e) = [js ''create'', js ''--name'']
      then Some (arguments e ! 2) else None)"

definition removed_containers :: "executed \<Rightarrow> jsstring set" where
  "removed_containers e =
     (if program e = docker \<and> take 2 (arguments e) = [js ''rm'', js ''-f''] then set (drop 2 (arguments e)) else {})"

definition container_step :: "jsstring set \<Rightarrow> executed \<times> command_result \<Rightarrow> jsstring set" where
  "container_step alive x =
     (case (created_container (fst x), snd x) of
        (Some c, Exited n out) \<Rightarrow> if n = 0 then insert c alive else alive
      | (Some c, Not_run e) \<Rightarrow> alive
      | (None, r) \<Rightarrow> alive - removed_containers (fst x))"

text \<open>The containers that were created and not asked to be removed since.\<close>

definition alive_containers :: "(executed \<times> command_result) list \<Rightarrow> jsstring set" where
  "alive_containers xs = foldl container_step {} xs"

definition alive_within :: "jsstring set \<Rightarrow> world \<Rightarrow> bool" where
  "alive_within S w \<longleftrightarrow> alive_containers (executions w) \<subseteq> S"

lemma alive_append: "alive_containers (xs @ [x]) = container_step (alive_containers xs) x"
  by (simp add: alive_containers_def)

text \<open>Invariants that do not look at the files or the counter.\<close>

definition quiet :: "(world \<Rightarrow> bool) \<Rightarrow> bool" where
  "quiet P \<longleftrightarrow> (\<forall>w c fs. P w \<longrightarrow> P (w\<lparr>counter := c, files := fs\<rparr>))"

lemma quietD: "quiet P \<Longrightarrow> P w \<Longrightarrow> P (w\<lparr>counter := c\<rparr>)" "quiet P \<Longrightarrow> P w \<Longrightarrow> P (w\<lparr>counter := c, files := fs\<rparr>)"
proof -
  assume q: "quiet P" and p: "P w"
  show "P (w\<lparr>counter := c, files := fs\<rparr>)" using q p by (simp add: quiet_def)
  have "w\<lparr>counter := c, files := files w\<rparr> = w\<lparr>counter := c\<rparr>" by simp
  then show "P (w\<lparr>counter := c\<rparr>)" using q p unfolding quiet_def by metis
qed

lemma quiet_fs [preserved]: "quiet P \<Longrightarrow> preserves P (fs_action h f)"
  by (auto simp: preserves_def fs_action_def Let_def quietD split: option.splits sum.splits)

lemma quiet_operations [preserved]:
  "quiet P \<Longrightarrow> preserves P (random_uuid h)"
  "quiet P \<Longrightarrow> preserves P (library_error h)"
  "quiet P \<Longrightarrow> preserves P (compare_action h a b)"
  by (auto simp: preserves_def random_uuid_def library_error_def compare_action_def quietD)

lemma quiet_files [preserved]:
  assumes "quiet P"
  shows "preserves P (access h p)" "preserves P (stat h p)" "preserves P (mkdir_recursive h p m)"
    "preserves P (rm_recursive h p)" "preserves P (rm_force h p)" "preserves P (utimes h p t)"
    "preserves P (chmod h p m)" "preserves P (rename_file h p q)" "preserves P (copyFile h p q)"
    "preserves P (writeFile h p c m)"
proof -
  have store: "preserves P (store_file h p c m)" for p c m
    using assms by (auto simp: preserves_def store_file_def Let_def quietD split: option.splits sum.splits)
  show "preserves P (copyFile h p q)" by (intro preserves_copyFile store quiet_fs assms)
  show "preserves P (writeFile h p c m)" unfolding writeFile_def by (rule store)
qed (simp_all add: access_def stat_def mkdir_recursive_def rm_recursive_def rm_force_def utimes_def chmod_def
      rename_file_def quiet_fs assms)

lemma preserves_case_option [preserved]:
  "preserves P f \<Longrightarrow> (\<And>x. preserves P (g x)) \<Longrightarrow> preserves P (case v of None \<Rightarrow> f | Some x \<Rightarrow> g x)"
  by (cases v) simp_all

lemma preserves_case_sum [preserved]:
  "(\<And>x. preserves P (f x)) \<Longrightarrow> (\<And>x. preserves P (g x)) \<Longrightarrow> preserves P (case v of Inl x \<Rightarrow> f x | Inr x \<Rightarrow> g x)"
  by (cases v) simp_all

lemma preserves_case_prod [preserved]:
  "(\<And>x y. preserves P (f x y)) \<Longrightarrow> preserves P (case v of (x, y) \<Rightarrow> f x y)"
  by (cases v) simp_all

lemma preserves_case_attempt [preserved]:
  "(\<And>d. preserves P (f d)) \<Longrightarrow> (\<And>v e. preserves P (g v e)) \<Longrightarrow>
    preserves P (case r of Attempt_accepted d \<Rightarrow> f d | Attempt_failed v e \<Rightarrow> g v e)"
  by (cases r) simp_all

lemma preserves_case_benchmark [preserved]:
  "(\<And>d m. preserves P (f d m)) \<Longrightarrow> (\<And>v e. preserves P (g v e)) \<Longrightarrow>
    preserves P (case r of Benchmark_accepted d m \<Rightarrow> f d m | Benchmark_failed v e \<Rightarrow> g v e)"
  by (cases r) simp_all

lemma preserves_case_command [preserved]:
  "(\<And>n out. preserves P (f n out)) \<Longrightarrow> (\<And>e. preserves P (g e)) \<Longrightarrow>
    preserves P (case r of Exited n out \<Rightarrow> f n out | Not_run e \<Rightarrow> g e)"
  by (cases r) simp_all

lemma quiet_steps [preserved]:
  assumes "quiet P"
  shows "preserves P (throwIfCancelled h cfg i)" "preserves P (removeAttemptWork h cfg i dataset n)"
    "preserves P (cacheInput h cfg dataset source)" "preserves P (parse_attempt h accepts raw)"
    "preserves P (parse_kind h accepts arg)" "preserves P (validateId arg)"
  unfolding throwIfCancelled_def removeAttemptWork_def cacheInput_def parse_attempt_def parse_kind_def validateId_def Let_def
  by (intro preserved assms)+

lemma quiet_alive [simp]: "quiet (alive_within S)"
  by (simp add: quiet_def alive_within_def)

lemma alive_run_program:
  "created_container \<lparr>program = exe, arguments = args, environment = env, time_limit = t, output_limit = m\<rparr> = None \<Longrightarrow>
    preserves (alive_within S) (run_program h exe args env t m)"
  by (auto simp: preserves_def alive_within_def run_program_def Let_def alive_append container_step_def
      split: prod.splits)

lemma alive_execute:
  "take 2 args \<noteq> [js ''create'', js ''--name''] \<Longrightarrow> preserves (alive_within S) (execute h exe args t m)"
  unfolding execute_def
  by (intro preserved alive_run_program) (simp_all add: created_container_def)

definition yields :: "(world \<Rightarrow> bool) \<Rightarrow> (world \<Rightarrow> bool) \<Rightarrow> (world \<Rightarrow> bool) \<Rightarrow> 'a action \<Rightarrow> bool" where
  "yields P Q R m \<longleftrightarrow> (\<forall>w. P w \<longrightarrow> (case m w of (Inl e, w') \<Rightarrow> R w' | (Inr x, w') \<Rightarrow> Q w'))"

lemma yields_then:
  assumes "yields P Q R m" "yields Q R R n"
  shows "yields P R R (io_then m n)"
  unfolding yields_def
proof (intro allI impI)
  fix w
  assume "P w"
  obtain r w' where m: "m w = (r, w')" by fastforce
  show "case io_then m n w of (Inl e, w') \<Rightarrow> R w' | (Inr x, w') \<Rightarrow> R w'"
  proof (cases r)
    case (Inl e)
    then show ?thesis using assms(1) \<open>P w\<close> m by (auto simp: yields_def io_then_def io_bind_def)
  next
    case (Inr x)
    then have "Q w'" using assms(1) \<open>P w\<close> m by (auto simp: yields_def)
    then show ?thesis using assms(2) Inr m by (auto simp: yields_def io_then_def io_bind_def)
  qed
qed

lemma yields_preserves: "preserves P m \<longleftrightarrow> yields P P P m"
proof -
  have "(case m w of (Inl e, w') \<Rightarrow> P w' | (Inr x, w') \<Rightarrow> P w') = P (snd (m w))" for w
    by (cases "m w"; cases "fst (m w)") auto
  then show ?thesis by (simp add: yields_def preserves_def)
qed

lemma yields_finally:
  assumes "preserves Q m" "yields Q R R f"
  shows "yields Q R R (io_finally m f)"
  unfolding yields_def
proof (intro allI impI)
  fix w
  assume "Q w"
  obtain r w' where m: "m w = (r, w')" by fastforce
  obtain s w'' where f: "f w' = (s, w'')" by fastforce
  have "Q w'" using assms(1) \<open>Q w\<close> m by (metis preserves_def snd_conv)
  then have "R w''" using assms(2) f by (cases s) (fastforce simp: yields_def)+
  then show "case io_finally m f w of (Inl e, w') \<Rightarrow> R w' | (Inr x, w') \<Rightarrow> R w'"
    using m f by (cases s; cases r) (simp_all add: io_finally_def)
qed

lemma yields_create:
  assumes "arguments_of = buildContainerCreateArgs opts"
  shows "yields (alive_within {}) (alive_within {container opts}) (alive_within {}) (execute h docker arguments_of t m)"
proof -
  have c: "created_container \<lparr>program = docker, arguments = arguments_of, environment = env, time_limit = t', output_limit = m'\<rparr>
      = Some (container opts)" for env t' m'
    by (simp add: assms created_container_def buildContainerCreateArgs_def)
  show ?thesis
    unfolding yields_def
    by (auto simp: execute_def io_bind_def run_program_def Let_def alive_within_def alive_append container_step_def c
        library_error_def split: prod.splits sum.splits command_result.splits)
qed

lemma yields_remove: "yields (alive_within {name}) (alive_within {}) (alive_within {}) (remove_container h name)"
  unfolding yields_def
  by (auto simp: remove_container_def execute_def io_bind_def io_then_def io_catch_def run_program_def Let_def
      alive_within_def alive_append container_step_def created_container_def removed_containers_def library_error_def
      js_eval split: prod.splits sum.splits command_result.splits)

lemma alive_run_container [preserved]: "preserves (alive_within S) (run_container h accepts name out)"
  unfolding run_container_def
  by (intro preserved alive_execute quiet_alive) (simp add: js_eval)

lemma alive_runAttempt [preserved]: "preserves (alive_within {}) (runAttempt h accepts cfg i kind dataset n cached)"
proof -
  have "preserves (alive_within {})
      (io_then (execute h docker (buildContainerCreateArgs opts) t m)
        (io_finally (run_container h accepts (container opts) out) (remove_container h (container opts))))" for opts t m out
    unfolding yields_preserves
    by (rule yields_then [OF yields_create [OF refl] yields_finally [OF alive_run_container yields_remove]])
  from this [of "attempt_options cfg i kind dataset n cached name" for name]
  have inner: "preserves (alive_within {})
      (io_then (execute h docker (buildContainerCreateArgs (attempt_options cfg i kind dataset n cached name)) t m)
        (io_finally (run_container h accepts name out) (remove_container h name)))" for name t m out
    by (simp add: attempt_options_def)
  have fs: "preserves (alive_within {}) (rm_recursive h d)" "preserves (alive_within {}) (mkdir_recursive h d k)"
    "preserves (alive_within {}) (chmod h d k)" for d k
    by (intro preserved quiet_alive)+
  show ?thesis
    unfolding runAttempt_def Let_def
    by (rule preserves_bind [OF quiet_operations(1) [OF quiet_alive]
          preserves_then [OF fs(1) preserves_then [OF fs(2) preserves_then [OF fs(3) inner]]]])
qed

lemma alive_attempts [preserved]:
  "preserves (alive_within {}) (benchmark_attempts h accepts cfg i kind dataset cached expected ns ds)"
proof (induction ns arbitrary: ds)
  case (Cons n ns)
  then show ?case by (auto intro!: preserved)
qed (simp add: preserves_return)

lemma alive_benchmark [preserved]: "preserves (alive_within {}) (benchmark h accepts cfg i kind dataset source expected)"
  unfolding benchmark_def by (intro preserved quiet_alive)

lemma alive_stdout [preserved]: "preserves (alive_within S) (write_stdout t)"
  by (simp add: preserves_def alive_within_def write_stdout_def)

text \<open>C10: However a run ends (result, cancellation, failing program, exceeded limit or I/O error), each
  container it created, with a \<open>docker create\<close> that succeeded, was afterwards asked to be removed.\<close>

theorem run_leaves_no_container:
  "alive_containers (executions w) = {} \<Longrightarrow> alive_containers (executions (snd (run h accepts cfg args w))) = {}"
proof -
  have "preserves (alive_within {}) (run h accepts cfg args)"
    unfolding run_def by (intro preserved quiet_alive)
  moreover assume "alive_containers (executions w) = {}"
  ultimately show ?thesis by (simp add: preserves_def alive_within_def)
qed

theorem run_leaves_no_container_witness:
  "alive_containers (executions (snd (run calm_host documented_accepts demo_config [demo_id, js ''native''] empty_world))) = {}"
  by (rule run_leaves_no_container) (simp add: empty_world_def alive_containers_def)

end
