(* ===== verification/Gateway_Results.thy ===== *)
theory Gateway_Results
  imports Gateway_Runs
begin

text \<open>
  The results of a run: a measured attempt is what the schema describes, a benchmark result is
  consistent and its median is a median of its durations, and the line a run prints parses back to
  a job result the shared schema accepts.
\<close>

section \<open>Attempts\<close>

lemma attempt_of_same_members:
  assumes "attempt_ok a" "same_members v (attempt_json a)"
  shows "attempt_of_json v = Some a"
proof -
  from assms(2) have m: "member v k = member (attempt_json a) k" for k by (simp add: same_members_def)
  show ?thesis
  proof (cases a)
    case (Attempt_accepted d)
    then show ?thesis using m [of "js ''verdict''"] m [of "js ''durationNs''"] named_verdict [of Accepted]
      by (simp add: attempt_of_json_def member_def)
  next
    case (Attempt_failed w e)
    with assms(1) have "w \<noteq> Accepted" by simp
    then show ?thesis
      using Attempt_failed m [of "js ''verdict''"] m [of "js ''error''"]
      by (cases w; simp add: attempt_of_json_def member_def json_text_def flip: verdict_name.simps split: option.splits)
  qed
qed

lemma parse_attempt_ok:
  assumes "zod accepts" "parse_attempt h accepts raw w = (Inr a, w')"
  shows "attempt_ok a"
proof -
  obtain v where v: "accepts benchmarkAttemptResultSchema v" "attempt_of_json v = Some a"
    using assms(2) by (auto simp: parse_attempt_def library_error_def split: option.splits if_splits)
  then obtain b where "attempt_ok b" "same_members v (attempt_json b)"
    using zod.attempt_accepts [OF assms(1)] by blast
  with v attempt_of_same_members show ?thesis by fastforce
qed

lemma io_finally_Inr: "io_finally m f w = (Inr x, w'') \<Longrightarrow> \<exists>w'. m w = (Inr x, w')"
  by (auto simp: io_finally_def split: prod.splits sum.splits)

lemma run_container_ok:
  assumes "zod accepts" "run_container h accepts name out w = (Inr (a, p), w')"
  shows "attempt_ok a"
proof -
  obtain raw w1 b w2 where b: "parse_attempt h accepts raw w1 = (Inr b, w2)"
    and rest: "(case b of
       Attempt_accepted d \<Rightarrow>
         io_bind (stat h out) (\<lambda>outputStats.
           io_return (if stat_size outputStats > outputLimitBytes benchmarkPolicy
             then Attempt_failed Output_limit (Some output_limit_message) else b, out))
     | Attempt_failed v e \<Rightarrow> io_return (b, out)) w2 = (Inr (a, p), w')"
    using assms(2) unfolding run_container_def io_bind_Inr by blast
  have "attempt_ok b" using parse_attempt_ok [OF assms(1) b] .
  then show ?thesis using rest by (cases b) (auto simp: io_bind_Inr split: if_splits)
qed

lemma runAttempt_ok:
  assumes "zod accepts" "runAttempt h accepts cfg i kind dataset n cached w = (Inr (a, p), w')"
  shows "attempt_ok a"
proof -
  obtain name out w1 w2 where
    "io_finally (run_container h accepts name out) (remove_container h name) w1 = (Inr (a, p), w2)"
    using assms(2) unfolding runAttempt_def Let_def io_bind_Inr io_then_Inr by blast
  then show ?thesis using io_finally_Inr run_container_ok [OF assms(1)] by metis
qed

section \<open>The attempts of a data set\<close>

definition slow :: "jsstring \<Rightarrow> bool" where
  "slow d \<longleftrightarrow> 60 * 10 ^ 9 < ns_value d"

text \<open>The durations a sequence of attempts adds: one for each attempt, except that the first attempt
  ends the sequence when it was slow.\<close>

definition durations_added :: "nat list \<Rightarrow> jsstring list \<Rightarrow> bool" where
  "durations_added ns new \<longleftrightarrow> list_all all_digits new \<and>
     (if ns \<noteq> [] \<and> hd ns = 1 \<and> new \<noteq> [] \<and> slow (hd new) then length new = 1 else length new = length ns)"

lemma benchmark_attempts_cases:
  assumes "zod accepts" "1 \<notin> set (tl ns)"
    and "benchmark_attempts h accepts cfg i kind dataset cached expected ns ds w = (Inr r, w')"
  shows "case r of Inl b \<Rightarrow> (\<exists>v e. b = Benchmark_failed v e \<and> v \<noteq> Accepted)
    | Inr ds' \<Rightarrow> \<exists>new. ds' = ds @ new \<and> durations_added ns new"
  using assms(2,3)
proof (induction ns arbitrary: ds w)
  case Nil
  then show ?case by (simp add: durations_added_def)
next
  case (Cons n ns)
  obtain a p w1 w2 where run: "runAttempt h accepts cfg i kind dataset n cached w1 = (Inr (a, p), w2)"
    and rest: "(case a of
       Attempt_failed v e \<Rightarrow>
         io_then (removeAttemptWork h cfg i dataset n) (io_return (Inl (Benchmark_failed v e)))
     | Attempt_accepted durationNs \<Rightarrow>
         io_bind (compare_action h p expected) (\<lambda>comparison.
         io_then (removeAttemptWork h cfg i dataset n)
           (case comparison of
              Inl e \<Rightarrow> io_return (Inl (Benchmark_failed Wrong_answer (Some (err_message e))))
            | Inr u \<Rightarrow>
                (case shouldStopAfterFirstAttempt n durationNs of
                   None \<Rightarrow> library_error h
                 | Some stop \<Rightarrow>
                     if stop then io_return (Inr (ds @ [durationNs]))
                     else benchmark_attempts h accepts cfg i kind dataset cached expected ns (ds @ [durationNs])))))
       w2 = (Inr r, w')"
    using Cons.prems(2) by (auto simp: io_then_Inr io_bind_Inr)
  have ok: "attempt_ok a" using runAttempt_ok [OF assms(1) run] .
  show ?case
  proof (cases a)
    case (Attempt_failed v e)
    then show ?thesis using rest ok by (auto simp: io_then_Inr)
  next
    case (Attempt_accepted d)
    then have d: "all_digits d" using ok by simp
    have stop: "shouldStopAfterFirstAttempt n d = Some (n = 1 \<and> slow d)"
      using shouldStop_iff [OF d, of n] by (simp only: slow_def)
    from rest [unfolded Attempt_accepted attempt_result.case stop option.case] obtain c :: "comparison_error + unit" and w3 where
      after: "(case c of
              Inl e \<Rightarrow> io_return (Inl (Benchmark_failed Wrong_answer (Some (err_message e))))
            | Inr u \<Rightarrow> if n = 1 \<and> slow d then io_return (Inr (ds @ [d]))
                     else benchmark_attempts h accepts cfg i kind dataset cached expected ns (ds @ [d])) w3 = (Inr r, w')"
      unfolding io_then_Inr io_bind_Inr by blast
    show ?thesis
    proof (cases c)
      case (Inl e)
      then show ?thesis using after by auto
    next
      case (Inr u)
      show ?thesis
      proof (cases "n = 1 \<and> slow d")
        case True
        then show ?thesis using after Inr d by (auto simp: durations_added_def)
      next
        case False
        then have next_run: "benchmark_attempts h accepts cfg i kind dataset cached expected ns (ds @ [d]) w3 = (Inr r, w')"
          using after Inr by (simp only: sum.case if_False)
        have not1: "ns \<noteq> [] \<Longrightarrow> hd ns \<noteq> 1" "1 \<notin> set (tl ns)" using Cons.prems(1) by (cases ns; auto)+
        have IH: "case r of Inl b \<Rightarrow> (\<exists>v e. b = Benchmark_failed v e \<and> v \<noteq> Accepted)
            | Inr ds' \<Rightarrow> \<exists>new. ds' = (ds @ [d]) @ new \<and> durations_added ns new"
          by (rule Cons.IH [OF not1(2) next_run])
        show ?thesis
        proof (cases r)
          case (Inr ds')
          with IH obtain new where "ds' = ds @ d # new" "durations_added ns new" by auto
          then show ?thesis using Inr False not1(1) d
            by (intro sum.case_eq_if [THEN iffD2]) (auto simp: durations_added_def split: if_splits)
        qed (use IH in simp)
      qed
    qed
  qed
qed

section \<open>Benchmark results\<close>

text \<open>At most half of the durations are smaller than the median, and at most half are larger.\<close>

definition is_median :: "jsstring list \<Rightarrow> jsstring \<Rightarrow> bool" where
  "is_median ds m \<longleftrightarrow> m \<in> set ds
     \<and> length (filter (\<lambda>d. ns_value d < ns_value m) ds) \<le> length ds div 2
     \<and> length (filter (\<lambda>d. ns_value m < ns_value d) ds) \<le> length ds div 2"

lemma filter_take_all:
  "(\<And>i. n \<le> i \<Longrightarrow> i < length xs \<Longrightarrow> \<not> P (xs ! i)) \<Longrightarrow> length (filter P xs) \<le> n"
proof -
  assume none: "\<And>i. n \<le> i \<Longrightarrow> i < length xs \<Longrightarrow> \<not> P (xs ! i)"
  have "length (filter P xs) = card {i. i < length xs \<and> P (xs ! i)}" by (rule length_filter_conv_card)
  also have "\<dots> \<le> card {..<n}" using none by (intro card_mono) (auto simp: not_le [symmetric])
  finally show ?thesis by simp
qed

lemma filter_drop_all:
  "(\<And>i. i \<le> n \<Longrightarrow> \<not> P (xs ! i)) \<Longrightarrow> length (filter P xs) \<le> length xs - Suc n"
proof -
  assume none: "\<And>i. i \<le> n \<Longrightarrow> \<not> P (xs ! i)"
  have "length (filter P xs) = card {i. i < length xs \<and> P (xs ! i)}" by (rule length_filter_conv_card)
  also have "\<dots> \<le> card {Suc n..<length xs}" using none by (intro card_mono) (auto simp: not_less_eq_eq [symmetric])
  finally show ?thesis by simp
qed

lemma sorted_middle_median:
  assumes "ds \<noteq> []"
  shows "is_median ds (sort_key ns_value ds ! (length ds div 2))"
proof -
  let ?xs = "sort_key ns_value ds" and ?n = "length ds div 2"
  have n: "?n < length ds" using assms by (cases ds) auto
  have sorted: "sorted (map ns_value ?xs)" by simp
  have mono: "ns_value (?xs ! i) \<le> ns_value (?xs ! j)" if "i \<le> j" "j < length ds" for i j
    using sorted_nth_mono [OF sorted that(1)] that by simp
  have perm: "length (filter P ds) = length (filter P ?xs)" for P
    by (metis mset_filter mset_sort size_mset)
  have "length (filter (\<lambda>d. ns_value d < ns_value (?xs ! ?n)) ?xs) \<le> ?n"
    using mono [of ?n] by (intro filter_take_all) (simp add: leD)
  moreover have "length (filter (\<lambda>d. ns_value (?xs ! ?n) < ns_value d) ?xs) \<le> length ?xs - Suc ?n"
    using mono [OF _ n] by (intro filter_drop_all) (simp add: leD)
  moreover have "?xs ! ?n \<in> set ds" using n by (metis length_sort nth_mem set_sort)
  ultimately show ?thesis unfolding is_median_def perm using n by auto
qed

lemma benchmark_result_cases:
  assumes "zod accepts"
  shows "case benchmark h accepts cfg i kind dataset source expected w of
     (Inl e, w') \<Rightarrow> True
   | (Inr (Benchmark_failed v e), w') \<Rightarrow> v \<noteq> Accepted
   | (Inr (Benchmark_accepted ds m), w') \<Rightarrow>
       list_all all_digits ds \<and> is_median ds m \<and> (if slow (hd ds) then length ds = 1 else length ds = 3)"
proof -
  obtain r w' where run: "benchmark h accepts cfg i kind dataset source expected w = (r, w')" by fastforce
  show ?thesis
  proof (cases r)
    case (Inl e)
    then show ?thesis using run by simp
  next
    case (Inr b)
    have reps: "[1..<repetitions benchmarkPolicy + 1] = [1, 2, 3]" by (simp add: benchmarkPolicy_def upt_conv_Cons)
    obtain cached a w1 w2 where attempts:
        "benchmark_attempts h accepts cfg i kind dataset cached expected [1, 2, 3] [] w1 = (Inr a, w2)"
      and rest: "(case a of Inl result \<Rightarrow> io_return result
         | Inr durations \<Rightarrow> (case array_sort compareNanoseconds durations of
              None \<Rightarrow> library_error h
            | Some ordered \<Rightarrow> io_return (Benchmark_accepted durations (ordered ! (length ordered div 2))))) w2 = (Inr b, w')"
      using run [unfolded Inr] unfolding benchmark_def io_bind_Inr reps by blast
    have a: "case a of Inl b \<Rightarrow> (\<exists>v e. b = Benchmark_failed v e \<and> v \<noteq> Accepted)
        | Inr ds' \<Rightarrow> \<exists>new. ds' = [] @ new \<and> durations_added [1, 2, 3] new"
      by (rule benchmark_attempts_cases [OF assms _ attempts]) simp
    show ?thesis
    proof (cases a)
      case (Inl b')
      then show ?thesis using a rest run Inr by auto
    next
      case (Inr ds)
      with a have ds: "durations_added [1, 2, 3] ds" by simp
      then have "list_all all_digits ds" "ds \<noteq> []" "if slow (hd ds) then length ds = 1 else length ds = 3"
        by (auto simp: durations_added_def split: if_splits)
      moreover from this have "array_sort compareNanoseconds ds = Some (sort_key ns_value ds)"
        by (intro array_sort_compareNanoseconds) (simp add: list_all_iff)
      ultimately show ?thesis using rest Inr \<open>r = Inr b\<close> run sorted_middle_median [of ds]
        by (auto simp: length_sort)
    qed
  qed
qed

text \<open>C9: A benchmark that returns gives a consistent result: a verdict other than \<open>accepted\<close>, or the
  duration of one first attempt slower than 60 seconds, or three durations of which the first is
  not; its median is a median of the durations.\<close>

theorem benchmark_result:
  assumes "zod accepts"
  shows "case benchmark h accepts cfg i kind dataset source expected w of
     (Inl e, w') \<Rightarrow> True
   | (Inr (Benchmark_failed v e), w') \<Rightarrow> v \<noteq> Accepted
   | (Inr (Benchmark_accepted ds m), w') \<Rightarrow>
       list_all all_digits ds \<and> is_median ds m \<and> (if slow (hd ds) then length ds = 1 else length ds = 3)"
  using benchmark_result_cases [OF assms] .

theorem benchmark_result_witness:
  "case benchmark calm_host documented_accepts demo_config demo_id Native Public_board (js ''/i'') (js ''/e'') empty_world of
     (Inl e, w') \<Rightarrow> True
   | (Inr (Benchmark_failed v e), w') \<Rightarrow> v \<noteq> Accepted
   | (Inr (Benchmark_accepted ds m), w') \<Rightarrow>
       list_all all_digits ds \<and> is_median ds m \<and> (if slow (hd ds) then length ds = 1 else length ds = 3)"
  by (rule benchmark_result [OF documented.zod_axioms])

section \<open>The printed result\<close>

definition said :: "jsstring \<Rightarrow> world \<Rightarrow> bool" where
  "said s w \<longleftrightarrow> stdout_text w = s"

lemma quiet_said [simp]: "quiet (said s)"
  by (simp add: quiet_def said_def)

lemma said_execute [preserved]: "preserves (said s) (execute h exe args t m)"
proof -
  have "preserves (said s) (run_program h exe args env t m)" for env t m
    by (auto simp: preserves_def said_def run_program_def Let_def split: prod.splits)
  then show ?thesis unfolding execute_def by (intro preserved quiet_said)
qed

lemma said_container [preserved]:
  "preserves (said s) (run_container h accepts name out)" "preserves (said s) (remove_container h name)"
  unfolding run_container_def remove_container_def by (intro preserved quiet_said)+

lemma said_runAttempt [preserved]: "preserves (said s) (runAttempt h accepts cfg i kind dataset n cached)"
  unfolding runAttempt_def Let_def by (intro preserved quiet_said)

lemma said_attempts [preserved]:
  "preserves (said s) (benchmark_attempts h accepts cfg i kind dataset cached expected ns ds)"
proof (induction ns arbitrary: ds)
  case (Cons n ns)
  then show ?case by (auto intro!: preserved)
qed (simp add: preserves_return)

lemma said_benchmark [preserved]: "preserves (said s) (benchmark h accepts cfg i kind dataset source expected)"
  unfolding benchmark_def by (intro preserved quiet_said)

lemma yields_bind:
  assumes "preserves P m" "\<And>x. yields P Q P (f x)"
  shows "yields P Q P (io_bind m f)"
  unfolding yields_def
proof (intro allI impI)
  fix w
  assume "P w"
  obtain r w' where m: "m w = (r, w')" by fastforce
  then have "P w'" using assms(1) \<open>P w\<close> by (metis preserves_def snd_conv)
  then show "case io_bind m f w of (Inl e, w') \<Rightarrow> P w' | (Inr x, w') \<Rightarrow> Q w'"
    using assms(2) m by (cases r) (auto simp: yields_def io_bind_def)
qed

lemma run_error_silent: "run h accepts cfg args w = (Inl e, w') \<Longrightarrow> stdout_text w' = stdout_text w"
proof -
  have "yields (said s) (\<lambda>w. True) (said s) (write_stdout t)" for s t
    by (simp add: yields_def write_stdout_def)
  then have "yields (said s) (\<lambda>w. True) (said s) (run h accepts cfg args)" for s
    unfolding run_def io_then_def by (intro yields_bind preserved quiet_said)
  from this [of "stdout_text w", unfolded yields_def, rule_format, of w]
  show "run h accepts cfg args w = (Inl e, w') \<Longrightarrow> stdout_text w' = stdout_text w"
    by (simp add: said_def)
qed

lemma benchmark_ok_result:
  assumes "zod accepts" "benchmark h accepts cfg i kind dataset source expected w = (Inr b, w')"
  shows "benchmark_ok b"
proof -
  have "case benchmark h accepts cfg i kind dataset source expected w of
     (Inl e, w') \<Rightarrow> True
   | (Inr (Benchmark_failed v e), w') \<Rightarrow> v \<noteq> Accepted
   | (Inr (Benchmark_accepted ds m), w') \<Rightarrow>
       list_all all_digits ds \<and> is_median ds m \<and> (if slow (hd ds) then length ds = 1 else length ds = 3)"
    using benchmark_result_cases [OF assms(1)] .
  then show ?thesis unfolding assms(2)
    by (cases b) (auto simp: is_median_def list_all_iff split: if_splits)
qed

lemma json_ok_job: "json_ok (job_json r)"
proof -
  have b: "json_ok (benchmark_json b)" for b
    by (cases b) (simp_all add: list_all_iff json_text_def split: option.splits)
  show ?thesis using b by (simp add: job_json_def split: option.splits)
qed

text \<open>C8: A run that fails prints nothing; a run that returns prints one line of JSON that parses back to
  a job result the shared schema accepts, with a private result exactly when the public one was
  accepted.\<close>

theorem run_prints_result:
  assumes "zod accepts" and "BENCHMARK_ENVIRONMENT_ID cfg \<noteq> []"
  shows "case run h accepts cfg args w of
     (Inl e, w') \<Rightarrow> stdout_text w' = stdout_text w
   | (Inr u, w') \<Rightarrow> \<exists>r line. stdout_text w' = stdout_text w @ line @ [10] \<and> json_parse line = Some (job_json r) \<and>
       accepts runnerJobResultSchema (job_json r) \<and> job_environment r = BENCHMARK_ENVIRONMENT_ID cfg \<and>
       (job_private r \<noteq> None \<longleftrightarrow> (\<exists>ds m. job_public r = Benchmark_accepted ds m))"
proof -
  obtain r w' where run: "run h accepts cfg args w = (r, w')" by fastforce
  show ?thesis
  proof (cases r)
    case (Inl e)
    then show ?thesis using run run_error_silent by auto
  next
    case (Inr u)
    obtain i kind w1 w2 w3 w4 w5 pub priv where
      steps: "validateId (arg_at args 0) w = (Inr i, w1)" "parse_kind h accepts (arg_at args 1) w1 = (Inr kind, w2)"
        "access h (artifactPath cfg i kind) w2 = (Inr (), w3)"
      and pubr: "benchmark h accepts cfg i kind Public_board (RUNNER_PUBLIC_INPUT cfg) (RUNNER_PUBLIC_EXPECTED cfg) w3 = (Inr pub, w4)"
      and privr: "(case pub of
                Benchmark_accepted ds m \<Rightarrow>
                  io_bind (benchmark h accepts cfg i kind Private_board (RUNNER_PRIVATE_INPUT cfg)
                    (RUNNER_PRIVATE_EXPECTED cfg)) (\<lambda>r. io_return (Some r))
              | Benchmark_failed v e \<Rightarrow> io_return None) w4 = (Inr priv, w5)"
      and out: "write_stdout (stringify (job_json \<lparr>job_public = pub, job_private = priv,
         job_environment = BENCHMARK_ENVIRONMENT_ID cfg\<rparr>) @ [10]) w5 = (Inr u, w')"
      using run [unfolded Inr] unfolding run_def io_bind_Inr io_then_Inr by auto
    have kept: "preserves P m \<Longrightarrow> P x \<Longrightarrow> m x = (q, y) \<Longrightarrow> P y" for P and m :: "'z action" and x y q
      by (metis preserves_def snd_conv)
    have s3: "said (stdout_text w) w3"
      using steps kept [OF quiet_steps(6) [OF quiet_said]] kept [OF quiet_steps(5) [OF quiet_said]]
        kept [OF quiet_files(1) [OF quiet_said]]
      by (metis said_def)
    then have s4: "said (stdout_text w) w4" using kept [OF said_benchmark _ pubr] by blast
    have priv: "said (stdout_text w) w5 \<and> pred_option benchmark_ok priv \<and> (priv \<noteq> None \<longleftrightarrow> (\<exists>ds m. pub = Benchmark_accepted ds m))"
    proof (cases pub)
      case (Benchmark_accepted ds m)
      then obtain b where b: "benchmark h accepts cfg i kind Private_board (RUNNER_PRIVATE_INPUT cfg)
          (RUNNER_PRIVATE_EXPECTED cfg) w4 = (Inr b, w5)" "priv = Some b"
        using privr by (auto simp: io_bind_Inr)
      then show ?thesis using kept [OF said_benchmark s4 b(1)] benchmark_ok_result [OF assms(1) b(1)] Benchmark_accepted
        by simp
    next
      case (Benchmark_failed v e)
      then show ?thesis using privr s4 by simp
    qed
    let ?job = "\<lparr>job_public = pub, job_private = priv, job_environment = BENCHMARK_ENVIRONMENT_ID cfg\<rparr>"
    have "accepts runnerJobResultSchema (job_json ?job)"
      using zod.job_typed [OF assms(1)] benchmark_ok_result [OF assms(1) pubr] priv assms(2)
      by (simp add: job_ok_def)
    moreover have "stdout_text w' = stdout_text w @ stringify (job_json ?job) @ [10]"
      using out priv by (auto simp: write_stdout_def said_def)
    ultimately show ?thesis using run Inr priv json_round_trip [OF json_ok_job, of ?job]
      by (auto intro!: exI [of _ ?job] exI [of _ "stringify (job_json ?job)"])
  qed
qed

theorem run_prints_result_witness:
  "case run calm_host documented_accepts demo_config [demo_id, js ''native''] empty_world of
     (Inl e, w') \<Rightarrow> stdout_text w' = stdout_text empty_world
   | (Inr u, w') \<Rightarrow> \<exists>r line. stdout_text w' = stdout_text empty_world @ line @ [10] \<and> json_parse line = Some (job_json r) \<and>
       documented_accepts runnerJobResultSchema (job_json r) \<and> job_environment r = BENCHMARK_ENVIRONMENT_ID demo_config \<and>
       (job_private r \<noteq> None \<longleftrightarrow> (\<exists>ds m. job_public r = Benchmark_accepted ds m))"
  by (rule run_prints_result [OF documented.zod_axioms]) (simp add: demo_config_def)

end
