(* ===== verification/Measure.thy ===== *)
theory Measure
  imports Js_Convert Gateway_Results
begin

text \<open>
  The program that measures one attempt inside the container, \<^verbatim>\<open>apps/runner/image/measure.mjs\<close>.
  It starts the submission, reacts to its output, to a timer and to a watcher of the output file,
  and prints one JSON line.  The reactions are a state machine: \<open>on_event\<close> is one callback,
  \<open>measuring\<close> the inductive relation of the states that can be reached before the child ends.
\<close>

section \<open>Arguments\<close>

record limits =
  timeoutMs :: number
  stdio_limit :: number
  output_file_limit :: number

definition argument_number :: "jsstring list \<Rightarrow> nat \<Rightarrow> number" where
  "argument_number args n = (case arg_at args n of None \<Rightarrow> NaN | Some s \<Rightarrow> string_to_number s)"

text \<open>\<open>None\<close>: the error \<open>invalid benchmark limits\<close>.\<close>

definition read_limits :: "jsstring list \<Rightarrow> limits option" where
  "read_limits args =
     (let timeout = num_mul (argument_number args 4) (Fin 1000);
          stdio = argument_number args 5; out = argument_number args 6 in
      if \<not> is_finite timeout \<or> \<not> num_less (Fin 0) timeout
         \<or> \<not> is_safe_integer stdio \<or> \<not> num_less (Fin 0) stdio
         \<or> \<not> is_safe_integer out \<or> \<not> num_less (Fin 0) out
      then None
      else Some \<lparr>timeoutMs = timeout, stdio_limit = stdio, output_file_limit = out\<rparr>)"

text \<open>The table \<open>commands\<close>; \<open>None\<close> is an absent property.  The names every object inherits
  (\<open>constructor\<close>, \<open>toString\<close>, ...) are not kinds the gateway passes and are not distinguished here.\<close>

definition command_for :: "jsstring \<Rightarrow> jsstring \<Rightarrow> jsstring \<Rightarrow> jsstring \<Rightarrow> (jsstring \<times> jsstring list) option" where
  "command_for kind art in_path out_path =
     map_of
       [(js ''native'', (art, [in_path, out_path])),
        (js ''javascript'', (js ''/opt/node/bin/node'', [art, in_path, out_path])),
        (js ''typescript'', (js ''/opt/node/bin/node'', [art, in_path, out_path])),
        (js ''bun'', (js ''/opt/bun/bin/bun'', [art, in_path, out_path])),
        (js ''ruby'', (js ''/opt/ruby/bin/ruby'', [art, in_path, out_path]))] kind"

section \<open>The callbacks\<close>

record measure_state =
  captured :: nat
  outputExceeded :: bool
  timedOut :: bool
  stderr_tail :: jsstring
  spawnError :: "jsstring option"
  checkingOutput :: bool
  kills :: nat
  ended :: "int option option"

definition initial_state :: measure_state where
  "initial_state = \<lparr>captured = 0, outputExceeded = False, timedOut = False, stderr_tail = [], spawnError = None,
     checkingOutput = False, kills = 0, ended = None\<rparr>"

datatype event =
    Stdout_data nat
  | Stderr_data nat jsstring
  | Timer
  | Watch
  | Watched "nat option"
  | Child_error jsstring
  | Child_close "int option"

definition exceeds :: "nat \<Rightarrow> number \<Rightarrow> bool" where
  "exceeds n limit = num_less limit (Fin (of_nat n))"

definition kill :: "measure_state \<Rightarrow> measure_state" where
  "kill s = s\<lparr>kills := kills s + 1\<rparr>"

definition capture :: "limits \<Rightarrow> nat \<Rightarrow> measure_state \<Rightarrow> measure_state" where
  "capture l n s =
     (if exceeds (captured s) (stdio_limit l) then kill (s\<lparr>outputExceeded := True\<rparr>) else s)"

definition last_units :: "nat \<Rightarrow> jsstring \<Rightarrow> jsstring" where
  "last_units n s = drop (length s - n) s"

text \<open>One callback.  \<open>Stdout_data\<close> and \<open>Stderr_data\<close> carry the length of the chunk in bytes;
  \<open>Watched\<close> is the result of the \<open>stat\<close> the watcher started, \<open>None\<close> when it threw.\<close>

fun on_event :: "limits \<Rightarrow> event \<Rightarrow> measure_state \<Rightarrow> measure_state" where
  "on_event l (Stdout_data n) s = (let s' = s\<lparr>captured := captured s + n\<rparr> in capture l n s')"
| "on_event l (Stderr_data n t) s =
     (let s' = s\<lparr>captured := captured s + n, stderr_tail := last_units 8192 (stderr_tail s @ t)\<rparr> in capture l n s')"
| "on_event l Timer s = kill (s\<lparr>timedOut := True\<rparr>)"
| "on_event l Watch s =
     (if checkingOutput s \<or> outputExceeded s then s else s\<lparr>checkingOutput := True\<rparr>)"
| "on_event l (Watched bytes) s =
     (let s' = (case bytes of
                  None \<Rightarrow> s
                | Some n \<Rightarrow> if exceeds n (output_file_limit l) then kill (s\<lparr>outputExceeded := True\<rparr>) else s)
      in s'\<lparr>checkingOutput := False\<rparr>)"
| "on_event l (Child_error message) s =
     s\<lparr>spawnError := Some message, ended := (if ended s = None then Some None else ended s)\<rparr>"
| "on_event l (Child_close code) s =
     s\<lparr>ended := (if ended s = None then Some code else ended s)\<rparr>"

section \<open>The verdict\<close>

definition time_limit_message :: jsstring where
  "time_limit_message = [0x5236, 0x9650, 0x6642, 0x9593, 0x3092, 0x8d85, 0x3048, 0x307e, 0x3057, 0x305f]"

definition invalid_kind_message :: jsstring where
  "invalid_kind_message = [0x5b9f, 0x884c, 0x5f62, 0x5f0f, 0x304c, 0x4e0d, 0x6b63, 0x3067, 0x3059]"

definition no_output_message :: jsstring where
  "no_output_message = [0x51fa, 0x529b, 0x30d5, 0x30a1, 0x30a4, 0x30eb, 0x304c, 0x4f5c, 0x6210, 0x3055, 0x308c, 0x307e,
     0x305b, 0x3093, 0x3067, 0x3057, 0x305f]"

definition measured_verdict :: "limits \<Rightarrow> measure_state \<Rightarrow> int option \<Rightarrow> nat option \<Rightarrow> verdict \<times> jsstring option" where
  "measured_verdict l s status bytes =
     (if timedOut s then (Time_limit, None)
      else if outputExceeded s then (Output_limit, None)
      else if status \<noteq> Some 0 then (Runtime_error, None)
      else (case bytes of
              None \<Rightarrow> (Runtime_error, Some no_output_message)
            | Some n \<Rightarrow> if exceeds n (output_file_limit l) then (Output_limit, None) else (Accepted, None)))"

definition exit_text :: "int option \<Rightarrow> jsstring" where
  "exit_text code = js ''process exited '' @ (case code of None \<Rightarrow> js ''null'' | Some n \<Rightarrow> int_to_string n)"

text \<open>JavaScript's \<open>a || b || c\<close> on strings: the first one that is not empty.\<close>

definition runtime_message :: "measure_state \<Rightarrow> int option \<Rightarrow> jsstring" where
  "runtime_message s status =
     (if trim (stderr_tail s) \<noteq> [] then trim (stderr_tail s)
      else case spawnError s of
        Some m \<Rightarrow> if m \<noteq> [] then m else exit_text status
      | None \<Rightarrow> exit_text status)"

definition measured_error :: "measure_state \<Rightarrow> int option \<Rightarrow> verdict \<times> jsstring option \<Rightarrow> jsstring option" where
  "measured_error s status v =
     (let e = (if fst v = Runtime_error \<and> snd v = None then Some (runtime_message s status) else snd v) in
      if fst v = Time_limit then Some time_limit_message
      else if fst v = Output_limit then Some output_limit_message
      else e)"

definition measured_json :: "verdict \<Rightarrow> int \<Rightarrow> jsstring option \<Rightarrow> json" where
  "measured_json v elapsed e =
     JObj [(js ''verdict'', JStr (verdict_name v)),
       (js ''durationNs'', if v = Accepted then JStr (int_to_string elapsed) else JNull),
       (js ''error'', json_text e)]"

text \<open>What the program prints when the child has ended: \<open>elapsed\<close> is the difference of two readings
  of a monotonic clock, \<open>bytes\<close> the final \<open>stat\<close> of the output file.\<close>

definition report :: "limits \<Rightarrow> measure_state \<Rightarrow> int \<Rightarrow> nat option \<Rightarrow> jsstring option" where
  "report l s elapsed bytes =
     (case ended s of
        None \<Rightarrow> None
      | Some status \<Rightarrow>
          let v = measured_verdict l s status bytes in
          Some (stringify (measured_json (fst v) elapsed (measured_error s status v))))"

definition invalid_kind_report :: jsstring where
  "invalid_kind_report = stringify (measured_json Invalid_submission 0 (Some invalid_kind_message))"

text \<open>The whole program: the error of the limits, the report of an unknown kind, or the report after
  the events up to the end of the child.  \<open>None\<close>: no report (the limits are invalid, or the child
  has not ended).\<close>

fun run_events :: "limits \<Rightarrow> measure_state \<Rightarrow> event list \<Rightarrow> measure_state" where
  "run_events l s [] = s"
| "run_events l s (e # es) = (if ended s = None then run_events l (on_event l e s) es else s)"

definition measure :: "jsstring list \<Rightarrow> event list \<Rightarrow> int \<Rightarrow> nat option \<Rightarrow> jsstring option" where
  "measure args events elapsed bytes =
     (case read_limits args of
        None \<Rightarrow> None
      | Some l \<Rightarrow>
          (case (arg_at args 0, arg_at args 1, arg_at args 2, arg_at args 3) of
             (Some kind, Some art, Some in_path, Some out_path) \<Rightarrow>
               (case command_for kind art in_path out_path of
                  None \<Rightarrow> Some invalid_kind_report
                | Some c \<Rightarrow> report l (run_events l initial_state events) elapsed bytes)
           | _ \<Rightarrow> Some invalid_kind_report))"

section \<open>The state machine\<close>

text \<open>Every state before and at the end of the child.  The timer fires once; a \<open>stat\<close> completes only
  when one is running; after the end nothing counts any more.\<close>

inductive measuring :: "limits \<Rightarrow> measure_state \<Rightarrow> bool" for l where
  start: "measuring l initial_state"
| stdout_step: "measuring l s \<Longrightarrow> ended s = None \<Longrightarrow> measuring l (on_event l (Stdout_data n) s)"
| stderr_step: "measuring l s \<Longrightarrow> ended s = None \<Longrightarrow> measuring l (on_event l (Stderr_data n t) s)"
| timer_step: "measuring l s \<Longrightarrow> ended s = None \<Longrightarrow> \<not> timedOut s \<Longrightarrow> measuring l (on_event l Timer s)"
| watch_step: "measuring l s \<Longrightarrow> ended s = None \<Longrightarrow> measuring l (on_event l Watch s)"
| watched_step: "measuring l s \<Longrightarrow> ended s = None \<Longrightarrow> checkingOutput s \<Longrightarrow> measuring l (on_event l (Watched bytes) s)"
| error_step: "measuring l s \<Longrightarrow> ended s = None \<Longrightarrow> measuring l (on_event l (Child_error m) s)"
| close_step: "measuring l s \<Longrightarrow> ended s = None \<Longrightarrow> measuring l (on_event l (Child_close code) s)"

inductive_cases measuring_ended: "measuring l s"

lemma length_last_units: "length (last_units n s) \<le> n"
  by (simp add: last_units_def)

text \<open>C18: In every reachable state of the measurement the captured output is over its limit only when
  that was noticed, every noticed excess and the timeout has sent a kill, and at most 8192 units
  of the error output are kept.\<close>

theorem measuring_invariant:
  assumes "measuring l s"
  shows "(exceeds (captured s) (stdio_limit l) \<longrightarrow> outputExceeded s \<or> captured s = 0)
    \<and> (outputExceeded s \<or> timedOut s \<longrightarrow> 0 < kills s) \<and> length (stderr_tail s) \<le> 8192"
  using assms
  by (induction rule: measuring.induct)
    (auto simp: initial_state_def capture_def kill_def Let_def length_last_units split: option.splits)

definition demo_limits :: limits where
  "demo_limits = \<lparr>timeoutMs = Fin 1000, stdio_limit = Fin 10, output_file_limit = Fin 100\<rparr>"

theorem measuring_invariant_witness:
  "let s = on_event demo_limits (Stdout_data 11) initial_state in
    (exceeds (captured s) (stdio_limit demo_limits) \<longrightarrow> outputExceeded s \<or> captured s = 0)
    \<and> (outputExceeded s \<or> timedOut s \<longrightarrow> 0 < kills s) \<and> length (stderr_tail s) \<le> 8192"
  unfolding Let_def
  by (rule measuring_invariant [OF stdout_step [OF start]]) (simp add: initial_state_def)

section \<open>The report and the gateway\<close>

lemma json_ok_measured: "json_ok (measured_json v n e)"
  by (simp add: measured_json_def json_text_def split: option.splits)

lemma trim_stringify_measured: "trim (stringify (measured_json v n e)) = stringify (measured_json v n e)"
proof -
  obtain ms where "measured_json v n e = JObj ms" by (simp add: measured_json_def)
  then show ?thesis by (intro trim_ident) (simp_all add: is_space_def)
qed

fun measured_attempt :: "verdict \<Rightarrow> int \<Rightarrow> jsstring option \<Rightarrow> attempt_result" where
  "measured_attempt Accepted n e = Attempt_accepted (int_to_string n)"
| "measured_attempt v n e = Attempt_failed v e"

lemma measured_json_attempt:
  "(v = Accepted \<Longrightarrow> e = None) \<Longrightarrow> measured_json v n e = attempt_json (measured_attempt v n e)"
  by (cases v) (simp_all add: measured_json_def json_text_def)

lemma all_digits_elapsed: "0 \<le> n \<Longrightarrow> all_digits (int_to_string n)"
  by (simp add: int_to_string_def)

lemma measured_attempt_ok: "0 \<le> n \<Longrightarrow> attempt_ok (measured_attempt v n e)"
  by (cases v) (simp_all add: all_digits_elapsed)

lemma accepted_no_error:
  "fst (measured_verdict l s status bytes) = Accepted \<Longrightarrow> measured_error s status (measured_verdict l s status bytes) = None"
  by (auto simp: measured_verdict_def measured_error_def Let_def split: if_splits option.splits)

lemma same_members_attempt: "same_members (attempt_json a) (attempt_json a)"
  by (cases a) (simp_all add: same_members_def is_object_def)

lemma parse_attempt_measured:
  assumes "zod accepts" "0 \<le> n" "v = Accepted \<Longrightarrow> e = None"
  shows "parse_attempt h accepts (stringify (measured_json v n e)) w = (Inr (measured_attempt v n e), w)"
proof -
  let ?a = "measured_attempt v n e"
  have j: "measured_json v n e = attempt_json ?a" using assms(3) by (rule measured_json_attempt)
  have ok: "attempt_ok ?a" using assms(2) by (rule measured_attempt_ok)
  have "accepts benchmarkAttemptResultSchema (attempt_json ?a)"
    using zod.attempt_accepts [OF assms(1)] ok same_members_attempt by blast
  moreover have "attempt_of_json (attempt_json ?a) = Some ?a"
    using ok same_members_attempt by (rule attempt_of_same_members)
  moreover have "json_parse (trim (stringify (measured_json v n e))) = Some (attempt_json ?a)"
    unfolding trim_stringify_measured json_round_trip [OF json_ok_measured] using j by (rule arg_cong)
  ultimately show ?thesis
    by (simp add: parse_attempt_def)
qed

text \<open>What an accepted measurement means: the child exited with code 0 in time, its captured output
  was within the limit when last counted, and the output file exists within its limit.\<close>

definition clean_end :: "limits \<Rightarrow> measure_state \<Rightarrow> nat option \<Rightarrow> bool" where
  "clean_end l s bytes \<longleftrightarrow> ended s = Some (Some 0) \<and> \<not> timedOut s \<and> \<not> outputExceeded s
     \<and> (\<exists>n. bytes = Some n \<and> \<not> exceeds n (output_file_limit l))"

lemma accepted_clean_end:
  "ended s = Some status \<Longrightarrow> fst (measured_verdict l s status bytes) = Accepted \<longleftrightarrow> clean_end l s bytes"
  by (auto simp: measured_verdict_def clean_end_def split: option.splits)

text \<open>C11: Whatever the measurement prints, the gateway reads it back as a consistent attempt; the
  attempt is accepted exactly when the arguments were valid, the kind known and the child ended
  cleanly, and its duration is then the measured one.\<close>

theorem gateway_reads_measurement:
  assumes "zod accepts" and "0 \<le> elapsed" and "measure args events elapsed bytes = Some line"
  shows "\<exists>a. parse_attempt h accepts line w = (Inr a, w) \<and> attempt_ok a \<and>
    (\<forall>d. a = Attempt_accepted d \<longleftrightarrow> d = int_to_string elapsed \<and> line \<noteq> invalid_kind_report \<and>
       (\<exists>l. read_limits args = Some l \<and> clean_end l (run_events l initial_state events) bytes))"
proof -
  obtain l where l: "read_limits args = Some l"
    using assms(3) by (auto simp: measure_def split: option.splits)
  consider (invalid) "line = invalid_kind_report"
    | (child) status where "ended (run_events l initial_state events) = Some status"
        "line = stringify (measured_json (fst (measured_verdict l (run_events l initial_state events) status bytes)) elapsed
           (measured_error (run_events l initial_state events) status
             (measured_verdict l (run_events l initial_state events) status bytes)))"
    using assms(3) l by (auto simp: measure_def report_def Let_def split: option.splits)
  then show ?thesis
  proof cases
    case invalid
    have "parse_attempt h accepts invalid_kind_report w = (Inr (measured_attempt Invalid_submission 0 (Some invalid_kind_message)), w)"
      unfolding invalid_kind_report_def by (rule parse_attempt_measured [OF assms(1)]) simp_all
    then show ?thesis using invalid by auto
  next
    case child
    let ?s = "run_events l initial_state events"
    let ?v = "measured_verdict l ?s status bytes"
    let ?e = "measured_error ?s status ?v"
    have parse: "parse_attempt h accepts line w = (Inr (measured_attempt (fst ?v) elapsed ?e), w)"
      unfolding child(2) using accepted_no_error by (intro parse_attempt_measured [OF assms(1,2)])
    have differ: "line \<noteq> invalid_kind_report" if "fst ?v = Accepted"
    proof
      assume "line = invalid_kind_report"
      then have "Some (measured_json (fst ?v) elapsed ?e) = Some (measured_json Invalid_submission 0 (Some invalid_kind_message))"
        unfolding child(2) invalid_kind_report_def
        by (metis json_round_trip json_ok_measured)
      then show False using that by (simp add: measured_json_def)
    qed
    have "measured_attempt (fst ?v) elapsed ?e = Attempt_accepted d \<longleftrightarrow>
        fst ?v = Accepted \<and> d = int_to_string elapsed" for d
      by (cases "fst ?v") auto
    then show ?thesis
      using parse measured_attempt_ok [OF assms(2), of "fst ?v" ?e] accepted_clean_end [OF child(1), of l bytes] differ l
      by auto
  qed
qed

definition demo_arguments :: "jsstring list" where
  "demo_arguments = [js ''ruby'', js ''/submission/artifact.rb'', js ''/input/data.csv'', js ''/work/output.txt'',
     nat_to_string 900, nat_to_string 1048576, nat_to_string 268435456]"

definition policy_limits :: limits where
  "policy_limits = \<lparr>timeoutMs = Fin 900000, stdio_limit = Fin 1048576, output_file_limit = Fin 268435456\<rparr>"

lemma string_to_number_policy:
  "string_to_number (nat_to_string 900) = Fin 900" "string_to_number (nat_to_string 1048576) = Fin 1048576"
  "string_to_number (nat_to_string 268435456) = Fin 268435456"
  using string_to_number_nat [of 900] string_to_number_nat [of 1048576] string_to_number_nat [of 268435456] by simp_all

lemma f64_900000: "f64 900000 = Fin 900000"
  using f64_int [of 900000] by simp

lemma read_policy_limits:
  assumes "arg_at args 4 = Some (nat_to_string 900)" "arg_at args 5 = Some (nat_to_string 1048576)"
    and "arg_at args 6 = Some (nat_to_string 268435456)"
  shows "read_limits args = Some policy_limits"
  using assms
  by (simp add: read_limits_def argument_number_def string_to_number_policy f64_900000 is_finite_def is_safe_integer_def
      policy_limits_def Let_def)

text \<open>C17: The container the gateway creates runs the measurement with limits it accepts, the published
  ones, and with a kind it knows: neither the limits nor the kind can make it fail.\<close>

theorem container_runs_measurement:
  "let args = drop 23 (buildContainerCreateArgs (attempt_options cfg i kind dataset n cached name)) in
    take 2 (drop 21 (buildContainerCreateArgs (attempt_options cfg i kind dataset n cached name))) =
      [js ''/opt/bun/bin/bun'', js ''/opt/1brc/measure.mjs''] \<and>
    read_limits args = Some policy_limits \<and>
    (\<exists>exe. command_for (args ! 0) (args ! 1) (args ! 2) (args ! 3) = Some (exe, if kind = Native
        then [js ''/input/data.csv'', js ''/work/output.txt'']
        else [js ''/submission/artifact'' @ artifactExtension kind, js ''/input/data.csv'', js ''/work/output.txt'']))"
proof -
  let ?args = "drop 23 (buildContainerCreateArgs (attempt_options cfg i kind dataset n cached name))"
  have args: "?args = [execution_kind_name kind, js ''/submission/artifact'' @ artifactExtension kind, js ''/input/data.csv'',
      js ''/work/output.txt'', nat_to_string 900, nat_to_string 1048576, nat_to_string 268435456]"
    by (simp add: buildContainerCreateArgs_def attempt_options_def benchmarkPolicy_def)
  have "read_limits ?args = Some policy_limits"
    unfolding args by (rule read_policy_limits) (simp_all add: arg_at_def)
  moreover have "\<exists>exe. command_for (execution_kind_name kind) a b c = Some (exe, if kind = Native then [b, c] else [a, b, c])" for a b c
  proof (cases kind)
    case (Script k)
    then show ?thesis by (cases k) (simp_all add: command_for_def)
  qed (simp add: command_for_def)
  moreover have "take 2 (drop 21 (buildContainerCreateArgs (attempt_options cfg i kind dataset n cached name))) =
      [js ''/opt/bun/bin/bun'', js ''/opt/1brc/measure.mjs'']"
    by (simp add: buildContainerCreateArgs_def)
  ultimately show ?thesis unfolding Let_def args by simp
qed

lemma demo_measure:
  "measure demo_arguments [Child_close (Some 0)] 42 (Some 5) = Some (stringify (measured_json Accepted 42 None))"
proof -
  have "read_limits demo_arguments = Some policy_limits"
    by (rule read_policy_limits) (simp_all add: arg_at_def demo_arguments_def)
  then show ?thesis
    by (simp add: measure_def demo_arguments_def arg_at_def command_for_def report_def initial_state_def
        measured_verdict_def measured_error_def exceeds_def policy_limits_def Let_def)
qed

theorem gateway_reads_measurement_witness:
  "\<exists>a. parse_attempt calm_host documented_accepts (stringify (measured_json Accepted 42 None)) empty_world = (Inr a, empty_world) \<and>
    attempt_ok a \<and>
    (\<forall>d. a = Attempt_accepted d \<longleftrightarrow> d = int_to_string 42 \<and> stringify (measured_json Accepted 42 None) \<noteq> invalid_kind_report \<and>
       (\<exists>l. read_limits demo_arguments = Some l \<and>
         clean_end l (run_events l initial_state [Child_close (Some 0)]) (Some 5)))"
  by (rule gateway_reads_measurement [OF documented.zod_axioms _ demo_measure]) simp

end
