(* ===== verification/Gateway_Files.thy ===== *)
theory Gateway_Files
  imports Gateway_Paths
begin

text \<open>
  The gateway's effect on files: an upload that returns has stored exactly the received bytes, with
  the announced digest and within the size limit; the cached input of a run is a copy of the source
  and a part of a failed copy does not stay behind; a cancellation ends, and only after the lock was free.
\<close>

lemma fs_action_Inr:
  "fs_action h f w = (Inr x, w') \<longleftrightarrow> host_fault h (counter w) = None \<and>
    (\<exists>fs. f (files w) = Inr (x, fs) \<and> w' = w\<lparr>counter := counter w + 1, files := fs\<rparr>)"
  by (auto simp: fs_action_def Let_def split: option.splits sum.splits)

lemma with_node_Inr: "with_node fs p f = Inr y \<longleftrightarrow> (\<exists>n. fs p = Some n \<and> f n = Inr y)"
  by (auto simp: with_node_def split: option.splits)

lemma put_file_Inr:
  "put_file fs p content t m = Inr (u, fs') \<longleftrightarrow>
    fs (parent p) = Some Directory \<and> fs p \<noteq> Some Directory \<and> fs' = fs(p \<mapsto> File content t m)"
  by (auto simp: put_file_def)

lemma store_file_Inr:
  "store_file h p content mode w = (Inr u, w') \<longleftrightarrow> host_fault h (counter w) = None \<and>
    (\<exists>fs. put_file (files w) p content (now_number h w) mode = Inr (u, fs) \<and>
      w' = w\<lparr>counter := counter w + 1, files := fs\<rparr>)"
  by (auto simp: store_file_def Let_def split: option.splits sum.splits)

section \<open>Upload\<close>

lemma receive_chunks_Inr:
  "receive_chunks limit seen chunks = Inr content \<Longrightarrow> length seen \<le> limit \<Longrightarrow>
    content = seen @ concat chunks \<and> length content \<le> limit"
  by (induction chunks arbitrary: seen) (fastforce split: if_splits)+

lemma receive_upload_Inr:
  assumes "receive_upload h chunks limit p mode w = (Inr content, w')"
  shows "content = concat chunks \<and> length content \<le> limit \<and> (\<exists>t. files w' p = Some (File content t mode))"
  using assms receive_chunks_Inr [of limit "[]" chunks content]
  by (auto simp: receive_upload_def store_file_Inr put_file_Inr split: prod.splits sum.splits)

lemma rename_Inr:
  assumes "rename_file h src dst w = (Inr u, w')" "files w src = Some (File content t m)" "src \<noteq> dst"
  shows "files w' dst = Some (File content t m)"
  using assms
  by (auto simp: rename_file_def fs_action_Inr with_node_Inr put_file_def map_prod_def split: if_splits)

lemma rm_force_Inr:
  "rm_force h p w = (Inr u, w') \<longleftrightarrow>
    host_fault h (counter w) = None \<and> files w p \<noteq> Some Directory \<and>
    w' = w\<lparr>counter := counter w + 1, files := (files w)(p := None)\<rparr>"
  by (auto simp: rm_force_def fs_action_Inr)

lemma chmod_Inr:
  assumes "chmod h p m w = (Inr u, w')" "files w p = Some (File content t m')"
  shows "files w' p = Some (File content t m)"
  using assms by (auto simp: chmod_def fs_action_Inr with_node_Inr)

lemma temporary_not_final: "valid_id i \<Longrightarrow> path_join [jobDirectory cfg i, js ''artifact.uploading''] \<noteq> artifactPath cfg i kind"
  unfolding in_job [OF _ plain_names(2)] artifactPath_valid
  by (cases kind rule: artifactExtension.cases) (simp_all add: js_eval)

lemma parse_kind_Inr:
  "zod accepts \<Longrightarrow> parse_kind h accepts arg w = (Inr kind, w') \<Longrightarrow> arg = Some (execution_kind_name kind)"
  by (auto simp: parse_kind_def library_error_def named_def find_Some_iff split: option.splits if_splits)

text \<open>C13: An upload that returns was given a valid id, a known kind and a digest, received bytes within
  the limit of that kind whose digest is the announced one, and the artifact of the job is then
  a file with exactly these bytes and the mode of its kind.\<close>

theorem upload_stores_artifact:
  assumes "zod accepts"
  shows "case upload h accepts cfg stdin args w of
     (Inl e, w') \<Rightarrow> True
   | (Inr u, w') \<Rightarrow> \<exists>i kind rest t. args = i # execution_kind_name kind # host_sha256 h (concat stdin) # rest \<and>
       valid_id i \<and> length (concat stdin) \<le> upload_limit kind \<and>
       files w' (artifactPath cfg i kind) = Some (File (concat stdin) t (artifact_mode kind))"
proof -
  obtain r w' where up: "upload h accepts cfg stdin args w = (r, w')" by fastforce
  show ?thesis
  proof (cases r)
    case (Inl e)
    then show ?thesis using up by simp
  next
    case (Inr u)
    obtain i kind d w0 w1 w2 w3 w4 w5 w6 content where
      id: "validateId (arg_at args 0) w = (Inr i, w0)"
      and kind: "parse_kind h accepts (arg_at args 1) w0 = (Inr kind, w1)"
      and digest: "arg_at args 2 = Some d" "host_sha256 h content = d"
      and receive: "receive_upload h stdin (upload_limit kind) (path_join [jobDirectory cfg i, js ''artifact.uploading''])
          (artifact_mode kind) w2 = (Inr content, w3)"
      and rm: "rm_force h (artifactPath cfg i kind) w3 = (Inr (), w4)"
      and ren: "rename_file h (path_join [jobDirectory cfg i, js ''artifact.uploading'']) (artifactPath cfg i kind) w4 = (Inr (), w5)"
      and ch: "chmod h (artifactPath cfg i kind) (artifact_mode kind) w5 = (Inr (), w6)"
      and w': "files w' = files w6"
      using up [unfolded Inr]
      by (auto simp: upload_def io_bind_Inr io_then_Inr Let_def write_stdout_def split: option.splits if_splits)
    have i: "arg_at args 0 = Some i" "valid_id i"
      using id by (auto simp: validateId_def split: option.splits if_splits)
    have args: "\<exists>rest. args = i # execution_kind_name kind # d # rest"
      using i(1) parse_kind_Inr [OF assms kind] digest(1)
      by (cases args; cases "tl args"; cases "tl (tl args)") (auto simp: arg_at_def split: if_splits)
    note ne = temporary_not_final [OF i(2), of cfg kind]
    from receive_upload_Inr [OF receive] obtain t where c: "content = concat stdin" "length content \<le> upload_limit kind"
        "files w3 (path_join [jobDirectory cfg i, js ''artifact.uploading'']) = Some (File content t (artifact_mode kind))" by blast
    then have "files w4 (path_join [jobDirectory cfg i, js ''artifact.uploading'']) = Some (File content t (artifact_mode kind))"
      using rm ne by (auto simp: rm_force_Inr)
    from chmod_Inr [OF ch rename_Inr [OF ren this ne]] show ?thesis
      using up Inr w' args i(2) c digest(2) by auto
  qed
qed

theorem upload_stores_artifact_witness:
  "case upload calm_host documented_accepts demo_config [[1, 2], [3]] [demo_id, js ''native'', replicate 64 48] empty_world of
     (Inl e, w') \<Rightarrow> True
   | (Inr u, w') \<Rightarrow> \<exists>i kind rest t. [demo_id, js ''native'', replicate 64 48] =
         i # execution_kind_name kind # host_sha256 calm_host (concat [[1, 2], [3]]) # rest \<and>
       valid_id i \<and> length (concat [[1, 2], [3 :: byte]]) \<le> upload_limit kind \<and>
       files w' (artifactPath demo_config i kind) = Some (File (concat [[1, 2], [3]]) t (artifact_mode kind))"
  by (rule upload_stores_artifact [OF documented.zod_axioms])

section \<open>The cached input\<close>

lemma io_catch_Inr:
  "io_catch m f w = (Inr x, w'') \<longleftrightarrow> m w = (Inr x, w'') \<or> (\<exists>e w'. m w = (Inl e, w') \<and> f e w' = (Inr x, w''))"
  by (auto simp: io_catch_def split: prod.splits sum.splits)

lemma io_bind_Inl:
  "io_bind m f w = (Inl e, w'') \<longleftrightarrow>
    m w = (Inl e, w'') \<or> (\<exists>x w'. m w = (Inr x, w') \<and> f x w' = (Inl e, w''))"
  by (auto simp: io_bind_def split: prod.splits sum.splits)

lemma io_catch_Inl:
  "io_catch m f w = (Inl e, w'') \<longleftrightarrow> (\<exists>e' w'. m w = (Inl e', w') \<and> f e' w' = (Inl e, w''))"
  by (auto simp: io_catch_def split: prod.splits sum.splits)

lemma stat_files: "stat h p w = (r, w') \<Longrightarrow> files w' = files w"
  by (auto simp: stat_def fs_action_def Let_def with_node_def split: option.splits sum.splits)

lemma fs_action_Inl_files: "fs_action h f w = (Inl e, w') \<Longrightarrow> files w' = files w"
  by (auto simp: fs_action_def Let_def split: option.splits sum.splits)

definition cached_stat :: "host \<Rightarrow> jsstring \<Rightarrow> file_stat option action" where
  "cached_stat h p = io_catch (io_bind (stat h p) (\<lambda>c. io_return (Some c))) (\<lambda>e. io_return None)"

definition copy_input :: "host \<Rightarrow> jsstring \<Rightarrow> jsstring \<Rightarrow> number \<Rightarrow> jsstring action" where
  "copy_input h source cached t =
     io_then (copyFile h source cached) (io_then (utimes h cached t) (io_then (chmod h cached 292) (io_return cached)))"

lemma cacheInput_steps:
  "cacheInput h cfg dataset source =
     io_bind (stat h source) (\<lambda>s. io_bind (cached_stat h (cache_path cfg dataset)) (\<lambda>c.
       if cache_hit c s then io_return (cache_path cfg dataset)
       else io_then (rm_force h (cache_path cfg dataset))
         (io_catch (copy_input h source (cache_path cfg dataset) (host_date_of h (stat_mtimeMs s)))
           (\<lambda>e. io_then (rm_force h (cache_path cfg dataset)) (io_throw e)))))"
  unfolding cacheInput_def Let_def cached_stat_def copy_input_def by (rule refl)

lemma cached_stat_files:
  assumes "cached_stat h p w = (r, w')"
  shows "files w' = files w \<and> (\<exists>c. r = Inr c \<and> (\<forall>s. c = Some s \<longrightarrow> (\<exists>n. files w p = Some n \<and> s = node_stat h n)))"
proof -
  obtain q w1 where s: "stat h p w = (q, w1)" by fastforce
  show ?thesis
  proof (cases q)
    case (Inl e)
    then show ?thesis using assms s stat_files [OF s] by (auto simp: cached_stat_def io_catch_def io_bind_def io_return_def)
  next
    case (Inr c)
    moreover from s Inr have "\<exists>n. files w p = Some n \<and> c = node_stat h n"
      by (auto simp: stat_def fs_action_Inr with_node_Inr)
    ultimately show ?thesis using assms s stat_files [OF s] by (auto simp: cached_stat_def io_catch_def io_bind_def io_return_def)
  qed
qed

lemma copyFile_Inr:
  assumes "copyFile h a b w = (Inr u, w')"
  shows "\<exists>content t m t'. files w a = Some (File content t m) \<and> files w' b = Some (File content t' m)"
proof (cases "files w a")
  case None
  then show ?thesis using assms by (auto simp: copyFile_def fs_action_Inr with_node_Inr)
next
  case (Some n)
  then show ?thesis
    using assms by (cases n) (auto simp: copyFile_def fs_action_Inr with_node_Inr store_file_Inr put_file_Inr)
qed

lemma utimes_Inr:
  "utimes h p t w = (Inr u, w') \<Longrightarrow> files w p = Some (File content t0 m) \<Longrightarrow> files w' p = Some (File content t m)"
  by (auto simp: utimes_def fs_action_Inr with_node_Inr)

lemma copy_input_Inr:
  assumes "copy_input h source cached t w = (Inr p, w')"
  shows "p = cached \<and> (\<exists>content t0 m. files w source = Some (File content t0 m) \<and> files w' cached = Some (File content t 292))"
proof -
  obtain w1 w2 where c: "copyFile h source cached w = (Inr (), w1)" and u: "utimes h cached t w1 = (Inr (), w2)"
    and m: "chmod h cached 292 w2 = (Inr (), w')" and p: "p = cached"
    using assms unfolding copy_input_def io_then_Inr by auto
  obtain content t0 m0 t' where f: "files w source = Some (File content t0 m0)" "files w1 cached = Some (File content t' m0)"
    using copyFile_Inr [OF c] by blast
  from chmod_Inr [OF m utimes_Inr [OF u f(2)]] f(1) p show ?thesis by blast
qed

lemma no_directory [preserved]:
  "preserves (\<lambda>w. files w p \<noteq> Some Directory) (copyFile h a b)"
  "preserves (\<lambda>w. files w p \<noteq> Some Directory) (utimes h b t)"
  "preserves (\<lambda>w. files w p \<noteq> Some Directory) (chmod h b m)"
proof -
  have put: "put_file fs q content t m = Inr (u, fs') \<Longrightarrow> fs p \<noteq> Some Directory \<Longrightarrow> fs' p \<noteq> Some Directory"
    for fs q content t m u fs' by (auto simp: put_file_Inr)
  show "preserves (\<lambda>w. files w p \<noteq> Some Directory) (copyFile h a b)"
    by (auto simp: preserves_def copyFile_def store_file_def left_part_def fs_action_def Let_def with_node_def
        split: option.splits sum.splits node.splits nat.splits dest: put)
qed (auto simp: preserves_def utimes_def chmod_def fs_action_def Let_def with_node_def
      split: option.splits sum.splits node.splits)

lemma copy_input_no_directory:
  "copy_input h source cached t w = (r, w') \<Longrightarrow> files w p \<noteq> Some Directory \<Longrightarrow> files w' p \<noteq> Some Directory"
proof -
  have "preserves (\<lambda>w. files w p \<noteq> Some Directory) (copy_input h source cached t)"
    unfolding copy_input_def by (intro preserved)
  from this [unfolded preserves_def, rule_format, of w]
  show "copy_input h source cached t w = (r, w') \<Longrightarrow> files w p \<noteq> Some Directory \<Longrightarrow> files w' p \<noteq> Some Directory"
    by simp
qed

lemma io_then_Inl:
  "io_then m n w = (Inl e, w'') \<longleftrightarrow> m w = (Inl e, w'') \<or> (\<exists>x w'. m w = (Inr x, w') \<and> n w' = (Inl e, w''))"
  by (simp add: io_then_def io_bind_Inl)

text \<open>Why a step of the copy failed: a fault of the host at the last operation, or nothing is there.\<close>

definition faulted :: "host \<Rightarrow> world \<Rightarrow> bool" where
  "faulted h w' \<longleftrightarrow> (\<exists>n. counter w' = Suc n \<and> host_fault h n \<noteq> None)"

lemma fs_action_Inl:
  "fs_action h f w = (Inl e, w') \<longleftrightarrow> w' = w\<lparr>counter := counter w + 1\<rparr> \<and>
    (host_fault h (counter w) = Some e \<or> host_fault h (counter w) = None \<and> f (files w) = Inl e)"
  by (auto simp: fs_action_def Let_def split: option.splits sum.splits)

lemma step_Inl:
  "copyFile h a p w = (Inl e, w') \<Longrightarrow> faulted h w' \<or> files w' = files w"
  "utimes h p t w = (Inl e, w') \<Longrightarrow> faulted h w' \<or> files w' p = None"
  "chmod h p m w = (Inl e, w') \<Longrightarrow> faulted h w' \<or> files w' p = None"
proof -
  assume "copyFile h a p w = (Inl e, w')"
  then show "faulted h w' \<or> files w' = files w"
    by (cases "files w a"; cases "the (files w a)")
      (auto simp: copyFile_def fs_action_Inl store_file_def Let_def faulted_def split: option.splits sum.splits)
qed (auto simp: utimes_def chmod_def fs_action_Inl with_node_def faulted_def split: option.splits)

lemma copy_input_Inl:
  assumes "copy_input h source p t w = (Inl e, w')" "files w p = None"
  shows "faulted h w' \<or> files w' p = None"
  using assms step_Inl [where p = p] by (fastforce simp: copy_input_def io_then_Inl)

lemma failed_copy_removed:
  assumes "(if cache_hit c s then io_return p
      else io_then (rm_force h p) (io_catch (copy_input h source p d)
        (\<lambda>e. io_then (rm_force h p) (io_throw e)))) w = (Inl e, w')"
  shows "files w' = files w \<or> files w' p = None
    \<or> (\<exists>n. counter w' = n + 2 \<and> host_fault h n \<noteq> None \<and> host_fault h (n + 1) = Some e)"
proof -
  consider (rm) "rm_force h p w = (Inl e, w')"
    | (copy) w3 e' w4 where "rm_force h p w = (Inr (), w3)" "copy_input h source p d w3 = (Inl e', w4)"
        "io_then (rm_force h p) (io_throw e' :: jsstring action) w4 = (Inl e, w')"
    using assms by (cases "cache_hit c s") (auto simp: io_then_Inl [of "rm_force h p" "io_catch _ _"] io_catch_Inl)
  then show ?thesis
  proof cases
    case rm
    then show ?thesis by (auto simp: rm_force_def dest: fs_action_Inl_files)
  next
    case copy
    have dir: "files w4 p \<noteq> Some Directory"
      using copy(1) copy_input_no_directory [OF copy(2), of p] by (simp add: rm_force_Inr)
    have failed: "faulted h w4 \<or> files w4 p = None"
      using copy(1) copy_input_Inl [OF copy(2)] by (simp add: rm_force_Inr)
    consider w5 where "rm_force h p w4 = (Inr (), w5)" "w' = w5" | "rm_force h p w4 = (Inl e, w')"
      using copy(3) by (auto simp: io_then_Inl)
    then show ?thesis
    proof cases
      case 1
      then show ?thesis by (simp add: rm_force_Inr)
    next
      case 2
      then have "host_fault h (counter w4) = Some e" "w' = w4\<lparr>counter := counter w4 + 1\<rparr>"
        using dir by (auto simp: rm_force_def fs_action_Inl)
      then show ?thesis using failed by (auto simp: faulted_def)
    qed
  qed
qed

lemma cacheInput_failed:
  assumes "cacheInput h cfg dataset source w = (Inl e, w')"
  shows "files w' = files w \<or> files w' (cache_path cfg dataset) = None
    \<or> (\<exists>n. counter w' = n + 2 \<and> host_fault h n \<noteq> None \<and> host_fault h (n + 1) = Some e)"
proof (cases "\<exists>s w1. stat h source w = (Inr s, w1)")
  case False
  then have "stat h source w = (Inl e, w')" using assms unfolding cacheInput_steps io_bind_Inl by auto
  then show ?thesis using stat_files by auto
next
  case True
  let ?p = "cache_path cfg dataset"
  obtain s w1 where s: "stat h source w = (Inr s, w1)" using True by blast
  obtain c w2 where c: "cached_stat h ?p w1 = (Inr c, w2)" using cached_stat_files by (metis surj_pair)
  have "(if cache_hit c s then io_return ?p
     else io_then (rm_force h ?p) (io_catch (copy_input h source ?p (host_date_of h (stat_mtimeMs s)))
       (\<lambda>e. io_then (rm_force h ?p) (io_throw e)))) w2 = (Inl e, w')"
    using assms s c unfolding cacheInput_steps io_bind_Inl by auto
  from failed_copy_removed [OF this] show ?thesis using stat_files [OF s] cached_stat_files [OF c] by auto
qed

lemma cacheInput_keeps: "q = cache_path cfg dataset \<or> files (snd (cacheInput h cfg dataset source w)) q = files w q"
proof (cases "q = cache_path cfg dataset")
  case assms: False
  let ?P = "\<lambda>w'. files w' q = files w q"
  have copy: "preserves ?P (copyFile h a (cache_path cfg dataset))" for a
    by (intro preserves_copyFile store_keeps(1) [OF assms] fs_action_keeps) (auto simp: with_node_def split: option.splits)
  have stat: "preserves ?P (stat h p)" for p
    unfolding stat_def by (rule fs_action_keeps) (auto simp: with_node_def split: option.splits)
  have "preserves ?P (cacheInput h cfg dataset source)"
    unfolding cacheInput_def Let_def
    by (intro preserved copy stat operations_keep assms)
  then show ?thesis by (simp add: preserves_def)
qed simp

lemma cacheInput_returned:
  assumes "cacheInput h cfg dataset source w = (Inr p, w')"
  shows "p = cache_path cfg dataset \<and>
    (\<exists>n. files w source = Some n \<and>
      ((files w' = files w \<and> (\<exists>c. files w p = Some c \<and> cache_hit (Some (node_stat h c)) (node_stat h n)))
       \<or> (\<exists>content t m. n = File content t m \<and> files w' p = Some (File content (host_date_of h t) 292))))"
proof -
  let ?p = "cache_path cfg dataset"
  obtain s c w1 w2 where s: "stat h source w = (Inr s, w1)" and c: "cached_stat h ?p w1 = (Inr c, w2)"
    and rest: "(if cache_hit c s then io_return ?p
       else io_then (rm_force h ?p) (io_catch (copy_input h source ?p (host_date_of h (stat_mtimeMs s)))
         (\<lambda>e. io_then (rm_force h ?p) (io_throw e)))) w2 = (Inr p, w')"
    using assms unfolding cacheInput_steps io_bind_Inr by blast
  have w2: "files w2 = files w" using stat_files [OF s] cached_stat_files [OF c] by simp
  obtain n where n: "files w source = Some n" "s = node_stat h n"
    using s by (auto simp: stat_def fs_action_Inr with_node_Inr)
  show ?thesis
  proof (cases "cache_hit c s")
    case True
    then obtain cs where "c = Some cs" by (auto simp: cache_hit_def split: option.splits)
    moreover from this obtain cn where "files w ?p = Some cn" "cs = node_stat h cn"
      using cached_stat_files [OF c] stat_files [OF s] by auto
    ultimately show ?thesis using True rest w2 n by auto
  next
    case False
    then obtain w3 where w3: "rm_force h ?p w2 = (Inr (), w3)"
      and copy: "copy_input h source ?p (host_date_of h (stat_mtimeMs s)) w3 = (Inr p, w')"
      using rest by (auto simp: io_then_Inr io_catch_Inr)
    from copy_input_Inr [OF copy] obtain content t m where
      f: "p = ?p" "files w3 source = Some (File content t m)"
        "files w' ?p = Some (File content (host_date_of h (stat_mtimeMs s)) 292)" by blast
    then have "n = File content t m" using w3 w2 n(1) by (auto simp: rm_force_Inr split: if_splits)
    then show ?thesis using f n by (auto simp: node_stat_def)
  qed
qed

text \<open>C15: The cached input of a run is either the file that was there, with the size and time of the
  source, or a fresh copy of the source carrying its time.  A copy that fails may leave a part of the source
  behind; when caching fails, nonetheless nothing has changed, or no file is left in the cache, or the
  removal of the part failed as well: then two operations in a row met a fault, and the error is that of
  the second.  Whatever happens, no other file changes.\<close>

theorem cacheInput_copy:
  "case cacheInput h cfg dataset source w of
     (Inl e, w') \<Rightarrow> (files w' = files w \<or> files w' (cache_path cfg dataset) = None
         \<or> (\<exists>n. counter w' = n + 2 \<and> host_fault h n \<noteq> None \<and> host_fault h (n + 1) = Some e)) \<and>
       (\<forall>q. q = cache_path cfg dataset \<or> files w' q = files w q)
   | (Inr p, w') \<Rightarrow> p = cache_path cfg dataset \<and>
       (\<exists>n. files w source = Some n \<and>
         ((files w' = files w \<and> (\<exists>c. files w p = Some c \<and> cache_hit (Some (node_stat h c)) (node_stat h n)))
          \<or> (\<exists>content t m. n = File content t m \<and> files w' p = Some (File content (host_date_of h t) 292)))) \<and>
       (\<forall>q. q = p \<or> files w' q = files w q)"
  using cacheInput_failed [of h cfg dataset source w] cacheInput_returned [of h cfg dataset source w]
    cacheInput_keeps [of _ cfg dataset h source w]
  by (cases "cacheInput h cfg dataset source w"; cases "fst (cacheInput h cfg dataset source w)") simp_all

section \<open>Cancellation\<close>

lemma later_removeContainers [preserved]: "preserves (later c s) (removeContainers h i)"
proof -
  have "preserves (later c s) (execute h exe args t m)" for exe args t m
    unfolding execute_def by (intro preserved) (auto intro: preserved split: command_result.splits)
  then show ?thesis unfolding removeContainers_def Let_def by (intro preserved)
qed

text \<open>C14: Cancelling always ends once the clock runs.  When it ends without an error, the last attempt to
  take the lock of the runs reported no conflict; so, if \<open>flock\<close> ends with the exit code it was told
  whenever another process has the lock, no process had it at that moment.  After that, everything below
  the job's directory and its work directory was removed.\<close>

theorem cancel_ends:
  assumes "clock_runs h"
  shows "\<exists>r w'. cancel h cfg args w = Some (r, w') \<and>
    (case r of Inl e \<Rightarrow> True | Inr u \<Rightarrow>
       \<exists>i rest w2 n. args = i # rest \<and> valid_id i \<and> found_free h (lock_path cfg) w2 \<and> counter w2 = Suc n \<and>
         (\<forall>held. flock_reports h (lock_path cfg) held \<longrightarrow> \<not> held n) \<and>
         cleanup h cfg [i] w2 = (Inr (), w') \<and>
         (\<forall>p. below (jobDirectory cfg i) p \<or> below (work_directory cfg i) p \<longrightarrow> files w' p = None))"
proof -
  define prepare where "prepare = io_bind (validateId (arg_at args 0)) (\<lambda>i.
            io_then (mkdir_recursive h (jobDirectory cfg i) 448)
           (io_then (writeFile h (path_join [jobDirectory cfg i, js ''cancelled'']) [] 384)
           (io_then (removeContainers h i) (io_return i))))"
  obtain r w1 where p: "prepare w = (r, w1)" by fastforce
  show ?thesis
  proof (cases r)
    case (Inl e)
    then show ?thesis using p by (simp add: cancel_def prepare_def)
  next
    case (Inr i)
    then have "validateId (arg_at args 0) w = (Inr i, w)"
      using p by (auto simp: prepare_def io_bind_Inr io_then_Inr validateId_def split: option.splits if_splits)
    then have i: "valid_id i" "\<exists>rest. args = i # rest"
      by (cases args; auto simp: validateId_def arg_at_def split: if_splits)+
    obtain z w2 where wait: "waitForFileLock h (lock_path cfg) 30000 (removeContainers h i) w1 = Some (z, w2)"
        "case z of Inl e \<Rightarrow> True | Inr u \<Rightarrow> found_free h (lock_path cfg) w2"
      using wait_returns [OF assms, of "removeContainers h i" "lock_path cfg" 30000 w1] later_removeContainers by blast
    show ?thesis
    proof (cases z)
      case (Inl e)
      then show ?thesis using p \<open>r = Inr i\<close> wait(1) by (simp add: cancel_def prepare_def)
    next
      case (Inr u)
      obtain q w3 where c: "cleanup h cfg [i] w2 = (q, w3)" by fastforce
      then have run: "cancel h cfg args w = Some (q, w3)"
        using p \<open>r = Inr i\<close> wait(1) Inr by (simp add: cancel_def prepare_def)
      show ?thesis
      proof (cases q)
        case (Inl e)
        then show ?thesis using run by simp
      next
        case (Inr v)
        have gone: "\<forall>p. below (jobDirectory cfg i) p \<or> below (work_directory cfg i) p \<longrightarrow> files w3 p = None"
          using c [unfolded Inr] i(1)
          by (auto simp: cleanup_def validateId_def arg_at_def io_bind_Inr io_then_Inr rm_recursive_Inr write_stdout_def
              work_directory_def)
        have free: "found_free h (lock_path cfg) w2" using wait(2) \<open>z = Inr u\<close> by simp
        then obtain n where n: "counter w2 = Suc n"
          using found_free_not_held [of h _ w2 "\<lambda>_. False"] by (auto simp: flock_reports_def)
        have "\<forall>held. flock_reports h (lock_path cfg) held \<longrightarrow> \<not> held n"
          using found_free_not_held [OF free] n by (metis nat.inject)
        then show ?thesis using run Inr i free n c gone by auto
      qed
    qed
  qed
qed

text \<open>A host on which another process has the lock during the first operations.\<close>

definition busy_until :: nat where
  "busy_until = 5"

definition busy_host :: host where
  "busy_host = calm_host\<lparr>host_command := (\<lambda>n e fs.
     (if program e = js ''flock'' \<and> n < busy_until then Exited (digits_value (arguments e ! 2)) [] else Exited 0 [], fs))\<rparr>"

lemma busy_flock: "flock_reports busy_host p (\<lambda>n. n < busy_until)"
  by (auto simp: flock_reports_def busy_host_def)

lemma busy_clock: "clock_runs busy_host"
  using calm_clock by (simp add: clock_runs_def busy_host_def)

lemma demo_paths:
  "parent (path_join [jobDirectory demo_config demo_id, js ''cancelled'']) \<in> set (ancestors (jobDirectory demo_config demo_id))"
  "path_join [jobDirectory demo_config demo_id, js ''cancelled''] \<notin> set (js ''/'' # ancestors (jobDirectory demo_config demo_id))"
  by code_simp+

lemma busy_operations:
  "host_fault busy_host n = None"
  "date_now busy_host w = (Inr (int (counter w) + int (slept w)), w\<lparr>counter := counter w + 1\<rparr>)"
  by (simp_all add: busy_host_def calm_host_def date_now_def)

lemma busy_flock_run:
  "\<exists>w'. runWithFileLock busy_host l (js ''true'') [] [] w = (Inr (if counter w < busy_until then Busy else Exit 0), w') \<and>
    counter w' = counter w + 1 \<and> slept w' = slept w"
proof -
  have "digits_value (js ''75'') = 75" by code_simp
  then show ?thesis
    by (auto simp: runWithFileLock_def io_bind_def io_return_def run_program_def busy_host_def Let_def)
qed

lemma busy_containers:
  "\<exists>w'. removeContainers busy_host i w = (Inr (), w') \<and> files w' = files w \<and> counter w' = counter w + 1 \<and> slept w' = slept w"
proof -
  have "filter (\<lambda>s. s \<noteq> []) (split_space (trim [])) = []" by code_simp
  then show ?thesis
    by (simp add: removeContainers_def execute_def io_bind_def run_program_def busy_host_def docker_def js_eval Let_def
        io_return_def io_when_def)
qed

lemma busy_wait:
  assumes "counter w = 3"
  shows "\<exists>w'. waitForFileLock busy_host l 30000 (removeContainers busy_host i) w = Some (Inr (), w')"
proof -
  let ?d = "3 + int (slept w) + 30000"
  let ?poll = "poll_lock busy_host l ?d (removeContainers busy_host i)"
  obtain w2 where w2: "runWithFileLock busy_host l (js ''true'') [] [] (w\<lparr>counter := 4\<rparr>) = (Inr Busy, w2)"
      "counter w2 = 5" "slept w2 = slept w"
    using busy_flock_run [of l "w\<lparr>counter := 4\<rparr>"] by (auto simp: busy_until_def)
  obtain w3 where w3: "removeContainers busy_host i w2 = (Inr (), w3)" "counter w3 = 6" "slept w3 = slept w"
    using busy_containers [of i w2] w2 by auto
  let ?w4 = "snd (sleep 100 (w3\<lparr>counter := 7\<rparr>))"
  obtain w5 where w5: "runWithFileLock busy_host l (js ''true'') [] [] ?w4 = (Inr (Exit 0), w5)"
    using busy_flock_run [of l ?w4] by (auto simp: busy_until_def sleep_def)
  have "?poll ?w4 = Some (Inr (), w5)" by (subst poll_lock.simps) (simp add: w5)
  then have "?poll (w\<lparr>counter := 4\<rparr>) = Some (Inr (), w5)"
    by (subst poll_lock.simps) (simp add: w2 w3 busy_operations(2))
  then show ?thesis using assms by (simp add: waitForFileLock_def busy_operations(2))
qed

lemma busy_cancel: "\<exists>w'. cancel busy_host demo_config [demo_id] empty_world = Some (Inr (), w')"
proof -
  let ?d = "jobDirectory demo_config demo_id" and ?c = "path_join [jobDirectory demo_config demo_id, js ''cancelled'']"
  have id: "validateId (arg_at [demo_id] 0) w = (Inr demo_id, w)" for w :: world
    by (simp add: validateId_def arg_at_def demo_ids(1))
  let ?w1 = "empty_world\<lparr>counter := 1, files := make_directories (ancestors ?d) (files empty_world)\<rparr>"
  have mkdir: "mkdir_recursive busy_host ?d 448 empty_world = (Inr (), ?w1)"
    by (simp add: mkdir_recursive_def fs_action_def busy_operations(1) Let_def list_ex_iff empty_world_def)
  obtain w2 where w2: "writeFile busy_host ?c [] 384 ?w1 = (Inr (), w2)" "counter w2 = 2"
    using demo_paths
    by (simp add: writeFile_def store_file_def busy_operations(1) put_file_def make_directories_def empty_world_def)
  obtain w3 where w3: "removeContainers busy_host demo_id w2 = (Inr (), w3)" "counter w3 = 3"
    using busy_containers [of demo_id w2] w2(2) by auto
  obtain w4 where w4: "waitForFileLock busy_host (lock_path demo_config) 30000 (removeContainers busy_host demo_id) w3 = Some (Inr (), w4)"
    using busy_wait [OF w3(2)] by blast
  have "\<exists>w5. cleanup busy_host demo_config [demo_id] w4 = (Inr (), w5)"
    by (simp add: cleanup_def io_bind_def io_then_def id rm_recursive_def fs_action_def busy_operations(1) Let_def write_stdout_def)
  then show ?thesis using w2 w3 w4 by (auto simp: cancel_def io_bind_def io_then_def io_return_def id mkdir)
qed

theorem cancel_ends_witness:
  "\<exists>w' w2 n. cancel busy_host demo_config [demo_id] empty_world = Some (Inr (), w') \<and>
     found_free busy_host (lock_path demo_config) w2 \<and> counter w2 = Suc n \<and> busy_until \<le> n \<and>
     cleanup busy_host demo_config [demo_id] w2 = (Inr (), w')"
proof -
  obtain w' where run: "cancel busy_host demo_config [demo_id] empty_world = Some (Inr (), w')" using busy_cancel by blast
  then obtain w2 n where "found_free busy_host (lock_path demo_config) w2" "counter w2 = Suc n"
      "\<forall>held. flock_reports busy_host (lock_path demo_config) held \<longrightarrow> \<not> held n"
      "cleanup busy_host demo_config [demo_id] w2 = (Inr (), w')"
    using cancel_ends [OF busy_clock, of demo_config "[demo_id]" empty_world] by auto
  moreover from this(3) have "busy_until \<le> n"
    using busy_flock [of "lock_path demo_config"] by (meson not_less)
  ultimately show ?thesis using run by blast
qed

end
