(* ===== verification/Leaderboard.thy ===== *)
theory Leaderboard
  imports Domain Js_Collections "HOL-Library.Product_Lexorder"
begin

text \<open>
  The web client's models of the leaderboard and of scores: the replay frame of
  \<^verbatim>\<open>models/leaderboard.ts\<close>, the record updates of \<^verbatim>\<open>models/leaderboard-updates.ts\<close> and the best score of
  \<^verbatim>\<open>models/submission.ts\<close>.  A comparison that throws, because a string is not an integer for
  \<open>BigInt\<close>, makes the result \<open>None\<close>.
\<close>

record replay_submission =
  sub_id :: jsstring
  sub_username :: jsstring
  sub_language :: "language option"
  publicVerdict :: "verdict option"
  privateVerdict :: "verdict option"
  privateScoreNs :: "jsstring option"
  disqualified :: bool
  sub_submittedAt :: jsstring

record leaderboard_entry =
  rank :: "int option"
  rankChange :: "int option"
  username :: jsstring
  submissionId :: jsstring
  entry_language :: language
  scoreNs :: "jsstring option"
  entry_verdict :: verdict
  submittedAt :: jsstring
  sourceAvailable :: bool

section \<open>The replay frame\<close>

text \<open>\<open>slice(0, n)\<close>: a negative end counts from the back.\<close>

definition slice_to :: "int \<Rightarrow> 'a list \<Rightarrow> 'a list" where
  "slice_to n xs = take (nat (if n < 0 then int (length xs) + n else n)) xs"

definition representatives :: "replay_submission list \<Rightarrow> (jsstring, replay_submission) js_map" where
  "representatives subs =
     foldl (\<lambda>m s. if publicVerdict s = Some Accepted then map_set (sub_username s) s m else m) map_new subs"

definition eligible :: "language option \<Rightarrow> replay_submission \<Rightarrow> bool" where
  "eligible l s \<longleftrightarrow> \<not> disqualified s \<and> sub_language s \<noteq> None \<and> (l = None \<or> sub_language s = l) \<and>
     privateVerdict s = Some Accepted \<and> privateScoreNs s \<noteq> None"

text \<open>The difference of two times is NaN when one is invalid, and the sort takes NaN for zero.\<close>

definition time_difference :: "(jsstring \<Rightarrow> int option) \<Rightarrow> jsstring \<Rightarrow> jsstring \<Rightarrow> int" where
  "time_difference other a b = (case (date_parse other a, date_parse other b) of
      (Some x, Some y) \<Rightarrow> x - y
    | _ \<Rightarrow> 0)"

definition compare_submissions ::
    "(jsstring \<Rightarrow> int option) \<Rightarrow> replay_submission \<Rightarrow> replay_submission \<Rightarrow> int option" where
  "compare_submissions other left right =
     (case compareNanoseconds (the (privateScoreNs left)) (the (privateScoreNs right)) of
        None \<Rightarrow> None
      | Some scoreOrder \<Rightarrow>
          Some (if scoreOrder \<noteq> 0 then scoreOrder
                else time_difference other (sub_submittedAt left) (sub_submittedAt right)))"

definition replay_entry :: "nat \<Rightarrow> replay_submission \<Rightarrow> leaderboard_entry" where
  "replay_entry index s = \<lparr>rank = Some (int index + 1), rankChange = None, username = sub_username s,
     submissionId = sub_id s, entry_language = the (sub_language s), scoreNs = privateScoreNs s,
     entry_verdict = Accepted, submittedAt = sub_submittedAt s, sourceAvailable = False\<rparr>"

definition buildLeaderboardReplayFrame ::
    "(jsstring \<Rightarrow> int option) \<Rightarrow> replay_submission list \<Rightarrow> int \<Rightarrow> language option \<Rightarrow> leaderboard_entry list option"
where
  "buildLeaderboardReplayFrame other subs submissionCount l =
     map_option (\<lambda>ss. map (\<lambda>(i, s). replay_entry i s) (List.enumerate 0 ss))
       (array_sort (compare_submissions other)
         (filter (eligible l) (map_values (representatives (slice_to submissionCount subs)))))"

text \<open>A user's last submission that was accepted publicly.\<close>

definition last_accepted :: "replay_submission list \<Rightarrow> jsstring \<Rightarrow> replay_submission option" where
  "last_accepted subs u = find (\<lambda>s. sub_username s = u \<and> publicVerdict s = Some Accepted) (rev subs)"

lemma representatives_snoc:
  "representatives (subs @ [s]) =
    (if publicVerdict s = Some Accepted then map_set (sub_username s) s (representatives subs) else representatives subs)"
  by (simp add: representatives_def)

lemma representatives_Nil: "representatives [] = map_new"
  by (simp add: representatives_def)

lemma representatives_get: "map_get (representatives subs) u = last_accepted subs u"
  by (induction subs rule: rev_induct)
    (auto simp: representatives_snoc representatives_Nil last_accepted_def jm.get_empty jm.get_put)

lemma representatives_keys: "distinct (map_keys (representatives subs))"
  by (induction subs rule: rev_induct)
    (auto simp: representatives_snoc representatives_Nil jm.keys_empty jm.distinct_keys_put)

lemma find_SomeD: "find P xs = Some x \<Longrightarrow> x \<in> set xs \<and> P x"
  by (induction xs) (auto split: if_splits)

lemma last_accepted_name: "last_accepted subs u = Some s \<Longrightarrow> sub_username s = u \<and> s \<in> set subs"
  unfolding last_accepted_def by (drule find_SomeD) simp

lemma representative_iff: "s \<in> set (map_values (representatives subs)) \<longleftrightarrow> last_accepted subs (sub_username s) = Some s"
proof -
  have "s \<in> set (map_values (representatives subs)) \<longleftrightarrow> (\<exists>u. (u, s) \<in> set (representatives subs))"
    by (force simp: map_values_def)
  also have "\<dots> \<longleftrightarrow> (\<exists>u. last_accepted subs u = Some s)"
    using map_get_entry [OF representatives_keys, of subs] by (simp add: representatives_get)
  finally show ?thesis using last_accepted_name by blast
qed

lemma representatives_unique: "distinct (map sub_username (map_values (representatives subs)))"
proof -
  have "sub_username v = u" if "(u, v) \<in> set (representatives subs)" for u v
    using that map_get_entry [OF representatives_keys, of subs u v] last_accepted_name
    by (auto simp: representatives_get)
  then have "map sub_username (map_values (representatives subs)) = map_keys (representatives subs)"
    by (auto simp: map_values_def map_keys_def)
  then show ?thesis using representatives_keys by simp
qed

text \<open>Scores are decimal and times are valid: then the comparison is by score, then by time.\<close>

definition timed_submission :: "(jsstring \<Rightarrow> int option) \<Rightarrow> replay_submission \<Rightarrow> bool" where
  "timed_submission other s \<longleftrightarrow>
     pred_option all_digits (privateScoreNs s) \<and> date_parse other (sub_submittedAt s) \<noteq> None"

definition frame_key :: "(jsstring \<Rightarrow> int option) \<Rightarrow> jsstring option \<Rightarrow> jsstring \<Rightarrow> nat \<times> int" where
  "frame_key other score t = (ns_value (the score), the (date_parse other t))"

definition compare_keys :: "(jsstring \<Rightarrow> int option) \<Rightarrow> replay_submission \<Rightarrow> replay_submission \<Rightarrow> int" where
  "compare_keys other a b =
     (let p = frame_key other (privateScoreNs a) (sub_submittedAt a);
          q = frame_key other (privateScoreNs b) (sub_submittedAt b)
      in if fst p < fst q then -1 else if fst q < fst p then 1 else snd p - snd q)"

interpretation frame_order:
  key_comparator "compare_keys other" "\<lambda>s. frame_key other (privateScoreNs s) (sub_submittedAt s)" for other
  by unfold_locales (auto simp: compare_keys_def Let_def less_eq_prod_def)

lemma compare_submissions_keys:
  assumes "timed_submission other a" "timed_submission other b" "privateScoreNs a \<noteq> None" "privateScoreNs b \<noteq> None"
  shows "compare_submissions other a b = Some (compare_keys other a b)"
  using assms
  by (auto simp: compare_submissions_def timed_submission_def compare_keys_def frame_key_def
      compareNanoseconds_digits time_difference_def Let_def split: option.splits if_splits)

lemma sort_submissions:
  assumes "\<forall>s \<in> set ss. timed_submission other s \<and> privateScoreNs s \<noteq> None"
  shows "array_sort (compare_submissions other) ss =
    Some (sort_key (\<lambda>s. frame_key other (privateScoreNs s) (sub_submittedAt s)) ss)"
proof -
  have agree: "compare_submissions other a b = Some (compare_keys other a b)" if "a \<in> set ss" "b \<in> set ss" for a b
    using that assms by (intro compare_submissions_keys) auto
  then have "sort_cmp (\<lambda>x y. the (compare_submissions other x y)) ss = sort_cmp (compare_keys other) ss"
    by (intro sort_cmp_cong) simp
  with agree show ?thesis by (auto simp: array_sort_def frame_order.sort_cmp_sort_key)
qed

definition entry_key :: "(jsstring \<Rightarrow> int option) \<Rightarrow> leaderboard_entry \<Rightarrow> nat \<times> int" where
  "entry_key other e = frame_key other (scoreNs e) (submittedAt e)"

text \<open>The submission an entry of the frame stands for.\<close>

definition entry_of :: "replay_submission \<Rightarrow> leaderboard_entry \<Rightarrow> bool" where
  "entry_of s e \<longleftrightarrow> (\<exists>i. e = replay_entry i s)"

definition frame_ok ::
    "(jsstring \<Rightarrow> int option) \<Rightarrow> replay_submission list \<Rightarrow> language option \<Rightarrow> leaderboard_entry list \<Rightarrow> bool" where
  "frame_ok other shown l es \<longleftrightarrow>
     map rank es = map (\<lambda>i. Some (int i + 1)) [0..<length es] \<and>
     sorted_wrt (\<lambda>a b. entry_key other a \<le> entry_key other b) es \<and>
     distinct (map username es) \<and>
     (\<forall>e \<in> set es. \<exists>s. last_accepted shown (username e) = Some s \<and> eligible l s \<and> entry_of s e) \<and>
     (\<forall>u s. last_accepted shown u = Some s \<and> eligible l s \<longrightarrow> (\<exists>e \<in> set es. username e = u \<and> entry_of s e))"

lemma replay_entry_fields [simp]:
  "username (replay_entry i s) = sub_username s" "rank (replay_entry i s) = Some (int i + 1)"
  "entry_key other (replay_entry i s) = frame_key other (privateScoreNs s) (sub_submittedAt s)"
  by (simp_all add: replay_entry_def entry_key_def)

lemma entries_nth: "i < length ss \<Longrightarrow> map (\<lambda>(i, s). replay_entry i s) (List.enumerate 0 ss) ! i = replay_entry i (ss ! i)"
  by (simp add: nth_enumerate_eq)

lemma frame_of_sorted:
  assumes "sorted_wrt (\<lambda>a b. frame_key other (privateScoreNs a) (sub_submittedAt a) \<le>
      frame_key other (privateScoreNs b) (sub_submittedAt b)) ss"
    "distinct (map sub_username ss)"
    "\<And>s. s \<in> set ss \<longleftrightarrow> last_accepted shown (sub_username s) = Some s \<and> eligible l s"
  shows "frame_ok other shown l (map (\<lambda>(i, s). replay_entry i s) (List.enumerate 0 ss))"
proof -
  let ?es = "map (\<lambda>(i, s). replay_entry i s) (List.enumerate 0 ss)"
  have "map rank ?es = map (\<lambda>i. Some (int i + 1)) [0..<length ?es]"
    by (intro nth_equalityI) (simp_all add: nth_enumerate_eq)
  moreover have "sorted_wrt (\<lambda>a b. entry_key other a \<le> entry_key other b) ?es"
    using assms(1) by (simp add: sorted_wrt_iff_nth_less nth_enumerate_eq)
  moreover have "map username ?es = map sub_username ss"
    by (intro nth_equalityI) (simp_all add: nth_enumerate_eq)
  moreover have "\<exists>s. last_accepted shown (username e) = Some s \<and> eligible l s \<and> entry_of s e" if "e \<in> set ?es" for e
    using that assms(3) nth_mem by (fastforce simp: in_set_enumerate_eq entry_of_def)
  moreover have "\<exists>e \<in> set ?es. username e = u \<and> entry_of s e"
    if "last_accepted shown u = Some s" "eligible l s" for u s
  proof -
    have "sub_username s = u" using that(1) last_accepted_name by blast
    with that assms(3) [of s] obtain i where "i < length ss" "ss ! i = s" by (auto simp: in_set_conv_nth)
    then have "replay_entry i s \<in> set ?es" by (force simp: in_set_enumerate_eq)
    with \<open>sub_username s = u\<close> show ?thesis by (intro bexI [of _ "replay_entry i s"]) (auto simp: entry_of_def)
  qed
  ultimately show ?thesis using assms(2) by (simp add: frame_ok_def)
qed

text \<open>C24: A replay frame over submissions with decimal scores and valid times never throws; it has one
  entry for each user whose last publicly accepted submission among the shown ones is eligible (not
  disqualified, privately accepted with a score, in the chosen language), made from that submission;
  the entries are ordered by score and then by time, and ranked from one.\<close>

theorem replay_frame:
  assumes "\<forall>s \<in> set subs. timed_submission other s"
  shows "\<exists>es. buildLeaderboardReplayFrame other subs n l = Some es \<and> frame_ok other (slice_to n subs) l es"
proof -
  let ?shown = "slice_to n subs"
  let ?ss = "filter (eligible l) (map_values (representatives ?shown))"
  let ?sorted = "sort_key (\<lambda>s. frame_key other (privateScoreNs s) (sub_submittedAt s)) ?ss"
  have "s \<in> set ?ss \<longleftrightarrow> last_accepted ?shown (sub_username s) = Some s \<and> eligible l s" for s
    by (auto simp: representative_iff)
  moreover have "s \<in> set subs" if "last_accepted ?shown (sub_username s) = Some s" for s
    using last_accepted_name [OF that] by (auto simp: slice_to_def dest: in_set_takeD)
  ultimately have "\<forall>s \<in> set ?ss. timed_submission other s \<and> privateScoreNs s \<noteq> None"
    using assms by (auto simp: eligible_def)
  then have "buildLeaderboardReplayFrame other subs n l =
      Some (map (\<lambda>(i, s). replay_entry i s) (List.enumerate 0 ?sorted))"
    by (simp add: buildLeaderboardReplayFrame_def sort_submissions)
  moreover have "frame_ok other ?shown l (map (\<lambda>(i, s). replay_entry i s) (List.enumerate 0 ?sorted))"
  proof (rule frame_of_sorted)
    show "distinct (map sub_username ?sorted)"
      using representatives_unique by (simp add: distinct_map_filter distinct_map)
        (auto intro: inj_on_subset)
    show "sorted_wrt (\<lambda>a b. frame_key other (privateScoreNs a) (sub_submittedAt a) \<le>
        frame_key other (privateScoreNs b) (sub_submittedAt b)) ?sorted"
      using sorted_sort_key [of "\<lambda>s. frame_key other (privateScoreNs s) (sub_submittedAt s)" ?ss]
      by (simp add: sorted_wrt_map)
  qed (auto simp: representative_iff)
  ultimately show ?thesis by blast
qed

definition demo_first :: replay_submission where
  "demo_first = \<lparr>sub_id = js ''a'', sub_username = js ''x'', sub_language = Some (Script_language Bun),
     publicVerdict = Some Accepted, privateVerdict = Some Accepted, privateScoreNs = Some (js ''20''),
     disqualified = False, sub_submittedAt = js ''t''\<rparr>"

definition demo_second :: replay_submission where
  "demo_second = demo_first \<lparr>sub_id := js ''b'', sub_username := js ''y'', privateScoreNs := Some (js ''3'')\<rparr>"

theorem replay_frame_witness:
  "\<exists>es. buildLeaderboardReplayFrame (\<lambda>s. Some 0) [demo_first, demo_second] 2 None = Some es
    \<and> frame_ok (\<lambda>s. Some 0) (slice_to 2 [demo_first, demo_second]) None es"
  by (rule replay_frame)
    (simp add: timed_submission_def demo_first_def demo_second_def date_parse_def js_eval all_digits_def is_digit_def)

section \<open>Record updates\<close>

record record_update =
  update_username :: jsstring
  runtimeDeltaNs :: "jsstring option"

definition runtimeDelta :: "jsstring option \<Rightarrow> jsstring option \<Rightarrow> jsstring option" where
  "runtimeDelta previousScoreNs currentScoreNs = (case (previousScoreNs, currentScoreNs) of
      (Some p, Some c) \<Rightarrow>
        (case (BigInt c, BigInt p) of (Some x, Some y) \<Rightarrow> Some (int_to_string (x - y)) | _ \<Rightarrow> None)
    | _ \<Rightarrow> None)"

definition entries_by_username :: "leaderboard_entry list \<Rightarrow> (jsstring, leaderboard_entry) js_map" where
  "entries_by_username es = foldl (\<lambda>m e. map_set (username e) e m) map_new es"

definition recordChanged :: "leaderboard_entry \<Rightarrow> leaderboard_entry \<Rightarrow> bool" where
  "recordChanged previous entry \<longleftrightarrow> submissionId entry \<noteq> submissionId previous \<or>
     scoreNs entry \<noteq> scoreNs previous \<or> entry_verdict entry \<noteq> entry_verdict previous"

definition detectLeaderboardRecordUpdates ::
    "leaderboard_entry list \<Rightarrow> leaderboard_entry list \<Rightarrow> record_update list" where
  "detectLeaderboardRecordUpdates previousEntries currentEntries =
     concat (map (\<lambda>entry. case map_get (entries_by_username previousEntries) (username entry) of
         None \<Rightarrow> [\<lparr>update_username = username entry, runtimeDeltaNs = None\<rparr>]
       | Some previous \<Rightarrow>
           if \<not> recordChanged previous entry then []
           else [\<lparr>update_username = username entry,
                  runtimeDeltaNs = runtimeDelta (scoreNs previous) (scoreNs entry)\<rparr>]) currentEntries)"

text \<open>The class of a difference in the table: shorter runs are faster.\<close>

datatype diff_class = Runtime_faster | Runtime_slower | Runtime_unchanged

definition runtimeDiffClass :: "jsstring \<Rightarrow> diff_class option" where
  "runtimeDiffClass deltaNs = map_option (\<lambda>delta.
     if delta < 0 then Runtime_faster else if delta > 0 then Runtime_slower else Runtime_unchanged) (BigInt deltaNs)"

lemma entries_by_username_get: "map_get (entries_by_username es) u = find (\<lambda>e. username e = u) (rev es)"
  unfolding entries_by_username_def
  using jm.get_foldl_put [of username "\<lambda>e. e" map_new es u] by (simp add: jm.get_empty split: option.splits)

lemma find_unique:
  "distinct (map f xs) \<Longrightarrow> find (\<lambda>x. f x = u) (rev xs) = Some x \<longleftrightarrow> x \<in> set xs \<and> f x = u"
  by (induction xs rule: rev_induct) auto

lemma BigInt_int_to_string: "BigInt (int_to_string z) = Some z"
proof (cases "z < 0")
  case True
  have "list_all (\<lambda>c. \<not> is_space c) (int_to_string z)"
    using True set_nat_to_string is_digit_not_space
    by (auto simp: int_to_string_def list_all_iff js_eval is_space_def)
  then have "trim (int_to_string z) = int_to_string z" by (rule trim_no_space)
  with True show ?thesis
    using all_digits_nat_to_string [of "nat (- z)"]
    by (simp add: BigInt_def Let_def int_to_string_def js_eval) (simp add: all_digits_def is_digit_def)
next
  case False
  then show ?thesis by (simp add: int_to_string_def)
qed

text \<open>A user's records that both carry a decimal score.\<close>

definition scored :: "leaderboard_entry \<Rightarrow> jsstring \<Rightarrow> bool" where
  "scored e s \<longleftrightarrow> scoreNs e = Some s \<and> all_digits s"

definition expected_class :: "jsstring \<Rightarrow> jsstring \<Rightarrow> diff_class" where
  "expected_class previous current =
     (if ns_value current < ns_value previous then Runtime_faster
      else if ns_value previous < ns_value current then Runtime_slower else Runtime_unchanged)"

lemma runtimeDelta_class:
  assumes "scored p a" "scored e b"
  shows "\<exists>d. runtimeDelta (scoreNs p) (scoreNs e) = Some d \<and> runtimeDiffClass d = Some (expected_class a b)"
  using assms by (auto simp: scored_def runtimeDelta_def runtimeDiffClass_def BigInt_int_to_string
      expected_class_def ns_value_def)

text \<open>What the detection reports for one entry.\<close>

definition entry_updates :: "leaderboard_entry list \<Rightarrow> leaderboard_entry \<Rightarrow> record_update list" where
  "entry_updates previous entry =
     (case find (\<lambda>e. username e = username entry) (rev previous) of
        None \<Rightarrow> [\<lparr>update_username = username entry, runtimeDeltaNs = None\<rparr>]
      | Some p \<Rightarrow> if \<not> recordChanged p entry then []
          else [\<lparr>update_username = username entry, runtimeDeltaNs = runtimeDelta (scoreNs p) (scoreNs entry)\<rparr>])"

lemma detect_entries: "detectLeaderboardRecordUpdates previous current = concat (map (entry_updates previous) current)"
  unfolding detectLeaderboardRecordUpdates_def entries_by_username_get entry_updates_def ..

lemma in_detected: "u \<in> set (detectLeaderboardRecordUpdates previous current) \<longleftrightarrow>
    (\<exists>e \<in> set current. u \<in> set (entry_updates previous e))"
  by (simp add: detect_entries)

lemma entry_updates_name: "u \<in> set (entry_updates previous e) \<Longrightarrow> update_username u = username e"
  by (auto simp: entry_updates_def split: option.splits if_splits)

lemma entry_updates_known:
  assumes "distinct (map username previous)" "p \<in> set previous" "username p = username e"
  shows "entry_updates previous e = (if recordChanged p e
    then [\<lparr>update_username = username e, runtimeDeltaNs = runtimeDelta (scoreNs p) (scoreNs e)\<rparr>] else [])"
  using find_unique [OF assms(1), of "username e" p] assms(2,3) by (simp add: entry_updates_def)

lemma entry_updates_new:
  assumes "username e \<notin> username ` set previous"
  shows "entry_updates previous e = [\<lparr>update_username = username e, runtimeDeltaNs = None\<rparr>]"
proof -
  have "find (\<lambda>x. username x = username e) (rev previous) = None"
    using assms unfolding find_None_iff by (metis image_eqI set_rev)
  then show ?thesis by (simp add: entry_updates_def)
qed

lemma entry_updates_at_most_one: "length (entry_updates previous e) \<le> 1"
  by (simp add: entry_updates_def split: option.splits)

lemma one_update_per_user:
  "distinct (map username current) \<Longrightarrow> distinct (map update_username (detectLeaderboardRecordUpdates previous current))"
proof (induction current)
  case (Cons e es)
  have "distinct (map update_username (entry_updates previous e))"
    using entry_updates_at_most_one [of previous e] by (cases "entry_updates previous e") auto
  with Cons show ?case by (fastforce simp: detect_entries dest: entry_updates_name)
qed (simp add: detect_entries)

lemma update_reported_iff:
  assumes "distinct (map username previous)"
  shows "name \<in> update_username ` set (detectLeaderboardRecordUpdates previous current) \<longleftrightarrow>
    (\<exists>e \<in> set current. username e = name \<and> (\<forall>p \<in> set previous. username p = name \<longrightarrow> recordChanged p e))"
proof -
  have entry: "entry_updates previous e \<noteq> [] \<longleftrightarrow> (\<forall>p \<in> set previous. username p = username e \<longrightarrow> recordChanged p e)" for e
  proof (cases "username e \<in> username ` set previous")
    case True
    then obtain p where p: "p \<in> set previous" "username p = username e" by auto
    then have "q = p" if "q \<in> set previous" "username q = username e" for q
      using assms that by (metis distinct_map inj_onD)
    with p have "(\<forall>q \<in> set previous. username q = username e \<longrightarrow> recordChanged q e) \<longleftrightarrow> recordChanged p e"
      by blast
    then show ?thesis using entry_updates_known [OF assms p] by simp
  next
    case False
    then have "\<not> (\<exists>q \<in> set previous. username q = username e)" by (metis image_eqI)
    then show ?thesis using entry_updates_new [OF False] by auto
  qed
  have "name \<in> update_username ` set (detectLeaderboardRecordUpdates previous current) \<longleftrightarrow>
      (\<exists>e \<in> set current. username e = name \<and> entry_updates previous e \<noteq> [])"
    unfolding image_iff Bex_def in_detected using entry_updates_name by (metis list.set_intros(1) neq_Nil_conv list.distinct(1) list.set(1) empty_iff)
  then show ?thesis using entry by auto
qed

text \<open>C25: Between two rankings with one entry per user, each user gets at most one update, and gets
  one exactly when the user is new or the submission, score or verdict changed.  A new user's
  update has no difference; a changed record with decimal scores before and after has one, and its
  class says faster, slower or unchanged as the new score is smaller, larger or equal.\<close>

theorem record_updates:
  assumes "distinct (map username previous)" "distinct (map username current)"
  shows "distinct (map update_username (detectLeaderboardRecordUpdates previous current)) \<and>
    (\<forall>name. name \<in> update_username ` set (detectLeaderboardRecordUpdates previous current) \<longleftrightarrow>
      (\<exists>e \<in> set current. username e = name \<and> (\<forall>p \<in> set previous. username p = name \<longrightarrow> recordChanged p e))) \<and>
    (\<forall>e \<in> set current. username e \<notin> username ` set previous \<longrightarrow>
      \<lparr>update_username = username e, runtimeDeltaNs = None\<rparr> \<in> set (detectLeaderboardRecordUpdates previous current)) \<and>
    (\<forall>p \<in> set previous. \<forall>e \<in> set current. \<forall>a b.
      username p = username e \<and> recordChanged p e \<and> scored p a \<and> scored e b \<longrightarrow>
      (\<exists>d. \<lparr>update_username = username e, runtimeDeltaNs = Some d\<rparr> \<in> set (detectLeaderboardRecordUpdates previous current)
        \<and> runtimeDiffClass d = Some (expected_class a b)))"
proof (intro conjI)
  show "\<forall>p \<in> set previous. \<forall>e \<in> set current. \<forall>a b.
      username p = username e \<and> recordChanged p e \<and> scored p a \<and> scored e b \<longrightarrow>
      (\<exists>d. \<lparr>update_username = username e, runtimeDeltaNs = Some d\<rparr> \<in> set (detectLeaderboardRecordUpdates previous current)
        \<and> runtimeDiffClass d = Some (expected_class a b))"
  proof (intro ballI allI impI)
    fix p e a b
    assume *: "p \<in> set previous" "e \<in> set current"
      "username p = username e \<and> recordChanged p e \<and> scored p a \<and> scored e b"
    then obtain d where d: "runtimeDelta (scoreNs p) (scoreNs e) = Some d" "runtimeDiffClass d = Some (expected_class a b)"
      using runtimeDelta_class by blast
    have "entry_updates previous e = [\<lparr>update_username = username e, runtimeDeltaNs = Some d\<rparr>]"
      using * entry_updates_known [OF assms(1)] d(1) by simp
    with * d show "\<exists>d. \<lparr>update_username = username e, runtimeDeltaNs = Some d\<rparr> \<in> set (detectLeaderboardRecordUpdates previous current)
        \<and> runtimeDiffClass d = Some (expected_class a b)"
      unfolding in_detected by (metis list.set_intros(1))
  qed
  show "\<forall>e \<in> set current. username e \<notin> username ` set previous \<longrightarrow>
      \<lparr>update_username = username e, runtimeDeltaNs = None\<rparr> \<in> set (detectLeaderboardRecordUpdates previous current)"
    unfolding in_detected by (metis entry_updates_new list.set_intros(1))
qed (use one_update_per_user assms(2) update_reported_iff [OF assms(1)] in simp_all)

definition demo_entry :: leaderboard_entry where
  "demo_entry = \<lparr>rank = Some 1, rankChange = None, username = js ''x'', submissionId = js ''a'',
     entry_language = Script_language Bun, scoreNs = Some (js ''20''), entry_verdict = Accepted,
     submittedAt = js ''t'', sourceAvailable = True\<rparr>"

theorem record_updates_witness:
  "\<exists>d. \<lparr>update_username = js ''x'', runtimeDeltaNs = Some d\<rparr>
      \<in> set (detectLeaderboardRecordUpdates [demo_entry] [demo_entry \<lparr>scoreNs := Some (js ''3'')\<rparr>])
    \<and> runtimeDiffClass d = Some (expected_class (js ''20'') (js ''3''))"
  using record_updates [of "[demo_entry]" "[demo_entry \<lparr>scoreNs := Some (js ''3'')\<rparr>]"]
  by (simp add: demo_entry_def recordChanged_def scored_def js_eval all_digits_def is_digit_def)

section \<open>The best score\<close>

record public_outcome =
  outcome_verdict :: jsstring
  outcome_scoreNs :: "jsstring option"

definition accepted_scores :: "public_outcome option list \<Rightarrow> jsstring list" where
  "accepted_scores submissions = concat (map (\<lambda>p. case p of
       None \<Rightarrow> []
     | Some r \<Rightarrow> if outcome_verdict r = js ''accepted'' then
         (case outcome_scoreNs r of None \<Rightarrow> [] | Some s \<Rightarrow> if s = [] then [] else [s]) else []) submissions)"

fun reduce_scores :: "jsstring \<Rightarrow> jsstring list \<Rightarrow> jsstring option" where
  "reduce_scores best [] = Some best"
| "reduce_scores best (score # scores) =
     (case compareNanoseconds score best of
        None \<Rightarrow> None
      | Some c \<Rightarrow> reduce_scores (if c < 0 then score else best) scores)"

text \<open>The outer \<open>None\<close> is an exception, \<open>Some None\<close> is null.\<close>

definition bestAcceptedScore :: "public_outcome option list \<Rightarrow> jsstring option option" where
  "bestAcceptedScore submissions = (case accepted_scores submissions of
      [] \<Rightarrow> Some None
    | s # ss \<Rightarrow> map_option Some (reduce_scores s ss))"

definition isBetterScore :: "jsstring option \<Rightarrow> jsstring option \<Rightarrow> bool option" where
  "isBetterScore score previousBest =
     (if score = None \<or> score = Some [] then Some False
      else if previousBest = None \<or> previousBest = Some [] then Some True
      else map_option (\<lambda>c. c < 0) (compareNanoseconds (the score) (the previousBest)))"

lemma reduce_scores_least:
  "all_digits s \<Longrightarrow> \<forall>t \<in> set ss. all_digits t \<Longrightarrow>
    \<exists>b. reduce_scores s ss = Some b \<and> b \<in> set (s # ss) \<and> (\<forall>t \<in> set (s # ss). ns_value b \<le> ns_value t)"
proof (induction ss arbitrary: s)
  case (Cons t ss)
  define m where "m = (if ns_value t < ns_value s then t else s)"
  have "all_digits m" using Cons.prems by (simp add: m_def)
  with Cons.IH [of m] Cons.prems(2) obtain b where
    "reduce_scores m ss = Some b" "b \<in> set (m # ss)" "\<forall>t \<in> set (m # ss). ns_value b \<le> ns_value t" by auto
  moreover have "reduce_scores s (t # ss) = reduce_scores m ss"
    using Cons.prems by (simp add: compareNanoseconds_digits m_def)
  ultimately show ?case by (auto simp: m_def split: if_splits)
qed simp

text \<open>Over accepted submissions with decimal scores the best score never throws: there is none
  when no submission was accepted, and else it is a smallest of their scores.  A decimal score is
  better than it exactly when it is smaller than every accepted score so far.\<close>

theorem best_score:
  assumes "\<forall>s \<in> set (accepted_scores xs). all_digits s"
  shows "\<exists>best. bestAcceptedScore xs = Some best \<and>
    (case best of
       None \<Rightarrow> accepted_scores xs = []
     | Some s \<Rightarrow> s \<in> set (accepted_scores xs) \<and> (\<forall>t \<in> set (accepted_scores xs). ns_value s \<le> ns_value t)) \<and>
    (\<forall>t. all_digits t \<longrightarrow>
      isBetterScore (Some t) best = Some (\<forall>s \<in> set (accepted_scores xs). ns_value t < ns_value s))"
proof (cases "accepted_scores xs")
  case Nil
  then show ?thesis by (auto simp: bestAcceptedScore_def isBetterScore_def all_digits_def)
next
  case (Cons s ss)
  with assms obtain b where b: "reduce_scores s ss = Some b" "b \<in> set (accepted_scores xs)"
      "\<forall>t \<in> set (accepted_scores xs). ns_value b \<le> ns_value t"
    using reduce_scores_least [of s ss] by auto
  have "all_digits b" using b(2) assms by blast
  have "isBetterScore (Some t) (Some b) = Some (\<forall>s \<in> set (accepted_scores xs). ns_value t < ns_value s)"
    if "all_digits t" for t
  proof -
    have "t \<noteq> []" "b \<noteq> []" using that \<open>all_digits b\<close> by (auto simp: all_digits_def)
    then have "isBetterScore (Some t) (Some b) = Some (ns_value t < ns_value b)"
      using that \<open>all_digits b\<close> by (simp add: isBetterScore_def compareNanoseconds_digits)
    also have "ns_value t < ns_value b \<longleftrightarrow> (\<forall>s \<in> set (accepted_scores xs). ns_value t < ns_value s)"
      using b(2,3) by (meson order_less_le_trans)
    finally show ?thesis .
  qed
  with b Cons show ?thesis by (intro exI [of _ "Some b"]) (simp add: bestAcceptedScore_def)
qed

theorem best_score_witness:
  "\<exists>best. bestAcceptedScore [None, Some \<lparr>outcome_verdict = js ''accepted'', outcome_scoreNs = Some (js ''7'')\<rparr>] = Some best \<and>
    (case best of
       None \<Rightarrow> accepted_scores [None, Some \<lparr>outcome_verdict = js ''accepted'', outcome_scoreNs = Some (js ''7'')\<rparr>] = []
     | Some s \<Rightarrow> s \<in> set (accepted_scores [None, Some \<lparr>outcome_verdict = js ''accepted'', outcome_scoreNs = Some (js ''7'')\<rparr>]) \<and>
         (\<forall>t \<in> set (accepted_scores [None, Some \<lparr>outcome_verdict = js ''accepted'', outcome_scoreNs = Some (js ''7'')\<rparr>]).
           ns_value s \<le> ns_value t)) \<and>
    (\<forall>t. all_digits t \<longrightarrow> isBetterScore (Some t) best = Some
      (\<forall>s \<in> set (accepted_scores [None, Some \<lparr>outcome_verdict = js ''accepted'', outcome_scoreNs = Some (js ''7'')\<rparr>]).
        ns_value t < ns_value s))"
  by (rule best_score) (simp add: accepted_scores_def js_eval all_digits_def is_digit_def)

end
