(* ===== verification/Leaderboard_Highlights.thy ===== *)
theory Leaderboard_Highlights
  imports Leaderboard
begin

text \<open>
  The hook \<^verbatim>\<open>components/leaderboard/use-leaderboard-updates.ts\<close>, which highlights changed records for
  a while, as a state machine: its references and state, and the timers it has given to the browser.
  A step is a run of its effect, a timer that fires, or the component's unmounting.
\<close>

record visible_update = record_update +
  update_sequence :: nat

record row_timer =
  timer_sequence :: nat
  timer_id :: nat

text \<open>\<open>pending\<close> holds the browser's timers, each with the user and the sequence its callback refers to.\<close>

record hook =
  previousEntries :: "leaderboard_entry list option"
  sequence :: nat
  timers :: "(jsstring, row_timer) js_map"
  visibleUpdates :: "(jsstring, visible_update) js_map"
  pending :: "(nat \<times> jsstring \<times> nat) list"
  next_timer :: nat
  mounted :: bool

definition initial_hook :: hook where
  "initial_hook = \<lparr>previousEntries = None, sequence = 0, timers = map_new, visibleUpdates = map_new,
     pending = [], next_timer = 1, mounted = True\<rparr>"

fun number_updates :: "nat \<Rightarrow> record_update list \<Rightarrow> visible_update list" where
  "number_updates n [] = []"
| "number_updates n (u # us) =
     record_update.extend u (visible_update.fields (Suc n)) # number_updates (Suc n) us"

definition clear_timer :: "nat \<Rightarrow> hook \<Rightarrow> hook" where
  "clear_timer i h = h\<lparr>pending := filter (\<lambda>p. fst p \<noteq> i) (pending h)\<rparr>"

definition start_timer :: "hook \<Rightarrow> visible_update \<Rightarrow> hook" where
  "start_timer h u =
     (let h = (case map_get (timers h) (update_username u) of None \<Rightarrow> h | Some t \<Rightarrow> clear_timer (timer_id t) h);
          i = next_timer h
      in h\<lparr>pending := pending h @ [(i, update_username u, update_sequence u)], next_timer := Suc i,
           timers := map_set (update_username u) \<lparr>timer_sequence = update_sequence u, timer_id = i\<rparr> (timers h)\<rparr>)"

definition show_updates :: "visible_update list \<Rightarrow> (jsstring, visible_update) js_map \<Rightarrow> (jsstring, visible_update) js_map"
where
  "show_updates us m = foldl (\<lambda>m u. map_set (update_username u) u m) m us"

definition run_effect :: "leaderboard_entry list \<Rightarrow> bool \<Rightarrow> hook \<Rightarrow> hook" where
  "run_effect es initialized h =
     (if \<not> initialized then h
      else case previousEntries h of
        None \<Rightarrow> h\<lparr>previousEntries := Some es\<rparr>
      | Some previous \<Rightarrow>
          (let updates = number_updates (sequence h) (detectLeaderboardRecordUpdates previous es);
               h = h\<lparr>sequence := sequence h + length updates, previousEntries := Some es\<rparr>
           in if updates = [] then h
              else foldl start_timer (h\<lparr>visibleUpdates := show_updates updates (visibleUpdates h)\<rparr>) updates))"

definition timer_fires :: "nat \<times> jsstring \<times> nat \<Rightarrow> hook \<Rightarrow> hook" where
  "timer_fires p h = (case p of (i, name, n) \<Rightarrow>
     (let h = clear_timer i h;
          h = (if map_option update_sequence (map_get (visibleUpdates h) name) \<noteq> Some n then h
               else h\<lparr>visibleUpdates := map_delete name (visibleUpdates h)\<rparr>)
      in if map_option timer_sequence (map_get (timers h) name) = Some n
         then h\<lparr>timers := map_delete name (timers h)\<rparr> else h))"

definition unmount :: "hook \<Rightarrow> hook" where
  "unmount h = (foldl (\<lambda>h t. clear_timer (timer_id t) h) h (map_values (timers h)))
     \<lparr>timers := map_new, mounted := False\<rparr>"

inductive hook_step :: "hook \<Rightarrow> hook \<Rightarrow> bool" where
  effect: "mounted h \<Longrightarrow> hook_step h (run_effect es initialized h)"
| fire: "p \<in> set (pending h) \<Longrightarrow> hook_step h (timer_fires p h)"
| unmount: "mounted h \<Longrightarrow> hook_step h (unmount h)"

inductive hook_reachable :: "hook \<Rightarrow> bool" where
  initial: "hook_reachable initial_hook"
| step: "hook_reachable h \<Longrightarrow> hook_step h h' \<Longrightarrow> hook_reachable h'"

section \<open>Timers and highlights belong together\<close>

text \<open>The browser's timers are exactly those the hook has noted, one per user.\<close>

definition timers_tracked :: "hook \<Rightarrow> bool" where
  "timers_tracked h \<longleftrightarrow> distinct (map_keys (timers h)) \<and> distinct (map fst (pending h)) \<and>
     (\<forall>p \<in> set (pending h). fst p < next_timer h) \<and>
     (\<forall>i u n. (i, u, n) \<in> set (pending h) \<longleftrightarrow> map_get (timers h) u = Some \<lparr>timer_sequence = n, timer_id = i\<rparr>)"

definition highlights_tracked :: "hook \<Rightarrow> bool" where
  "highlights_tracked h \<longleftrightarrow> (\<forall>u. map_option update_sequence (map_get (visibleUpdates h) u) =
     map_option timer_sequence (map_get (timers h) u))"

definition hook_ok :: "hook \<Rightarrow> bool" where
  "hook_ok h \<longleftrightarrow> timers_tracked h \<and> (if mounted h then highlights_tracked h else pending h = [])"

lemma pending_unique:
  "distinct (map fst ps) \<Longrightarrow> (i, u, n) \<in> set ps \<Longrightarrow> (i, u', n') \<in> set ps \<Longrightarrow> u = u' \<and> n = n'"
  using eq_key_imp_eq_value by fastforce

lemma timer_user:
  assumes "timers_tracked h" "(i, u, n) \<in> set (pending h)" "(j, v, m) \<in> set (pending h)"
  shows "j = i \<longleftrightarrow> v = u"
proof
  assume "j = i"
  with assms show "v = u" using pending_unique [of "pending h" i u n v m] by (simp add: timers_tracked_def)
next
  assume "v = u"
  with assms show "j = i" by (simp add: timers_tracked_def)
qed

lemma clear_timer_fields [simp]:
  "timers (clear_timer i h) = timers h" "visibleUpdates (clear_timer i h) = visibleUpdates h"
  "next_timer (clear_timer i h) = next_timer h" "mounted (clear_timer i h) = mounted h"
  "pending (clear_timer i h) = filter (\<lambda>p. fst p \<noteq> i) (pending h)"
  by (simp_all add: clear_timer_def)

lemma start_timer_tracked:
  assumes "timers_tracked h"
  shows "timers_tracked (start_timer h u)"
proof -
  let ?name = "update_username u"
  let ?h = "case map_get (timers h) ?name of None \<Rightarrow> h | Some t \<Rightarrow> clear_timer (timer_id t) h"
  let ?i = "next_timer h"
  have same: "timers ?h = timers h" "next_timer ?h = ?i" by (simp_all split: option.splits)
  have pend: "(i, v, n) \<in> set (pending ?h) \<longleftrightarrow> (i, v, n) \<in> set (pending h) \<and> v \<noteq> ?name" for i v n
  proof (cases "map_get (timers h) ?name")
    case None
    with assms show ?thesis by (auto simp: timers_tracked_def)
  next
    case (Some t)
    then have t: "(timer_id t, ?name, timer_sequence t) \<in> set (pending h)"
      using assms by (simp add: timers_tracked_def)
    have "i = timer_id t \<longleftrightarrow> v = ?name" if "(i, v, n) \<in> set (pending h)"
      using timer_user [OF assms t that] .
    with Some show ?thesis by auto
  qed
  have "distinct (map fst (pending ?h))" "\<forall>p \<in> set (pending ?h). fst p < ?i"
    using assms by (auto simp: timers_tracked_def distinct_map_filter split: option.splits)
  with assms show ?thesis
    unfolding timers_tracked_def start_timer_def Let_def same
    by (auto simp: same pend jm.get_put jm.distinct_keys_put)
qed

lemma start_timer_fields:
  "visibleUpdates (start_timer h u) = visibleUpdates h" "mounted (start_timer h u) = mounted h"
  "timers (start_timer h u) =
    map_set (update_username u) \<lparr>timer_sequence = update_sequence u, timer_id = next_timer h\<rparr> (timers h)"
  by (simp_all add: start_timer_def Let_def split: option.splits)

lemma start_timers:
  "timers_tracked h \<Longrightarrow> timers_tracked (foldl start_timer h us)"
  "visibleUpdates (foldl start_timer h us) = visibleUpdates h"
  "mounted (foldl start_timer h us) = mounted h"
  by (induction us arbitrary: h) (simp_all add: start_timer_tracked start_timer_fields)

lemma start_timers_sequence:
  "map_option timer_sequence (map_get (timers (foldl start_timer h us)) v) =
    (case find (\<lambda>u. update_username u = v) (rev us) of
       Some u \<Rightarrow> Some (update_sequence u)
     | None \<Rightarrow> map_option timer_sequence (map_get (timers h) v))"
  by (induction us rule: rev_induct) (simp_all add: start_timer_fields jm.get_put)

lemma show_updates_sequence:
  "map_option update_sequence (map_get (show_updates us m) v) =
    (case find (\<lambda>u. update_username u = v) (rev us) of
       Some u \<Rightarrow> Some (update_sequence u)
     | None \<Rightarrow> map_option update_sequence (map_get m v))"
  using jm.get_foldl_put [of update_username "\<lambda>u. u" m us v] by (simp add: show_updates_def split: option.splits)

lemma run_effect_ok:
  assumes "hook_ok h" "mounted h"
  shows "hook_ok (run_effect es initialized h)"
proof -
  have keep: "hook_ok (h\<lparr>sequence := s, previousEntries := p\<rparr>)" "hook_ok (h\<lparr>previousEntries := p\<rparr>)" for s p
    using assms by (simp_all add: hook_ok_def timers_tracked_def highlights_tracked_def)
  have shown: "hook_ok (foldl start_timer (h'\<lparr>visibleUpdates := show_updates us (visibleUpdates h')\<rparr>) us)"
    if "hook_ok h'" "mounted h'" for h' us
  proof -
    let ?h = "h'\<lparr>visibleUpdates := show_updates us (visibleUpdates h')\<rparr>"
    have "timers_tracked ?h" using that by (simp add: hook_ok_def timers_tracked_def)
    moreover have "highlights_tracked (foldl start_timer ?h us)"
      using that by (simp add: highlights_tracked_def hook_ok_def start_timers start_timers_sequence
          show_updates_sequence split: option.splits)
    ultimately show ?thesis using that by (simp add: hook_ok_def start_timers)
  qed
  show ?thesis
    using assms keep shown [OF keep(1)]
    by (auto simp: run_effect_def Let_def split: option.splits)
qed

lemma timer_fires_ok:
  assumes "hook_ok h" "p \<in> set (pending h)"
  shows "hook_ok (timer_fires p h)" "map_get (visibleUpdates (timer_fires p h)) (fst (snd p)) = None"
proof -
  obtain i u n where p: "p = (i, u, n)" by (cases p)
  have h: "timers_tracked h" "mounted h" "highlights_tracked h"
    using assms by (auto simp: hook_ok_def split: if_splits)
  then have t: "map_get (timers h) u = Some \<lparr>timer_sequence = n, timer_id = i\<rparr>"
    using assms(2) p by (auto simp: timers_tracked_def)
  then have v: "map_option update_sequence (map_get (visibleUpdates h) u) = Some n"
    using h(3) by (simp add: highlights_tracked_def)
  have fires: "timer_fires p h = (clear_timer i h)\<lparr>visibleUpdates := map_delete u (visibleUpdates h),
      timers := map_delete u (timers h)\<rparr>"
    unfolding timer_fires_def p Let_def prod.case clear_timer_fields v by (simp add: t)
  have "(j, v, m) \<in> set (pending h) \<Longrightarrow> j = i \<longleftrightarrow> v = u" for j v m
    using timer_user [OF h(1), of i u n] assms(2) p by simp
  with h(1) have "timers_tracked (timer_fires p h)"
    by (auto simp: fires timers_tracked_def distinct_keys_delete distinct_map_filter)
  moreover have "highlights_tracked (timer_fires p h)"
    using h(3) by (simp add: fires highlights_tracked_def)
  ultimately show "hook_ok (timer_fires p h)" using h(2) by (simp add: hook_ok_def fires)
  show "map_get (visibleUpdates (timer_fires p h)) (fst (snd p)) = None"
    unfolding fires by (simp add: p)
qed

lemma clear_timers_pending:
  "pending (foldl (\<lambda>h t. clear_timer (timer_id t) h) h ts) = filter (\<lambda>p. fst p \<notin> timer_id ` set ts) (pending h)"
  by (induction ts arbitrary: h) (auto intro: filter_cong)

lemma unmount_ok:
  assumes "hook_ok h"
  shows "hook_ok (unmount h)"
proof -
  have "fst p \<in> timer_id ` set (map_values (timers h))" if "p \<in> set (pending h)" for p
  proof -
    obtain i u n where p: "p = (i, u, n)" by (cases p)
    with that assms have "map_get (timers h) u = Some \<lparr>timer_sequence = n, timer_id = i\<rparr>"
      by (auto simp: hook_ok_def timers_tracked_def)
    then have "\<lparr>timer_sequence = n, timer_id = i\<rparr> \<in> set (map_values (timers h))"
      by (force simp: map_get_def map_values_def dest: map_of_SomeD)
    then show ?thesis using p by force
  qed
  then have "pending (unmount h) = []"
    by (auto simp: unmount_def clear_timers_pending filter_empty_conv)
  then show ?thesis
    by (simp add: hook_ok_def timers_tracked_def unmount_def jm.get_empty jm.keys_empty)
qed

lemma hook_step_ok: "hook_step h h' \<Longrightarrow> hook_ok h \<Longrightarrow> hook_ok h'"
  by (induction rule: hook_step.induct) (simp_all add: run_effect_ok timer_fires_ok unmount_ok)

lemma reachable_ok: "hook_reachable h \<Longrightarrow> hook_ok h"
proof (induction rule: hook_reachable.induct)
  case initial
  show ?case by (simp add: hook_ok_def initial_hook_def timers_tracked_def highlights_tracked_def
      jm.get_empty jm.keys_empty)
qed (rule hook_step_ok)

lemma noted_timer:
  "(\<exists>i. x = Some \<lparr>timer_sequence = n, timer_id = i\<rparr>) \<longleftrightarrow> map_option timer_sequence x = Some n"
proof (cases x)
  case (Some t)
  then show ?thesis by (cases t) auto
qed simp

text \<open>C26: In every reachable state of a mounted ranking the highlighted users are exactly those with a
  timer in the browser, each has one timer, made for the very update that is shown, and when it
  fires the highlight is gone; after unmounting no timer is left.\<close>

theorem highlights_have_timers:
  assumes "hook_reachable h"
  shows "(mounted h \<longrightarrow> (\<forall>u. \<forall>n. map_option update_sequence (map_get (visibleUpdates h) u) = Some n \<longleftrightarrow>
      (\<exists>i. (i, u, n) \<in> set (pending h)))) \<and>
    (\<forall>i u n j m. (i, u, n) \<in> set (pending h) \<and> (j, u, m) \<in> set (pending h) \<longrightarrow> (i, n) = (j, m)) \<and>
    (\<forall>p \<in> set (pending h). map_get (visibleUpdates (timer_fires p h)) (fst (snd p)) = None) \<and>
    (\<not> mounted h \<longrightarrow> pending h = [])"
proof (intro conjI)
  have ok: "hook_ok h" "timers_tracked h" using reachable_ok [OF assms] by (simp_all add: hook_ok_def)
  then have pend: "(i, u, n) \<in> set (pending h) \<longleftrightarrow> map_get (timers h) u = Some \<lparr>timer_sequence = n, timer_id = i\<rparr>" for i u n
    by (simp add: timers_tracked_def)
  have "(\<exists>i. (i, u, n) \<in> set (pending h)) \<longleftrightarrow> map_option timer_sequence (map_get (timers h) u) = Some n" for u n
    unfolding pend by (rule noted_timer)
  then show "mounted h \<longrightarrow> (\<forall>u. \<forall>n. map_option update_sequence (map_get (visibleUpdates h) u) = Some n \<longleftrightarrow>
      (\<exists>i. (i, u, n) \<in> set (pending h)))"
    using ok(1) unfolding hook_ok_def highlights_tracked_def by presburger
  show "\<forall>i u n j m. (i, u, n) \<in> set (pending h) \<and> (j, u, m) \<in> set (pending h) \<longrightarrow> (i, n) = (j, m)"
    unfolding pend by auto
  show "\<forall>p \<in> set (pending h). map_get (visibleUpdates (timer_fires p h)) (fst (snd p)) = None"
    using timer_fires_ok(2) [OF ok(1)] by blast
  show "\<not> mounted h \<longrightarrow> pending h = []" using ok(1) by (simp add: hook_ok_def)
qed

definition demo_hook :: hook where
  "demo_hook = run_effect [demo_entry] True (run_effect [] True initial_hook)"

lemma demo_hook_reachable: "hook_reachable demo_hook"
proof -
  have up: "mounted initial_hook" "mounted (run_effect [] True initial_hook)"
    by (simp_all add: run_effect_def initial_hook_def)
  show ?thesis unfolding demo_hook_def
    using hook_reachable.step [OF hook_reachable.step [OF hook_reachable.initial hook_step.effect [OF up(1)]]
        hook_step.effect [OF up(2)]] .
qed

theorem highlights_have_timers_witness:
  "(1, js ''x'', 1) \<in> set (pending demo_hook) \<and>
    map_option update_sequence (map_get (visibleUpdates demo_hook) (js ''x'')) = Some 1"
proof -
  have "(1, js ''x'', 1) \<in> set (pending demo_hook) \<and> mounted demo_hook" by code_simp
  then show ?thesis
    using highlights_have_timers [OF demo_hook_reachable, THEN conjunct1, rule_format, of "js ''x''" 1] by blast
qed

end
