(* ===== verification/Js_Uri.thy ===== *)
theory Js_Uri
  imports Js_Prelude
begin

text \<open>
  \<open>encodeURIComponent\<close> and \<open>decodeURIComponent\<close>: a string is read as Unicode code points, each is
  written in UTF-8, and every byte that is not of an unreserved character becomes a percent escape.
  \<open>None\<close> is the \<open>URIError\<close> of a lone surrogate or of escapes that are not UTF-8.
\<close>

section \<open>Code points\<close>

fun code_points :: "jsstring \<Rightarrow> nat list option" where
  "code_points [] = Some []"
| "code_points (c # s) =
     (if 0xD800 \<le> unat c \<and> unat c < 0xDC00
      then (case s of
          [] \<Rightarrow> None
        | d # r \<Rightarrow> if 0xDC00 \<le> unat d \<and> unat d < 0xE000
            then map_option (Cons (0x10000 + (unat c - 0xD800) * 0x400 + (unat d - 0xDC00))) (code_points r)
            else None)
      else if 0xDC00 \<le> unat c \<and> unat c < 0xE000 then None
      else map_option (Cons (unat c)) (code_points s))"

definition utf16 :: "nat \<Rightarrow> jsstring" where
  "utf16 p = (if p < 0x10000 then [of_nat p]
     else [of_nat (0xD800 + (p - 0x10000) div 0x400), of_nat (0xDC00 + (p - 0x10000) mod 0x400)])"

definition scalar :: "nat \<Rightarrow> bool" where
  "scalar p \<longleftrightarrow> p < 0xD800 \<or> 0xE000 \<le> p \<and> p < 0x110000"

section \<open>UTF-8\<close>

definition utf8 :: "nat \<Rightarrow> nat list" where
  "utf8 p =
     (if p < 0x80 then [p]
      else if p < 0x800 then [0xC0 + p div 0x40, 0x80 + p mod 0x40]
      else if p < 0x10000 then [0xE0 + p div 0x1000, 0x80 + p div 0x40 mod 0x40, 0x80 + p mod 0x40]
      else [0xF0 + p div 0x40000, 0x80 + p div 0x1000 mod 0x40, 0x80 + p div 0x40 mod 0x40, 0x80 + p mod 0x40])"

text \<open>The number of continuation bytes after a leading byte and the bits it contributes.\<close>

definition leading :: "nat \<Rightarrow> (nat \<times> nat) option" where
  "leading b =
     (if b < 0x80 then Some (0, b)
      else if 0xC0 \<le> b \<and> b < 0xE0 then Some (1, b - 0xC0)
      else if 0xE0 \<le> b \<and> b < 0xF0 then Some (2, b - 0xE0)
      else if 0xF0 \<le> b \<and> b < 0xF8 then Some (3, b - 0xF0)
      else None)"

definition least_point :: "nat \<Rightarrow> nat" where
  "least_point n = (if n = 0 then 0 else if n = 1 then 0x80 else if n = 2 then 0x800 else 0x10000)"

section \<open>Percent escapes\<close>

definition upper_hex :: "nat \<Rightarrow> code_unit" where
  "upper_hex n = (if n < 10 then of_nat (48 + n) else of_nat (55 + n))"

definition percent :: "nat \<Rightarrow> jsstring" where
  "percent b = [37, upper_hex (b div 16), upper_hex (b mod 16)]"

definition unreserved :: "nat \<Rightarrow> bool" where
  "unreserved p \<longleftrightarrow> 48 \<le> p \<and> p \<le> 57 \<or> 65 \<le> p \<and> p \<le> 90 \<or> 97 \<le> p \<and> p \<le> 122 \<or>
     p \<in> {45, 95, 46, 33, 126, 42, 39, 40, 41}"

definition encode_point :: "nat \<Rightarrow> jsstring" where
  "encode_point p = (if unreserved p then [of_nat p] else concat (map percent (utf8 p)))"

definition encodeURIComponent :: "jsstring \<Rightarrow> jsstring option" where
  "encodeURIComponent s = map_option (\<lambda>ps. concat (map encode_point ps)) (code_points s)"

fun escaped_byte :: "jsstring \<Rightarrow> (nat \<times> jsstring) option" where
  "escaped_byte (c # h # l # r) =
     (if c = 37 then
        (case (radix_digit 16 h, radix_digit 16 l) of (Some x, Some y) \<Rightarrow> Some (x * 16 + y, r) | _ \<Rightarrow> None)
      else None)"
| "escaped_byte _ = None"

fun continuation :: "nat \<Rightarrow> nat \<Rightarrow> jsstring \<Rightarrow> (nat \<times> jsstring) option" where
  "continuation 0 p s = Some (p, s)"
| "continuation (Suc n) p s =
     (case escaped_byte s of
        Some (b, r) \<Rightarrow> if 0x80 \<le> b \<and> b < 0xC0 then continuation n (p * 0x40 + (b - 0x80)) r else None
      | None \<Rightarrow> None)"

lemma escaped_byte_length: "escaped_byte s = Some (b, r) \<Longrightarrow> length r < length s"
  by (cases s rule: escaped_byte.cases) (auto split: option.splits if_splits)

lemma continuation_length: "continuation n p s = Some (q, r) \<Longrightarrow> length r \<le> length s"
  by (induction n p s rule: continuation.induct)
    (fastforce split: option.splits if_splits dest: escaped_byte_length)+

text \<open>One escaped code point at the head of the string.\<close>

definition escaped_point :: "jsstring \<Rightarrow> (nat \<times> jsstring) option" where
  "escaped_point s =
     (case escaped_byte s of
        None \<Rightarrow> None
      | Some (b, r) \<Rightarrow>
          (case leading b of
             None \<Rightarrow> None
           | Some (n, bits) \<Rightarrow>
               (case continuation n bits r of
                  None \<Rightarrow> None
                | Some (p, r') \<Rightarrow> if least_point n \<le> p \<and> scalar p then Some (p, r') else None)))"

lemma escaped_point_length: "escaped_point s = Some (p, r) \<Longrightarrow> length r < length s"
  by (fastforce simp: escaped_point_def split: option.splits if_splits
      dest: escaped_byte_length continuation_length)

function decodeURIComponent :: "jsstring \<Rightarrow> jsstring option" where
  "decodeURIComponent [] = Some []"
| "decodeURIComponent (c # s) =
     (if c \<noteq> 37 then map_option (Cons c) (decodeURIComponent s)
      else (case escaped_point (c # s) of
          None \<Rightarrow> None
        | Some (p, r) \<Rightarrow> map_option (\<lambda>t. utf16 p @ t) (decodeURIComponent r)))"
  by pat_completeness auto

termination decodeURIComponent
  by (relation "measure length") (auto dest: escaped_point_length)

section \<open>The round trip\<close>

lemma radix_digit_upper_hex: "n < 16 \<Longrightarrow> radix_digit 16 (upper_hex n) = Some n"
  by (auto simp: radix_digit_def upper_hex_def is_digit_def word_le_nat_alt unat_of_nat Let_def simp del: of_nat_add)

lemma escaped_byte_percent: "b < 256 \<Longrightarrow> escaped_byte (percent b @ r) = Some (b, r)"
  by (simp add: percent_def radix_digit_upper_hex)

lemma utf8_bytes: "p < 0x110000 \<Longrightarrow> b \<in> set (utf8 p) \<Longrightarrow> b < 256"
  by (auto simp: utf8_def split: if_splits)

lemma escaped_point_utf8:
  assumes "scalar p"
  shows "escaped_point (concat (map percent (utf8 p)) @ r) = Some (p, r)"
proof -
  have bound: "p < 0x110000" using assms by (auto simp: scalar_def)
  consider "p < 0x80" | "0x80 \<le> p" "p < 0x800" | "0x800 \<le> p" "p < 0x10000" | "0x10000 \<le> p" by linarith
  then show ?thesis
  proof cases
    case 1
    then show ?thesis using assms
      by (simp add: utf8_def escaped_point_def escaped_byte_percent leading_def least_point_def)
  next
    case 2
    then have "p div 64 < 32" by (simp add: less_mult_imp_div_less)
    with 2 show ?thesis using assms
      by (simp add: utf8_def escaped_point_def escaped_byte_percent leading_def least_point_def)
  next
    case 3
    then have "p div 4096 < 16" by (simp add: less_mult_imp_div_less)
    moreover have "(p div 4096 * 64 + p div 64 mod 64) * 64 + p mod 64 = p"
    proof -
      have "p div 4096 = p div 64 div 64" by (simp add: div_mult2_eq [symmetric])
      then show ?thesis by simp
    qed
    ultimately show ?thesis using 3 assms
      by (simp add: utf8_def escaped_point_def escaped_byte_percent leading_def least_point_def numeral_2_eq_2)
  next
    case 4
    then have "p div 262144 < 5" using bound by (simp add: less_mult_imp_div_less)
    moreover have "((p div 262144 * 64 + p div 4096 mod 64) * 64 + p div 64 mod 64) * 64 + p mod 64 = p"
    proof -
      have "p div 262144 = p div 64 div 64 div 64" "p div 4096 = p div 64 div 64"
        by (simp_all add: div_mult2_eq [symmetric])
      then show ?thesis by simp
    qed
    ultimately show ?thesis using 4 assms
      by (simp add: utf8_def escaped_point_def escaped_byte_percent leading_def least_point_def numeral_3_eq_3)
  qed
qed

lemma utf8_head: "\<exists>t. concat (map percent (utf8 p)) = 37 # t"
  by (simp add: utf8_def percent_def)

lemma decode_point:
  assumes "scalar p"
  shows "decodeURIComponent (encode_point p @ r) = map_option (\<lambda>t. utf16 p @ t) (decodeURIComponent r)"
proof (cases "unreserved p")
  case True
  then have small: "p < 128" "p \<noteq> 37" by (auto simp: unreserved_def)
  then have "(of_nat p :: code_unit) \<noteq> 37"
    by (simp add: word_unat_eq_iff unat_of_nat)
  with True small show ?thesis by (simp add: encode_point_def utf16_def)
next
  case False
  obtain t where t: "concat (map percent (utf8 p)) = 37 # t" using utf8_head by blast
  have "decodeURIComponent (37 # (t @ r)) = map_option (\<lambda>u. utf16 p @ u) (decodeURIComponent r)"
    using escaped_point_utf8 [OF assms, of r] unfolding t by simp
  with False t show ?thesis by (simp add: encode_point_def)
qed

lemma decode_points:
  "\<forall>p \<in> set ps. scalar p \<Longrightarrow> decodeURIComponent (concat (map encode_point ps)) = Some (concat (map utf16 ps))"
  by (induction ps) (simp_all add: decode_point)

lemma utf16_unit: "unat c < 0xD800 \<or> 0xE000 \<le> unat c \<Longrightarrow> utf16 (unat c) = [c]"
  using unsigned_less [of c] by (simp add: utf16_def)

lemma utf16_pair:
  assumes "0xD800 \<le> unat c" "unat c < 0xDC00" "0xDC00 \<le> unat d" "unat d < 0xE000"
  defines "p \<equiv> 0x10000 + (unat c - 0xD800) * 0x400 + (unat d - 0xDC00)"
  shows "utf16 p = [c, d]" "scalar p"
proof -
  define x y where "x = unat c - 0xD800" and "y = unat d - 0xDC00"
  have xy: "unat c = 0xD800 + x" "unat d = 0xDC00 + y" "x < 0x400" "y < 0x400" "p - 0x10000 = x * 0x400 + y"
    using assms by (simp_all add: x_def y_def)
  then have "(p - 0x10000) div 0x400 = x" "(p - 0x10000) mod 0x400 = y" by simp_all
  moreover have "\<not> p < 0x10000" by (simp add: p_def)
  ultimately show "utf16 p = [c, d]"
    unfolding utf16_def using xy(1,2) [symmetric] by (simp del: of_nat_add)
  show "scalar p" using xy by (auto simp: scalar_def p_def)
qed

lemma scalar_unit: "unat (c :: code_unit) < 0xD800 \<or> 0xE000 \<le> unat c \<Longrightarrow> scalar (unat c)"
proof -
  have "unat c < 65536" using unsigned_less [of c] by simp
  then show "unat c < 0xD800 \<or> 0xE000 \<le> unat c \<Longrightarrow> scalar (unat c)" by (auto simp: scalar_def)
qed

lemma code_points_utf16:
  "code_points s = Some ps \<Longrightarrow> (\<forall>p \<in> set ps. scalar p) \<and> concat (map utf16 ps) = s"
proof (induction s arbitrary: ps rule: code_points.induct)
  case (2 c s)
  consider (pair) "0xD800 \<le> unat c" "unat c < 0xDC00" | (lone) "0xDC00 \<le> unat c" "unat c < 0xE000"
    | (unit) "unat c < 0xD800 \<or> 0xE000 \<le> unat c" by linarith
  then show ?case
  proof cases
    case pair
    with "2.prems" obtain d r qs where d: "s = d # r" "0xDC00 \<le> unat d" "unat d < 0xE000"
        "code_points r = Some qs" "ps = (0x10000 + (unat c - 0xD800) * 0x400 + (unat d - 0xDC00)) # qs"
      by (auto split: list.splits if_splits)
    have "(\<forall>p \<in> set qs. scalar p) \<and> concat (map utf16 qs) = r"
      using "2.IH"(1) pair d(1-4) by blast
    then show ?thesis using utf16_pair [OF pair d(2,3)] d(1,5) by simp
  next
    case lone
    with "2.prems" show ?thesis by simp
  next
    case unit
    with "2.prems" obtain qs where qs: "code_points s = Some qs" "ps = unat c # qs" by auto
    have "\<not> (0xD800 \<le> unat c \<and> unat c < 0xDC00)" "\<not> (0xDC00 \<le> unat c \<and> unat c < 0xE000)" using unit by auto
    then have "(\<forall>p \<in> set qs. scalar p) \<and> concat (map utf16 qs) = s" using "2.IH"(2) qs(1) by blast
    then show ?thesis using qs(2) utf16_unit [OF unit] scalar_unit [OF unit] by simp
  qed
qed simp

lemma decode_encode: "encodeURIComponent s = Some t \<Longrightarrow> decodeURIComponent t = Some s"
  using code_points_utf16 decode_points by (fastforce simp: encodeURIComponent_def)

text \<open>Strings of unreserved characters are not changed.\<close>

lemma unreserved_small: "unreserved n \<Longrightarrow> n < 128 \<and> n \<noteq> 37"
  by (auto simp: unreserved_def)

lemma code_points_unreserved: "list_all (\<lambda>c. unreserved (unat c)) s \<Longrightarrow> code_points s = Some (map unat s)"
proof (induction s)
  case (Cons c s)
  then have "unat c < 128" using unreserved_small by simp
  with Cons show ?case by simp
qed simp

lemma encode_unreserved:
  assumes "list_all (\<lambda>c. unreserved (unat c)) s"
  shows "encodeURIComponent s = Some s"
proof -
  have "concat (map (\<lambda>c. encode_point (unat c)) s) = s"
    using assms by (induction s) (simp_all add: encode_point_def)
  then show ?thesis using assms by (simp add: encodeURIComponent_def code_points_unreserved o_def)
qed

lemma decode_plain: "37 \<notin> set s \<Longrightarrow> decodeURIComponent s = Some s"
  by (induction s) auto

text \<open>What an encoded string is made of.\<close>

lemma upper_hex_unreserved: "n < 16 \<Longrightarrow> unreserved (unat (upper_hex n))"
  by (auto simp: upper_hex_def unreserved_def unat_of_nat simp del: of_nat_add)

lemma encoded_point_chars:
  assumes "scalar p" "c \<in> set (encode_point p)"
  shows "unreserved (unat c) \<or> c = 37"
proof (cases "unreserved p")
  case True
  with assms show ?thesis using unreserved_small [of p] by (simp add: encode_point_def unat_of_nat)
next
  case False
  with assms(2) obtain b where b: "b \<in> set (utf8 p)" "c \<in> set (percent b)" by (auto simp: encode_point_def)
  have "b < 256" using utf8_bytes [OF _ b(1)] assms(1) by (auto simp: scalar_def)
  then have "b div 16 < 16" by (simp add: less_mult_imp_div_less)
  with b(2) show ?thesis by (auto simp: percent_def upper_hex_unreserved)
qed

lemma encoded_chars:
  assumes "encodeURIComponent s = Some t" "c \<in> set t"
  shows "unreserved (unat c) \<or> c = 37"
  using assms code_points_utf16 encoded_point_chars by (fastforce simp: encodeURIComponent_def)

end
