(* ===== verification/Contest_Clock.thy ===== *)
theory Contest_Clock
  imports Domain Js_Math Js_Uri
begin

text \<open>
  The contest's clock in the web client: the phase of \<^verbatim>\<open>models/contest.ts\<close>, the countdown of
  \<^verbatim>\<open>utils/format.ts\<close> and \<^verbatim>\<open>components/animated-number.tsx\<close>, what \<^verbatim>\<open>pages/submit-page.tsx\<close> shows, and the
  picture of a user of \<^verbatim>\<open>models/identity.ts\<close>.  A time is a number of milliseconds, an invalid
  date is \<open>None\<close>.
\<close>

section \<open>The phase\<close>

datatype tone = Success_tone | Warning_tone | Neutral_tone

record contest_phase =
  phase_label :: jsstring
  phase_target :: "int option"
  phase_tone :: tone

text \<open>The labels say until the start, until the end and over.\<close>

definition until_start :: jsstring where
  "until_start = [0x958B, 0x59CB, 0x307E, 0x3067]"

definition until_end :: jsstring where
  "until_end = [0x7D42, 0x4E86, 0x307E, 0x3067]"

definition contest_over :: jsstring where
  "contest_over = [0x7D42, 0x4E86]"

definition date_less :: "int option \<Rightarrow> int option \<Rightarrow> bool" where
  "date_less a b = (case (a, b) of (Some x, Some y) \<Rightarrow> x < y | _ \<Rightarrow> False)"

definition getContestPhase ::
    "(jsstring \<Rightarrow> int option) \<Rightarrow> 'a contest_schedule_scheme \<Rightarrow> int option \<Rightarrow> contest_phase" where
  "getContestPhase other contest now =
     (let startsAt = new_date other (startAt contest); endsAt = new_date other (endAt contest) in
      if date_less now startsAt
      then \<lparr>phase_label = until_start, phase_target = startsAt, phase_tone = Warning_tone\<rparr>
      else if date_at_least endsAt now
      then \<lparr>phase_label = until_end, phase_target = endsAt, phase_tone = Success_tone\<rparr>
      else \<lparr>phase_label = contest_over, phase_target = endsAt, phase_tone = Neutral_tone\<rparr>)"

definition hasContestEnded ::
    "(jsstring \<Rightarrow> int option) \<Rightarrow> 'a contest_schedule_scheme \<Rightarrow> int option \<Rightarrow> bool" where
  "hasContestEnded other contest now = date_less (new_date other (endAt contest)) now"

text \<open>What the submission page shows for a loaded contest.\<close>

datatype submit_view = Not_yet_open | Closed | Submission_form

definition submit_view ::
    "(jsstring \<Rightarrow> int option) \<Rightarrow> 'a contest_schedule_scheme \<Rightarrow> int option \<Rightarrow> submit_view" where
  "submit_view other contest now =
     (if \<not> isSubmissionOpen other contest now
      then if date_less now (new_date other (startAt contest)) then Not_yet_open else Closed
      else Submission_form)"

text \<open>With valid dates the phase says until the start exactly before the contest has started, over
  exactly after it has ended and until the end in between; while it counts down, its target lies
  ahead.  The submission page shows the form from the start on, also after the end, so with a valid
  start it never says that submissions are closed.\<close>

theorem contest_phases:
  assumes "new_date other (startAt contest) = Some s" "new_date other (endAt contest) = Some e" "s \<le> e"
  shows "(phase_label (getContestPhase other contest (Some t)) = until_start \<longleftrightarrow> \<not> hasContestStarted other contest (Some t)) \<and>
    (phase_label (getContestPhase other contest (Some t)) = contest_over \<longleftrightarrow> hasContestEnded other contest (Some t)) \<and>
    (phase_label (getContestPhase other contest (Some t)) = until_end \<longleftrightarrow>
      hasContestStarted other contest (Some t) \<and> \<not> hasContestEnded other contest (Some t)) \<and>
    (hasContestEnded other contest (Some t) \<or>
      (\<exists>d. phase_target (getContestPhase other contest (Some t)) = Some d \<and> t \<le> d)) \<and>
    submit_view other contest (Some t) = (if hasContestStarted other contest (Some t) then Submission_form else Not_yet_open)"
  using assms
  by (auto simp: getContestPhase_def hasContestStarted_def hasContestEnded_def submit_view_def isSubmissionOpen_def
      date_less_def date_at_least_def until_start_def until_end_def contest_over_def Let_def)

theorem contest_phases_witness:
  "phase_label (getContestPhase (\<lambda>_. None) \<lparr>startAt = Date_object (Some 0), endAt = Date_object (Some 10)\<rparr> (Some 11)) = contest_over"
  using contest_phases [of "\<lambda>_. None" "\<lparr>startAt = Date_object (Some 0), endAt = Date_object (Some 10)\<rparr>" 0 10 11]
  by (simp add: hasContestEnded_def date_less_def)

section \<open>The countdown\<close>

definition total_seconds :: "number \<Rightarrow> number" where
  "total_seconds milliseconds = num_max (Fin 0) (num_ceil (num_div milliseconds (Fin 1000)))"

text \<open>Days, hours, minutes and seconds.\<close>

definition countdown_parts :: "number \<Rightarrow> number \<times> number \<times> number \<times> number" where
  "countdown_parts milliseconds =
     (let t = total_seconds milliseconds in
      (num_floor (num_div t (Fin 86400)), num_floor (num_div (num_mod t (Fin 86400)) (Fin 3600)),
       num_floor (num_div (num_mod t (Fin 3600)) (Fin 60)), num_mod t (Fin 60)))"

definition formatRemaining :: "number \<Rightarrow> jsstring" where
  "formatRemaining milliseconds =
     (let (days, hours, minutes, seconds) = countdown_parts milliseconds;
          clock = join_with (js '':'') (map (\<lambda>v. pad_start 2 48 (number_to_string v)) [hours, minutes, seconds])
      in if num_less (Fin 0) days then number_to_string days @ [0x65E5] @ js '' '' @ clock else clock)"

definition clock_text :: "nat \<Rightarrow> nat \<Rightarrow> nat \<Rightarrow> nat \<Rightarrow> jsstring" where
  "clock_text d h m s = (if 0 < d then nat_to_string d @ [0x65E5] @ js '' '' else []) @
     pad_start 2 48 (nat_to_string h) @ js '':'' @ pad_start 2 48 (nat_to_string m) @ js '':'' @
     pad_start 2 48 (nat_to_string s)"

lemma total_seconds_nat:
  assumes "ms < 2 ^ 53"
  shows "total_seconds (Fin (of_nat ms)) = Fin (of_nat ((ms + 999) div 1000))"
proof -
  have "num_ceil (num_div (Fin (of_nat ms)) (Fin 1000)) = Fin (of_nat ((ms + 999) div 1000))"
    using ceil_quotient [of 1000 ms] assms by simp
  then show ?thesis by (simp add: total_seconds_def)
qed

lemma countdown_nat:
  assumes "ms < 2 ^ 53" "t = (ms + 999) div 1000"
  shows "countdown_parts (Fin (of_nat ms)) = (Fin (of_nat (t div 86400)), Fin (of_nat (t mod 86400 div 3600)),
    Fin (of_nat (t mod 3600 div 60)), Fin (of_nat (t mod 60)))"
proof -
  have t: "t < 2 ^ 53" using assms by simp
  have m: "num_mod (Fin (of_nat t)) (Fin 86400) = Fin (of_nat (t mod 86400))"
    "num_mod (Fin (of_nat t)) (Fin 3600) = Fin (of_nat (t mod 3600))" "num_mod (Fin (of_nat t)) (Fin 60) = Fin (of_nat (t mod 60))"
    using num_mod_nat [of 86400 t] num_mod_nat [of 3600 t] num_mod_nat [of 60 t] by simp_all
  have f: "num_floor (num_div (Fin (of_nat n)) (Fin 86400)) = Fin (of_nat (n div 86400))"
    "num_floor (num_div (Fin (of_nat n)) (Fin 3600)) = Fin (of_nat (n div 3600))"
    "num_floor (num_div (Fin (of_nat n)) (Fin 60)) = Fin (of_nat (n div 60))" if "n < 2 ^ 53" for n
    using floor_quotient [of 86400 n] floor_quotient [of 3600 n] floor_quotient [of 60 n] that by simp_all
  have "t mod 86400 < 2 ^ 53" "t mod 3600 < 2 ^ 53"
    by (rule less_trans [OF mod_less_divisor]; simp)+
  then show ?thesis
    unfolding countdown_parts_def Let_def total_seconds_nat [OF assms(1), folded assms(2)] m using f t by simp
qed

lemma nat_number_string: "n \<le> 2 ^ 53 \<Longrightarrow> number_to_string (Fin (of_nat n)) = nat_to_string n"
  using number_to_string_int [of "int n"] by (simp add: int_to_string_def del: number_to_string.simps)

lemma mod_mult_div: "0 < b \<Longrightarrow> (a mod (b * c)) div b = a div b mod (c :: nat)"
  by (subst mod_mult2_eq) simp

lemma clock_value:
  fixes t :: nat
  shows "((t div 86400 * 24 + t mod 86400 div 3600) * 60 + t mod 3600 div 60) * 60 + t mod 60 = t"
proof -
  have parts: "t mod 86400 div 3600 = t div 3600 mod 24" "t mod 3600 div 60 = t div 60 mod 60"
    using mod_mult_div [of 3600 t 24] mod_mult_div [of 60 t 60] by simp_all
  have "t div 86400 = t div 3600 div 24" "t div 3600 = t div 60 div 60"
    using div_mult2_eq [of t 3600 24] div_mult2_eq [of t 60 60] by simp_all
  then have "t div 86400 * 24 + t div 3600 mod 24 = t div 3600" "t div 3600 * 60 + t div 60 mod 60 = t div 60"
    "t div 60 * 60 + t mod 60 = t"
    by (simp_all only: div_mult_mod_eq)
  then show ?thesis unfolding parts by (simp only:)
qed

lemma formatRemaining_parts:
  assumes "countdown_parts x = (Fin (of_nat d), Fin (of_nat h), Fin (of_nat m), Fin (of_nat s))"
    "d \<le> 2 ^ 53" "h \<le> 2 ^ 53" "m \<le> 2 ^ 53" "s \<le> 2 ^ 53"
  shows "formatRemaining x = clock_text d h m s"
  using assms(2-5)
  by (simp add: formatRemaining_def assms(1) clock_text_def nat_number_string del: number_to_string.simps)

lemma remaining_past: "formatRemaining (Fin (- of_nat ms)) = clock_text 0 0 0 0"
proof (rule formatRemaining_parts)
  have "total_seconds (Fin (- of_nat ms)) = Fin (of_nat 0)"
    unfolding total_seconds_def by (simp add: ceil_negative)
  then show "countdown_parts (Fin (- of_nat ms)) = (Fin (of_nat 0), Fin (of_nat 0), Fin (of_nat 0), Fin (of_nat 0))"
    using countdown_nat [of 0 0] total_seconds_nat [of 0] by (simp add: countdown_parts_def Let_def)
qed simp_all

text \<open>The countdown to a moment some milliseconds ahead shows days, hours, minutes and seconds
  within their ranges that add up to the time left, rounded up to full seconds; once the moment has
  passed it shows zero.\<close>

theorem remaining_clock:
  assumes "ms < 2 ^ 53"
  shows "(\<exists>d h m s. formatRemaining (Fin (of_nat ms)) = clock_text d h m s \<and> h < 24 \<and> m < 60 \<and> s < 60 \<and>
      countdown_parts (Fin (of_nat ms)) = (Fin (of_nat d), Fin (of_nat h), Fin (of_nat m), Fin (of_nat s)) \<and>
      ms \<le> ((d * 24 + h) * 60 + m) * 60000 + s * 1000 \<and> ((d * 24 + h) * 60 + m) * 60000 + s * 1000 < ms + 1000) \<and>
    formatRemaining (Fin (- of_nat ms)) = clock_text 0 0 0 0"
proof -
  define t where "t = (ms + 999) div 1000"
  let ?d = "t div 86400" and ?h = "t mod 86400 div 3600" and ?m = "t mod 3600 div 60" and ?s = "t mod 60"
  note parts = countdown_nat [OF assms t_def]
  have bounds: "?h < 24" "?m < 60" "?s < 60" by (simp_all add: div_less_iff_less_mult)
  have "t \<le> 2 ^ 53" using assms by (simp add: t_def)
  then have "?d \<le> 2 ^ 53" by (meson div_le_dividend order_trans)
  then have shown: "formatRemaining (Fin (of_nat ms)) = clock_text ?d ?h ?m ?s"
    using bounds by (intro formatRemaining_parts [OF parts]) simp_all
  have "((?d * 24 + ?h) * 60 + ?m) * 60000 + ?s * 1000 = t * 1000" using clock_value [of t] by linarith
  moreover have "ms \<le> t * 1000" "t * 1000 < ms + 1000" unfolding t_def by linarith+
  ultimately show ?thesis using shown bounds parts remaining_past by metis
qed

theorem remaining_clock_witness:
  "formatRemaining (Fin (- of_nat 5)) = js ''00:00:00''"
  using remaining_clock [of 5] by (simp add: clock_text_def pad_start_def digit_unit_def js_eval)

section \<open>Durations\<close>

text \<open>What \<open>NumberFlow\<close> is given for a duration in nanoseconds.\<close>

record duration_number =
  shown_value :: number
  fraction_digits :: nat
  number_prefix :: jsstring
  number_suffix :: jsstring

definition num_abs :: "number \<Rightarrow> number" where
  "num_abs n = (case n of Fin r \<Rightarrow> Fin \<bar>r\<bar> | NegInf \<Rightarrow> PosInf | x \<Rightarrow> x)"

definition duration_number :: "number \<Rightarrow> duration_number" where
  "duration_number ns =
     (let seconds = num_div ns (Fin 1000000000); small = num_less seconds (Fin 1) in
      \<lparr>shown_value = (if small then num_mul seconds (Fin 1000) else seconds),
       fraction_digits = (if small then 2 else 3), number_prefix = [],
       number_suffix = (if small then js '' ms'' else js '' s'')\<rparr>)"

text \<open>A difference has a sign; the sign of zero is plus-minus.\<close>

definition duration_delta_number :: "number \<Rightarrow> duration_number" where
  "duration_delta_number ns =
     (let seconds = num_div ns (Fin 1000000000); useMilliseconds = num_less (num_abs seconds) (Fin 1);
          v = (if useMilliseconds then num_mul seconds (Fin 1000) else seconds)
      in \<lparr>shown_value = v, fraction_digits = (if useMilliseconds then 2 else 3),
       number_prefix = (if num_less (Fin 0) v then js ''+'' else if v = Fin 0 then [0xB1] else []),
       number_suffix = (if useMilliseconds then js '' ms'' else js '' s'')\<rparr>)"

section \<open>The picture of a user\<close>

definition avatarUrl :: "jsstring \<Rightarrow> number \<Rightarrow> jsstring option" where
  "avatarUrl user pixels = map_option (\<lambda>u. js ''https://image-proxy.trap.jp/icon/'' @ u @ js ''?width='' @
     number_to_string pixels @ js ''&height='' @ number_to_string pixels @ js ''&format=webp'') (encodeURIComponent user)"

end
