(* ===== verification/Leaderboard_Player.thy ===== *)
theory Leaderboard_Player
  imports Leaderboard Contest_Clock
begin

text \<open>
  The replay of \<^verbatim>\<open>pages/leaderboard-page.tsx\<close> as a state machine: the selected board and language, the
  position of the replay and whether it plays.  A step is a choice of the user, new data, or a tick
  of the interval timer, which the page keeps while the replay plays and there are submissions.
\<close>

record replay_page =
  page_board :: board
  page_language :: "language option"
  replayIndex :: "nat option"
  replayPlaying :: bool
  submissions :: "replay_submission list"
  published :: bool

section \<open>What the page shows\<close>

definition replayAvailable ::
    "(jsstring \<Rightarrow> int option) \<Rightarrow> 'a contest_schedule_scheme \<Rightarrow> int option \<Rightarrow> replay_page \<Rightarrow> bool" where
  "replayAvailable other contest now s \<longleftrightarrow> page_board s = Private_board \<and> published s \<and> hasContestEnded other contest now"

definition replayEntries ::
    "(jsstring \<Rightarrow> int option) \<Rightarrow> leaderboard_entry list \<Rightarrow> replay_page \<Rightarrow> leaderboard_entry list option" where
  "replayEntries other ranked s =
     (case replayIndex s of
        Some i \<Rightarrow>
          if i < length (submissions s) then buildLeaderboardReplayFrame other (submissions s) (int i) (page_language s)
          else Some ranked
      | None \<Rightarrow> Some ranked)"

definition currentSubmission :: "replay_page \<Rightarrow> replay_submission option" where
  "currentSubmission s =
     (case replayIndex s of
        None \<Rightarrow> None
      | Some i \<Rightarrow> if 1 \<le> i \<and> i \<le> length (submissions s) then Some (submissions s ! (i - 1)) else None)"

definition replay_finished :: "replay_page \<Rightarrow> bool" where
  "replay_finished s \<longleftrightarrow> (case replayIndex s of None \<Rightarrow> True | Some i \<Rightarrow> length (submissions s) \<le> i)"

text \<open>The button's label: loading, pause, resume, again and play.\<close>

definition replay_label :: "bool \<Rightarrow> replay_page \<Rightarrow> jsstring" where
  "replay_label isPending s =
     (if isPending then [0x5C65, 0x6B74, 0x3092, 0x8AAD, 0x8FBC, 0x4E2D]
      else if replayPlaying s then [0x4E00, 0x6642, 0x505C, 0x6B62]
      else (case replayIndex s of
          Some i \<Rightarrow> if i < length (submissions s) then [0x518D, 0x958B] else [0x3082, 0x3046, 0x4E00, 0x5EA6]
        | None \<Rightarrow> [0x65E9, 0x9001, 0x308A, 0x518D, 0x751F]))"

section \<open>Its steps\<close>

definition initial_page :: replay_page where
  "initial_page = \<lparr>page_board = Public_board, page_language = None, replayIndex = None, replayPlaying = False,
     submissions = [], published = False\<rparr>"

text \<open>An effect resets the replay when the board or the language has changed.\<close>

definition reset_replay :: "replay_page \<Rightarrow> replay_page" where
  "reset_replay s = s\<lparr>replayIndex := None, replayPlaying := False\<rparr>"

definition select_board :: "board \<Rightarrow> replay_page \<Rightarrow> replay_page" where
  "select_board b s = (if b = page_board s then s else reset_replay (s\<lparr>page_board := b\<rparr>))"

definition select_language :: "language option \<Rightarrow> replay_page \<Rightarrow> replay_page" where
  "select_language l s = (if l = page_language s then s else reset_replay (s\<lparr>page_language := l\<rparr>))"

definition publish_changes :: "bool \<Rightarrow> replay_page \<Rightarrow> replay_page" where
  "publish_changes p s = select_board (if p then Private_board else Public_board) (s\<lparr>published := p\<rparr>)"

definition toggleReplay :: "replay_page \<Rightarrow> replay_page" where
  "toggleReplay s =
     (if replay_finished s
      then s\<lparr>replayIndex := Some (min 1 (length (submissions s))), replayPlaying := True\<rparr>
      else s\<lparr>replayPlaying := \<not> replayPlaying s\<rparr>)"

definition seek :: "nat \<Rightarrow> replay_page \<Rightarrow> replay_page" where
  "seek i s = s\<lparr>replayPlaying := False, replayIndex := Some i\<rparr>"

definition timer_active :: "replay_page \<Rightarrow> bool" where
  "timer_active s \<longleftrightarrow> replayPlaying s \<and> submissions s \<noteq> []"

definition replay_tick :: "replay_page \<Rightarrow> replay_page" where
  "replay_tick s =
     (let n = length (submissions s);
          next = min n ((case replayIndex s of None \<Rightarrow> 0 | Some i \<Rightarrow> i) + 1)
      in s\<lparr>replayIndex := Some next, replayPlaying := (if next = n then False else replayPlaying s)\<rparr>)"

inductive page_step :: "replay_page \<Rightarrow> replay_page \<Rightarrow> bool" where
  board: "b = Private_board \<longrightarrow> published s \<Longrightarrow> page_step s (select_board b s)"
| language: "page_step s (select_language l s)"
| publish: "page_step s (publish_changes p s)"
| loaded: "page_step s (s\<lparr>submissions := subs\<rparr>)"
| toggle: "submissions s \<noteq> [] \<Longrightarrow> page_step s (toggleReplay s)"
| seek: "replayIndex s \<noteq> None \<Longrightarrow> 1 \<le> i \<Longrightarrow> i \<le> length (submissions s) \<Longrightarrow> page_step s (seek i s)"
| tick: "timer_active s \<Longrightarrow> page_step s (replay_tick s)"

inductive page_reachable :: "replay_page \<Rightarrow> bool" where
  initial: "page_reachable initial_page"
| step: "page_reachable s \<Longrightarrow> page_step s s' \<Longrightarrow> page_reachable s'"

inductive_simps page_step_simps: "page_step s s'"

section \<open>A replay that plays reaches its end\<close>

definition page_ok :: "replay_page \<Rightarrow> bool" where
  "page_ok s \<longleftrightarrow> (replayPlaying s \<longrightarrow> replayIndex s \<noteq> None) \<and> (\<forall>i. replayIndex s = Some i \<longrightarrow> 1 \<le> i)"

lemma replay_finished_None: "\<not> replay_finished s \<Longrightarrow> replayIndex s \<noteq> None"
  by (auto simp: replay_finished_def split: option.splits)

lemma page_step_ok:
  assumes "page_ok s" "page_step s s'"
  shows "page_ok s'"
  using assms(2)
proof cases
  case toggle
  then show ?thesis
    using assms(1) replay_finished_None [of s] by (auto simp: toggleReplay_def page_ok_def min_def Suc_le_eq)
next
  case tick
  then show ?thesis
    using assms(1) by (auto simp: replay_tick_def page_ok_def timer_active_def Let_def min_def Suc_le_eq)
qed (use assms(1) in \<open>auto simp: page_ok_def select_board_def select_language_def publish_changes_def reset_replay_def seek_def\<close>)

lemma page_reachable_ok: "page_reachable s \<Longrightarrow> page_ok s"
proof (induction rule: page_reachable.induct)
  case initial
  show ?case by (simp add: page_ok_def initial_page_def)
next
  case (step s s')
  then show ?case using page_step_ok by blast
qed

definition ticks :: "nat \<Rightarrow> replay_page \<Rightarrow> replay_page" where
  "ticks k s = (replay_tick ^^ k) s"

lemma ticks_Suc: "ticks (Suc k) s = replay_tick (ticks k s)"
  by (simp add: ticks_def)

lemma replay_tick_fields [simp]:
  "submissions (replay_tick s) = submissions s" "page_board (replay_tick s) = page_board s"
  "page_language (replay_tick s) = page_language s" "published (replay_tick s) = published s"
  by (simp_all add: replay_tick_def Let_def)

lemma ticks_playing:
  assumes "replayIndex s = Some i" "replayPlaying s" "j < max 1 (length (submissions s) - i)"
  shows "replayIndex (ticks j s) = Some (if j = 0 then i else min (length (submissions s)) (i + j)) \<and>
    replayPlaying (ticks j s) \<and> submissions (ticks j s) = submissions s \<and> page_language (ticks j s) = page_language s"
  using assms(3)
proof (induction j)
  case 0
  then show ?case using assms(1,2) by (simp add: ticks_def)
next
  case (Suc j)
  then have j: "Suc j < length (submissions s) - i" by simp
  with Suc have IH: "replayIndex (ticks j s) = Some (i + j)" "replayPlaying (ticks j s)"
    "submissions (ticks j s) = submissions s" "page_language (ticks j s) = page_language s" by (auto simp: min_def split: if_splits)
  then show ?case using j by (simp add: ticks_Suc replay_tick_def Let_def)
qed

text \<open>C30: A replay that plays advances by one submission with every tick and shows the frame of each
  position on the way, stops exactly when it has reached the last submission, and then the table shows
  the final ranking again; so without other input it always comes to its end.\<close>

theorem replay_reaches_end:
  assumes "page_reachable s" "timer_active s"
  shows "\<exists>i k. replayIndex s = Some i \<and> k = max 1 (length (submissions s) - i) \<and>
    (\<forall>j < k. timer_active (ticks j s) \<and> page_reachable (ticks j s)) \<and>
    (\<forall>j. 0 < j \<longrightarrow> j < k \<longrightarrow> replayIndex (ticks j s) = Some (i + j) \<and>
      currentSubmission (ticks j s) = Some (submissions s ! (i + j - 1)) \<and>
      replayEntries other ranked (ticks j s) =
        buildLeaderboardReplayFrame other (submissions s) (int (i + j)) (page_language s)) \<and>
    \<not> replayPlaying (ticks k s) \<and> replayIndex (ticks k s) = Some (length (submissions s)) \<and>
    replayEntries other ranked (ticks k s) = Some ranked"
proof -
  let ?n = "length (submissions s)"
  have playing: "replayPlaying s" and n: "0 < ?n" using assms(2) by (simp_all add: timer_active_def)
  obtain i where i: "replayIndex s = Some i" "1 \<le> i"
    using page_reachable_ok [OF assms(1)] playing by (auto simp: page_ok_def)
  define k where "k = max 1 (?n - i)"
  note run = ticks_playing [OF i(1) playing, folded k_def]
  have active: "timer_active (ticks j s) \<and> page_reachable (ticks j s)" if "j < k" for j
    using that
  proof (induction j)
    case 0
    show ?case using assms by (simp add: ticks_def)
  next
    case (Suc j)
    then have "page_reachable (ticks (Suc j) s)"
      unfolding ticks_Suc by (intro page_reachable.step [OF _ page_step.tick]) simp_all
    then show ?case using run [OF Suc.prems] n by (auto simp: timer_active_def)
  qed
  have middle: "replayIndex (ticks j s) = Some (i + j)" "i + j < ?n" if "0 < j" "j < k" for j
    using run [OF that(2)] that by (simp_all add: k_def min_def split: if_splits)
  have frames: "currentSubmission (ticks j s) = Some (submissions s ! (i + j - 1)) \<and>
      replayEntries other ranked (ticks j s) =
        buildLeaderboardReplayFrame other (submissions s) (int (i + j)) (page_language s)" if "0 < j" "j < k" for j
    using middle [OF that] run [OF that(2)] i(2) by (simp add: currentSubmission_def replayEntries_def)
  obtain l where l: "k = Suc l" by (cases k) (auto simp: k_def)
  then have last: "replayIndex (ticks l s) = Some (if l = 0 then i else min ?n (i + l))" "replayPlaying (ticks l s)"
    "submissions (ticks l s) = submissions s" using run [of l] by simp_all
  have "min ?n ((if l = 0 then i else min ?n (i + l)) + 1) = ?n"
    using l by (auto simp: k_def max_def min_def split: if_splits)
  then have final: "\<not> replayPlaying (ticks k s)" "replayIndex (ticks k s) = Some ?n" "submissions (ticks k s) = submissions s"
    using last by (simp_all add: l ticks_Suc replay_tick_def Let_def)
  then have "replayEntries other ranked (ticks k s) = Some ranked" by (simp add: replayEntries_def)
  with i(1) active middle(1) frames final show ?thesis by (auto simp: k_def)
qed

section \<open>Witness\<close>

definition demo_replay :: replay_page where
  "demo_replay = toggleReplay (initial_page\<lparr>submissions :=
     [\<lparr>sub_id = js ''1'', sub_username = js ''a'', sub_language = None, publicVerdict = None, privateVerdict = None,
       privateScoreNs = None, disqualified = False, sub_submittedAt = js ''2027-01-01T00:00:00Z''\<rparr>]\<rparr>)"

theorem replay_reaches_end_witness:
  "\<exists>k. replayIndex (ticks k demo_replay) = Some 1 \<and> \<not> replayPlaying (ticks k demo_replay) \<and>
    replayEntries (\<lambda>_. None) [] (ticks k demo_replay) = Some []"
proof -
  have "page_reachable demo_replay"
    unfolding demo_replay_def
    by (rule page_reachable.step [OF page_reachable.step [OF page_reachable.initial page_step.loaded] page_step.toggle]) simp
  moreover have "timer_active demo_replay"
    by (simp add: demo_replay_def timer_active_def toggleReplay_def replay_finished_def initial_page_def)
  moreover have "length (submissions demo_replay) = 1" by (simp add: demo_replay_def toggleReplay_def)
  ultimately show ?thesis using replay_reaches_end [of demo_replay "\<lambda>_. None" "[]"] by auto
qed

end
