(* ===== verification/Ts_Types.thy ===== *)
theory Ts_Types
  imports Js_Json
begin

text \<open>
  The types of the HTTP contract as data, and what it means that a value of the wire has one.
  \<open>conforms t v\<close> is TypeScript's structural reading: an object has its required members, a member
  that is present has its type, and further members are allowed.  An operation describes what a
  request carries and the responses it may get.
\<close>

datatype presence = Required | Optional

datatype ts_type =
    String_type
  | Number_type
  | Boolean_type
  | Null_type
  | Unknown_type
  | Literal_type json
  | Array_type ts_type
  | Union_type "ts_type list"
  | Both_types ts_type ts_type
  | Object_type "(jsstring \<times> presence \<times> ts_type) list"

definition name_type :: "jsstring \<Rightarrow> ts_type" where
  "name_type s = Literal_type (JStr s)"

lemma size_member_type:
  "(k, p, t) \<in> set fs \<Longrightarrow> size t < Suc (size_list (size_prod (\<lambda>x. 0) (size_prod (\<lambda>x. 0) size)) fs)"
  using size_list_estimation [of "(k, p, t)" fs "size t" "size_prod (\<lambda>x. 0) (size_prod (\<lambda>x. 0) size)"]
  by simp

lemma size_alternative: "t \<in> set ts \<Longrightarrow> size t < Suc (size_list size ts)"
  by (induction ts) auto

function conforms :: "ts_type \<Rightarrow> json \<Rightarrow> bool" where
  "conforms String_type v = (case v of JStr s \<Rightarrow> True | _ \<Rightarrow> False)"
| "conforms Number_type v = (case v of JNum x \<Rightarrow> True | _ \<Rightarrow> False)"
| "conforms Boolean_type v = (case v of JBool b \<Rightarrow> True | _ \<Rightarrow> False)"
| "conforms Null_type v = (v = JNull)"
| "conforms Unknown_type v = True"
| "conforms (Literal_type l) v = (v = l)"
| "conforms (Array_type t) v = (case v of JArr vs \<Rightarrow> list_all (conforms t) vs | _ \<Rightarrow> False)"
| "conforms (Union_type ts) v = list_ex (\<lambda>t. conforms t v) ts"
| "conforms (Both_types t u) v = (conforms t v \<and> conforms u v)"
| "conforms (Object_type fs) v =
     (case v of
        JObj ms \<Rightarrow> list_all (\<lambda>f. case map_of ms (fst f) of
            None \<Rightarrow> fst (snd f) = Optional
          | Some x \<Rightarrow> conforms (snd (snd f)) x) fs
      | _ \<Rightarrow> False)"
  by pat_completeness auto

termination conforms
  by (relation "measure (\<lambda>(t, v). size t)") (auto intro: size_member_type size_alternative)

declare conforms.simps [simp del]

lemmas conforms_basic [simp] = conforms.simps(4-6) conforms.simps(8,9)

lemma conforms_object_iff:
  "conforms (Object_type fs) v \<longleftrightarrow>
    (\<exists>ms. v = JObj ms \<and> (\<forall>(k, p, t) \<in> set fs.
       (map_of ms k = None \<and> p = Optional) \<or> (\<exists>x. map_of ms k = Some x \<and> conforms t x)))"
  by (cases v) (auto simp: conforms.simps list_all_iff split: option.splits)

lemma conforms_names_iff: "conforms (Union_type (map name_type names)) v \<longleftrightarrow> (\<exists>s \<in> set names. v = JStr s)"
  by (auto simp: list_ex_iff name_type_def)

lemma conforms_string_iff: "conforms String_type v \<longleftrightarrow> (\<exists>s. v = JStr s)"
  by (cases v) (auto simp: conforms.simps)

lemma conforms_number_iff: "conforms Number_type v \<longleftrightarrow> (\<exists>x. v = JNum x)"
  by (cases v) (auto simp: conforms.simps)

lemma conforms_boolean_iff: "conforms Boolean_type v \<longleftrightarrow> (\<exists>b. v = JBool b)"
  by (cases v) (auto simp: conforms.simps)

lemma conforms_array_iff: "conforms (Array_type t) v \<longleftrightarrow> (\<exists>vs. v = JArr vs \<and> (\<forall>x \<in> set vs. conforms t x))"
  by (cases v) (auto simp: conforms.simps list_all_iff)

lemmas conforms_iff = conforms_object_iff conforms_names_iff conforms_string_iff conforms_number_iff
  conforms_boolean_iff conforms_array_iff

lemma conforms_member:
  assumes "conforms (Object_type fs) v" "(k, Required, t) \<in> set fs"
  shows "\<exists>x. member v k = Some x \<and> conforms t x"
  using assms unfolding conforms_object_iff by (fastforce simp: member_def)

section \<open>Operations\<close>

datatype http_method = GET | PUT | POST | DELETE | OPTIONS | HEAD | PATCH | TRACE

type_synonym members_type = "(jsstring \<times> presence \<times> ts_type) list"

text \<open>\<open>headers\<close> lists the named ones: every response allows any other header.  A \<open>content\<close> is a type per
  media type.\<close>

record response_type =
  status :: nat
  headers :: members_type
  content :: "(jsstring \<times> ts_type) list option"

record operation =
  query :: "(presence \<times> members_type) option"
  header :: "(presence \<times> members_type) option"
  path :: "(presence \<times> members_type) option"
  cookie :: "(presence \<times> members_type) option"
  request_body :: "(jsstring \<times> ts_type) list option"
  responses :: "response_type list"

type_synonym path_item = "jsstring \<times> (http_method \<times> operation) list"

definition operation_at :: "path_item list \<Rightarrow> http_method \<Rightarrow> jsstring \<Rightarrow> operation option" where
  "operation_at ps m t = Option.bind (map_of ps t) (\<lambda>ms. map_of ms m)"

end
