(* ===== verification/Api.thy ===== *)
theory Api
  imports Ts_Types
begin

text \<open>
  The HTTP contract \<^verbatim>\<open>packages/api/src/schema.ts\<close>: every component schema as a type, every operation
  with its parameters, body and responses, and the table of paths.  A constant has the name of
  the declaration; \<open>components["schemas"]["X"]\<close> is the constant \<open>X\<close> and \<open>operations["f"]\<close> the
  constant \<open>f\<close>.  A member declared \<open>?: never\<close> is \<open>None\<close> or, for a method of a path, not listed.
\<close>

section \<open>Component schemas\<close>

definition AccessKeyResponse :: ts_type where
  "AccessKeyResponse = Object_type [
      (js ''accessKey'', Required, String_type),
      (js ''prefix'', Required, String_type)]"

definition AuthUser :: ts_type where
  "AuthUser = Object_type [
      (js ''username'', Required, String_type),
      (js ''isAdmin'', Required, Boolean_type),
      (js ''method'', Required, Union_type (map name_type [js ''header'', js ''token'']))]"

definition BenchmarkEnvironment :: ts_type where
  "BenchmarkEnvironment = Object_type [
      (js ''id'', Required, String_type),
      (js ''instanceType'', Required, String_type),
      (js ''cpu'', Required, String_type),
      (js ''memory'', Required, String_type),
      (js ''os'', Required, String_type),
      (js ''kernel'', Required, String_type),
      (js ''docker'', Required, String_type),
      (js ''runnerImage'', Required, String_type),
      (js ''node'', Required, String_type),
      (js ''bun'', Required, String_type),
      (js ''ruby'', Required, String_type),
      (js ''sharedLibraries'', Required, Array_type String_type),
      (js ''repetitions'', Required, Number_type),
      (js ''slowFirstAttemptSeconds'', Required, Number_type),
      (js ''timeoutSeconds'', Required, Number_type),
      (js ''pidLimit'', Required, Number_type),
      (js ''stdioLimitBytes'', Required, Number_type),
      (js ''outputLimitBytes'', Required, Number_type)]"

definition Verdict :: ts_type where
  "Verdict = Union_type (map name_type [js ''accepted'', js ''wrong_answer'',
        js ''runtime_error'', js ''time_limit'', js ''output_limit'', js ''invalid_submission'',
        js ''infrastructure_error'', js ''disqualified''])"

definition Nanoseconds :: ts_type where
  "Nanoseconds = String_type"

definition BenchmarkOutcome :: ts_type where
  "BenchmarkOutcome = Object_type [
      (js ''verdict'', Required, Verdict),
      (js ''scoreNs'', Required, Union_type [Both_types String_type Nanoseconds, Null_type]),
      (js ''error'', Required, Union_type [String_type, Null_type])]"

definition DateTimeString :: ts_type where
  "DateTimeString = String_type"

definition LeaderboardBoard :: ts_type where
  "LeaderboardBoard = Union_type (map name_type [js ''public'', js ''private''])"

definition Uuid :: ts_type where
  "Uuid = String_type"

definition Language :: ts_type where
  "Language = Union_type (map name_type [js ''c'', js ''cpp'', js ''go'', js ''rust'',
        js ''zig'', js ''csharp'', js ''other'', js ''javascript'', js ''typescript'',
        js ''bun'', js ''ruby''])"

definition LeaderboardEntry :: ts_type where
  "LeaderboardEntry = Object_type [
      (js ''rank'', Required, Union_type [Number_type, Null_type]),
      (js ''rankChange'', Required, Union_type [Number_type, Null_type]),
      (js ''username'', Required, String_type),
      (js ''submissionId'', Required, Uuid),
      (js ''language'', Required, Language),
      (js ''scoreNs'', Required, Union_type [Both_types String_type Nanoseconds, Null_type]),
      (js ''verdict'', Required, Verdict),
      (js ''submittedAt'', Required, DateTimeString),
      (js ''sourceAvailable'', Required, Boolean_type)]"

definition Leaderboard :: ts_type where
  "Leaderboard = Object_type [
      (js ''board'', Required, LeaderboardBoard),
      (js ''privatePublished'', Required, Boolean_type),
      (js ''ranked'', Required, Array_type LeaderboardEntry),
      (js ''disqualified'', Required, Array_type LeaderboardEntry)]"

definition ContestLiveUpdate :: ts_type where
  "ContestLiveUpdate = Object_type [
      (js ''contest'', Required, Object_type [
          (js ''privatePublishedAt'', Required, Union_type [Both_types String_type DateTimeString, Null_type]),
          (js ''participants'', Required, Number_type),
          (js ''totalSubmissions'', Required, Number_type)]),
      (js ''leaderboard'', Required, Leaderboard)]"

definition ContestOverview :: ts_type where
  "ContestOverview = Object_type [
      (js ''id'', Required, String_type),
      (js ''name'', Required, String_type),
      (js ''startAt'', Required, DateTimeString),
      (js ''endAt'', Required, DateTimeString),
      (js ''privatePublishedAt'', Required, Union_type [Both_types String_type DateTimeString, Null_type]),
      (js ''participants'', Required, Number_type),
      (js ''totalSubmissions'', Required, Number_type),
      (js ''environment'', Required, BenchmarkEnvironment)]"

definition DatasetKind :: ts_type where
  "DatasetKind = Union_type (map name_type [js ''input'', js ''expected''])"

definition DatasetArtifact :: ts_type where
  "DatasetArtifact = Object_type [
      (js ''id'', Required, String_type),
      (js ''kind'', Required, DatasetKind),
      (js ''label'', Required, String_type),
      (js ''objectKey'', Required, String_type),
      (js ''rows'', Required, Number_type),
      (js ''compressedBytes'', Required, Number_type),
      (js ''uncompressedBytes'', Required, Number_type),
      (js ''compressedSha256'', Required, String_type),
      (js ''uncompressedSha256'', Required, String_type),
      (js ''isPublic'', Required, Boolean_type)]"

definition DatasetManifest :: ts_type where
  "DatasetManifest = Object_type [
      (js ''schemaVersion'', Required, Literal_type (JNum (Fin 1))),
      (js ''contestId'', Required, String_type),
      (js ''generatedAt'', Required, DateTimeString),
      (js ''generatorRevision'', Required, String_type),
      (js ''artifacts'', Required, Array_type DatasetArtifact)]"

definition PublicDataset :: ts_type where
  "PublicDataset = Object_type [
      (js ''id'', Required, String_type),
      (js ''kind'', Required, DatasetKind),
      (js ''label'', Required, String_type),
      (js ''rows'', Required, String_type),
      (js ''compressedBytes'', Required, String_type),
      (js ''uncompressedBytes'', Required, String_type),
      (js ''compressedSha256'', Required, String_type),
      (js ''uncompressedSha256'', Required, String_type),
      (js ''downloadUrl'', Required, String_type)]"

definition DatasetsResponse :: ts_type where
  "DatasetsResponse = Object_type [
      (js ''datasets'', Required, Array_type PublicDataset)]"

definition ErrorDetail :: ts_type where
  "ErrorDetail = Object_type [
      (js ''code'', Required, String_type),
      (js ''message'', Required, String_type),
      (js ''requestId'', Required, String_type)]"

definition ExecutionKind :: ts_type where
  "ExecutionKind = Union_type (map name_type [js ''native'', js ''javascript'', js ''typescript'',
        js ''bun'', js ''ruby''])"

definition LeaderboardReplaySubmission :: ts_type where
  "LeaderboardReplaySubmission = Object_type [
      (js ''submissionId'', Required, Uuid),
      (js ''username'', Required, String_type),
      (js ''language'', Required, Union_type [Language, Null_type]),
      (js ''publicVerdict'', Required, Union_type [Verdict, Null_type]),
      (js ''privateVerdict'', Required, Union_type [Verdict, Null_type]),
      (js ''privateScoreNs'', Required, Union_type [Both_types String_type Nanoseconds, Null_type]),
      (js ''disqualified'', Required, Boolean_type),
      (js ''submittedAt'', Required, DateTimeString)]"

definition LeaderboardReplayResponse :: ts_type where
  "LeaderboardReplayResponse = Object_type [
      (js ''submissions'', Required, Array_type LeaderboardReplaySubmission)]"

definition MeResponse :: ts_type where
  "MeResponse = Object_type [
      (js ''user'', Required, Union_type [AuthUser, Null_type])]"

definition OkResponse :: ts_type where
  "OkResponse = Object_type [
      (js ''ok'', Required, Boolean_type)]"

definition SubmissionStatus :: ts_type where
  "SubmissionStatus = Union_type (map name_type [js ''uploading'', js ''queued'', js ''running'',
        js ''completed'', js ''rejected'', js ''infrastructure_error'', js ''disqualified''])"

definition Submission :: ts_type where
  "Submission = Object_type [
      (js ''id'', Required, Uuid),
      (js ''username'', Required, String_type),
      (js ''executionKind'', Required, Union_type [ExecutionKind, Null_type]),
      (js ''language'', Required, Union_type [Language, Null_type]),
      (js ''sourceFilename'', Required, Union_type [String_type, Null_type]),
      (js ''artifactSha256'', Required, Union_type [String_type, Null_type]),
      (js ''status'', Required, SubmissionStatus),
      (js ''public'', Required, Union_type [BenchmarkOutcome, Null_type]),
      (js ''private'', Optional, Union_type [BenchmarkOutcome, Null_type]),
      (js ''infrastructureError'', Required, Union_type [String_type, Null_type]),
      (js ''disqualifiedReason'', Required, Union_type [String_type, Null_type]),
      (js ''uploadStartedAt'', Required, DateTimeString),
      (js ''queuedAt'', Required, Union_type [Both_types String_type DateTimeString, Null_type]),
      (js ''startedAt'', Required, Union_type [Both_types String_type DateTimeString, Null_type]),
      (js ''completedAt'', Required, Union_type [Both_types String_type DateTimeString, Null_type]),
      (js ''queueAhead'', Required, Union_type [Number_type, Null_type]),
      (js ''submissionNumber'', Required, Union_type [Number_type, Null_type])]"

definition SubmissionAccepted :: ts_type where
  "SubmissionAccepted = Object_type [
      (js ''id'', Required, Uuid),
      (js ''status'', Required, Literal_type (JStr (js ''queued''))),
      (js ''statusUrl'', Required, String_type),
      (js ''uploadStartedAt'', Required, DateTimeString)]"

definition SubmissionResponse :: ts_type where
  "SubmissionResponse = Object_type [
      (js ''submission'', Required, Submission)]"

definition SubmissionUpload :: ts_type where
  "SubmissionUpload = Object_type [
      (js ''executionKind'', Required, ExecutionKind),
      (js ''language'', Optional, Language),
      (js ''source'', Required, String_type),
      (js ''binary'', Optional, String_type)]"

definition SubmissionsResponse :: ts_type where
  "SubmissionsResponse = Object_type [
      (js ''submissions'', Required, Array_type Submission)]"

section \<open>Operations\<close>

text \<open>The response of every operation to a failure: any headers, and a JSON object with the error.\<close>

definition error_response :: "nat \<Rightarrow> response_type" where
  "error_response code = \<lparr>status = code, headers = [],
     content = Some [(js ''application/json'', Object_type [(js ''error'', Required, ErrorDetail)])]\<rparr>"

definition issueAccessKey :: operation where
  "issueAccessKey = \<lparr>query = None, header = None, path = None, cookie = None,
    request_body = None,
    responses = [
       \<lparr>status = 201, headers = [], content = Some [(js ''application/json'', AccessKeyResponse)]\<rparr>,
       error_response 400, error_response 401, error_response 403, error_response 404,
       error_response 409, error_response 500]\<rparr>"

definition revokeAccessKey :: operation where
  "revokeAccessKey = \<lparr>query = None, header = None, path = None, cookie = None,
    request_body = None,
    responses = [
       \<lparr>status = 204, headers = [], content = None\<rparr>,
       error_response 400, error_response 401, error_response 403, error_response 404,
       error_response 409, error_response 500]\<rparr>"

definition importDatasets :: operation where
  "importDatasets = \<lparr>query = None, header = None, path = None, cookie = None,
    request_body = Some [(js ''application/json'', DatasetManifest)],
    responses = [
       \<lparr>status = 200, headers = [], content = Some [(js ''application/json'', Object_type [(js ''imported'', Required, Number_type)])]\<rparr>,
       error_response 400, error_response 401, error_response 403, error_response 404,
       error_response 409, error_response 500]\<rparr>"

definition publishPrivate :: operation where
  "publishPrivate = \<lparr>query = None, header = None, path = None, cookie = None,
    request_body = None,
    responses = [
       \<lparr>status = 200, headers = [], content = Some [(js ''application/json'', Object_type [(js ''published'', Required, Literal_type (JBool True))])]\<rparr>,
       error_response 400, error_response 401, error_response 403, error_response 404,
       error_response 409, error_response 500]\<rparr>"

definition unpublishPrivate :: operation where
  "unpublishPrivate = \<lparr>query = None, header = None, path = None, cookie = None,
    request_body = None,
    responses = [
       \<lparr>status = 200, headers = [], content = Some [(js ''application/json'', Object_type [(js ''published'', Required, Literal_type (JBool False))])]\<rparr>,
       error_response 400, error_response 401, error_response 403, error_response 404,
       error_response 409, error_response 500]\<rparr>"

definition listAdminSubmissions :: operation where
  "listAdminSubmissions = \<lparr>query = None, header = None, path = None, cookie = None,
    request_body = None,
    responses = [
       \<lparr>status = 200, headers = [], content = Some [(js ''application/json'', SubmissionsResponse)]\<rparr>,
       error_response 400, error_response 401, error_response 403, error_response 404,
       error_response 409, error_response 500]\<rparr>"

definition disqualifySubmission :: operation where
  "disqualifySubmission = \<lparr>query = None,
    header = None, path = Some (Required, [(js ''id'', Required, Uuid)]), cookie = None,
    request_body = Some [(js ''application/json'', Object_type [(js ''reason'', Required, String_type)])],
    responses = [
       \<lparr>status = 200, headers = [], content = Some [(js ''application/json'', OkResponse)]\<rparr>,
       error_response 400, error_response 401, error_response 403, error_response 404,
       error_response 409, error_response 500]\<rparr>"

definition retrySubmission :: operation where
  "retrySubmission = \<lparr>query = None,
    header = None, path = Some (Required, [(js ''id'', Required, Uuid)]), cookie = None,
    request_body = None,
    responses = [
       \<lparr>status = 200, headers = [], content = Some [(js ''application/json'', OkResponse)]\<rparr>,
       error_response 400, error_response 401, error_response 403, error_response 404,
       error_response 409, error_response 500]\<rparr>"

definition getContest :: operation where
  "getContest = \<lparr>query = None, header = None, path = None, cookie = None,
    request_body = None,
    responses = [
       \<lparr>status = 200, headers = [], content = Some [(js ''application/json'', ContestOverview)]\<rparr>,
       error_response 400, error_response 401, error_response 403, error_response 404,
       error_response 409, error_response 500]\<rparr>"

definition streamContest :: operation where
  "streamContest = \<lparr>query = Some (Optional, [(js ''board'', Optional, LeaderboardBoard), (js ''language'', Optional, Language)]),
    header = None, path = None, cookie = None,
    request_body = None,
    responses = [
       \<lparr>status = 200, headers = [], content = Some [(js ''text/event-stream'', String_type)]\<rparr>,
       error_response 400, error_response 401, error_response 403, error_response 404,
       error_response 409, error_response 500]\<rparr>"

definition getDatasets :: operation where
  "getDatasets = \<lparr>query = None, header = None, path = None, cookie = None,
    request_body = None,
    responses = [
       \<lparr>status = 200, headers = [], content = Some [(js ''application/json'', DatasetsResponse)]\<rparr>,
       error_response 400, error_response 401, error_response 403, error_response 404,
       error_response 409, error_response 500]\<rparr>"

definition downloadDataset :: operation where
  "downloadDataset = \<lparr>query = None,
    header = None, path = Some (Required, [(js ''datasetId'', Required, String_type), (js ''artifact'', Required, DatasetKind)]), cookie = None,
    request_body = None,
    responses = [
       \<lparr>status = 302, headers = [(js ''location'', Required, String_type)], content = None\<rparr>,
       error_response 400, error_response 401, error_response 403, error_response 404,
       error_response 409, error_response 500]\<rparr>"

definition getHealth :: operation where
  "getHealth = \<lparr>query = None, header = None, path = None, cookie = None,
    request_body = None,
    responses = [
       \<lparr>status = 200, headers = [], content = Some [(js ''application/json'', OkResponse)]\<rparr>]\<rparr>"

definition getLeaderboard :: operation where
  "getLeaderboard = \<lparr>query = Some (Optional, [(js ''board'', Optional, LeaderboardBoard), (js ''language'', Optional, Language)]),
    header = None, path = None, cookie = None,
    request_body = None,
    responses = [
       \<lparr>status = 200, headers = [], content = Some [(js ''application/json'', Leaderboard)]\<rparr>,
       error_response 400, error_response 401, error_response 403, error_response 404,
       error_response 409, error_response 500]\<rparr>"

definition getLeaderboardReplay :: operation where
  "getLeaderboardReplay = \<lparr>query = None, header = None, path = None, cookie = None,
    request_body = None,
    responses = [
       \<lparr>status = 200, headers = [], content = Some [(js ''application/json'', LeaderboardReplayResponse)]\<rparr>,
       error_response 400, error_response 401, error_response 403, error_response 404,
       error_response 409, error_response 500]\<rparr>"

definition getMe :: operation where
  "getMe = \<lparr>query = None, header = None, path = None, cookie = None,
    request_body = None,
    responses = [
       \<lparr>status = 200, headers = [], content = Some [(js ''application/json'', MeResponse)]\<rparr>,
       error_response 400, error_response 401, error_response 403, error_response 404,
       error_response 409, error_response 500]\<rparr>"

definition getReady :: operation where
  "getReady = \<lparr>query = None, header = None, path = None, cookie = None,
    request_body = None,
    responses = [
       \<lparr>status = 200, headers = [], content = Some [(js ''application/json'', OkResponse)]\<rparr>,
       \<lparr>status = 503, headers = [], content = Some [(js ''application/json'', OkResponse)]\<rparr>]\<rparr>"

definition listSubmissions :: operation where
  "listSubmissions = \<lparr>query = None, header = None, path = None, cookie = None,
    request_body = None,
    responses = [
       \<lparr>status = 200, headers = [], content = Some [(js ''application/json'', SubmissionsResponse)]\<rparr>,
       error_response 400, error_response 401, error_response 403, error_response 404,
       error_response 409, error_response 500]\<rparr>"

definition createSubmission :: operation where
  "createSubmission = \<lparr>query = None, header = None, path = None, cookie = None,
    request_body = Some [(js ''multipart/form-data'', SubmissionUpload)],
    responses = [
       \<lparr>status = 202, headers = [(js ''location'', Required, String_type)], content = Some [(js ''application/json'', SubmissionAccepted)]\<rparr>,
       error_response 400, error_response 401, error_response 403, error_response 404,
       error_response 409, error_response 500]\<rparr>"

definition streamSubmissions :: operation where
  "streamSubmissions = \<lparr>query = None, header = None, path = None, cookie = None,
    request_body = None,
    responses = [
       \<lparr>status = 200, headers = [], content = Some [(js ''text/event-stream'', String_type)]\<rparr>,
       error_response 400, error_response 401, error_response 403, error_response 404,
       error_response 409, error_response 500]\<rparr>"

definition getSubmission :: operation where
  "getSubmission = \<lparr>query = None,
    header = None, path = Some (Required, [(js ''id'', Required, Uuid)]), cookie = None,
    request_body = None,
    responses = [
       \<lparr>status = 200, headers = [], content = Some [(js ''application/json'', SubmissionResponse)]\<rparr>,
       error_response 400, error_response 401, error_response 403, error_response 404,
       error_response 409, error_response 500]\<rparr>"

definition getSubmissionSource :: operation where
  "getSubmissionSource = \<lparr>query = None,
    header = None, path = Some (Required, [(js ''id'', Required, Uuid)]), cookie = None,
    request_body = None,
    responses = [
       \<lparr>status = 200, headers = [(js ''content-disposition'', Required, String_type)], content = Some [(js ''text/plain; charset=utf-8'', String_type)]\<rparr>,
       error_response 400, error_response 401, error_response 403, error_response 404,
       error_response 409, error_response 500]\<rparr>"

section \<open>Paths\<close>

definition access_and_release_paths :: "path_item list" where
  "access_and_release_paths = [
     (js ''/api/v1/access-key'', [(POST, issueAccessKey), (DELETE, revokeAccessKey)]),
     (js ''/api/v1/admin/datasets/import'', [(POST, importDatasets)]),
     (js ''/api/v1/admin/private/publish'', [(POST, publishPrivate)]),
     (js ''/api/v1/admin/private/unpublish'', [(POST, unpublishPrivate)])]"

definition admin_submission_paths :: "path_item list" where
  "admin_submission_paths = [
     (js ''/api/v1/admin/submissions'', [(GET, listAdminSubmissions)]),
     (js ''/api/v1/admin/submissions/{id}/disqualify'', [(POST, disqualifySubmission)]),
     (js ''/api/v1/admin/submissions/{id}/retry'', [(POST, retrySubmission)])]"

definition contest_and_dataset_paths :: "path_item list" where
  "contest_and_dataset_paths = [
     (js ''/api/v1/contest'', [(GET, getContest)]),
     (js ''/api/v1/contest/events'', [(GET, streamContest)]),
     (js ''/api/v1/datasets'', [(GET, getDatasets)]),
     (js ''/api/v1/datasets/{datasetId}/{artifact}/download'', [(GET, downloadDataset)]),
     (js ''/api/v1/healthz'', [(GET, getHealth)])]"

definition leaderboard_and_account_paths :: "path_item list" where
  "leaderboard_and_account_paths = [
     (js ''/api/v1/leaderboard'', [(GET, getLeaderboard)]),
     (js ''/api/v1/leaderboard/replay'', [(GET, getLeaderboardReplay)]),
     (js ''/api/v1/me'', [(GET, getMe)]),
     (js ''/api/v1/readyz'', [(GET, getReady)])]"

definition submission_paths :: "path_item list" where
  "submission_paths = [
     (js ''/api/v1/submissions'', [(GET, listSubmissions), (POST, createSubmission)]),
     (js ''/api/v1/submissions/events'', [(GET, streamSubmissions)]),
     (js ''/api/v1/submissions/{id}'', [(GET, getSubmission)]),
     (js ''/api/v1/submissions/{id}/source'', [(GET, getSubmissionSource)])]"

definition paths :: "path_item list" where
  "paths = access_and_release_paths @ admin_submission_paths @ contest_and_dataset_paths @ leaderboard_and_account_paths @ submission_paths"

definition operations :: "operation list" where
  "operations = [
     issueAccessKey, revokeAccessKey, importDatasets, publishPrivate,
       unpublishPrivate, listAdminSubmissions, disqualifySubmission, retrySubmission, getContest,
       streamContest, getDatasets, downloadDataset, getHealth, getLeaderboard,
       getLeaderboardReplay, getMe, getReady, listSubmissions, createSubmission,
       streamSubmissions, getSubmission, getSubmissionSource]"

end
