(* ===== verification/Manifest.thy ===== *)
theory Manifest
  imports Domain
begin

text \<open>
  The dataset manifest of \<^verbatim>\<open>packages/domain/src/index.ts\<close>: the object schema and the
  consistency check (\<open>superRefine\<close>) that runs over a manifest the schema accepted.  The check
  adds an issue per fault; no issue means the manifest is consistent, which is
  \<open>consistent_manifest\<close>.
\<close>

definition sha256_pattern :: regex where
  "sha256_pattern = exactly 64 (Cls [(97, 102), (48, 57)])"

definition lower_or_digit :: "(code_unit \<times> code_unit) list" where
  "lower_or_digit = [(97, 122), (48, 57)]"

definition slug_pattern :: "nat \<Rightarrow> regex" where
  "slug_pattern n = Seq (Cls lower_or_digit) (at_most n (Cls (lower_or_digit @ [(45, 45)])))"

definition datasetArtifactSchema :: schema where
  "datasetArtifactSchema = Object
     [(js ''id'', Text [Pattern (slug_pattern 63)]),
      (js ''kind'', Enumeration [js ''input'', js ''expected'']),
      (js ''label'', Text [Min_length 1, Max_length 128]),
      (js ''objectKey'', Text [Prefix (js ''datasets/''), Max_length 1024, Pattern (one_or_more (Cls [(0x20, 0x7E)]))]),
      (js ''rows'', Positive_integer),
      (js ''compressedBytes'', Positive_integer),
      (js ''uncompressedBytes'', Positive_integer),
      (js ''compressedSha256'', Text [Pattern sha256_pattern]),
      (js ''uncompressedSha256'', Text [Pattern sha256_pattern]),
      (js ''isPublic'', Boolean)]"

definition datasetManifestObjectSchema :: schema where
  "datasetManifestObjectSchema = Object
     [(js ''schemaVersion'', Literal (JNum (Fin 1))),
      (js ''contestId'', Text [Pattern (slug_pattern 127)]),
      (js ''generatedAt'', Iso_datetime),
      (js ''generatorRevision'', Text [Min_length 1, Max_length 128]),
      (js ''artifacts'', List_of 4 datasetArtifactSchema)]"

datatype artifact_kind = Input | Expected

fun kind_name :: "artifact_kind \<Rightarrow> jsstring" where
  "kind_name Input = js ''input''"
| "kind_name Expected = js ''expected''"

text \<open>The members the check reads.\<close>

record artifact =
  artifact_id :: jsstring
  artifact_kind_of :: artifact_kind
  objectKey :: jsstring
  rows :: nat
  isPublic :: bool

record manifest =
  contestId :: jsstring
  artifacts :: "artifact list"

datatype path_part = Name jsstring | Index nat

record issue =
  issue_message :: jsstring
  issue_path :: "path_part list"

record refine_state =
  ids :: "jsstring set"
  object_keys :: "jsstring set"
  pairs :: "(jsstring, artifact_kind set) js_map"
  issues :: "issue list"

definition scope :: "artifact \<Rightarrow> jsstring" where
  "scope a = (if isPublic a then js ''public'' else js ''private'')"

definition pairKey :: "artifact \<Rightarrow> jsstring" where
  "pairKey a = scope a @ js '':'' @ nat_to_string (rows a)"

definition at_artifact :: "nat \<Rightarrow> string \<Rightarrow> path_part list" where
  "at_artifact index field = [Name (js ''artifacts''), Index index, Name (js field)]"

definition issue_if :: "bool \<Rightarrow> jsstring \<Rightarrow> path_part list \<Rightarrow> issue list" where
  "issue_if b message path = (if b then [\<lparr>issue_message = message, issue_path = path\<rparr>] else [])"

definition refine_artifact :: "manifest \<Rightarrow> refine_state \<Rightarrow> nat \<times> artifact \<Rightarrow> refine_state" where
  "refine_artifact m st entry =
     (let index = fst entry; a = snd entry;
          kinds = (case map_get (pairs st) (pairKey a) of None \<Rightarrow> {} | Some ks \<Rightarrow> ks)
      in \<lparr>ids = insert (artifact_id a) (ids st),
          object_keys = insert (objectKey a) (object_keys st),
          pairs = map_set (pairKey a) (insert (artifact_kind_of a) kinds) (pairs st),
          issues = issues st
            @ issue_if (artifact_id a \<in> ids st) (js ''artifact id must be unique'') (at_artifact index ''id'')
            @ issue_if (objectKey a \<in> object_keys st) (js ''object key must be unique'') (at_artifact index ''objectKey'')
            @ issue_if (\<not> ends_with (artifact_id a) (js ''-'' @ kind_name (artifact_kind_of a)))
                (js ''artifact id must end with -'' @ kind_name (artifact_kind_of a)) (at_artifact index ''id'')
            @ issue_if (\<not> starts_with (objectKey a) (js ''datasets/'' @ contestId m @ js ''/'' @ scope a @ js ''/''))
                (js ''object key must be under the '' @ scope a @ js '' dataset prefix'') (at_artifact index ''objectKey'')
            @ issue_if (artifact_kind_of a \<in> kinds)
                (js ''dataset rows and kind must be unique within a scope'') (at_artifact index ''kind'')\<rparr>)"

definition incomplete_pair :: "jsstring \<times> artifact_kind set \<Rightarrow> issue list" where
  "incomplete_pair entry =
     issue_if (Input \<notin> snd entry \<or> Expected \<notin> snd entry)
       (fst entry @ js '' must contain both input and expected artifacts'') [Name (js ''artifacts'')]"

definition missing_scope :: "string \<Rightarrow> (jsstring, artifact_kind set) js_map \<Rightarrow> issue list" where
  "missing_scope s ps =
     issue_if (\<not> list_ex (\<lambda>key. starts_with key (js (s @ '':''))) (map_keys ps))
       (js ''at least one '' @ js s @ js '' dataset is required'') [Name (js ''artifacts'')]"

definition manifest_issues :: "manifest \<Rightarrow> issue list" where
  "manifest_issues m =
     (let st = foldl (refine_artifact m) \<lparr>ids = {}, object_keys = {}, pairs = map_new, issues = []\<rparr>
                 (List.enumerate 0 (artifacts m))
      in issues st @ concat (map incomplete_pair (pairs st))
         @ missing_scope ''public'' (pairs st) @ missing_scope ''private'' (pairs st))"

section \<open>What a consistent manifest is\<close>

definition well_named :: "manifest \<Rightarrow> artifact \<Rightarrow> bool" where
  "well_named m a \<longleftrightarrow>
     ends_with (artifact_id a) (js ''-'' @ kind_name (artifact_kind_of a)) \<and>
     starts_with (objectKey a) (js ''datasets/'' @ contestId m @ js ''/'' @ scope a @ js ''/'')"

text \<open>The artifacts of a dataset: those with the same scope and number of rows.\<close>

definition dataset_of :: "manifest \<Rightarrow> artifact \<Rightarrow> artifact list" where
  "dataset_of m a = filter (\<lambda>b. isPublic b = isPublic a \<and> rows b = rows a) (artifacts m)"

definition consistent_manifest :: "manifest \<Rightarrow> bool" where
  "consistent_manifest m \<longleftrightarrow>
     distinct (map artifact_id (artifacts m)) \<and> distinct (map objectKey (artifacts m)) \<and>
     (\<forall>a \<in> set (artifacts m).
        well_named m a \<and> mset (map artifact_kind_of (dataset_of m a)) = {#Input, Expected#}) \<and>
     (\<exists>a \<in> set (artifacts m). isPublic a) \<and> (\<exists>a \<in> set (artifacts m). \<not> isPublic a)"

lemma pairKey_eq_iff: "pairKey a = pairKey b \<longleftrightarrow> isPublic a = isPublic b \<and> rows a = rows b"
  by (cases "isPublic a"; cases "isPublic b") (simp_all add: pairKey_def scope_def js_eval inj_nat_to_string)

lemma starts_with_pairKey:
  "starts_with (pairKey a) (js ''public:'') \<longleftrightarrow> isPublic a"
  "starts_with (pairKey a) (js ''private:'') \<longleftrightarrow> \<not> isPublic a"
  by (cases "isPublic a"; simp add: pairKey_def scope_def starts_with_def js_eval)+

lemma issue_if_Nil [simp]: "issue_if b s p = [] \<longleftrightarrow> \<not> b"
  by (simp add: issue_if_def)

text \<open>The loop's state after the artifacts \<open>xs\<close>.\<close>

definition state_after :: "manifest \<Rightarrow> nat \<Rightarrow> artifact list \<Rightarrow> refine_state" where
  "state_after m n xs = foldl (refine_artifact m)
     \<lparr>ids = {}, object_keys = {}, pairs = map_new, issues = []\<rparr> (List.enumerate n xs)"

lemma state_after_snoc: "state_after m n (xs @ [x]) = refine_artifact m (state_after m n xs) (n + length xs, x)"
  by (simp add: state_after_def enumerate_append_eq)

lemma state_after_sets:
  "ids (state_after m n xs) = artifact_id ` set xs" "object_keys (state_after m n xs) = objectKey ` set xs"
  by (induction xs rule: rev_induct)
    (auto simp: state_after_snoc refine_artifact_def Let_def, simp_all add: state_after_def)

definition kinds_seen :: "artifact list \<Rightarrow> jsstring \<Rightarrow> artifact_kind set" where
  "kinds_seen xs k = artifact_kind_of ` {a \<in> set xs. pairKey a = k}"

lemma kinds_seen_snoc:
  "kinds_seen (xs @ [x]) k = (if pairKey x = k then insert (artifact_kind_of x) (kinds_seen xs k) else kinds_seen xs k)"
  by (auto simp: kinds_seen_def)

lemma kinds_seen_empty: "kinds_seen xs k = {} \<longleftrightarrow> k \<notin> pairKey ` set xs"
  by (auto simp: kinds_seen_def)

lemma kinds_seen_pair: "c \<in> kinds_seen xs k \<longleftrightarrow> (k, c) \<in> set (map (\<lambda>a. (pairKey a, artifact_kind_of a)) xs)"
  by (auto simp: kinds_seen_def image_iff)

lemma state_after_pairs:
  "map_get (pairs (state_after m n xs)) k = (if kinds_seen xs k = {} then None else Some (kinds_seen xs k))"
proof (induction xs arbitrary: k rule: rev_induct)
  case Nil
  then show ?case by (simp add: state_after_def jm.get_empty kinds_seen_def)
next
  case (snoc x xs)
  show ?case
    by (simp add: state_after_snoc refine_artifact_def Let_def jm.get_put snoc kinds_seen_snoc)
qed

lemma state_after_keys:
  "set (map_keys (pairs (state_after m n xs))) = pairKey ` set xs"
  "distinct (map_keys (pairs (state_after m n xs)))"
  by (induction xs rule: rev_induct)
    (auto simp: state_after_snoc refine_artifact_def Let_def jm.keys_put jm.distinct_keys_put,
      simp_all add: state_after_def jm.keys_empty)

definition no_artifact_issue :: "manifest \<Rightarrow> artifact list \<Rightarrow> bool" where
  "no_artifact_issue m xs \<longleftrightarrow>
     distinct (map artifact_id xs) \<and> distinct (map objectKey xs) \<and> list_all (well_named m) xs \<and>
     distinct (map (\<lambda>a. (pairKey a, artifact_kind_of a)) xs)"

lemma state_after_issues: "issues (state_after m n xs) = [] \<longleftrightarrow> no_artifact_issue m xs"
proof (induction xs rule: rev_induct)
  case Nil
  then show ?case by (simp add: state_after_def no_artifact_issue_def)
next
  case (snoc x xs)
  have kinds: "artifact_kind_of x \<in> (case map_get (pairs (state_after m n xs)) (pairKey x) of None \<Rightarrow> {} | Some ks \<Rightarrow> ks)
      \<longleftrightarrow> (pairKey x, artifact_kind_of x) \<in> set (map (\<lambda>a. (pairKey a, artifact_kind_of a)) xs)"
    unfolding state_after_pairs kinds_seen_pair [symmetric] by simp
  show ?case
    unfolding state_after_snoc refine_artifact_def Let_def
    by (simp add: snoc kinds state_after_sets) (auto simp: no_artifact_issue_def well_named_def)
qed

lemma kinds_complete:
  assumes "distinct (map (\<lambda>a. (pairKey a, artifact_kind_of a)) xs)" and "a \<in> set xs"
  shows "{Input, Expected} \<subseteq> kinds_seen xs (pairKey a) \<longleftrightarrow>
    mset (map artifact_kind_of (filter (\<lambda>b. pairKey b = pairKey a) xs)) = {#Input, Expected#}"
proof -
  let ?ks = "map artifact_kind_of (filter (\<lambda>b. pairKey b = pairKey a) xs)"
  have "distinct (map (\<lambda>a. (pairKey a, artifact_kind_of a)) (filter (\<lambda>b. pairKey b = pairKey a) xs))"
    using assms(1) distinct_map_filter by blast
  moreover have "map (\<lambda>a. (pairKey a, artifact_kind_of a)) (filter (\<lambda>b. pairKey b = pairKey a) xs) =
      map (Pair (pairKey a)) ?ks"
    by auto
  ultimately have d: "distinct ?ks" by (metis distinct_map)
  have set: "set ?ks = kinds_seen xs (pairKey a)" by (auto simp: kinds_seen_def)
  have "mset ?ks = {#Input, Expected#} \<longleftrightarrow> set ?ks = {Input, Expected}"
    using d set_eq_iff_mset_eq_distinct [of ?ks "[Input, Expected]"] by simp
  moreover have "set ?ks \<subseteq> {Input, Expected}" using artifact_kind.exhaust by auto
  ultimately show ?thesis unfolding set by auto
qed

lemma distinct_pairs:
  assumes "\<And>a. a \<in> set xs \<Longrightarrow> mset (map artifact_kind_of (filter (\<lambda>b. pairKey b = pairKey a) xs)) = {#Input, Expected#}"
  shows "distinct (map (\<lambda>a. (pairKey a, artifact_kind_of a)) xs)"
proof -
  have "count (mset (map (\<lambda>a. (pairKey a, artifact_kind_of a)) xs)) (pairKey a, artifact_kind_of a) \<le> 1"
    if "a \<in> set xs" for a
  proof -
    have "count (mset (map (\<lambda>a. (pairKey a, artifact_kind_of a)) xs)) (pairKey a, k) =
        count (mset (map artifact_kind_of (filter (\<lambda>b. pairKey b = pairKey a) xs))) k" for k
      by (induction xs) auto
    then show ?thesis unfolding assms [OF that] by (cases "artifact_kind_of a") simp_all
  qed
  moreover define ys where "ys = map (\<lambda>a. (pairKey a, artifact_kind_of a)) xs"
  ultimately have le: "count (mset ys) p \<le> 1" if "p \<in> set ys" for p
    using that by auto
  have "count (mset ys) p = (if p \<in> set ys then 1 else 0)" for p
  proof (cases "p \<in> set ys")
    case True
    then have "0 < count (mset ys) p" by simp
    with le [OF True] have "count (mset ys) p = 1" by linarith
    with True show ?thesis by simp
  qed (simp add: count_eq_zero_iff)
  then show ?thesis unfolding distinct_count_atmost_1 ys_def by blast
qed

lemma incomplete_pairs:
  "concat (map incomplete_pair (pairs (state_after m n xs))) = [] \<longleftrightarrow>
    (\<forall>a \<in> set xs. {Input, Expected} \<subseteq> kinds_seen xs (pairKey a))"
proof -
  let ?ps = "pairs (state_after m n xs)"
  have "(k, ks) \<in> set ?ps \<longleftrightarrow> k \<in> pairKey ` set xs \<and> ks = kinds_seen xs k" for k ks
    using map_get_entry [OF state_after_keys(2), of m n xs k ks] unfolding state_after_pairs kinds_seen_empty by (auto split: if_splits)
  then have "set ?ps = (\<lambda>a. (pairKey a, kinds_seen xs (pairKey a))) ` set xs" by auto
  then show ?thesis by (simp add: incomplete_pair_def)
qed

text \<open>C21: The consistency check raises no issue exactly for a consistent manifest: ids and object
  keys are unique and named after kind, contest and scope, each dataset (a scope and a number of
  rows) has exactly one input and one expected artifact, and both scopes have a dataset.\<close>

theorem manifest_issues_iff: "manifest_issues m = [] \<longleftrightarrow> consistent_manifest m"
proof -
  let ?xs = "artifacts m"
  let ?st = "state_after m 0 ?xs"
  have scopes: "list_ex (\<lambda>key. starts_with key (js s)) (map_keys (pairs ?st)) \<longleftrightarrow>
      (\<exists>a \<in> set ?xs. starts_with (pairKey a) (js s))" for s
    using state_after_keys(1) [of m 0 ?xs] by (auto simp: list_ex_iff)
  have same: "dataset_of m a = filter (\<lambda>b. pairKey b = pairKey a) ?xs" for a
    by (simp add: dataset_of_def pairKey_eq_iff)
  have unique: "distinct (map (\<lambda>a. (pairKey a, artifact_kind_of a)) ?xs)"
    if "\<forall>a \<in> set ?xs. mset (map artifact_kind_of (dataset_of m a)) = {#Input, Expected#}"
    using that unfolding same by (intro distinct_pairs) simp
  have "manifest_issues m = [] \<longleftrightarrow> no_artifact_issue m ?xs \<and>
      (\<forall>a \<in> set ?xs. {Input, Expected} \<subseteq> kinds_seen ?xs (pairKey a)) \<and>
      (\<exists>a \<in> set ?xs. isPublic a) \<and> (\<exists>a \<in> set ?xs. \<not> isPublic a)"
    unfolding manifest_issues_def Let_def state_after_def [symmetric] append_is_Nil_conv
      state_after_issues incomplete_pairs missing_scope_def issue_if_Nil scopes
    by (simp add: starts_with_pairKey)
  also have "\<dots> \<longleftrightarrow> consistent_manifest m"
    unfolding consistent_manifest_def no_artifact_issue_def
    using kinds_complete [of ?xs] unique same by (auto simp: list_all_iff)
  finally show ?thesis .
qed

end
