(* ===== verification/Api_Contract.thy ===== *)
theory Api_Contract
  imports Api Manifest
begin

text \<open>
  What the contract promises: its enumerations are those of the shared rules, a dataset manifest the
  rules accept is one the contract takes, failures carry an error object, and the path table tells
  which operation a URL belongs to.
\<close>

section \<open>Agreement with the shared rules\<close>

lemma all_values:
  "set verdicts = UNIV" "set submissionStatuses = UNIV" "set executionKinds = UNIV"
  "set leaderboardBoards = UNIV" "set languages = UNIV" "set [Input, Expected] = UNIV"
proof -
  have "k \<in> set executionKinds" for k by (cases k) (simp_all add: executionKinds_def)
  moreover have "a \<in> set [Input, Expected]" for a by (cases a) simp_all
  ultimately show "set verdicts = UNIV" "set submissionStatuses = UNIV" "set executionKinds = UNIV"
    "set leaderboardBoards = UNIV" "set languages = UNIV" "set [Input, Expected] = UNIV"
    by (metis UNIV_eq_I in_enumerations(3), metis UNIV_eq_I in_enumerations(4), metis UNIV_eq_I,
        metis UNIV_eq_I in_enumerations(5), metis UNIV_eq_I in_languages, metis UNIV_eq_I)
qed

lemma wire_names:
  "Verdict = Union_type (map name_type (map verdict_name verdicts))"
  "SubmissionStatus = Union_type (map name_type (map status_name submissionStatuses))"
  "ExecutionKind = Union_type (map name_type (map execution_kind_name executionKinds))"
  "Language = Union_type (map name_type (map language_name languages))"
  "LeaderboardBoard = Union_type (map name_type (map board_name leaderboardBoards))"
  "DatasetKind = Union_type (map name_type (map kind_name [Input, Expected]))"
  by (simp_all add: Verdict_def verdicts_def SubmissionStatus_def submissionStatuses_def
      ExecutionKind_def executionKinds_def scriptExecutionKinds_def Language_def languages_def
      nativeLanguages_def LeaderboardBoard_def leaderboardBoards_def DatasetKind_def)

lemma conforms_enumeration:
  "set vals = UNIV \<Longrightarrow> conforms (Union_type (map name_type (map name vals))) v \<longleftrightarrow> (\<exists>x. v = JStr (name x))"
  unfolding conforms_names_iff by auto

lemma wire_enumeration:
  "conforms Verdict v \<longleftrightarrow> (\<exists>x. v = JStr (verdict_name x))"
  "conforms SubmissionStatus v \<longleftrightarrow> (\<exists>x. v = JStr (status_name x))"
  "conforms ExecutionKind v \<longleftrightarrow> (\<exists>x. v = JStr (execution_kind_name x))"
  "conforms Language v \<longleftrightarrow> (\<exists>x. v = JStr (language_name x))"
  "conforms LeaderboardBoard v \<longleftrightarrow> (\<exists>x. v = JStr (board_name x))"
  "conforms DatasetKind v \<longleftrightarrow> (\<exists>x. v = JStr (kind_name x))"
  unfolding wire_names by (intro conforms_enumeration all_values)+

text \<open>The string unions of the HTTP contract are exactly the names of the shared enumerations:
  a value of the wire has the type of a verdict, status, execution kind, language, board or dataset
  kind when it is the name of one, and of nothing else.\<close>

theorem wire_enumerations:
  "(conforms Verdict v \<longleftrightarrow> (\<exists>x. v = JStr (verdict_name x))) \<and>
   (conforms SubmissionStatus v \<longleftrightarrow> (\<exists>x. v = JStr (status_name x))) \<and>
   (conforms ExecutionKind v \<longleftrightarrow> (\<exists>x. v = JStr (execution_kind_name x))) \<and>
   (conforms Language v \<longleftrightarrow> (\<exists>x. v = JStr (language_name x))) \<and>
   (conforms LeaderboardBoard v \<longleftrightarrow> (\<exists>x. v = JStr (board_name x))) \<and>
   (conforms DatasetKind v \<longleftrightarrow> (\<exists>x. v = JStr (kind_name x)))"
  by (simp only: wire_enumeration simp_thms)

section \<open>Dataset manifests\<close>

context zod begin

lemma kind_accepted: "accepts (Enumeration [js ''input'', js ''expected'']) v \<Longrightarrow> conforms DatasetKind v"
  by (auto simp: laws is_name_iff DatasetKind_def name_type_def)

lemma positive_integer_number: "positive_integer v \<Longrightarrow> conforms Number_type v"
  by (auto simp: positive_integer_def conforms_number_iff split: json.splits)

lemma text_accepted: "accepts (Text cs) v \<Longrightarrow> conforms String_type v"
  by (auto simp: laws is_text_iff conforms_string_iff)

lemma object_accepted:
  assumes "accepts (Object fs) v" "map (\<lambda>(k, p, t). k) ts = map fst fs"
    "\<And>i x. i < length fs \<Longrightarrow> accepts (snd (fs ! i)) x \<Longrightarrow> conforms (snd (snd (ts ! i))) x"
  shows "conforms (Object_type ts) v"
proof -
  obtain ms where v: "v = JObj ms" using assms(1) unfolding object_law is_object_iff by blast
  have "\<exists>x. map_of ms k = Some x \<and> conforms t x" if mem: "(k, p, t) \<in> set ts" for k p t
  proof -
    obtain i where i: "i < length ts" "ts ! i = (k, p, t)" using mem unfolding in_set_conv_nth by blast
    have len: "length ts = length fs" using arg_cong [OF assms(2), of length] by simp
    then have "fst (fs ! i) = k"
      using i arg_cong [OF assms(2), of "\<lambda>xs. xs ! i"] by simp
    then have "(k, snd (fs ! i)) \<in> set fs" using i len by (metis nth_mem prod.collapse)
    then obtain x where "map_of ms k = Some x" "accepts (snd (fs ! i)) x"
      using assms(1) unfolding object_law v by (auto simp: member_def)
    with assms(3) [of i x] i len show ?thesis by simp
  qed
  then show ?thesis unfolding v conforms_object_iff by blast
qed

lemma artifact_conforms: "accepts datasetArtifactSchema v \<Longrightarrow> conforms DatasetArtifact v"
  unfolding datasetArtifactSchema_def DatasetArtifact_def
  by (erule object_accepted)
    (auto simp: less_Suc_eq integer_law boolean_law conforms_boolean_iff
      intro: kind_accepted text_accepted positive_integer_number)

lemma artifacts_conform: "accepts (List_of n datasetArtifactSchema) v \<Longrightarrow> conforms (Array_type DatasetArtifact) v"
  by (auto simp: laws conforms_array_iff intro: artifact_conforms)

lemma datetime_accepted: "accepts Iso_datetime v \<Longrightarrow> conforms DateTimeString v"
  by (auto simp: DateTimeString_def conforms_string_iff dest: datetime_law)

lemma manifest_conforms: "accepts datasetManifestObjectSchema v \<Longrightarrow> conforms DatasetManifest v"
  unfolding datasetManifestObjectSchema_def DatasetManifest_def
  by (erule object_accepted)
    (auto simp: less_Suc_eq literal_law intro: text_accepted artifacts_conform datetime_accepted)

end

text \<open>Every manifest the shared schema accepts is one the import endpoint's contract allows as
  its body.\<close>

theorem accepted_manifest_conforms:
  assumes "zod accepts" "accepts datasetManifestObjectSchema v"
  shows "conforms DatasetManifest v"
  using assms by (rule zod.manifest_conforms)

definition demo_artifact :: "string \<Rightarrow> artifact_kind \<Rightarrow> bool \<Rightarrow> json" where
  "demo_artifact prefix kind listed = JObj
     [(js ''id'', JStr (js prefix @ js ''-'' @ kind_name kind)), (js ''kind'', JStr (kind_name kind)),
      (js ''label'', JStr (js ''x'')), (js ''objectKey'', JStr (js ''datasets/x'')),
      (js ''rows'', JNum (Fin 1)), (js ''compressedBytes'', JNum (Fin 1)),
      (js ''uncompressedBytes'', JNum (Fin 1)),
      (js ''compressedSha256'', JStr (replicate 64 97)), (js ''uncompressedSha256'', JStr (replicate 64 97)),
      (js ''isPublic'', JBool listed)]"

definition demo_manifest :: json where
  "demo_manifest = JObj
     [(js ''schemaVersion'', JNum (Fin 1)), (js ''contestId'', JStr (js ''c'')),
      (js ''generatedAt'', JStr (js ''2027-02-28T15:59:59.007Z'')),
      (js ''generatorRevision'', JStr (js ''r'')),
      (js ''artifacts'', JArr [demo_artifact ''p'' Input True, demo_artifact ''p'' Expected True,
         demo_artifact ''q'' Input False, demo_artifact ''q'' Expected False])]"

lemma demo_manifest_accepted: "documented_accepts datasetManifestObjectSchema demo_manifest"
  by code_simp

theorem accepted_manifest_conforms_witness: "conforms DatasetManifest demo_manifest"
  using documented.zod_axioms demo_manifest_accepted by (rule accepted_manifest_conforms)

section \<open>Routing\<close>

text \<open>A segment in braces stands for any non-empty segment.\<close>

definition is_parameter :: "jsstring \<Rightarrow> bool" where
  "is_parameter s \<longleftrightarrow> starts_with s (js ''{'') \<and> ends_with s (js ''}'')"

definition matches :: "jsstring \<Rightarrow> jsstring \<Rightarrow> bool" where
  "matches template url \<longleftrightarrow>
     list_all2 (\<lambda>t u. if is_parameter t then u \<noteq> [] else u = t) (split_on 47 template) (split_on 47 url)"

text \<open>Two templates share no URL when they differ in a segment that is literal in both.\<close>

definition apart :: "jsstring list \<Rightarrow> jsstring list \<Rightarrow> bool" where
  "apart ts us \<longleftrightarrow> length ts \<noteq> length us \<or>
     list_ex (\<lambda>(t, u). \<not> is_parameter t \<and> \<not> is_parameter u \<and> t \<noteq> u) (zip ts us)"

lemma apart_no_match:
  assumes "apart (split_on 47 t) (split_on 47 t')" "matches t u"
  shows "\<not> matches t' u"
proof
  assume "matches t' u"
  with assms have len: "length (split_on 47 t) = length (split_on 47 t')"
    using assms(2) [unfolded matches_def, THEN list_all2_lengthD]
      \<open>matches t' u\<close> [unfolded matches_def, THEN list_all2_lengthD] by simp
  with assms(1) obtain a b where ab: "(a, b) \<in> set (zip (split_on 47 t) (split_on 47 t'))"
      "\<not> is_parameter a" "\<not> is_parameter b" "a \<noteq> b"
    unfolding apart_def list_ex_iff by auto
  then obtain i where i: "i < length (split_on 47 t)" "split_on 47 t ! i = a" "split_on 47 t' ! i = b"
    by (auto simp: in_set_zip)
  from assms(2) i ab(2) have "split_on 47 u ! i = a"
    unfolding matches_def list_all2_conv_all_nth by auto
  moreover from \<open>matches t' u\<close> i ab(3) len have "split_on 47 u ! i = b"
    unfolding matches_def list_all2_conv_all_nth by auto
  ultimately show False using ab(4) by simp
qed

lemma matches_literal:
  assumes "list_all (\<lambda>t. \<not> is_parameter t) (split_on 47 t)" "matches t u"
  shows "u = t"
proof -
  have "split_on 47 u = split_on 47 t"
    using assms unfolding matches_def list_all2_conv_all_nth list_all_length
    by (intro nth_equalityI) auto
  then show ?thesis by (metis join_split_on)
qed

text \<open>The same on character strings, where the templates of the table can be compared quickly.\<close>

lemma split_js: "split_on 47 (js s) = map js (split_on CHR ''/'' s)"
proof (induction s)
  case (Cons c s)
  obtain y ys where "split_on CHR ''/'' s = y # ys" by (cases "split_on CHR ''/'' s") auto
  moreover have "(of_char c :: code_unit) = 47 \<longleftrightarrow> c = CHR ''/''"
    using inj_of_char_code_unit [THEN inj_eq, of c "CHR ''/''"] by simp
  ultimately show ?case using Cons by (simp add: js_def)
qed (simp add: js_def)

definition braced :: "string \<Rightarrow> bool" where
  "braced s \<longleftrightarrow> take 1 s = ''{'' \<and> drop (length s - 1) s = ''}''"

lemma is_parameter_js: "is_parameter (js s) \<longleftrightarrow> braced s"
proof -
  have "take 1 (js s) = js (take 1 s)" "drop (length s - 1) (js s) = js (drop (length s - 1) s)"
    by (simp_all add: js_def take_map drop_map)
  then show ?thesis
    unfolding is_parameter_def braced_def starts_with_def ends_with_def by (cases s) auto
qed

definition apart_strings :: "string \<Rightarrow> string \<Rightarrow> bool" where
  "apart_strings s s' \<longleftrightarrow>
     (let ts = split_on CHR ''/'' s; us = split_on CHR ''/'' s' in
      length ts \<noteq> length us \<or> list_ex (\<lambda>(t, u). \<not> braced t \<and> \<not> braced u \<and> t \<noteq> u) (zip ts us))"

lemma apart_js: "apart (split_on 47 (js s)) (split_on 47 (js s')) \<longleftrightarrow> apart_strings s s'"
  unfolding apart_def apart_strings_def Let_def split_js zip_map_map list_ex_iff
  by (simp add: split_beta is_parameter_js)

definition templates :: "string list" where
  "templates = [''/api/v1/access-key'', ''/api/v1/admin/datasets/import'', ''/api/v1/admin/private/publish'',
     ''/api/v1/admin/private/unpublish'', ''/api/v1/admin/submissions'',
     ''/api/v1/admin/submissions/{id}/disqualify'', ''/api/v1/admin/submissions/{id}/retry'',
     ''/api/v1/contest'', ''/api/v1/contest/events'', ''/api/v1/datasets'',
     ''/api/v1/datasets/{datasetId}/{artifact}/download'', ''/api/v1/healthz'', ''/api/v1/leaderboard'',
     ''/api/v1/leaderboard/replay'', ''/api/v1/me'', ''/api/v1/readyz'', ''/api/v1/submissions'',
     ''/api/v1/submissions/events'', ''/api/v1/submissions/{id}'', ''/api/v1/submissions/{id}/source'']"

lemma map_fst_paths: "map fst paths = map js templates"
  by (simp add: templates_def paths_def access_and_release_paths_def admin_submission_paths_def
      contest_and_dataset_paths_def leaderboard_and_account_paths_def submission_paths_def)

definition overlapping :: "string set" where
  "overlapping = {''/api/v1/submissions/events'', ''/api/v1/submissions/{id}''}"

lemma templates_apart:
  "list_all (\<lambda>s. list_all (\<lambda>s'. s = s' \<or> apart_strings s s' \<or> {s, s'} = overlapping) templates) templates"
  unfolding overlapping_def by code_simp

lemma events_literal: "list_all (\<lambda>t. \<not> is_parameter t) (split_on 47 (js ''/api/v1/submissions/events''))"
  unfolding split_js list.pred_map o_def is_parameter_js by (simp add: braced_def list.pred_map o_def)

text \<open>Every URL belongs to at most one path template of the contract, with one exception:
  \<open>/api/v1/submissions/events\<close> is a template of its own and also fits \<open>/api/v1/submissions/{id}\<close>.\<close>

theorem routes_unambiguous:
  assumes "(t, ms) \<in> set paths" "(t', ms') \<in> set paths" "matches t u" "matches t' u"
  shows "(t, ms) = (t', ms') \<or>
    u = js ''/api/v1/submissions/events'' \<and> {t, t'} = {u, js ''/api/v1/submissions/{id}''}"
proof -
  have "distinct templates" by code_simp
  then have "distinct (map fst paths)" unfolding map_fst_paths by (simp add: distinct_map inj_on_def)
  then have key: "ms = ms'" if "t = t'" using assms(1,2) that eq_key_imp_eq_value by fast
  have "t \<in> set (map fst paths)" "t' \<in> set (map fst paths)" using assms(1,2) by force+
  then obtain s s' where s: "t = js s" "t' = js s'" "s \<in> set templates" "s' \<in> set templates"
    unfolding map_fst_paths by auto
  then consider "s = s'" | "apart_strings s s'" | "{s, s'} = overlapping"
    using templates_apart unfolding list_all_iff by blast
  then show ?thesis
  proof cases
    case 1
    with s key show ?thesis by simp
  next
    case 2
    with assms(3,4) s show ?thesis using apart_no_match [of t t' u] by (simp add: apart_js)
  next
    case 3
    have "''/api/v1/submissions/events'' \<in> {s, s'}" unfolding 3 overlapping_def by simp
    then have "t = js ''/api/v1/submissions/events'' \<or> t' = js ''/api/v1/submissions/events''"
      unfolding s by blast
    then have "u = js ''/api/v1/submissions/events''"
      using assms(3,4) matches_literal [OF events_literal, of u] by auto
    moreover have "{t, t'} = js ` overlapping" unfolding s 3 [symmetric] by simp
    ultimately show ?thesis by (simp add: overlapping_def)
  qed
qed

theorem routes_unambiguous_witness:
  "(js ''/api/v1/me'', [(GET, getMe)]) = (js ''/api/v1/me'', [(GET, getMe)]) \<or>
    js ''/api/v1/me'' = js ''/api/v1/submissions/events'' \<and>
    {js ''/api/v1/me'', js ''/api/v1/me''} = {js ''/api/v1/me'', js ''/api/v1/submissions/{id}''}"
proof (rule routes_unambiguous)
  show "(js ''/api/v1/me'', [(GET, getMe)]) \<in> set paths" "(js ''/api/v1/me'', [(GET, getMe)]) \<in> set paths"
    by (simp_all add: paths_def leaderboard_and_account_paths_def)
  have "matches (js ''/api/v1/me'') (js ''/api/v1/me'')"
    unfolding matches_def split_js list.rel_map is_parameter_js by (simp add: braced_def)
  then show "matches (js ''/api/v1/me'') (js ''/api/v1/me'')" "matches (js ''/api/v1/me'') (js ''/api/v1/me'')"
    by blast+
qed

end
