(* ===== verification/Client.thy ===== *)
theory Client
  imports Api_Contract Js_Collections
begin

text \<open>
  The web client's access to the server: \<^verbatim>\<open>gateways/api-client.ts\<close>, \<^verbatim>\<open>account-gateway.ts\<close>,
  \<^verbatim>\<open>admin-gateway.ts\<close>, \<^verbatim>\<open>contest-gateway.ts\<close> and \<^verbatim>\<open>submission-gateway.ts\<close>.  The library openapi-fetch
  is the argument \<open>fetch\<close>, which turns a request into the reply; a request keeps the path template
  and its parameters apart, as the library's interface does.  A promise that is rejected is a
  \<open>Inl\<close> with the message of the error.
\<close>

section \<open>Requests and replies\<close>

record upload_file =
  file_name :: jsstring
  file_content :: jsstring

datatype form_value = Form_text jsstring | Form_file upload_file

datatype request_content = No_content | Json_content json | Form_content "(jsstring, form_value) js_map"

record request =
  request_method :: http_method
  template :: jsstring
  path_params :: "(jsstring \<times> jsstring) list"
  query_params :: "(jsstring \<times> jsstring) list"
  request_content :: request_content

definition plain_request :: "http_method \<Rightarrow> jsstring \<Rightarrow> request" where
  "plain_request m t = \<lparr>request_method = m, template = t, path_params = [], query_params = [],
     request_content = No_content\<rparr>"

text \<open>The reply has the decoded body in \<open>reply_data\<close> of a response that is ok, else in
  \<open>reply_error\<close>; \<open>None\<close> is undefined.\<close>

record reply =
  reply_status :: nat
  reply_data :: "json option"
  reply_error :: "json option"

definition reply_ok :: "reply \<Rightarrow> bool" where
  "reply_ok r \<longleftrightarrow> 200 \<le> reply_status r \<and> reply_status r \<le> 299"

definition error_message :: "reply \<Rightarrow> jsstring option" where
  "error_message r =
     (case Option.bind (Option.bind (reply_error r) (\<lambda>v. member v (js ''error''))) (\<lambda>v. member v (js ''message'')) of
        Some (JStr s) \<Rightarrow> Some s
      | _ \<Rightarrow> None)"

definition apiResult :: "reply \<Rightarrow> jsstring + json option" where
  "apiResult r =
     (if reply_ok r then Inr (reply_data r)
      else Inl (case error_message r of
          Some s \<Rightarrow> s
        | None \<Rightarrow> js ''API request failed ('' @ nat_to_string (reply_status r) @ js '')''))"

text \<open>A URL of the own origin: the path and the parameters \<open>searchParams.set\<close> gives it; an undefined
  value is skipped.\<close>

record url =
  url_path :: jsstring
  url_search :: "(jsstring, jsstring) js_map"

definition apiUrl :: "jsstring \<Rightarrow> (jsstring \<times> jsstring option) list \<Rightarrow> url" where
  "apiUrl pathname entries = \<lparr>url_path = pathname,
     url_search = foldl (\<lambda>m (k, v). case v of None \<Rightarrow> m | Some s \<Rightarrow> map_set k s m) map_new entries\<rparr>"

text \<open>An \<open>EventSource\<close> requests its URL with the method GET.\<close>

definition event_source :: "url \<Rightarrow> request" where
  "event_source u = plain_request GET (url_path u) \<lparr>query_params := url_search u\<rparr>"

section \<open>Gateways\<close>

type_synonym fetch = "request \<Rightarrow> reply"
type_synonym result = "jsstring + json option"

definition me :: "fetch \<Rightarrow> result" where
  "me fetch = apiResult (fetch (plain_request GET (js ''/api/v1/me'')))"

definition issue_access_key :: "fetch \<Rightarrow> result" where
  "issue_access_key fetch = apiResult (fetch (plain_request POST (js ''/api/v1/access-key'')))"

definition revoke_access_key :: "fetch \<Rightarrow> result" where
  "revoke_access_key fetch = apiResult (fetch (plain_request DELETE (js ''/api/v1/access-key'')))"

definition admin_submissions :: "fetch \<Rightarrow> result" where
  "admin_submissions fetch = apiResult (fetch (plain_request GET (js ''/api/v1/admin/submissions'')))"

definition publish_private :: "fetch \<Rightarrow> result" where
  "publish_private fetch = apiResult (fetch (plain_request POST (js ''/api/v1/admin/private/publish'')))"

definition unpublish_private :: "fetch \<Rightarrow> result" where
  "unpublish_private fetch = apiResult (fetch (plain_request POST (js ''/api/v1/admin/private/unpublish'')))"

definition retry :: "fetch \<Rightarrow> jsstring \<Rightarrow> result" where
  "retry fetch sid = apiResult (fetch
     (plain_request POST (js ''/api/v1/admin/submissions/{id}/retry'') \<lparr>path_params := [(js ''id'', sid)]\<rparr>))"

definition disqualify :: "fetch \<Rightarrow> jsstring \<Rightarrow> jsstring \<Rightarrow> result" where
  "disqualify fetch sid reason = apiResult (fetch
     (plain_request POST (js ''/api/v1/admin/submissions/{id}/disqualify'')
        \<lparr>path_params := [(js ''id'', sid)],
         request_content := Json_content (JObj [(js ''reason'', JStr reason)])\<rparr>))"

definition import_datasets :: "fetch \<Rightarrow> json \<Rightarrow> result" where
  "import_datasets fetch manifest = apiResult (fetch
     (plain_request POST (js ''/api/v1/admin/datasets/import'') \<lparr>request_content := Json_content manifest\<rparr>))"

definition fetch_contest :: "fetch \<Rightarrow> result" where
  "fetch_contest fetch = apiResult (fetch (plain_request GET (js ''/api/v1/contest'')))"

definition board_query :: "board \<Rightarrow> language option \<Rightarrow> (jsstring \<times> jsstring) list" where
  "board_query b l = (js ''board'', board_name b) #
     (case l of None \<Rightarrow> [] | Some x \<Rightarrow> [(js ''language'', language_name x)])"

definition fetch_leaderboard :: "fetch \<Rightarrow> board \<Rightarrow> language option \<Rightarrow> result" where
  "fetch_leaderboard fetch b l = apiResult (fetch
     (plain_request GET (js ''/api/v1/leaderboard'') \<lparr>query_params := board_query b l\<rparr>))"

definition fetch_leaderboard_replay :: "fetch \<Rightarrow> result" where
  "fetch_leaderboard_replay fetch = apiResult (fetch (plain_request GET (js ''/api/v1/leaderboard/replay'')))"

definition fetch_datasets :: "fetch \<Rightarrow> result" where
  "fetch_datasets fetch = apiResult (fetch (plain_request GET (js ''/api/v1/datasets'')))"

definition subscribe_contest :: "board \<Rightarrow> language option \<Rightarrow> request" where
  "subscribe_contest b l =
     event_source (apiUrl (js ''/api/v1/contest/events'') (map (\<lambda>(k, v). (k, Some v)) (board_query b l)))"

definition fetch_submissions :: "fetch \<Rightarrow> result" where
  "fetch_submissions fetch = apiResult (fetch (plain_request GET (js ''/api/v1/submissions'')))"

definition subscribe_submissions :: request where
  "subscribe_submissions = event_source (apiUrl (js ''/api/v1/submissions/events'') [])"

definition submission_source :: "fetch \<Rightarrow> jsstring \<Rightarrow> result" where
  "submission_source fetch sid = apiResult (fetch
     (plain_request GET (js ''/api/v1/submissions/{id}/source'') \<lparr>path_params := [(js ''id'', sid)]\<rparr>))"

text \<open>The messages ask for the source and for the executable.\<close>

definition source_missing :: jsstring where
  "source_missing = [0x30BD, 0x30FC, 0x30B9, 0x30B3, 0x30FC, 0x30C9, 0x3092, 0x9078, 0x629E, 0x3057, 0x3066,
     0x304F, 0x3060, 0x3055, 0x3044]"

definition binary_missing :: jsstring where
  "binary_missing = [0x5B9F, 0x884C, 0x30D5, 0x30A1, 0x30A4, 0x30EB, 0x3092, 0x9078, 0x629E, 0x3057, 0x3066,
     0x304F, 0x3060, 0x3055, 0x3044]"

record submission_draft =
  executionKind :: execution_kind
  draft_language :: language
  source :: "upload_file option"
  binary :: "upload_file option"

record submission_body =
  body_kind :: jsstring
  body_language :: "jsstring option"
  body_source :: upload_file
  body_binary :: "upload_file option"

definition submission_body_of :: "submission_draft \<Rightarrow> upload_file \<Rightarrow> submission_body" where
  "submission_body_of draft f = \<lparr>body_kind = execution_kind_name (executionKind draft),
     body_language = (if executionKind draft = Native then Some (language_name (draft_language draft)) else None),
     body_source = f,
     body_binary = (if executionKind draft = Native then binary draft else None)\<rparr>"

definition serialize_body :: "submission_body \<Rightarrow> (jsstring, form_value) js_map" where
  "serialize_body b =
     (let form = map_set (js ''executionKind'') (Form_text (body_kind b)) map_new;
          form = (case body_language b of
              Some l \<Rightarrow> if l = [] then form else map_set (js ''language'') (Form_text l) form
            | None \<Rightarrow> form);
          form = map_set (js ''source'') (Form_file (body_source b)) form
      in case body_binary b of
           Some f \<Rightarrow> map_set (js ''binary'') (Form_file f) form
         | None \<Rightarrow> form)"

definition submit :: "fetch \<Rightarrow> submission_draft \<Rightarrow> result" where
  "submit fetch draft =
     (case source draft of
        None \<Rightarrow> Inl source_missing
      | Some f \<Rightarrow>
          if executionKind draft = Native \<and> binary draft = None then Inl binary_missing
          else apiResult (fetch (plain_request POST (js ''/api/v1/submissions'')
            \<lparr>request_content := Form_content (serialize_body (submission_body_of draft f))\<rparr>)))"

section \<open>Requests within the contract\<close>

definition params_allowed :: "(presence \<times> members_type) option \<Rightarrow> (jsstring \<times> jsstring) list \<Rightarrow> bool" where
  "params_allowed part ps = (case part of
      None \<Rightarrow> ps = []
    | Some (p, fs) \<Rightarrow> set (map fst ps) \<subseteq> set (map fst fs) \<and>
        conforms (Object_type fs) (JObj (map (\<lambda>(k, v). (k, JStr v)) ps)))"

text \<open>A file of a form has the type of a binary string.\<close>

fun form_json :: "form_value \<Rightarrow> json" where
  "form_json (Form_text s) = JStr s"
| "form_json (Form_file f) = JStr (file_content f)"

fun content_allowed :: "(jsstring \<times> ts_type) list option \<Rightarrow> request_content \<Rightarrow> bool" where
  "content_allowed part No_content = (part = None)"
| "content_allowed part (Json_content v) =
     (case Option.bind part (\<lambda>c. map_of c (js ''application/json'')) of None \<Rightarrow> False | Some t \<Rightarrow> conforms t v)"
| "content_allowed part (Form_content form) =
     (case Option.bind part (\<lambda>c. map_of c (js ''multipart/form-data'')) of None \<Rightarrow> False
      | Some t \<Rightarrow> conforms t (JObj (map (\<lambda>(k, v). (k, form_json v)) form)))"

definition request_allowed :: "request \<Rightarrow> bool" where
  "request_allowed r =
     (case operation_at paths (request_method r) (template r) of
        None \<Rightarrow> False
      | Some op \<Rightarrow> params_allowed (path op) (path_params r) \<and> params_allowed (query op) (query_params r)
          \<and> header op = None \<and> cookie op = None \<and> content_allowed (request_body op) (request_content r))"

text \<open>A call depends on the replies to requests of the contract only: it sends no other.\<close>

definition within_contract :: "(fetch \<Rightarrow> result) \<Rightarrow> bool" where
  "within_contract c \<longleftrightarrow> (\<forall>f f'. (\<forall>r. request_allowed r \<longrightarrow> f r = f' r) \<longrightarrow> c f = c f')"

lemma within_contractI: "(\<And>f. c f = apiResult (f r)) \<Longrightarrow> request_allowed r \<Longrightarrow> within_contract c"
  by (auto simp: within_contract_def)

inductive client_call :: "(fetch \<Rightarrow> result) \<Rightarrow> bool" where
  me: "client_call me"
| issue_access_key: "client_call issue_access_key"
| revoke_access_key: "client_call revoke_access_key"
| admin_submissions: "client_call admin_submissions"
| publish_private: "client_call publish_private"
| unpublish_private: "client_call unpublish_private"
| retry: "client_call (\<lambda>f. retry f sid)"
| disqualify: "client_call (\<lambda>f. disqualify f sid reason)"
| import_datasets: "conforms DatasetManifest m \<Longrightarrow> client_call (\<lambda>f. import_datasets f m)"
| fetch_contest: "client_call fetch_contest"
| fetch_leaderboard: "client_call (\<lambda>f. fetch_leaderboard f b l)"
| fetch_leaderboard_replay: "client_call fetch_leaderboard_replay"
| fetch_datasets: "client_call fetch_datasets"
| subscribe_contest: "client_call (\<lambda>f. apiResult (f (subscribe_contest b l)))"
| fetch_submissions: "client_call fetch_submissions"
| subscribe_submissions: "client_call (\<lambda>f. apiResult (f subscribe_submissions))"
| submission_source: "client_call (\<lambda>f. submission_source f sid)"
| submit: "client_call (\<lambda>f. submit f draft)"

named_theorems call_defs \<open>definitions of the client's calls\<close>

lemmas [call_defs] = me_def issue_access_key_def revoke_access_key_def admin_submissions_def
  publish_private_def unpublish_private_def retry_def disqualify_def import_datasets_def
  fetch_contest_def fetch_leaderboard_def fetch_leaderboard_replay_def fetch_datasets_def
  fetch_submissions_def submission_source_def

lemmas path_tables = paths_def access_and_release_paths_def admin_submission_paths_def
  contest_and_dataset_paths_def leaderboard_and_account_paths_def submission_paths_def

lemma client_operations:
  "operation_at paths GET (js ''/api/v1/me'') = Some getMe"
  "operation_at paths POST (js ''/api/v1/access-key'') = Some issueAccessKey"
  "operation_at paths DELETE (js ''/api/v1/access-key'') = Some revokeAccessKey"
  "operation_at paths GET (js ''/api/v1/admin/submissions'') = Some listAdminSubmissions"
  "operation_at paths POST (js ''/api/v1/admin/private/publish'') = Some publishPrivate"
  "operation_at paths POST (js ''/api/v1/admin/private/unpublish'') = Some unpublishPrivate"
  "operation_at paths POST (js ''/api/v1/admin/submissions/{id}/retry'') = Some retrySubmission"
  "operation_at paths POST (js ''/api/v1/admin/submissions/{id}/disqualify'') = Some disqualifySubmission"
  "operation_at paths POST (js ''/api/v1/admin/datasets/import'') = Some importDatasets"
  "operation_at paths GET (js ''/api/v1/contest'') = Some getContest"
  "operation_at paths GET (js ''/api/v1/leaderboard'') = Some getLeaderboard"
  "operation_at paths GET (js ''/api/v1/leaderboard/replay'') = Some getLeaderboardReplay"
  "operation_at paths GET (js ''/api/v1/datasets'') = Some getDatasets"
  "operation_at paths GET (js ''/api/v1/contest/events'') = Some streamContest"
  "operation_at paths GET (js ''/api/v1/submissions'') = Some listSubmissions"
  "operation_at paths GET (js ''/api/v1/submissions/events'') = Some streamSubmissions"
  "operation_at paths GET (js ''/api/v1/submissions/{id}/source'') = Some getSubmissionSource"
  "operation_at paths POST (js ''/api/v1/submissions'') = Some createSubmission"
  by (simp_all add: operation_at_def path_tables)

lemmas client_operation_defs = getMe_def issueAccessKey_def revokeAccessKey_def listAdminSubmissions_def
  publishPrivate_def unpublishPrivate_def retrySubmission_def disqualifySubmission_def importDatasets_def
  getContest_def getLeaderboard_def getLeaderboardReplay_def getDatasets_def streamContest_def
  listSubmissions_def streamSubmissions_def getSubmissionSource_def createSubmission_def

lemma conforms_names:
  "conforms ExecutionKind (JStr (execution_kind_name k))" "conforms Language (JStr (language_name l))"
  "conforms LeaderboardBoard (JStr (board_name b))"
  unfolding wire_enumeration by blast+

lemma id_allowed: "params_allowed (Some (Required, [(js ''id'', Required, Uuid)])) [(js ''id'', JStr_id)]"
  by (simp add: params_allowed_def conforms_object_iff Uuid_def conforms_string_iff)

lemma board_query_allowed:
  "params_allowed (Some (Optional, [(js ''board'', Optional, LeaderboardBoard), (js ''language'', Optional, Language)]))
     (board_query b l)"
  by (cases l) (simp_all add: params_allowed_def conforms_object_iff board_query_def conforms_names)

lemma form_allowed:
  "conforms SubmissionUpload (JObj (map (\<lambda>(k, v). (k, form_json v)) (serialize_body (submission_body_of draft f))))"
proof -
  have "script_kind_name k \<noteq> []" for k by (cases k) simp_all
  moreover have "native_language_name n \<noteq> []" for n by (cases n) simp_all
  ultimately have "language_name l \<noteq> []" for l by (cases l) simp_all
  then show ?thesis
    by (cases "binary draft") (simp_all add: SubmissionUpload_def conforms_object_iff serialize_body_def submission_body_of_def
      map_set_def map_new_def conforms_names conforms_names(1) [of Native, simplified] conforms_string_iff)
qed

lemma no_params: "params_allowed None []"
  by (simp add: params_allowed_def)

lemma reason_allowed: "conforms (Object_type [(js ''reason'', Required, String_type)]) (JObj [(js ''reason'', JStr s)])"
  by (simp add: conforms_object_iff conforms_string_iff)

lemma subscribe_contest_params: "url_search (apiUrl u (map (\<lambda>(k, v). (k, Some v)) (board_query b l))) = board_query b l"
  by (cases l) (simp_all add: apiUrl_def board_query_def map_set_def map_new_def)

lemma subscribe_submissions_params: "url_search (apiUrl u []) = []"
  by (simp add: apiUrl_def map_new_def)

lemma url_path_apiUrl: "url_path (apiUrl u es) = u"
  by (simp add: apiUrl_def)

lemma call_within_contract:
  assumes "client_call c"
  shows "within_contract c"
  using assms
proof cases
  case submit
  have "within_contract (\<lambda>f. apiResult (f (plain_request POST (js ''/api/v1/submissions'')
      \<lparr>request_content := Form_content (serialize_body (submission_body_of draft src))\<rparr>)))" for draft src
    by (rule within_contractI [OF refl])
      (simp add: request_allowed_def plain_request_def client_operations createSubmission_def no_params form_allowed)
  with submit show ?thesis
    by (auto simp: submit_def within_contract_def split: option.splits)
qed (hypsubst, rule within_contractI, rule call_defs refl,
    simp add: request_allowed_def plain_request_def client_operations client_operation_defs no_params id_allowed
      board_query_allowed reason_allowed subscribe_contest_def subscribe_submissions_def event_source_def
      subscribe_contest_params url_path_apiUrl subscribe_submissions_params)+



section \<open>What a reply becomes\<close>

text \<open>The reply is one of the responses an operation documents, decoded: the body of a response that
  is ok is the data, any other body the error.\<close>

definition documented_reply :: "operation \<Rightarrow> reply \<Rightarrow> bool" where
  "documented_reply op r \<longleftrightarrow> (\<exists>d \<in> set (responses op). reply_status r = status d \<and>
     (let body = (if reply_ok r then reply_data r else reply_error r) in
      case content d of
        None \<Rightarrow> body = None
      | Some types \<Rightarrow> \<exists>v. body = Some v \<and> (\<exists>(media, t) \<in> set types. conforms t v)))"

definition result_type :: "operation \<Rightarrow> nat \<Rightarrow> json option \<Rightarrow> bool" where
  "result_type op code body \<longleftrightarrow> (\<exists>d \<in> set (responses op). code = status d \<and>
     (case content d of
        None \<Rightarrow> body = None
      | Some types \<Rightarrow> \<exists>v. body = Some v \<and> (\<exists>(media, t) \<in> set types. conforms t v)))"

lemma failures_documented:
  "list_all (\<lambda>op. list_all (\<lambda>d. status d < 400 \<or> status d = 503 \<or> d = error_response (status d)) (responses op)) operations"
  by (simp add: operations_def issueAccessKey_def revokeAccessKey_def importDatasets_def publishPrivate_def
      unpublishPrivate_def listAdminSubmissions_def disqualifySubmission_def retrySubmission_def getContest_def
      streamContest_def getDatasets_def downloadDataset_def getHealth_def getLeaderboard_def
      getLeaderboardReplay_def getMe_def getReady_def listSubmissions_def createSubmission_def
      streamSubmissions_def getSubmission_def getSubmissionSource_def error_response_def)

lemma operations_of_paths: "(t, ms) \<in> set paths \<Longrightarrow> (m, op) \<in> set ms \<Longrightarrow> op \<in> set operations"
  by (auto simp: path_tables operations_def)

lemma error_body_message:
  assumes "conforms (Object_type [(js ''error'', Required, ErrorDetail)]) v"
  shows "\<exists>e s. member v (js ''error'') = Some e \<and> member e (js ''message'') = Some (JStr s)"
proof -
  obtain e where e: "member v (js ''error'') = Some e" "conforms ErrorDetail e"
    using conforms_member [OF assms, of "js ''error''" ErrorDetail] by auto
  then obtain x where "member e (js ''message'') = Some x" "conforms String_type x"
    using conforms_member [OF e(2) [unfolded ErrorDetail_def], of "js ''message''" String_type] by auto
  with e show ?thesis by (auto simp: conforms_string_iff)
qed

lemma error_reply_message:
  assumes "documented_reply op r" "op \<in> set operations" "400 \<le> reply_status r" "reply_status r \<noteq> 503"
  shows "\<exists>msg. error_message r = Some msg"
proof -
  have not_ok: "\<not> reply_ok r" using assms(3) by (simp add: reply_ok_def)
  from assms(1) obtain d where d: "d \<in> set (responses op)" "reply_status r = status d"
      "case content d of None \<Rightarrow> reply_error r = None
        | Some types \<Rightarrow> \<exists>v. reply_error r = Some v \<and> (\<exists>(media, t) \<in> set types. conforms t v)"
    unfolding documented_reply_def Let_def if_not_P [OF not_ok] by blast
  have "d = error_response (status d)"
    using failures_documented [unfolded list_all_iff, rule_format, OF assms(2) d(1)] assms(3,4) d(2)
    by linarith
  then have "content d = Some [(js ''application/json'', Object_type [(js ''error'', Required, ErrorDetail)])]"
    by (metis error_response_def response_type.select_convs(3))
  with d(3) obtain v where "reply_error r = Some v" "conforms (Object_type [(js ''error'', Required, ErrorDetail)]) v"
    by auto
  then show ?thesis using error_body_message [of v] by (auto simp: error_message_def)
qed

text \<open>C23: When the server answers an operation with one of its documented responses, the client's
  promise either yields a value of the response's type, or it is rejected; a documented failure other
  than \<open>503\<close> is rejected with the very message the server sent.\<close>

theorem api_result_typed:
  assumes "(t, ms) \<in> set paths" "(m, op) \<in> set ms" "documented_reply op r"
  shows "case apiResult r of
      Inr d \<Rightarrow> result_type op (reply_status r) d \<and> reply_status r < 300
    | Inl msg \<Rightarrow> 300 \<le> reply_status r \<and>
        (400 \<le> reply_status r \<and> reply_status r \<noteq> 503 \<longrightarrow> error_message r = Some msg)"
proof -
  have op: "op \<in> set operations" using operations_of_paths assms(1,2) .
  show ?thesis
  proof (cases "reply_ok r")
    case True
    with assms(3) have "result_type op (reply_status r) (reply_data r)"
      by (auto simp: documented_reply_def result_type_def Let_def)
    with True show ?thesis by (simp add: apiResult_def reply_ok_def)
  next
    case False
    have "200 \<le> reply_status r"
    proof -
      have "list_all (\<lambda>op. list_all (\<lambda>d. 200 \<le> status d) (responses op)) operations"
        by (simp add: operations_def client_operation_defs downloadDataset_def getHealth_def getReady_def
            getSubmission_def error_response_def)
      then show ?thesis using op assms(3) by (auto simp: documented_reply_def list_all_iff)
    qed
    with False have "300 \<le> reply_status r" by (simp add: reply_ok_def)
    then show ?thesis using False error_reply_message [OF assms(3) op] by (auto simp: apiResult_def)
  qed
qed

theorem api_result_typed_witness:
  "case apiResult \<lparr>reply_status = 404, reply_data = None, reply_error = Some (JObj [(js ''error'',
      JObj [(js ''code'', JStr []), (js ''message'', JStr (js ''gone'')), (js ''requestId'', JStr [])])])\<rparr> of
      Inr d \<Rightarrow> result_type getMe 404 d \<and> (404::nat) < 300
    | Inl msg \<Rightarrow> (300::nat) \<le> 404 \<and>
        ((400::nat) \<le> 404 \<and> (404::nat) \<noteq> 503 \<longrightarrow>
         error_message \<lparr>reply_status = 404, reply_data = None, reply_error = Some (JObj [(js ''error'',
      JObj [(js ''code'', JStr []), (js ''message'', JStr (js ''gone'')), (js ''requestId'', JStr [])])])\<rparr> = Some msg)"
  by (rule api_result_typed [where r = "\<lparr>reply_status = 404, reply_data = None, reply_error = Some (JObj [(js ''error'',
      JObj [(js ''code'', JStr []), (js ''message'', JStr (js ''gone'')), (js ''requestId'', JStr [])])])\<rparr>"
        and t = "js ''/api/v1/me''" and ms = "[(GET, getMe)]" and m = GET and op = getMe, simplified reply.simps])
    (simp_all add: path_tables documented_reply_def reply_ok_def getMe_def error_response_def
      conforms_object_iff ErrorDetail_def conforms_string_iff)

end
