(* ===== verification/Contest_Live.thy ===== *)
theory Contest_Live
  imports Client
begin

text \<open>
  The live updates of the web client, \<^verbatim>\<open>gateways/use-contest-live.ts\<close>: every event of the contest stream
  is parsed, merged into the cached overview and stored as the cached leaderboard.  The query cache
  is the library react-query: it is an argument, and the locale \<open>query_cache\<close> is what the hook relies on.
\<close>

type_synonym query_key = "jsstring list"

locale query_cache =
  fixes read :: "'c \<Rightarrow> query_key \<Rightarrow> json option"
    and store :: "query_key \<Rightarrow> json \<Rightarrow> 'c \<Rightarrow> 'c"
  assumes read_store: "read (store k v c) k' = (if k' = k then Some v else read c k')"

interpretation map_cache: query_cache map_get map_set
  by unfold_locales (simp add: jm.get_put)

section \<open>The hook\<close>

definition overview_key :: query_key where
  "overview_key = [js ''contest'']"

definition leaderboard_key :: "board \<Rightarrow> language option \<Rightarrow> query_key" where
  "leaderboard_key b l = [js ''leaderboard'', board_name b,
     case l of None \<Rightarrow> js ''all'' | Some x \<Rightarrow> language_name x]"

text \<open>\<open>{ ...a, ...b }\<close>: only an object has members to spread.\<close>

definition spread :: "json \<Rightarrow> (jsstring, json) js_map" where
  "spread v = (case v of JObj ms \<Rightarrow> ms | _ \<Rightarrow> [])"

definition merge_objects :: "json \<Rightarrow> json \<Rightarrow> json" where
  "merge_objects a b = JObj (foldl (\<lambda>m p. map_set (fst p) (snd p) m) (spread a) (spread b))"

definition truthy :: "json \<Rightarrow> bool" where
  "truthy v = (case v of
      JNull \<Rightarrow> False
    | JBool b \<Rightarrow> b
    | JNum x \<Rightarrow> x \<noteq> NaN \<and> x \<noteq> Fin 0
    | JStr s \<Rightarrow> s \<noteq> []
    | _ \<Rightarrow> True)"

text \<open>\<open>setQueryData\<close> with an updater that is not called for, or returns, undefined keeps the cache.\<close>

definition update_overview ::
    "('c \<Rightarrow> query_key \<Rightarrow> json option) \<Rightarrow> (query_key \<Rightarrow> json \<Rightarrow> 'c \<Rightarrow> 'c) \<Rightarrow> json \<Rightarrow> 'c \<Rightarrow> 'c" where
  "update_overview read store update cache =
     (case read cache overview_key of
        None \<Rightarrow> cache
      | Some current \<Rightarrow> store overview_key
          (if truthy current
           then merge_objects current (case member update (js ''contest'') of None \<Rightarrow> JNull | Some c \<Rightarrow> c)
           else current) cache)"

definition onUpdate ::
    "('c \<Rightarrow> query_key \<Rightarrow> json option) \<Rightarrow> (query_key \<Rightarrow> json \<Rightarrow> 'c \<Rightarrow> 'c) \<Rightarrow> board \<Rightarrow> language option \<Rightarrow> json \<Rightarrow> 'c \<Rightarrow> 'c"
where
  "onUpdate read store b l update cache =
     (let cache = update_overview read store update cache
      in case member update (js ''leaderboard'') of
           None \<Rightarrow> cache
         | Some v \<Rightarrow> store (leaderboard_key b l) v cache)"

text \<open>The listener of an event: data that is no JSON text, or is null, throws before the cache is
  touched.\<close>

definition contest_event ::
    "('c \<Rightarrow> query_key \<Rightarrow> json option) \<Rightarrow> (query_key \<Rightarrow> json \<Rightarrow> 'c \<Rightarrow> 'c) \<Rightarrow> board \<Rightarrow> language option \<Rightarrow> jsstring \<Rightarrow> 'c \<Rightarrow> 'c"
where
  "contest_event read store b l data cache =
     (case json_parse data of
        None \<Rightarrow> cache
      | Some JNull \<Rightarrow> cache
      | Some update \<Rightarrow> onUpdate read store b l update cache)"

section \<open>The cache stays typed\<close>

definition live_members :: "jsstring list" where
  "live_members = [js ''privatePublishedAt'', js ''participants'', js ''totalSubmissions'']"

text \<open>An update of the contract whose contest part has the declared members only, each once.\<close>

definition live_update :: "json \<Rightarrow> bool" where
  "live_update v \<longleftrightarrow> conforms ContestLiveUpdate v \<and>
     (\<exists>ms. member v (js ''contest'') = Some (JObj ms) \<and> distinct (map fst ms) \<and> set (map fst ms) \<subseteq> set live_members)"

definition cache_typed :: "('c \<Rightarrow> query_key \<Rightarrow> json option) \<Rightarrow> 'c \<Rightarrow> bool" where
  "cache_typed read c \<longleftrightarrow>
     pred_option (conforms ContestOverview) (read c overview_key) \<and>
     (\<forall>b l. pred_option (conforms Leaderboard) (read c (leaderboard_key b l)))"

lemma map_of_merge:
  "distinct (map fst ms) \<Longrightarrow>
    map_of (foldl (\<lambda>m p. map_set (fst p) (snd p) m) a ms) k = (case map_of ms k of Some x \<Rightarrow> Some x | None \<Rightarrow> map_of a k)"
proof (induction ms arbitrary: a)
  case (Cons p ms)
  have "map_of ms (fst p) = None" using Cons.prems by (simp add: map_of_eq_None_iff)
  with Cons.IH [of "map_set (fst p) (snd p) a"] Cons.prems show ?case
    using jm.get_put [of "fst p" "snd p" a k]
    by (cases p) (auto simp: map_get_def split: option.splits)
qed simp

lemma member_merge:
  assumes "distinct (map fst ms)"
  shows "member (merge_objects (JObj a) (JObj ms)) k =
    (case map_of ms k of Some x \<Rightarrow> Some x | None \<Rightarrow> map_of a k)"
  using map_of_merge [OF assms] by (simp add: merge_objects_def member_def spread_def)

lemma merge_conforms:
  assumes "conforms (Object_type fs) (JObj a)" "distinct (map fst ms)" "distinct (map fst fs)"
    "\<And>k x. map_of ms k = Some x \<Longrightarrow> \<exists>p t. (k, p, t) \<in> set fs \<and> conforms t x"
  shows "conforms (Object_type fs) (merge_objects (JObj a) (JObj ms))"
proof -
  have m: "map_of (foldl (\<lambda>m p. map_set (fst p) (snd p) m) a ms) k =
      (case map_of ms k of Some x \<Rightarrow> Some x | None \<Rightarrow> map_of a k)" for k
    using map_of_merge [OF assms(2)] .
  show ?thesis
    unfolding merge_objects_def spread_def json.case conforms_object_iff
  proof (intro exI conjI refl ballI)
    let ?m = "map_of (foldl (\<lambda>m p. map_set (fst p) (snd p) m) a ms)"
    fix f
    assume "f \<in> set fs"
    moreover obtain k p t where "f = (k, p, t)" by (cases f)
    ultimately have f: "f = (k, p, t)" "(k, p, t) \<in> set fs" by simp_all
    have "(?m k = None \<and> p = Optional) \<or> (\<exists>x. ?m k = Some x \<and> conforms t x)"
    proof (cases "map_of ms k")
      case None
      with f(2) m assms(1) show ?thesis unfolding conforms_object_iff by auto
    next
      case (Some x)
      with assms(4) obtain p' t' where "(k, p', t') \<in> set fs" "conforms t' x" by blast
      then have "conforms t x" using assms(3) f(2) eq_key_imp_eq_value by fastforce
      with Some m show ?thesis by simp
    qed
    with f(1) show "case f of (k, p, t) \<Rightarrow> (?m k = None \<and> p = Optional) \<or> (\<exists>x. ?m k = Some x \<and> conforms t x)"
      by simp
  qed simp
qed

lemma live_member_types:
  assumes "live_update v" "member v (js ''contest'') = Some (JObj ms)" "map_of ms k = Some x"
  shows "\<exists>t. (k, Required, t) \<in> {(js ''privatePublishedAt'', Required, Union_type [Both_types String_type DateTimeString, Null_type]),
      (js ''participants'', Required, Number_type), (js ''totalSubmissions'', Required, Number_type)} \<and> conforms t x"
proof -
  have "conforms (Object_type [(js ''privatePublishedAt'', Required, Union_type [Both_types String_type DateTimeString, Null_type]),
      (js ''participants'', Required, Number_type), (js ''totalSubmissions'', Required, Number_type)]) (JObj ms)"
    using assms(1,2) conforms_member [of _ v "js ''contest''"]
    unfolding live_update_def ContestLiveUpdate_def by fastforce
  moreover have "k \<in> set live_members"
    using assms by (force simp: live_update_def dest: map_of_SomeD)
  ultimately show ?thesis using assms(3) unfolding conforms_object_iff live_members_def by auto
qed

lemma overview_merge_conforms:
  assumes "live_update v" "member v (js ''contest'') = Some (JObj ms)" "conforms ContestOverview cur"
  shows "conforms ContestOverview (merge_objects cur (JObj ms))"
proof -
  obtain a where a: "cur = JObj a" using assms(3) unfolding ContestOverview_def conforms_object_iff by blast
  obtain fs where fs: "ContestOverview = Object_type fs" "distinct (map fst fs)"
    "{(js ''privatePublishedAt'', Required, Union_type [Both_types String_type DateTimeString, Null_type]),
      (js ''participants'', Required, Number_type), (js ''totalSubmissions'', Required, Number_type)} \<subseteq> set fs"
    unfolding ContestOverview_def by fastforce
  show ?thesis unfolding fs(1) a
  proof (rule merge_conforms)
    show "conforms (Object_type fs) (JObj a)" using assms(3) unfolding fs(1) a .
    show "distinct (map fst ms)" using assms(1,2) by (auto simp: live_update_def)
    show "\<exists>p t. (k, p, t) \<in> set fs \<and> conforms t x" if "map_of ms k = Some x" for k x
      using live_member_types [OF assms(1,2) that] fs(3) by blast
  qed (rule fs(2))
qed

lemma member_JObj: "member (JObj ms) k = map_of ms k"
  by (simp add: member_def)

lemma key_overview: "leaderboard_key b l \<noteq> overview_key" "overview_key \<noteq> leaderboard_key b l"
  by (simp_all add: leaderboard_key_def overview_key_def)

definition live_state :: "json \<Rightarrow> json \<Rightarrow> json" where
  "live_state cur update = merge_objects cur (the (member update (js ''contest'')))"

definition wire_event :: "jsstring \<Rightarrow> bool" where
  "wire_event data \<longleftrightarrow> pred_option live_update (json_parse data)"

context query_cache begin

lemma update_effect:
  assumes "live_update v" "cache_typed read c"
  shows "read (onUpdate read store b l v c) overview_key = map_option (\<lambda>cur. live_state cur v) (read c overview_key)"
    "read (onUpdate read store b l v c) (leaderboard_key b l) = member v (js ''leaderboard'')"
    "k \<noteq> overview_key \<Longrightarrow> k \<noteq> leaderboard_key b l \<Longrightarrow> read (onUpdate read store b l v c) k = read c k"
proof -
  have "truthy cur" if "read c overview_key = Some cur" for cur
    using assms(2) that by (auto simp: cache_typed_def ContestOverview_def conforms_object_iff truthy_def)
  moreover obtain x where "member v (js ''leaderboard'') = Some x"
    using assms(1) conforms_member [of _ v "js ''leaderboard''"] unfolding live_update_def ContestLiveUpdate_def by fastforce
  moreover obtain ms where "member v (js ''contest'') = Some (JObj ms)"
    using assms(1) by (auto simp: live_update_def)
  ultimately show "read (onUpdate read store b l v c) overview_key = map_option (\<lambda>cur. live_state cur v) (read c overview_key)"
    "read (onUpdate read store b l v c) (leaderboard_key b l) = member v (js ''leaderboard'')"
    "k \<noteq> overview_key \<Longrightarrow> k \<noteq> leaderboard_key b l \<Longrightarrow> read (onUpdate read store b l v c) k = read c k"
    by (auto simp: onUpdate_def update_overview_def Let_def read_store key_overview live_state_def
        split: option.splits)
qed

lemma update_typed:
  assumes "live_update v" "cache_typed read c"
  shows "cache_typed read (onUpdate read store b l v c)"
proof -
  obtain ms where ms: "member v (js ''contest'') = Some (JObj ms)" using assms(1) by (auto simp: live_update_def)
  have "pred_option (conforms ContestOverview) (read (onUpdate read store b l v c) overview_key)"
    using assms(2) overview_merge_conforms [OF assms(1) ms]
    by (auto simp: update_effect(1) [OF assms] live_state_def ms cache_typed_def option.pred_map pred_option_def)
  moreover have "pred_option (conforms Leaderboard) (read (onUpdate read store b l v c) (leaderboard_key b' l'))" for b' l'
  proof (cases "leaderboard_key b' l' = leaderboard_key b l")
    case True
    then show ?thesis
      using assms(1) conforms_member [of _ v "js ''leaderboard''"]
      unfolding True update_effect(2) [OF assms] live_update_def ContestLiveUpdate_def by fastforce
  next
    case False
    then show ?thesis using assms(2) by (simp add: update_effect(3) [OF assms] key_overview cache_typed_def)
  qed
  ultimately show ?thesis by (simp add: cache_typed_def)
qed

lemma event_parsed:
  "json_parse data = Some v \<Longrightarrow> live_update v \<Longrightarrow> contest_event read store b l data c = onUpdate read store b l v c"
  by (auto simp: contest_event_def live_update_def member_def split: json.splits)

lemma event_typed: "wire_event data \<Longrightarrow> cache_typed read c \<Longrightarrow> cache_typed read (contest_event read store b l data c)"
  by (cases "json_parse data")
    (auto simp: wire_event_def event_parsed update_typed, simp add: contest_event_def)

lemma events_typed:
  "\<forall>d \<in> set ds. wire_event d \<Longrightarrow> cache_typed read c \<Longrightarrow>
    cache_typed read (foldl (\<lambda>c d. contest_event read store b l d c) c ds)"
  by (induction ds arbitrary: c) (simp_all add: event_typed)

lemma last_event:
  assumes "cache_typed read c" "json_parse data = Some v" "live_update v"
  shows "read (contest_event read store b l data c) (leaderboard_key b l) = member v (js ''leaderboard'')"
    "read c overview_key = Some cur \<Longrightarrow> \<exists>cur'. read (contest_event read store b l data c) overview_key = Some cur' \<and>
      (\<forall>k. member cur' k = (case member (the (member v (js ''contest''))) k of Some x \<Rightarrow> Some x | None \<Rightarrow> member cur k))"
proof -
  show "read (contest_event read store b l data c) (leaderboard_key b l) = member v (js ''leaderboard'')"
    using update_effect(2) [OF assms(3,1)] event_parsed [OF assms(2,3)] by simp
  assume cur: "read c overview_key = Some cur"
  then obtain a where a: "cur = JObj a"
    using assms(1) by (auto simp: cache_typed_def ContestOverview_def conforms_object_iff)
  obtain ms where ms: "member v (js ''contest'') = Some (JObj ms)" "distinct (map fst ms)"
    using assms(3) by (auto simp: live_update_def)
  have "read (contest_event read store b l data c) overview_key = Some (live_state cur v)"
    using update_effect(1) [OF assms(3,1)] event_parsed [OF assms(2,3)] cur by simp
  moreover have "member (live_state cur v) k = (case map_of ms k of Some x \<Rightarrow> Some x | None \<Rightarrow> map_of a k)" for k
    using member_merge [OF ms(2), of a k] by (simp add: live_state_def ms(1) a)
  ultimately show "\<exists>cur'. read (contest_event read store b l data c) overview_key = Some cur' \<and>
      (\<forall>k. member cur' k = (case member (the (member v (js ''contest''))) k of Some x \<Rightarrow> Some x | None \<Rightarrow> member cur k))"
    unfolding a ms(1) option.sel member_JObj by blast
qed

end

text \<open>C27: However many events of the contest stream arrive, the cached overview and the cached
  leaderboards keep the types of the contract.  After an event the subscribed leaderboard is the
  event's, and the cached overview has the event's publication time and counters and is unchanged in
  every other member.\<close>

theorem live_cache:
  assumes "query_cache read store" "cache_typed read c" "\<forall>d \<in> set ds. wire_event d"
    "json_parse data = Some v" "live_update v"
  shows "let before = foldl (\<lambda>c d. contest_event read store b l d c) c ds;
      after = contest_event read store b l data before
    in cache_typed read before \<and> cache_typed read after \<and>
      read after (leaderboard_key b l) = member v (js ''leaderboard'') \<and>
      (\<forall>cur. read before overview_key = Some cur \<longrightarrow> (\<exists>cur'. read after overview_key = Some cur' \<and>
        (\<forall>k. member cur' k = (case member (the (member v (js ''contest''))) k of Some x \<Rightarrow> Some x | None \<Rightarrow> member cur k))))"
proof -
  note laws = query_cache.events_typed [OF assms(1)] query_cache.last_event [OF assms(1)] query_cache.update_typed [OF assms(1)]
  let ?before = "foldl (\<lambda>c d. contest_event read store b l d c) c ds"
  have before: "cache_typed read ?before" using laws(1) assms(2,3) by blast
  moreover have "cache_typed read (contest_event read store b l data ?before)"
    using query_cache.event_typed [OF assms(1)] before assms(4,5) by (simp add: wire_event_def)
  ultimately show ?thesis unfolding Let_def using laws(2,3) [OF before assms(4,5)] by blast
qed

definition demo_update :: json where
  "demo_update = JObj
     [(js ''contest'', JObj [(js ''privatePublishedAt'', JNull), (js ''participants'', JNum (Fin 2)),
         (js ''totalSubmissions'', JNum (Fin 5))]),
      (js ''leaderboard'', JObj [(js ''board'', JStr (js ''public'')), (js ''privatePublished'', JBool False),
         (js ''ranked'', JArr []), (js ''disqualified'', JArr [])])]"

lemma demo_update_live: "live_update demo_update"
  by (simp add: live_update_def demo_update_def ContestLiveUpdate_def Leaderboard_def LeaderboardBoard_def
      conforms_object_iff conforms_number_iff conforms_boolean_iff conforms_array_iff name_type_def
      live_members_def member_def) blast

lemma demo_update_text: "json_parse (stringify demo_update) = Some demo_update"
proof (rule json_round_trip)
  have "\<exists>i. Fin 2 = Fin (of_int i) \<and> \<bar>i\<bar> \<le> 2 ^ 53" by (rule exI [of _ 2]) simp
  moreover have "\<exists>i. Fin 5 = Fin (of_int i) \<and> \<bar>i\<bar> \<le> 2 ^ 53" by (rule exI [of _ 5]) simp
  ultimately show "json_ok demo_update" by (simp add: demo_update_def)
qed

theorem live_cache_witness:
  "map_get (contest_event map_get map_set Public_board None (stringify demo_update) map_new)
     (leaderboard_key Public_board None) = member demo_update (js ''leaderboard'')"
proof -
  have "cache_typed map_get map_new" by (simp add: cache_typed_def jm.get_empty)
  from live_cache [OF map_cache.query_cache_axioms this, of "[]" "stringify demo_update" demo_update Public_board None]
  show ?thesis using demo_update_text demo_update_live by (simp add: Let_def)
qed

end
