(* ===== verification/Submission_Form.thy ===== *)
theory Submission_Form
  imports Client
begin

text \<open>
  The submission form: what \<^verbatim>\<open>models/submission-options.ts\<close> derives from a draft, and the form of
  \<^verbatim>\<open>pages/submit-page.tsx\<close> and \<^verbatim>\<open>components/submission\<close> as a state machine over the user's choices.
  A file input of the browser shows the file chosen in it for as long as it stays mounted; React mounts
  a new one when its key, the accepted extensions, changes.
\<close>

section \<open>What the draft determines\<close>

definition draft_extensions :: "submission_draft \<Rightarrow> jsstring list" where
  "draft_extensions draft = sourceExtensions (case executionKind draft of
      Native \<Rightarrow> draft_language draft
    | Script k \<Rightarrow> Script_language k)"

text \<open>An empty list of extensions joins to the empty string, which is falsy: no restriction.\<close>

definition sourceAccept :: "submission_draft \<Rightarrow> jsstring option" where
  "sourceAccept draft =
     (let s = join_with (js '','') (draft_extensions draft) in if s = [] then None else Some s)"

definition highlight_names :: "(jsstring \<times> jsstring) list" where
  "highlight_names = [(js ''c'', js ''c''), (js ''cpp'', js ''cpp''), (js ''go'', js ''go''),
     (js ''rust'', js ''rust''), (js ''zig'', js ''zig''), (js ''csharp'', js ''csharp'')]"

definition previewLanguage :: "submission_draft \<Rightarrow> jsstring" where
  "previewLanguage draft =
     (case executionKind draft of
        Script Bun \<Rightarrow>
          (if (case source draft of None \<Rightarrow> False | Some f \<Rightarrow> ends_with (file_name f) (js ''.js''))
           then js ''javascript'' else js ''typescript'')
      | Script k \<Rightarrow> script_kind_name k
      | Native \<Rightarrow>
          (case map_of highlight_names (language_name (draft_language draft)) of
             Some name \<Rightarrow> name
           | None \<Rightarrow> js ''text''))"

definition source_suffixes :: "(jsstring \<times> jsstring) list" where
  "source_suffixes = [(js ''c'', js ''c''), (js ''cpp'', js ''cpp''), (js ''go'', js ''go''), (js ''rust'', js ''rs''),
     (js ''zig'', js ''zig''), (js ''csharp'', js ''cs''), (js ''other'', js ''txt'')]"

definition defaultSourceName :: "submission_draft \<Rightarrow> jsstring" where
  "defaultSourceName draft =
     (case executionKind draft of
        Native \<Rightarrow> js ''main.'' @ (case map_of source_suffixes (language_name (draft_language draft)) of
            Some suffix \<Rightarrow> suffix
          | None \<Rightarrow> js ''txt'')
      | Script k \<Rightarrow> if k = Javascript then js ''main.js'' else if k = Ruby then js ''main.rb'' else js ''main.ts'')"

definition curl_line :: "jsstring \<Rightarrow> jsstring \<Rightarrow> jsstring" where
  "curl_line name val = js ''  -F '' @ name @ js ''='' @ val @ [32, 92]"

definition curl_fields :: "submission_draft \<Rightarrow> jsstring list" where
  "curl_fields draft =
     curl_line (js ''executionKind'') (execution_kind_name (executionKind draft)) #
     (if executionKind draft = Native
      then [curl_line (js ''language'') (language_name (draft_language draft)),
            curl_line (js ''binary'') (64 # (case binary draft of None \<Rightarrow> js ''program'' | Some f \<Rightarrow> file_name f))]
      else []) @
     [curl_line (js ''source'') (64 # (case source draft of None \<Rightarrow> defaultSourceName draft | Some f \<Rightarrow> file_name f))]"

text \<open>\<open>origin\<close> is the page's origin, against which the path of the endpoint is resolved.\<close>

definition createCurlExample :: "jsstring \<Rightarrow> submission_draft \<Rightarrow> jsstring" where
  "createCurlExample origin draft =
     js ''curl --fail-with-body '' @ [92, 10] @ js ''  -H '' @ [34] @ js ''Authorization: Bearer $ONEBRC_ACCESS_KEY'' @
     [34, 32, 92, 10] @ join_with [10] (curl_fields draft) @ [10] @ js ''  '' @ origin @ js ''/api/v1/submissions''"

section \<open>The form\<close>

datatype submit_method = Browser_form | Command_line

record submission_form =
  form_draft :: submission_draft
  form_method :: submit_method
  shown_source :: "upload_file option"
  shown_binary :: "upload_file option"

definition initialDraft :: submission_draft where
  "initialDraft = \<lparr>executionKind = Script Typescript, draft_language = Native_language Lang_cpp,
     source = None, binary = None\<rparr>"

definition initial_form :: submission_form where
  "initial_form = \<lparr>form_draft = initialDraft, form_method = Browser_form, shown_source = None, shown_binary = None\<rparr>"

definition source_mounted :: "submission_form \<Rightarrow> bool" where
  "source_mounted s \<longleftrightarrow> form_method s = Browser_form"

definition binary_mounted :: "submission_form \<Rightarrow> bool" where
  "binary_mounted s \<longleftrightarrow> form_method s = Browser_form \<and> executionKind (form_draft s) = Native"

text \<open>The inputs after a render: they keep what they show if they were there before with the same key.\<close>

definition render :: "submission_form \<Rightarrow> submission_form \<Rightarrow> submission_form" where
  "render old new = new
     \<lparr>shown_source := (if source_mounted old \<and> source_mounted new \<and>
          sourceAccept (form_draft old) = sourceAccept (form_draft new) then shown_source new else None),
      shown_binary := (if binary_mounted old \<and> binary_mounted new then shown_binary new else None)\<rparr>"

definition canSubmit :: "submission_draft \<Rightarrow> bool" where
  "canSubmit draft \<longleftrightarrow> source draft \<noteq> None \<and> (executionKind draft \<noteq> Native \<or> binary draft \<noteq> None)"

definition stepNumber :: "submission_draft \<Rightarrow> nat" where
  "stepNumber draft = (if executionKind draft = Native then 4 else 3)"

definition change_draft :: "(submission_draft \<Rightarrow> submission_draft) \<Rightarrow> submission_form \<Rightarrow> submission_form" where
  "change_draft change s = render s (s\<lparr>form_draft := change (form_draft s)\<rparr>)"

definition choose_kind :: "execution_kind \<Rightarrow> submission_form \<Rightarrow> submission_form" where
  "choose_kind k = change_draft (\<lambda>d. d\<lparr>executionKind := k, source := None, binary := None\<rparr>)"

definition choose_language :: "native_language \<Rightarrow> submission_form \<Rightarrow> submission_form" where
  "choose_language l = change_draft (\<lambda>d. d\<lparr>draft_language := Native_language l, source := None, binary := None\<rparr>)"

definition choose_source :: "upload_file option \<Rightarrow> submission_form \<Rightarrow> submission_form" where
  "choose_source f s = change_draft (\<lambda>d. d\<lparr>source := f\<rparr>) (s\<lparr>shown_source := f\<rparr>)"

definition choose_binary :: "upload_file option \<Rightarrow> submission_form \<Rightarrow> submission_form" where
  "choose_binary f s = change_draft (\<lambda>d. d\<lparr>binary := f\<rparr>) (s\<lparr>shown_binary := f\<rparr>)"

definition choose_method :: "submit_method \<Rightarrow> submission_form \<Rightarrow> submission_form" where
  "choose_method m s = render s (s\<lparr>form_method := m\<rparr>)"

text \<open>A select reports another value only, and so does a file input.\<close>

inductive form_step :: "submission_form \<Rightarrow> submission_form \<Rightarrow> bool" where
  kind: "k \<noteq> executionKind (form_draft s) \<Longrightarrow> form_step s (choose_kind k s)"
| language: "executionKind (form_draft s) = Native \<Longrightarrow> Native_language l \<noteq> draft_language (form_draft s) \<Longrightarrow>
    form_step s (choose_language l s)"
| source: "source_mounted s \<Longrightarrow> f \<noteq> shown_source s \<Longrightarrow> form_step s (choose_source f s)"
| binary: "binary_mounted s \<Longrightarrow> f \<noteq> shown_binary s \<Longrightarrow> form_step s (choose_binary f s)"
| switch: "form_step s (choose_method m s)"

inductive form_reachable :: "submission_form \<Rightarrow> bool" where
  initial: "form_reachable initial_form"
| step: "form_reachable s \<Longrightarrow> form_step s s' \<Longrightarrow> form_reachable s'"

text \<open>The same runs with a memory beside the form: how often a runtime or a language has been chosen, and
  for either input the file that was chosen in it last, with that number at the time.\<close>

inductive form_history :: "submission_form \<Rightarrow> nat \<Rightarrow> (nat \<times> upload_file) option \<Rightarrow> (nat \<times> upload_file) option \<Rightarrow> bool" where
  initial: "form_history initial_form 0 None None"
| kind: "form_history s n a b \<Longrightarrow> k \<noteq> executionKind (form_draft s) \<Longrightarrow> form_history (choose_kind k s) (Suc n) a b"
| language: "form_history s n a b \<Longrightarrow> executionKind (form_draft s) = Native \<Longrightarrow>
    Native_language l \<noteq> draft_language (form_draft s) \<Longrightarrow> form_history (choose_language l s) (Suc n) a b"
| source: "form_history s n a b \<Longrightarrow> source_mounted s \<Longrightarrow> f \<noteq> shown_source s \<Longrightarrow>
    form_history (choose_source f s) n (map_option (Pair n) f) b"
| binary: "form_history s n a b \<Longrightarrow> binary_mounted s \<Longrightarrow> f \<noteq> shown_binary s \<Longrightarrow>
    form_history (choose_binary f s) n a (map_option (Pair n) f)"
| switch: "form_history s n a b \<Longrightarrow> form_history (choose_method m s) n a b"

text \<open>The memory does not restrict the form.\<close>

lemma form_reachable_history: "form_reachable s \<longleftrightarrow> (\<exists>n a b. form_history s n a b)"
proof
  show "form_reachable s \<Longrightarrow> \<exists>n a b. form_history s n a b"
  proof (induction rule: form_reachable.induct)
    case initial
    show ?case using form_history.initial by blast
  next
    case (step s s')
    then obtain n a b where "form_history s n a b" by blast
    with step(2) show ?case by cases (blast intro: form_history.intros)+
  qed
next
  assume "\<exists>n a b. form_history s n a b"
  then obtain n a b where "form_history s n a b" by blast
  then show "form_reachable s"
    by induction (blast intro: form_reachable.intros form_step.intros)+
qed

text \<open>The button is enabled, and the browser finds a file in every mounted input, which are required.\<close>

definition form_submits :: "submission_form \<Rightarrow> bool" where
  "form_submits s \<longleftrightarrow> form_method s = Browser_form \<and> canSubmit (form_draft s) \<and> shown_source s \<noteq> None \<and>
     (binary_mounted s \<longrightarrow> shown_binary s \<noteq> None)"

section \<open>The form sends what it shows\<close>

definition form_ok :: "submission_form \<Rightarrow> bool" where
  "form_ok s \<longleftrightarrow> (\<exists>n. draft_language (form_draft s) = Native_language n) \<and>
     (shown_source s = None \<or> shown_source s = source (form_draft s)) \<and>
     (binary (form_draft s) = None \<or> shown_binary s = None \<or> shown_binary s = binary (form_draft s)) \<and>
     (shown_binary s = None \<or> binary_mounted s)"

text \<open>No two runtimes or languages accept the same extensions.\<close>

lemma extensions_apart:
  "sourceAccept d = sourceAccept d' \<Longrightarrow>
   (case executionKind d of Native \<Rightarrow> draft_language d | Script k \<Rightarrow> Script_language k) =
   (case executionKind d' of Native \<Rightarrow> draft_language d' | Script k \<Rightarrow> Script_language k)"
proof -
  have apart: "join_with (js '','') (sourceExtensions l) = join_with (js '','') (sourceExtensions l') \<Longrightarrow> l = l'" for l l'
  proof -
    have "list_all (\<lambda>l. list_all (\<lambda>l'. join_with (js '','') (sourceExtensions l) = join_with (js '','') (sourceExtensions l') \<longrightarrow>
        l = l') languages) languages"
      by code_simp
    then show "join_with (js '','') (sourceExtensions l) = join_with (js '','') (sourceExtensions l') \<Longrightarrow> l = l'"
      unfolding list_all_iff by simp
  qed
  show "sourceAccept d = sourceAccept d' \<Longrightarrow>
    (case executionKind d of Native \<Rightarrow> draft_language d | Script k \<Rightarrow> Script_language k) =
    (case executionKind d' of Native \<Rightarrow> draft_language d' | Script k \<Rightarrow> Script_language k)"
    by (intro apart) (auto simp: sourceAccept_def draft_extensions_def Let_def split: if_splits)
qed

lemmas form_changes = choose_kind_def choose_language_def choose_source_def choose_binary_def choose_method_def
  change_draft_def render_def

lemma form_step_ok:
  assumes "form_ok s" "form_step s s'"
  shows "form_ok s'"
  using assms(2)
proof cases
  case (kind k)
  have "sourceAccept (form_draft s) \<noteq> sourceAccept (form_draft s\<lparr>executionKind := k, source := None, binary := None\<rparr>)"
    using kind(2) assms(1) extensions_apart [of "form_draft s" "form_draft s\<lparr>executionKind := k, source := None, binary := None\<rparr>"]
    by (auto simp: form_ok_def split: execution_kind.splits)
  then show ?thesis using assms(1) by (simp add: kind(1) form_changes form_ok_def binary_mounted_def)
next
  case (language l)
  have "sourceAccept (form_draft s) \<noteq> sourceAccept (form_draft s\<lparr>draft_language := Native_language l, source := None, binary := None\<rparr>)"
    using language(2,3) extensions_apart [of "form_draft s" "form_draft s\<lparr>draft_language := Native_language l, source := None, binary := None\<rparr>"]
    by auto
  then show ?thesis using assms(1) by (simp add: language(1) form_changes form_ok_def binary_mounted_def)
next
  case (source f)
  then show ?thesis using assms(1) by (auto simp: form_changes form_ok_def binary_mounted_def)
next
  case (binary f)
  then show ?thesis using assms(1) by (auto simp: form_changes form_ok_def binary_mounted_def)
next
  case (switch m)
  then show ?thesis using assms(1) by (auto simp: form_changes form_ok_def binary_mounted_def)
qed

lemma form_reachable_ok: "form_reachable s \<Longrightarrow> form_ok s"
proof (induction rule: form_reachable.induct)
  case initial
  show ?case by (simp add: form_ok_def initial_form_def initialDraft_def)
next
  case (step s s')
  then show ?case using form_step_ok by blast
qed

text \<open>What the draft has was chosen last, and after the last choice of a runtime or language.\<close>

lemma draft_is_recent:
  "form_history s n a b \<Longrightarrow>
    (\<forall>f. source (form_draft s) = Some f \<longrightarrow> a = Some (n, f)) \<and> (\<forall>g. binary (form_draft s) = Some g \<longrightarrow> b = Some (n, g))"
  by (induction rule: form_history.induct) (auto simp: form_changes initial_form_def initialDraft_def)

lemma zod_named: "zod accepts \<Longrightarrow> accepts nativeLanguageSchema (JStr (native_language_name n))"
  unfolding nativeLanguageSchema_def by (auto simp: zod.enum_law is_name_def)

definition draft_shown :: "submission_draft \<Rightarrow> language" where
  "draft_shown draft = (case executionKind draft of Native \<Rightarrow> draft_language draft | Script k \<Rightarrow> Script_language k)"

text \<open>C29: Whenever the form can be submitted, the gateway sends one request, with the source and for a
  native program the executable the inputs show.  Both are the files chosen last in their inputs, and they were
  chosen after the last choice of a runtime or language, so never for another one; the language the
  server infers from the fields is the one selected, and after another runtime or language is chosen
  nothing can be submitted until new files are chosen.\<close>

theorem form_sends_what_it_shows:
  assumes "form_history s n a b" "form_submits s" "zod accepts"
  shows "\<exists>f. shown_source s = Some f \<and>
    submit fetch (form_draft s) = apiResult (fetch (plain_request POST (js ''/api/v1/submissions'')
      \<lparr>request_content := Form_content (serialize_body (submission_body_of (form_draft s) f))\<rparr>)) \<and>
    body_binary (submission_body_of (form_draft s) f) = shown_binary s \<and>
    a = Some (n, f) \<and>
    (shown_binary s = None \<and> executionKind (form_draft s) \<noteq> Native
      \<or> (\<exists>g. shown_binary s = Some g \<and> b = Some (n, g) \<and> executionKind (form_draft s) = Native)) \<and>
    inferLanguage accepts (executionKind (form_draft s)) (body_language (submission_body_of (form_draft s) f)) =
      Some (draft_shown (form_draft s)) \<and>
    \<not> form_submits (choose_kind k s) \<and> \<not> form_submits (choose_language l s)"
proof -
  have ok: "form_ok s" using assms(1) form_reachable_history form_reachable_ok by blast
  obtain f where f: "shown_source s = Some f" "source (form_draft s) = Some f"
    using assms(2) ok by (auto simp: form_submits_def form_ok_def)
  obtain m where m: "draft_language (form_draft s) = Native_language m" using ok by (auto simp: form_ok_def)
  have shown: "body_binary (submission_body_of (form_draft s) f) = shown_binary s"
    using assms(2) ok by (auto simp: form_submits_def form_ok_def submission_body_of_def binary_mounted_def canSubmit_def)
  have inferred: "inferLanguage accepts (executionKind (form_draft s)) (body_language (submission_body_of (form_draft s) f)) =
      Some (draft_shown (form_draft s))"
    using zod_named [OF assms(3)] m
    by (auto simp: submission_body_of_def draft_shown_def inferLanguage_def split: execution_kind.splits)
  have recent: "a = Some (n, f)" "\<And>g. binary (form_draft s) = Some g \<Longrightarrow> b = Some (n, g)"
    using draft_is_recent [OF assms(1)] f(2) by auto
  have binary: "shown_binary s = None \<and> executionKind (form_draft s) \<noteq> Native
      \<or> (\<exists>g. shown_binary s = Some g \<and> b = Some (n, g) \<and> executionKind (form_draft s) = Native)"
    using assms(2) ok recent(2)
    by (auto simp: form_submits_def form_ok_def binary_mounted_def canSubmit_def)
  have blocked: "\<not> form_submits (choose_kind k s)" "\<not> form_submits (choose_language l s)"
    by (simp_all add: form_submits_def canSubmit_def form_changes)
  have "submit fetch (form_draft s) = apiResult (fetch (plain_request POST (js ''/api/v1/submissions'')
      \<lparr>request_content := Form_content (serialize_body (submission_body_of (form_draft s) f))\<rparr>))"
    using f(2) assms(2) by (auto simp: submit_def form_submits_def canSubmit_def)
  then show ?thesis using f(1) shown inferred recent(1) binary blocked by blast
qed

text \<open>The input for the executable has no key and stays: after another language is chosen it still
  shows the old executable, which the draft has lost, and choosing the same file again is no change.\<close>

definition stale_form :: "upload_file \<Rightarrow> submission_form" where
  "stale_form f = choose_source (Some f) (choose_language Lang_rust (choose_binary (Some f) (choose_kind Native initial_form)))"

theorem stale_executable:
  "form_reachable (stale_form f) \<and> shown_source (stale_form f) = Some f \<and> shown_binary (stale_form f) = Some f \<and>
   \<not> form_submits (stale_form f) \<and> \<not> canSubmit (form_draft (stale_form f))"
proof -
  let ?k = "choose_kind Native initial_form"
  let ?b = "choose_binary (Some f) ?k"
  let ?l = "choose_language Lang_rust ?b"
  note simps = form_changes initial_form_def initialDraft_def binary_mounted_def source_mounted_def
  have "form_reachable ?k"
    by (rule form_reachable.step [OF form_reachable.initial form_step.kind]) (simp add: simps)
  then have "form_reachable ?b"
    by (rule form_reachable.step [OF _ form_step.binary]) (simp_all add: simps)
  then have "form_reachable ?l"
    by (rule form_reachable.step [OF _ form_step.language]) (simp_all add: simps)
  then have "form_reachable (stale_form f)"
    unfolding stale_form_def by (rule form_reachable.step [OF _ form_step.source]) (simp_all add: simps sourceAccept_def draft_extensions_def js_eval)
  then show ?thesis
    by (simp add: stale_form_def simps form_submits_def canSubmit_def sourceAccept_def draft_extensions_def)
qed

section \<open>The command line sends the same\<close>

fun field_text :: "form_value \<Rightarrow> jsstring" where
  "field_text (Form_text t) = t"
| "field_text (Form_file f) = 64 # file_name f"

definition curl_command :: "jsstring \<Rightarrow> (jsstring \<times> form_value) list \<Rightarrow> jsstring" where
  "curl_command origin parts =
     js ''curl --fail-with-body '' @ [92, 10] @ js ''  -H '' @ [34] @ js ''Authorization: Bearer $ONEBRC_ACCESS_KEY'' @
     [34, 32, 92, 10] @ concat (map (\<lambda>(name, v). curl_line name (field_text v) @ [10]) parts) @
     js ''  '' @ origin @ js ''/api/v1/submissions''"

lemma name_not_empty: "native_language_name n \<noteq> []"
  by (cases n) simp_all

text \<open>With the files chosen, the curl command shown for the command line has exactly the fields
  of the form the browser would send, each file by its name, and posts to the same endpoint.\<close>

theorem curl_sends_the_form:
  assumes "form_reachable s" "source (form_draft s) = Some f" "canSubmit (form_draft s)"
  shows "\<exists>parts. mset parts = mset (serialize_body (submission_body_of (form_draft s) f)) \<and>
    createCurlExample origin (form_draft s) = curl_command origin parts"
proof (cases "executionKind (form_draft s)")
  case (Script k)
  then show ?thesis
    using assms(2)
    by (intro exI [of _ "serialize_body (submission_body_of (form_draft s) f)"])
      (simp add: serialize_body_def submission_body_of_def map_defs createCurlExample_def curl_command_def curl_fields_def)
next
  case Native
  obtain b where b: "binary (form_draft s) = Some b" using assms(3) Native by (auto simp: canSubmit_def)
  obtain n where n: "draft_language (form_draft s) = Native_language n"
    using form_reachable_ok [OF assms(1)] by (auto simp: form_ok_def)
  show ?thesis
    using assms(2) Native b n name_not_empty [of n]
    by (intro exI [of _ "[(js ''executionKind'', Form_text (js ''native'')), (js ''language'', Form_text (native_language_name n)),
          (js ''binary'', Form_file b), (js ''source'', Form_file f)]"])
      (simp add: serialize_body_def submission_body_of_def map_defs createCurlExample_def curl_command_def curl_fields_def)
qed

section \<open>Witnesses\<close>

definition demo_file :: upload_file where
  "demo_file = \<lparr>file_name = js ''main.ts'', file_content = js ''console.log(1)''\<rparr>"

lemma demo_form: "form_reachable (choose_source (Some demo_file) initial_form)"
  by (rule form_reachable.step [OF form_reachable.initial form_step.source])
    (simp_all add: initial_form_def source_mounted_def)

definition demo_binary :: upload_file where
  "demo_binary = \<lparr>file_name = js ''program'', file_content = js ''ELF''\<rparr>"

text \<open>A native program: the executable chosen for C++ is lost when Rust is chosen, and another is chosen.\<close>

definition demo_native :: submission_form where
  "demo_native = choose_source (Some demo_file) (choose_binary (Some demo_binary)
     (choose_language Lang_rust (choose_binary (Some demo_file) (choose_kind Native initial_form))))"

lemma demo_native_history: "form_history demo_native 2 (Some (2, demo_file)) (Some (2, demo_binary))"
proof -
  let ?k = "choose_kind Native initial_form"
  let ?b = "choose_binary (Some demo_file) ?k"
  let ?l = "choose_language Lang_rust ?b"
  let ?c = "choose_binary (Some demo_binary) ?l"
  note simps = form_changes initial_form_def initialDraft_def binary_mounted_def source_mounted_def
  have "form_history ?k (Suc 0) None None"
    by (rule form_history.kind [OF form_history.initial]) (simp add: simps)
  then have "form_history ?b (Suc 0) None (map_option (Pair (Suc 0)) (Some demo_file))"
    by (rule form_history.binary) (simp_all add: simps)
  then have "form_history ?l (Suc (Suc 0)) None (map_option (Pair (Suc 0)) (Some demo_file))"
    by (rule form_history.language) (simp_all add: simps)
  then have "form_history ?c (Suc (Suc 0)) None (map_option (Pair (Suc (Suc 0))) (Some demo_binary))"
    by (rule form_history.binary) (simp_all add: simps demo_file_def demo_binary_def js_eval)
  then have "form_history demo_native (Suc (Suc 0)) (map_option (Pair (Suc (Suc 0))) (Some demo_file))
      (map_option (Pair (Suc (Suc 0))) (Some demo_binary))"
    unfolding demo_native_def
    by (rule form_history.source) (simp_all add: simps sourceAccept_def draft_extensions_def js_eval)
  then show ?thesis by (simp add: numeral_2_eq_2)
qed

lemma demo_native_submits: "form_submits demo_native"
  by (simp add: demo_native_def form_submits_def form_changes initial_form_def initialDraft_def canSubmit_def
      source_mounted_def binary_mounted_def sourceAccept_def draft_extensions_def)

lemma demo_native_kind: "executionKind (form_draft demo_native) = Native"
  by (simp add: demo_native_def form_changes initial_form_def initialDraft_def)

theorem form_sends_what_it_shows_witness:
  "\<exists>f g. shown_source demo_native = Some f \<and> f = demo_file \<and> shown_binary demo_native = Some g \<and> g = demo_binary \<and>
    \<not> form_submits (choose_kind (Script Ruby) demo_native)"
  using form_sends_what_it_shows [OF demo_native_history demo_native_submits documented.zod_axioms, of _ "Script Ruby"]
    demo_native_kind
  by (metis option.distinct(1) option.inject prod.inject)

theorem curl_sends_the_form_witness:
  "\<exists>parts. mset parts = mset [(js ''executionKind'', Form_text (js ''typescript'')), (js ''source'', Form_file demo_file)] \<and>
    createCurlExample (js ''https://1brc.example'') (form_draft (choose_source (Some demo_file) initial_form)) =
      curl_command (js ''https://1brc.example'') parts"
  using curl_sends_the_form [OF demo_form, of demo_file "js ''https://1brc.example''"]
  by (simp add: form_changes initial_form_def initialDraft_def canSubmit_def serialize_body_def submission_body_of_def map_defs)

end
