(* ===== verification/Js_Search.thy ===== *)
theory Js_Search
  imports Js_Uri
begin

text \<open>
  \<open>URLSearchParams\<close>: the serialization \<open>application/x-www-form-urlencoded\<close> of a list of pairs and its
  parser.  Both are total: a lone surrogate is written, and bytes that are not UTF-8 are read, as the
  replacement character U+FFFD.
\<close>

definition replacement :: nat where
  "replacement = 0xFFFD"

text \<open>The scalar values of a string.\<close>

fun scalars :: "jsstring \<Rightarrow> nat list" where
  "scalars [] = []"
| "scalars [c] = [if 0xD800 \<le> unat c \<and> unat c < 0xE000 then replacement else unat c]"
| "scalars (c # d # s) =
     (if 0xD800 \<le> unat c \<and> unat c < 0xDC00 \<and> 0xDC00 \<le> unat d \<and> unat d < 0xE000
      then (0x10000 + (unat c - 0xD800) * 0x400 + (unat d - 0xDC00)) # scalars s
      else (if 0xD800 \<le> unat c \<and> unat c < 0xE000 then replacement else unat c) # scalars (d # s))"

definition well_formed :: "jsstring \<Rightarrow> jsstring" where
  "well_formed s = concat (map utf16 (scalars s))"

section \<open>Writing\<close>

definition form_safe :: "nat \<Rightarrow> bool" where
  "form_safe p \<longleftrightarrow> 48 \<le> p \<and> p \<le> 57 \<or> 65 \<le> p \<and> p \<le> 90 \<or> 97 \<le> p \<and> p \<le> 122 \<or> p \<in> {42, 45, 46, 95}"

definition form_point :: "nat \<Rightarrow> jsstring" where
  "form_point p = (if p = 32 then [43] else if form_safe p then [of_nat p] else concat (map percent (utf8 p)))"

definition form_component :: "jsstring \<Rightarrow> jsstring" where
  "form_component s = concat (map form_point (scalars s))"

definition serialize_params :: "(jsstring \<times> jsstring) list \<Rightarrow> jsstring" where
  "serialize_params ps = join_with [38] (map (\<lambda>(k, v). form_component k @ 61 # form_component v) ps)"

section \<open>Reading\<close>

text \<open>The UTF-8 decoder: how many continuation bytes are missing, the bits so far, and the range of
  the next byte.\<close>

fun lossy :: "nat \<Rightarrow> nat \<Rightarrow> nat \<Rightarrow> nat \<Rightarrow> nat list \<Rightarrow> nat list" where
  "lossy n p lo hi [] = (if n = 0 then [] else [replacement])"
| "lossy n p lo hi (b # bs) =
     (if 0 < n \<and> lo \<le> b \<and> b \<le> hi
      then (if n = 1 then (p * 64 + (b - 0x80)) # lossy 0 0 0 0 bs else lossy (n - 1) (p * 64 + (b - 0x80)) 0x80 0xBF bs)
      else (if 0 < n then [replacement] else []) @
        (if b < 0x80 then b # lossy 0 0 0 0 bs
         else if 0xC2 \<le> b \<and> b \<le> 0xDF then lossy 1 (b - 0xC0) 0x80 0xBF bs
         else if 0xE0 \<le> b \<and> b \<le> 0xEF
         then lossy 2 (b - 0xE0) (if b = 0xE0 then 0xA0 else 0x80) (if b = 0xED then 0x9F else 0xBF) bs
         else if 0xF0 \<le> b \<and> b \<le> 0xF4
         then lossy 3 (b - 0xF0) (if b = 0xF0 then 0x90 else 0x80) (if b = 0xF4 then 0x8F else 0xBF) bs
         else replacement # lossy 0 0 0 0 bs))"

text \<open>The search part of a URL is ASCII, so a code unit is a byte.\<close>

function percent_bytes :: "jsstring \<Rightarrow> nat list" where
  "percent_bytes [] = []"
| "percent_bytes (c # s) = (case escaped_byte (c # s) of
      Some (b, r) \<Rightarrow> b # percent_bytes r
    | None \<Rightarrow> unat c # percent_bytes s)"
  by pat_completeness auto

termination percent_bytes
  by (relation "measure length") (auto dest: escaped_byte_length)

definition plus_to_space :: "jsstring \<Rightarrow> jsstring" where
  "plus_to_space s = map (\<lambda>c. if c = 43 then 32 else c) s"

definition decode_component :: "jsstring \<Rightarrow> jsstring" where
  "decode_component s = concat (map utf16 (lossy 0 0 0 0 (percent_bytes (plus_to_space s))))"

definition parse_pair :: "jsstring \<Rightarrow> jsstring \<times> jsstring" where
  "parse_pair s = (decode_component (takeWhile (\<lambda>c. c \<noteq> 61) s), decode_component (drop 1 (dropWhile (\<lambda>c. c \<noteq> 61) s)))"

definition parse_params :: "jsstring \<Rightarrow> (jsstring \<times> jsstring) list" where
  "parse_params q =
     map parse_pair (filter (\<lambda>s. s \<noteq> []) (split_on 38 (if starts_with q (js ''?'') then drop 1 q else q)))"

section \<open>What was written is read back\<close>

lemma scalars_scalar: "p \<in> set (scalars s) \<Longrightarrow> scalar p"
proof (induction s rule: scalars.induct)
  case (2 c)
  have "unat c < 0x10000" using unsigned_less [of c] by simp
  with 2 show ?case by (auto simp: scalar_def replacement_def split: if_splits)
next
  case (3 c d s)
  have c: "unat c < 0x10000" using unsigned_less [of c] by simp
  show ?case using 3 c by (auto simp: scalar_def replacement_def split: if_splits)
qed simp

lemma escaped_byte_other: "c \<noteq> 37 \<Longrightarrow> escaped_byte (c # s) = None"
  by (cases "c # s" rule: escaped_byte.cases) auto

lemma percent_bytes_other: "c \<noteq> 37 \<Longrightarrow> percent_bytes (c # s) = unat c # percent_bytes s"
  by (simp add: escaped_byte_other)

declare percent_bytes.simps(2) [simp del]

lemma upper_hex_not_plus: "n < 16 \<Longrightarrow> upper_hex n \<noteq> 43"
  by (auto simp: upper_hex_def word_unat_eq_iff unat_of_nat simp del: of_nat_add)

lemma plus_to_space_append: "plus_to_space (s @ t) = plus_to_space s @ plus_to_space t"
  by (simp add: plus_to_space_def)

lemma percent_bytes_percent:
  "b < 256 \<Longrightarrow> percent_bytes (plus_to_space (percent b) @ r) = b # percent_bytes r"
proof -
  assume b: "b < 256"
  then have "plus_to_space (percent b) = percent b"
    by (simp add: plus_to_space_def percent_def upper_hex_not_plus)
  then show ?thesis using escaped_byte_percent [OF b, of r] by (simp add: percent_def percent_bytes.simps(2))
qed

lemma percent_bytes_percents:
  "\<forall>b \<in> set bs. b < 256 \<Longrightarrow> percent_bytes (plus_to_space (concat (map percent bs)) @ r) = bs @ percent_bytes r"
  by (induction bs) (simp_all add: plus_to_space_append percent_bytes_percent, simp add: plus_to_space_def)

lemma form_safe_unit: "form_safe p \<Longrightarrow> p < 128 \<and> p \<notin> {37, 43, 38, 61}"
  by (auto simp: form_safe_def)

lemma small_unit: "p < 128 \<Longrightarrow> unat (of_nat p :: code_unit) = p"
  by (simp add: unat_of_nat)

lemma percent_bytes_point:
  assumes "scalar p"
  shows "percent_bytes (plus_to_space (form_point p) @ r) = utf8 p @ percent_bytes r"
proof -
  consider "p = 32" | "p \<noteq> 32" "form_safe p" | "p \<noteq> 32" "\<not> form_safe p" by blast
  then show ?thesis
  proof cases
    case 1
    then show ?thesis by (simp add: form_point_def plus_to_space_def percent_bytes_other utf8_def)
  next
    case 2
    note u = small_unit [of p] form_safe_unit [OF 2(2)]
    then have "(of_nat p :: code_unit) \<noteq> 37" "(of_nat p :: code_unit) \<noteq> 43" by (auto simp: word_unat_eq_iff)
    then show ?thesis using 2 u by (simp add: form_point_def plus_to_space_def percent_bytes_other utf8_def)
  next
    case 3
    have "p < 0x110000" using assms by (auto simp: scalar_def)
    then show ?thesis using 3 utf8_bytes [of p] by (simp add: form_point_def percent_bytes_percents)
  qed
qed

lemma lossy_utf8:
  assumes "scalar p"
  shows "lossy 0 0 0 0 (utf8 p @ bs) = p # lossy 0 0 0 0 bs"
proof -
  have bound: "p < 0x110000" using assms by (auto simp: scalar_def)
  consider "p < 0x80" | "0x80 \<le> p" "p < 0x800" | "0x800 \<le> p" "p < 0x10000" | "0x10000 \<le> p" by linarith
  then show ?thesis
  proof cases
    case 2
    then have "2 \<le> p div 64" "p div 64 < 32" by simp_all
    with 2 show ?thesis by (simp add: utf8_def)
  next
    case 3
    define a b where "a = p div 4096" and "b = p div 64 mod 64"
    have p: "p = (a * 64 + b) * 64 + p mod 64"
      unfolding a_def b_def using div_mult2_eq [of p 64 64] by simp
    have m: "p mod 64 < 64" by simp
    have "a < 16" "b < 64" using 3 by (simp_all add: a_def b_def less_mult_imp_div_less)
    moreover have "32 \<le> b" if "a = 0"
    proof -
      obtain x where "p = (a * 64 + b) * 64 + x" "x < 64" using p m by blast
      then show ?thesis using 3(1) that by simp
    qed
    moreover have "b < 32" if "a = 13"
    proof -
      have "p < 0xD800 \<or> 0xE000 \<le> p" using assms 3 by (auto simp: scalar_def)
      moreover obtain x where "p = (a * 64 + b) * 64 + x" "x < 64" using p m by blast
      ultimately show ?thesis using \<open>b < 64\<close> that by auto
    qed
    ultimately show ?thesis using 3 p
      by (auto simp: utf8_def numeral_2_eq_2 simp flip: a_def b_def)
  next
    case 4
    define a b where "a = p div 262144" and "b = p div 4096 mod 64"
    have "p div 262144 = p div 64 div 64 div 64" "p div 4096 = p div 64 div 64"
      by (simp_all add: div_mult2_eq [symmetric])
    then have p: "p = ((a * 64 + b) * 64 + p div 64 mod 64) * 64 + p mod 64"
      unfolding a_def b_def by simp
    have m: "p div 64 mod 64 < 64" "p mod 64 < 64" by simp_all
    have "a < 5" "b < 64" using bound by (simp_all add: a_def b_def less_mult_imp_div_less)
    moreover have "16 \<le> b" if "a = 0"
    proof -
      obtain x y where "p = ((a * 64 + b) * 64 + x) * 64 + y" "x < 64" "y < 64" using p m by blast
      then show ?thesis using 4 that by simp
    qed
    moreover have "b < 16" if "a = 4"
    proof -
      obtain x y where "p = ((a * 64 + b) * 64 + x) * 64 + y" using p by blast
      then show ?thesis using bound that by simp
    qed
    ultimately show ?thesis using 4 p
      by (auto simp: utf8_def numeral_3_eq_3 numeral_2_eq_2 simp flip: a_def b_def)
  qed (simp add: utf8_def)
qed

lemma decode_form_points:
  "\<forall>p \<in> set ps. scalar p \<Longrightarrow> percent_bytes (plus_to_space (concat (map form_point ps))) = concat (map utf8 ps)"
  by (induction ps) (simp_all add: plus_to_space_append percent_bytes_point, simp add: plus_to_space_def)

lemma lossy_concat: "\<forall>p \<in> set ps. scalar p \<Longrightarrow> lossy 0 0 0 0 (concat (map utf8 ps)) = ps"
  by (induction ps) (simp_all add: lossy_utf8)

lemma decode_form_component: "decode_component (form_component s) = well_formed s"
  using scalars_scalar [of _ s]
  by (simp add: decode_component_def form_component_def well_formed_def decode_form_points lossy_concat)

lemma percent_chars: "b < 256 \<Longrightarrow> c \<in> set (percent b) \<Longrightarrow> c \<noteq> 38 \<and> c \<noteq> 61"
  by (auto simp: percent_def upper_hex_def word_unat_eq_iff unat_of_nat split: if_splits simp del: of_nat_add)

lemma form_point_chars:
  assumes "scalar p" "c \<in> set (form_point p)"
  shows "c \<noteq> 38 \<and> c \<noteq> 61"
proof -
  have "p < 0x110000" using assms(1) by (auto simp: scalar_def)
  then show ?thesis
    using assms(2) percent_chars utf8_bytes [of p] form_safe_unit [of p] small_unit [of p]
    by (auto simp: form_point_def word_unat_eq_iff split: if_splits)
qed

lemma form_component_chars: "c \<in> set (form_component s) \<Longrightarrow> c \<noteq> 38 \<and> c \<noteq> 61"
  using form_point_chars scalars_scalar by (fastforce simp: form_component_def)

lemma parse_pair_written: "parse_pair (form_component k @ 61 # form_component v) = (well_formed k, well_formed v)"
proof -
  have "61 \<notin> set (form_component k)" using form_component_chars by blast
  then have "takeWhile (\<lambda>c. c \<noteq> 61) (form_component k @ 61 # form_component v) = form_component k"
    "dropWhile (\<lambda>c. c \<noteq> 61) (form_component k @ 61 # form_component v) = 61 # form_component v"
    by (auto simp: takeWhile_append dropWhile_append)
  then show ?thesis by (simp add: parse_pair_def decode_form_component)
qed

lemma parse_serialized:
  "parse_params (js ''?'' @ serialize_params ps) = map (\<lambda>(k, v). (well_formed k, well_formed v)) ps"
proof (cases "ps = []")
  case True
  then show ?thesis by (simp add: parse_params_def serialize_params_def starts_with_def)
next
  case False
  let ?w = "\<lambda>(k, v). form_component k @ 61 # form_component v"
  have "\<forall>x \<in> set (map ?w ps). 38 \<notin> set x" using form_component_chars by fastforce
  then have "split_on 38 (serialize_params ps) = map ?w ps"
    unfolding serialize_params_def using False by (intro split_on_join) simp_all
  moreover have "filter (\<lambda>s. s \<noteq> []) (map ?w ps) = map ?w ps" by (simp add: filter_id_conv split: prod.splits)
  ultimately show ?thesis by (simp add: parse_params_def parse_pair_written case_prod_beta)
qed

lemma plain_well_formed: "list_all (\<lambda>c. unat c < 0xD800) s \<Longrightarrow> well_formed s = s"
proof -
  have "list_all (\<lambda>c. unat c < 0xD800) s \<Longrightarrow> scalars s = map unat s"
    by (induction s rule: scalars.induct) auto
  moreover have "list_all (\<lambda>c. unat c < 0xD800) s \<Longrightarrow> concat (map utf16 (map unat s)) = s"
    by (induction s) (simp_all add: utf16_unit)
  ultimately show "list_all (\<lambda>c. unat c < 0xD800) s \<Longrightarrow> well_formed s = s" by (simp add: well_formed_def)
qed

end
