(* ===== verification/Submission_History.thy ===== *)
theory Submission_History
  imports Leaderboard Contest_Clock Client Js_Search
begin

text \<open>
  From a submission to its result: what \<^verbatim>\<open>pages/submit-page.tsx\<close> does with a receipt, and the page
  \<^verbatim>\<open>pages/submissions-page.tsx\<close> it goes to, with the history's rows, the progress of a running
  submission and the confetti for a new best score.  A piece of text that \<open>AnimatedDuration\<close> draws is
  given by the nanoseconds it is passed.
\<close>

section \<open>Labels\<close>

fun verdictLabel :: "verdict \<Rightarrow> jsstring" where
  "verdictLabel Accepted = [0x6B63, 0x89E3]"
| "verdictLabel Wrong_answer = [0x4E0D, 0x6B63, 0x89E3]"
| "verdictLabel Runtime_error = [0x5B9F, 0x884C, 0x6642, 0x30A8, 0x30E9, 0x30FC]"
| "verdictLabel Time_limit = [0x6642, 0x9593, 0x5207, 0x308C]"
| "verdictLabel Output_limit = [0x51FA, 0x529B, 0x5236, 0x9650, 0x8D85, 0x904E]"
| "verdictLabel Invalid_submission = [0x7121, 0x52B9, 0x306A, 0x63D0, 0x51FA]"
| "verdictLabel Infrastructure_error = [0x8A08, 0x6E2C, 0x30A8, 0x30E9, 0x30FC]"
| "verdictLabel Disqualified = [0x5931, 0x683C]"

definition languageLabels :: "(jsstring \<times> jsstring) list" where
  "languageLabels =
     [(js ''c'', js ''C''), (js ''cpp'', js ''C++''), (js ''go'', js ''Go''), (js ''rust'', js ''Rust''),
      (js ''zig'', js ''Zig''), (js ''csharp'', js ''C#''), (js ''other'', js ''Other''),
      (js ''javascript'', js ''JavaScript''), (js ''typescript'', js ''TypeScript''), (js ''bun'', js ''Bun''),
      (js ''ruby'', js ''Ruby'')]"

definition languageLabel :: "jsstring \<Rightarrow> jsstring" where
  "languageLabel l = (case map_of languageLabels l of Some name \<Rightarrow> name | None \<Rightarrow> l)"

section \<open>A submission of the list\<close>

record measured_outcome =
  result_verdict :: verdict
  result_scoreNs :: "jsstring option"
  result_error :: "jsstring option"

text \<open>\<open>item_private\<close> is \<open>None\<close> when the member is missing and \<open>Some None\<close> when it is null.\<close>

record submission_item =
  item_id :: jsstring
  submissionNumber :: "nat option"
  item_language :: "jsstring option"
  item_status :: submission_status
  item_public :: "measured_outcome option"
  item_private :: "measured_outcome option option"
  infrastructureError :: "jsstring option"
  queueAhead :: "nat option"

definition item_outcome :: "submission_item \<Rightarrow> public_outcome option" where
  "item_outcome i = map_option (\<lambda>r. \<lparr>outcome_verdict = verdict_name (result_verdict r),
     outcome_scoreNs = result_scoreNs r\<rparr>) (item_public i)"

text \<open>\<open>item.public?.error ?? item.infrastructureError\<close>, shown when it is not empty.\<close>

definition item_error :: "submission_item \<Rightarrow> jsstring option" where
  "item_error i =
     (let e = (case item_public i of Some r \<Rightarrow> result_error r | None \<Rightarrow> None);
          shown = (case e of Some t \<Rightarrow> Some t | None \<Rightarrow> infrastructureError i)
      in if shown = Some [] then None else shown)"

datatype score_cell = Duration_cell "jsstring option" | Label_cell jsstring | Measuring_cell jsstring | Unpublished_cell jsstring

definition public_cell :: "submission_item \<Rightarrow> score_cell" where
  "public_cell i =
     (case item_public i of
        Some r \<Rightarrow>
          if result_verdict r = Accepted then Duration_cell (result_scoreNs r)
          else if item_status i \<in> {Uploading, Queued, Running}
          then Measuring_cell (if item_status i = Running then [0x8A08, 0x6E2C, 0x4E2D] else [0x5F85, 0x6A5F, 0x4E2D])
          else Label_cell (verdictLabel (result_verdict r))
      | None \<Rightarrow>
          if item_status i \<in> {Uploading, Queued, Running}
          then Measuring_cell (if item_status i = Running then [0x8A08, 0x6E2C, 0x4E2D] else [0x5F85, 0x6A5F, 0x4E2D])
          else Label_cell [0x8A08, 0x6E2C, 0x30A8, 0x30E9, 0x30FC])"

definition private_cell :: "bool \<Rightarrow> submission_item \<Rightarrow> score_cell option" where
  "private_cell privatePublished i =
     (if \<not> privatePublished then None
      else Some (case item_private i of
          None \<Rightarrow> Unpublished_cell [0x516C, 0x958B, 0x524D]
        | Some (Some r) \<Rightarrow>
            if result_verdict r = Accepted then Duration_cell (result_scoreNs r)
            else Label_cell (verdictLabel (result_verdict r))
        | Some None \<Rightarrow> Unpublished_cell [0x2014]))"

record history_row =
  row_highlighted :: bool
  row_number :: jsstring
  row_public :: score_cell
  row_private :: "score_cell option"
  row_language :: jsstring
  row_error :: "jsstring option"

definition history_row_of :: "jsstring option \<Rightarrow> bool \<Rightarrow> submission_item \<Rightarrow> history_row" where
  "history_row_of submittedId privatePublished i =
     \<lparr>row_highlighted = (Some (item_id i) = submittedId),
      row_number = 35 # (case submissionNumber i of Some n \<Rightarrow> nat_to_string n | None \<Rightarrow> [0x2014]),
      row_public = public_cell i, row_private = private_cell privatePublished i,
      row_language = (case item_language i of
          None \<Rightarrow> [0x2014]
        | Some l \<Rightarrow> if l = [] then [0x2014] else languageLabel l),
      row_error = item_error i\<rparr>"

section \<open>The progress of a submission\<close>

text \<open>Without a submission the status is uploading.\<close>

definition progress_status :: "submission_item option \<Rightarrow> submission_status" where
  "progress_status s = (case s of None \<Rightarrow> Uploading | Some i \<Rightarrow> item_status i)"

definition progress_terminal :: "submission_status \<Rightarrow> bool" where
  "progress_terminal s \<longleftrightarrow> s \<in> {Completed, Infrastructure_error_status, Disqualified_status, Rejected}"

definition currentStep :: "submission_status \<Rightarrow> nat option" where
  "currentStep s = (if progress_terminal s then None else Some (if s = Running then 1 else 0))"

definition completedSteps :: "submission_status \<Rightarrow> nat" where
  "completedSteps s = (if progress_terminal s then 3 else if s = Running then 1 else 0)"

datatype step_mark = Step_done | Step_current | Step_open nat

definition step_marks :: "submission_status \<Rightarrow> step_mark list" where
  "step_marks s = map (\<lambda>i. if i < completedSteps s then Step_done
     else if currentStep s = Some i then Step_current else Step_open (i + 1)) [0..<3]"

datatype progress_message = Text_message jsstring | Duration_message "jsstring option"

definition resultMessage :: "submission_item option \<Rightarrow> progress_message" where
  "resultMessage s =
     (case progress_status s of
        Completed \<Rightarrow>
          (case (case s of None \<Rightarrow> None | Some i \<Rightarrow> item_public i) of
             Some r \<Rightarrow> if result_verdict r = Accepted then Duration_message (result_scoreNs r)
               else Text_message ([0x8A08, 0x6E2C, 0x304C, 0x5B8C, 0x4E86, 0x3057, 0x307E, 0x3057, 0x305F, 0x20, 0xB7, 0x20] @
                 verdictLabel (result_verdict r))
           | None \<Rightarrow> Text_message [0x8A08, 0x6E2C, 0x304C, 0x5B8C, 0x4E86, 0x3057, 0x307E, 0x3057, 0x305F, 0x20, 0xB7, 0x20,
               0x7D50, 0x679C, 0x306A, 0x3057])
      | Running \<Rightarrow> Text_message [0x30D7, 0x30ED, 0x30B0, 0x30E9, 0x30E0, 0x3092, 0x8A08, 0x6E2C, 0x3057, 0x3066, 0x3044, 0x307E, 0x3059]
      | Infrastructure_error_status \<Rightarrow> Text_message [0x8A08, 0x6E2C, 0x74B0, 0x5883, 0x3067, 0x30A8, 0x30E9, 0x30FC, 0x304C,
          0x767A, 0x751F, 0x3057, 0x307E, 0x3057, 0x305F]
      | Uploading \<Rightarrow> Text_message [0x63D0, 0x51FA, 0x3092, 0x53D7, 0x3051, 0x4ED8, 0x3051, 0x3066, 0x3044, 0x307E, 0x3059]
      | _ \<Rightarrow> Text_message [0x8A08, 0x6E2C, 0x306E, 0x9806, 0x756A, 0x3092, 0x5F85, 0x3063, 0x3066, 0x3044, 0x307E, 0x3059])"

definition processingSubmission :: "submission_item list \<Rightarrow> submission_item option" where
  "processingSubmission items =
     (case items of
        [] \<Rightarrow> None
      | i # _ \<Rightarrow> if isSubmissionActive (status_name (item_status i)) then Some i else None)"

text \<open>The panel is only shown while the newest submission is being processed: exactly one of its
  three steps is the current one, and it is measuring exactly while the submission runs.\<close>

lemma processing_step:
  "processingSubmission items = Some i \<Longrightarrow>
    \<not> progress_terminal (item_status i) \<and> currentStep (item_status i) = Some (completedSteps (item_status i)) \<and>
    (Step_done \<in> set (step_marks (item_status i)) \<longleftrightarrow> item_status i = Running)"
  by (cases "item_status i")
    (auto simp: processingSubmission_def isSubmissionActive_def activeSubmissionStatuses_def progress_terminal_def
      currentStep_def completedSteps_def step_marks_def List.member_iff upt_rec split: list.splits if_splits)

section \<open>From the form to the history\<close>

text \<open>What follows a submission: the best score so far is read from the list of the page, and the
  receipt's id and that score become parameters of the history page.  \<open>Inl (Some m)\<close> is the failed
  request with its message, \<open>Inl None\<close> another exception.  The contract makes the id a string.\<close>

definition success_params :: "jsstring \<Rightarrow> jsstring option \<Rightarrow> (jsstring \<times> jsstring) list" where
  "success_params sid previousBest = (js ''submitted'', sid) #
     (case previousBest of None \<Rightarrow> [] | Some s \<Rightarrow> if s = [] then [] else [(js ''previousBest'', s)])"

definition submit_and_go :: "fetch \<Rightarrow> submission_draft \<Rightarrow> submission_item list \<Rightarrow> jsstring option + jsstring" where
  "submit_and_go fetch draft items =
     (case submit fetch draft of
        Inl m \<Rightarrow> Inl (Some m)
      | Inr receipt \<Rightarrow>
          (case bestAcceptedScore (map item_outcome items) of
             None \<Rightarrow> Inl None
           | Some previousBest \<Rightarrow>
               (case receipt of
                  None \<Rightarrow> Inl None
                | Some r \<Rightarrow>
                    (case member r (js ''id'') of
                       Some (JStr sid) \<Rightarrow> Inr (js ''/submissions?'' @ serialize_params (success_params sid previousBest))
                     | _ \<Rightarrow> Inr (js ''/submissions?'' @ serialize_params (success_params (js ''undefined'') previousBest))))))"

section \<open>The history page\<close>

record history_page =
  submittedId :: "jsstring option"
  previousBest :: "jsstring option"
  history_items :: "submission_item list"
  celebrated :: "jsstring option"
  showConfetti :: bool

definition open_history :: "jsstring \<Rightarrow> history_page" where
  "open_history search =
     (let params = parse_params search in
      \<lparr>submittedId = map_of params (js ''submitted''), previousBest = map_of params (js ''previousBest''),
       history_items = [], celebrated = None, showConfetti = False\<rparr>)"

text \<open>The effect; its second result says whether it has launched confetti, \<open>None\<close> is an exception.\<close>

definition celebrate :: "history_page \<Rightarrow> (history_page \<times> bool) option" where
  "celebrate p =
     (case submittedId p of
        None \<Rightarrow> Some (p, False)
      | Some sid \<Rightarrow>
          if sid = [] \<or> celebrated p = Some sid then Some (p, False)
          else (case find (\<lambda>i. item_id i = sid) (history_items p) of
              None \<Rightarrow> Some (p, False)
            | Some i \<Rightarrow>
                (case item_public i of
                   Some r \<Rightarrow>
                     if item_status i = Completed \<and> result_verdict r = Accepted
                     then map_option (\<lambda>better.
                       if better then (p\<lparr>celebrated := Some sid, showConfetti := True\<rparr>, True) else (p, False))
                       (isBetterScore (result_scoreNs r) (previousBest p))
                     else Some (p, False)
                 | None \<Rightarrow> Some (p, False))))"

text \<open>A new list comes from the query or from the event stream; the confetti reports its end.\<close>

datatype history_event = New_list "submission_item list" | Confetti_done

fun history_step :: "history_event \<Rightarrow> history_page \<Rightarrow> (history_page \<times> bool) option" where
  "history_step (New_list items) p = celebrate (p\<lparr>history_items := items\<rparr>)"
| "history_step Confetti_done p = Some (p\<lparr>showConfetti := False\<rparr>, False)"

fun history_run :: "history_event list \<Rightarrow> history_page \<Rightarrow> (history_page \<times> nat) option" where
  "history_run [] p = Some (p, 0)"
| "history_run (e # es) p =
     (case history_step e p of
        None \<Rightarrow> None
      | Some (q, launched) \<Rightarrow> map_option (\<lambda>(r, n). (r, n + of_bool launched)) (history_run es q))"

section \<open>A new best score is celebrated once\<close>

definition announces :: "jsstring option \<Rightarrow> jsstring \<Rightarrow> submission_item list \<Rightarrow> bool" where
  "announces best sid items \<longleftrightarrow> (\<exists>i r. find (\<lambda>i. item_id i = sid) items = Some i \<and> item_status i = Completed \<and>
     item_public i = Some r \<and> result_verdict r = Accepted \<and> isBetterScore (result_scoreNs r) best = Some True)"

definition readable_scores :: "jsstring option \<Rightarrow> submission_item list \<Rightarrow> bool" where
  "readable_scores best items \<longleftrightarrow> (\<forall>i \<in> set items. \<forall>r. item_public i = Some r \<longrightarrow> isBetterScore (result_scoreNs r) best \<noteq> None)"

lemma find_in_set: "find P xs = Some x \<Longrightarrow> x \<in> set xs \<and> P x"
  by (induction xs) (auto split: if_splits)

lemma celebrate_iff:
  assumes "submittedId p = Some sid" "sid \<noteq> []" "readable_scores (previousBest p) (history_items p)"
  shows "celebrate p =
    (if celebrated p \<noteq> Some sid \<and> announces (previousBest p) sid (history_items p)
     then Some (p\<lparr>celebrated := Some sid, showConfetti := True\<rparr>, True) else Some (p, False))"
proof (cases "find (\<lambda>i. item_id i = sid) (history_items p)")
  case None
  then show ?thesis using assms(1,2) by (simp add: celebrate_def announces_def)
next
  case (Some i)
  show ?thesis
  proof (cases "item_public i")
    case None
    with Some show ?thesis using assms(1,2) by (simp add: celebrate_def announces_def)
  next
    case (Some r)
    have "i \<in> set (history_items p)" using \<open>find _ _ = Some i\<close> find_in_set by fast
    then obtain b where b: "isBetterScore (result_scoreNs r) (previousBest p) = Some b"
      using assms(3) Some unfolding readable_scores_def by blast
    then have "announces (previousBest p) sid (history_items p) \<longleftrightarrow> item_status i = Completed \<and> result_verdict r = Accepted \<and> b"
      by (simp add: announces_def \<open>find _ _ = Some i\<close> Some)
    with b show ?thesis using assms(1,2) by (simp add: celebrate_def \<open>find _ _ = Some i\<close> Some)
  qed
qed

lemma history_run_iff:
  assumes "submittedId p = Some sid" "sid \<noteq> []" "celebrated p = None \<or> celebrated p = Some sid"
    "\<forall>items. New_list items \<in> set es \<longrightarrow> readable_scores (previousBest p) items"
  shows "\<exists>q. history_run es p = Some (q, of_bool (celebrated p = None \<and>
    (\<exists>items. New_list items \<in> set es \<and> announces (previousBest p) sid items)))"
  using assms
proof (induction es arbitrary: p)
  case (Cons e es)
  have tail: "\<forall>items. New_list items \<in> set es \<longrightarrow> readable_scores (previousBest p) items" using Cons.prems(4) by simp
  show ?case
  proof (cases e)
    case (New_list items)
    let ?p = "p\<lparr>history_items := items\<rparr>"
    let ?done = "?p\<lparr>celebrated := Some sid, showConfetti := True\<rparr>"
    have read: "readable_scores (previousBest p) items" using Cons.prems(4) New_list by simp
    have c: "celebrate ?p = (if celebrated p \<noteq> Some sid \<and> announces (previousBest p) sid items
        then Some (?done, True) else Some (?p, False))"
      using celebrate_iff [of ?p sid] Cons.prems(1,2) read by simp
    show ?thesis
    proof (cases "celebrated p \<noteq> Some sid \<and> announces (previousBest p) sid items")
      case True
      then have "celebrated p = None" using Cons.prems(3) by blast
      moreover obtain q where "history_run es ?done = Some (q, 0)" using Cons.IH [of ?done] Cons.prems(1,2) tail by auto
      ultimately show ?thesis using True c by (auto simp: New_list)
    next
      case False
      obtain q where "history_run es ?p = Some (q, of_bool (celebrated p = None \<and>
          (\<exists>items. New_list items \<in> set es \<and> announces (previousBest p) sid items)))"
        using Cons.IH [of ?p] Cons.prems tail by auto
      with False c Cons.prems(3) show ?thesis by (auto simp: New_list)
    qed
  next
    case Confetti_done
    then show ?thesis using Cons.IH [of "p\<lparr>showConfetti := False\<rparr>"] Cons.prems tail by auto
  qed
qed simp

definition beats_all :: "submission_item list \<Rightarrow> jsstring \<Rightarrow> submission_item list \<Rightarrow> bool" where
  "beats_all earlier sid items \<longleftrightarrow> (\<exists>i r s. find (\<lambda>i. item_id i = sid) items = Some i \<and> item_status i = Completed \<and>
     item_public i = Some r \<and> result_verdict r = Accepted \<and> result_scoreNs r = Some s \<and>
     (\<forall>t \<in> set (accepted_scores (map item_outcome earlier)). ns_value s < ns_value t))"

definition decimal_scores :: "submission_item list \<Rightarrow> bool" where
  "decimal_scores items \<longleftrightarrow> (\<forall>i \<in> set items. \<forall>r. item_public i = Some r \<longrightarrow>
     (\<forall>s. result_scoreNs r = Some s \<longrightarrow> all_digits s))"

definition outcome_scores :: "public_outcome option \<Rightarrow> jsstring list" where
  "outcome_scores x = (case x of
       None \<Rightarrow> []
     | Some r \<Rightarrow> if outcome_verdict r = js ''accepted'' then
         (case outcome_scoreNs r of None \<Rightarrow> [] | Some s \<Rightarrow> if s = [] then [] else [s]) else [])"

lemma outcome_scores_cases:
  "outcome_scores x = [] \<or> (\<exists>r s. x = Some r \<and> outcome_scoreNs r = Some s \<and> outcome_scores x = [s])"
proof (cases x)
  case (Some r)
  then show ?thesis
    by (cases "outcome_scoreNs r"; cases "outcome_verdict r = js ''accepted''"; cases "outcome_scoreNs r = Some []")
      (simp_all add: outcome_scores_def)
qed (simp add: outcome_scores_def)

lemma accepted_member:
  assumes "s \<in> set (accepted_scores xs)"
  shows "\<exists>r. Some r \<in> set xs \<and> outcome_scoreNs r = Some s"
proof -
  have "accepted_scores xs = concat (map outcome_scores xs)" unfolding accepted_scores_def outcome_scores_def [abs_def] by (rule refl)
  then obtain x where "x \<in> set xs" "s \<in> set (outcome_scores x)" using assms by auto
  then show ?thesis using outcome_scores_cases [of x] by auto
qed

lemma accepted_source:
  assumes "s \<in> set (accepted_scores (map item_outcome items))"
  shows "\<exists>i r. i \<in> set items \<and> item_public i = Some r \<and> result_scoreNs r = Some s"
proof -
  obtain p where p: "Some p \<in> set (map item_outcome items)" "outcome_scoreNs p = Some s"
    using accepted_member [OF assms] by blast
  then obtain i where "i \<in> set items" "item_outcome i = Some p" by auto
  with p(2) show ?thesis unfolding item_outcome_def map_option_eq_Some by auto
qed

lemma decimal_accepted: "decimal_scores items \<Longrightarrow> \<forall>s \<in> set (accepted_scores (map item_outcome items)). all_digits s"
  using accepted_source unfolding decimal_scores_def by blast

lemma best_score_text: "best = Some s \<Longrightarrow> all_digits s \<Longrightarrow> s \<noteq> [] \<and> list_all (\<lambda>c. unat c < 0xD800) s"
  by (auto simp: all_digits_def list_all_iff is_digit_def word_le_nat_alt)

lemma opened_params:
  assumes "list_all (\<lambda>c. unat c < 0xD800) sid" "\<forall>s. best = Some s \<longrightarrow> s \<noteq> [] \<and> list_all (\<lambda>c. unat c < 0xD800) s"
  shows "submittedId (open_history (js ''?'' @ serialize_params (success_params sid best))) = Some sid \<and>
    previousBest (open_history (js ''?'' @ serialize_params (success_params sid best))) = best"
proof -
  have w: "well_formed (js ''submitted'') = js ''submitted''" "well_formed (js ''previousBest'') = js ''previousBest''"
    by (simp_all add: plain_well_formed js_eval)
  show ?thesis
    using assms plain_well_formed [of sid]
    by (cases best) (auto simp: open_history_def Let_def parse_serialized success_params_def w plain_well_formed)
qed

lemma better_than_best:
  assumes "bestAcceptedScore xs = Some best" "\<forall>s \<in> set (accepted_scores xs). all_digits s"
    "\<forall>t. score = Some t \<longrightarrow> all_digits t"
  shows "isBetterScore score best =
    Some (\<exists>t. score = Some t \<and> (\<forall>s \<in> set (accepted_scores xs). ns_value t < ns_value s))"
proof (cases score)
  case None
  then show ?thesis by (simp add: isBetterScore_def)
next
  case (Some t)
  with assms best_score [OF assms(2)] show ?thesis by auto
qed

text \<open>C32: After a submission the history page is opened for the submission's id and the best score
  before it.  However the list is updated and the confetti ends, nothing throws, and confetti is
  launched exactly once if the submission completes accepted and faster than every accepted one
  before it, and never otherwise.\<close>

theorem new_best_celebrated:
  assumes "submit fetch draft = Inr (Some receipt)" "member receipt (js ''id'') = Some (JStr sid)"
    "sid \<noteq> []" "list_all (\<lambda>c. unat c < 0xD800) sid"
    "decimal_scores earlier" "\<forall>items. New_list items \<in> set es \<longrightarrow> decimal_scores items"
  shows "\<exists>search q. submit_and_go fetch draft earlier = Inr (js ''/submissions'' @ search) \<and>
    history_run es (open_history search) =
      Some (q, of_bool (\<exists>items. New_list items \<in> set es \<and> beats_all earlier sid items))"
proof -
  let ?xs = "map item_outcome earlier"
  note decimal = decimal_accepted [OF assms(5)]
  obtain best where best: "bestAcceptedScore ?xs = Some best" "\<forall>s. best = Some s \<longrightarrow> all_digits s"
    using best_score [OF decimal] decimal by (auto split: option.splits)
  let ?search = "js ''?'' @ serialize_params (success_params sid best)"
  have go: "submit_and_go fetch draft earlier = Inr (js ''/submissions'' @ ?search)"
    using assms(1,2) best(1) by (simp add: submit_and_go_def js_eval)
  have "\<forall>s. best = Some s \<longrightarrow> s \<noteq> [] \<and> list_all (\<lambda>c. unat c < 0xD800) s" using best(2) best_score_text by blast
  note opened = opened_params [OF assms(4) this]
  have better: "isBetterScore (result_scoreNs r) best = Some (\<exists>t. result_scoreNs r = Some t \<and>
      (\<forall>s \<in> set (accepted_scores ?xs). ns_value t < ns_value s))"
    if "decimal_scores items" "i \<in> set items" "item_public i = Some r" for items i r
    using that by (intro better_than_best [OF best(1) decimal]) (auto simp: decimal_scores_def)
  have same: "announces best sid items \<longleftrightarrow> beats_all earlier sid items" if d: "decimal_scores items" for items
  proof -
    have "isBetterScore (result_scoreNs r) best = Some True \<longleftrightarrow>
        (\<exists>t. result_scoreNs r = Some t \<and> (\<forall>s \<in> set (accepted_scores ?xs). ns_value t < ns_value s))"
      if "find (\<lambda>i. item_id i = sid) items = Some i" "item_public i = Some r" for i r
      using better [OF d conjunct1 [OF find_in_set [OF that(1)]] that(2)] by simp
    then show ?thesis unfolding announces_def beats_all_def by (intro iff_exI) blast
  qed
  have "\<forall>items. New_list items \<in> set es \<longrightarrow> readable_scores best items"
    using assms(6) better by (auto simp: readable_scores_def)
  moreover have "celebrated (open_history ?search) = None" by (simp add: open_history_def Let_def)
  ultimately have "\<exists>q. history_run es (open_history ?search) =
      Some (q, of_bool (\<exists>items. New_list items \<in> set es \<and> announces best sid items))"
    using history_run_iff [of "open_history ?search" sid es] opened assms(3) by (simp only: simp_thms)
  moreover have "(\<exists>items. New_list items \<in> set es \<and> announces best sid items) \<longleftrightarrow>
      (\<exists>items. New_list items \<in> set es \<and> beats_all earlier sid items)"
    using assms(6) same by blast
  ultimately show ?thesis using go by auto
qed

section \<open>Witness\<close>

definition demo_item :: "string \<Rightarrow> string \<Rightarrow> submission_item" where
  "demo_item sid score = \<lparr>item_id = js sid, submissionNumber = Some 1, item_language = Some (js ''cpp''),
     item_status = Completed, item_public = Some \<lparr>result_verdict = Accepted, result_scoreNs = Some (js score), result_error = None\<rparr>,
     item_private = None, infrastructureError = None, queueAhead = None\<rparr>"

definition demo_receipt :: json where
  "demo_receipt = JObj [(js ''id'', JStr (js ''b'')), (js ''status'', JStr (js ''queued''))]"

definition demo_fetch :: fetch where
  "demo_fetch r = \<lparr>reply_status = 202, reply_data = Some demo_receipt, reply_error = None\<rparr>"

definition demo_draft :: submission_draft where
  "demo_draft = \<lparr>executionKind = Script Ruby, draft_language = Native_language Lang_cpp,
     source = Some \<lparr>file_name = js ''main.rb'', file_content = js ''puts 1''\<rparr>, binary = None\<rparr>"

definition demo_events :: "history_event list" where
  "demo_events = [New_list [demo_item ''a'' ''20''], New_list [demo_item ''b'' ''10'', demo_item ''a'' ''20''], Confetti_done,
     New_list [demo_item ''b'' ''10'', demo_item ''a'' ''20'']]"

theorem new_best_celebrated_witness:
  "\<exists>search q. submit_and_go demo_fetch demo_draft [demo_item ''a'' ''20''] = Inr (js ''/submissions'' @ search) \<and>
    history_run demo_events (open_history search) = Some (q, 1)"
proof -
  have sent: "submit demo_fetch demo_draft = Inr (Some demo_receipt)"
    by (simp add: submit_def demo_draft_def demo_fetch_def apiResult_def reply_ok_def)
  have sid: "member demo_receipt (js ''id'') = Some (JStr (js ''b''))" by (simp add: demo_receipt_def member_def)
  have digits: "all_digits (js ''10'')" "all_digits (js ''20'')" by (simp_all add: all_digits_def is_digit_def js_eval)
  have items: "decimal_scores [demo_item ''a'' ''20'']" "\<forall>items. New_list items \<in> set demo_events \<longrightarrow> decimal_scores items"
    using digits by (auto simp: decimal_scores_def demo_item_def demo_events_def)
  have "beats_all [demo_item ''a'' ''20''] (js ''b'') [demo_item ''b'' ''10'', demo_item ''a'' ''20'']"
    by (simp add: beats_all_def demo_item_def accepted_scores_def item_outcome_def ns_value_def digits_value_def digit_value_def js_eval)
  then have "\<exists>items. New_list items \<in> set demo_events \<and> beats_all [demo_item ''a'' ''20''] (js ''b'') items"
    unfolding demo_events_def by auto
  with new_best_celebrated [OF sent sid _ _ items] show ?thesis by (simp add: js_eval)
qed

text \<open>A previous best score in the URL that \<open>BigInt\<close> does not read makes the effect throw, and with it
  the page, as soon as the submission is found accepted.\<close>

lemma malformed_previous_best:
  "history_run [New_list [demo_item ''b'' ''10'']]
    (open_history (js ''?'' @ serialize_params (success_params (js ''b'') (Some (js ''x''))))) = None"
proof -
  have "submittedId (open_history (js ''?'' @ serialize_params (success_params (js ''b'') (Some (js ''x''))))) = Some (js ''b'') \<and>
      previousBest (open_history (js ''?'' @ serialize_params (success_params (js ''b'') (Some (js ''x''))))) = Some (js ''x'')"
    by (rule opened_params) (simp_all add: js_eval)
  moreover have "celebrated (open_history search) = None" for search by (simp add: open_history_def Let_def)
  moreover have "compareNanoseconds (js ''10'') (js ''x'') = None" by code_simp
  ultimately show ?thesis
    by (simp add: celebrate_def demo_item_def isBetterScore_def)
qed

end
