(* ===== verification/Source_View.thy ===== *)
theory Source_View
  imports Submission_History
begin

text \<open>
  Showing source code: the preview of a chosen file, \<^verbatim>\<open>components/source-preview.tsx\<close>, which reads
  the file asynchronously, and the dialog of a leaderboard row, \<^verbatim>\<open>components/source-dialog.tsx\<close>, which
  fetches it.  Both show the first lines of the text with its line ends made uniform.
\<close>

section \<open>The first lines\<close>

text \<open>\<open>replaceAll(/\r\n?/g, "\n")\<close>\<close>

fun newlines :: "jsstring \<Rightarrow> jsstring" where
  "newlines [] = []"
| "newlines [c] = [if c = 13 then 10 else c]"
| "newlines (c # d # s) =
     (if c = 13 then (if d = 10 then 10 # newlines s else 10 # newlines (d # s)) else c # newlines (d # s))"

definition preview_lines :: "nat \<Rightarrow> jsstring \<Rightarrow> jsstring" where
  "preview_lines limit src = join_with [10] (take limit (split_on 10 (newlines src)))"

definition preview_truncated :: "nat \<Rightarrow> jsstring \<Rightarrow> bool" where
  "preview_truncated limit src \<longleftrightarrow> limit < length (split_on 10 (newlines src))"

definition previewLineLimit :: nat where
  "previewLineLimit = 240"

definition dialog_line_limit :: nat where
  "dialog_line_limit = 500"

lemma newlines_no_return: "13 \<notin> set (newlines s)"
  by (induction s rule: newlines.induct) auto

lemma newlines_same: "13 \<notin> set s \<Longrightarrow> newlines s = s"
  by (induction s rule: newlines.induct) auto

lemma join_take_prefix: "\<exists>r. join_with [c] ls = join_with [c] (take n ls) @ r"
proof (induction "[c]" ls arbitrary: n rule: join_with.induct)
  case (2 x)
  then show ?case by (cases n) auto
next
  case (3 x y ys)
  show ?case
  proof (cases n)
    case (Suc m)
    obtain r where "join_with [c] (y # ys) = join_with [c] (take m (y # ys)) @ r" using 3 [of m] by blast
    then show ?thesis using Suc by (cases m) auto
  qed simp
qed simp

lemma preview_prefix: "\<exists>r. newlines s = preview_lines n s @ r"
  using join_take_prefix [of 10 "split_on 10 (newlines s)" n] by (simp add: preview_lines_def join_split_on)

lemma preview_whole: "\<not> preview_truncated n s \<Longrightarrow> preview_lines n s = newlines s"
  by (simp add: preview_lines_def preview_truncated_def join_split_on)

lemma preview_split:
  assumes "0 < n"
  shows "split_on 10 (preview_lines n s) = take n (split_on 10 (newlines s))"
  unfolding preview_lines_def
proof (rule split_on_join)
  show "take n (split_on 10 (newlines s)) \<noteq> []" using assms by simp
  show "\<forall>xs \<in> set (take n (split_on 10 (newlines s))). 10 \<notin> set xs"
    using split_on_parts_notin in_set_takeD by metis
qed

text \<open>A text is shown as its first lines.\<close>

definition shows_first_lines :: "nat \<Rightarrow> jsstring \<Rightarrow> jsstring \<Rightarrow> bool \<Rightarrow> bool" where
  "shows_first_lines limit src t tr \<longleftrightarrow> 13 \<notin> set t \<and> (\<exists>r. newlines src = t @ r) \<and>
     (if tr then length (split_on 10 t) = limit \<and> limit < length (split_on 10 (newlines src)) else t = newlines src)"

lemma preview_shows: "0 < n \<Longrightarrow> shows_first_lines n s (preview_lines n s) (preview_truncated n s)"
proof -
  assume n: "0 < n"
  obtain r where r: "newlines s = preview_lines n s @ r" using preview_prefix by blast
  then have "13 \<notin> set (preview_lines n s)" using newlines_no_return [of s] by auto
  with r preview_whole [of n s] preview_split [OF n, of s] show ?thesis
    by (auto simp: shows_first_lines_def preview_truncated_def)
qed

section \<open>The preview of a file\<close>

text \<open>A read that is under way belongs to the effect that started it; \<open>active\<close> is the variable of
  that effect, which its cleanup clears.\<close>

record 'f preview_state =
  preview_file :: 'f
  reads :: "('f \<times> bool) list"
  preview_source :: jsstring
  preview_cut :: bool

definition start_read :: "'f \<Rightarrow> 'f preview_state \<Rightarrow> 'f preview_state" where
  "start_read f s = s\<lparr>preview_file := f, reads := reads s @ [(f, True)], preview_source := [], preview_cut := False\<rparr>"

definition first_preview :: "'f \<Rightarrow> 'f preview_state" where
  "first_preview f = start_read f \<lparr>preview_file = f, reads = [], preview_source = [], preview_cut = False\<rparr>"

definition change_file :: "'f \<Rightarrow> 'f preview_state \<Rightarrow> 'f preview_state" where
  "change_file f s = start_read f (s\<lparr>reads := map (\<lambda>(g, a). (g, False)) (reads s)\<rparr>)"

definition forget_read :: "nat \<Rightarrow> 'f preview_state \<Rightarrow> 'f preview_state" where
  "forget_read i s = s\<lparr>reads := take i (reads s) @ drop (Suc i) (reads s)\<rparr>"

definition finish_read :: "('f \<Rightarrow> jsstring) \<Rightarrow> nat \<Rightarrow> 'f preview_state \<Rightarrow> 'f preview_state" where
  "finish_read src i s =
     (let (f, active) = reads s ! i; t = forget_read i s in
      if active then t\<lparr>preview_source := preview_lines previewLineLimit (src f),
        preview_cut := preview_truncated previewLineLimit (src f)\<rparr> else t)"

inductive preview_reachable :: "('f \<Rightarrow> jsstring) \<Rightarrow> 'f preview_state \<Rightarrow> bool" for src where
  first_file: "preview_reachable src (first_preview f)"
| another: "preview_reachable src s \<Longrightarrow> f \<noteq> preview_file s \<Longrightarrow> preview_reachable src (change_file f s)"
| finished: "preview_reachable src s \<Longrightarrow> i < length (reads s) \<Longrightarrow> preview_reachable src (finish_read src i s)"
| failed: "preview_reachable src s \<Longrightarrow> i < length (reads s) \<Longrightarrow> preview_reachable src (forget_read i s)"

lemma active_reads:
  "preview_reachable src s \<Longrightarrow> (f, True) \<in> set (reads s) \<Longrightarrow> f = preview_file s"
proof (induction rule: preview_reachable.induct)
  case (finished s i)
  then show ?case
    by (auto simp: finish_read_def forget_read_def Let_def dest: in_set_takeD in_set_dropD split: prod.splits if_splits)
qed (auto simp: first_preview_def start_read_def change_file_def forget_read_def dest: in_set_takeD in_set_dropD)

text \<open>C33: Whatever files are chosen and in whatever order their reads finish or fail, the preview is
  empty or shows the first 240 lines of the file that is chosen now, with uniform line ends, all of
  it unless it says that lines are left out; a read of an earlier file changes nothing.\<close>

theorem preview_shows_chosen_file:
  assumes "preview_reachable src s"
  shows "(preview_source s = [] \<and> \<not> preview_cut s \<or>
      shows_first_lines 240 (src (preview_file s)) (preview_source s) (preview_cut s)) \<and>
    (\<forall>i < length (reads s). fst (reads s ! i) \<noteq> preview_file s \<longrightarrow> finish_read src i s = forget_read i s)"
proof
  show "preview_source s = [] \<and> \<not> preview_cut s \<or>
      shows_first_lines 240 (src (preview_file s)) (preview_source s) (preview_cut s)"
    using assms
  proof (induction rule: preview_reachable.induct)
    case (finished s i)
    obtain f a where r: "reads s ! i = (f, a)" by fastforce
    show ?case
    proof (cases a)
      case True
      then have "(f, True) \<in> set (reads s)" using r finished.hyps(2) nth_mem by metis
      then have "f = preview_file s" using active_reads [OF finished.hyps(1)] by blast
      then show ?thesis
        using preview_shows [of 240 "src f"] r True
        by (simp add: finish_read_def forget_read_def previewLineLimit_def)
    next
      case False
      then show ?thesis using finished.IH r by (simp add: finish_read_def forget_read_def)
    qed
  qed (simp_all add: first_preview_def start_read_def change_file_def forget_read_def)
  show "\<forall>i < length (reads s). fst (reads s ! i) \<noteq> preview_file s \<longrightarrow> finish_read src i s = forget_read i s"
  proof (intro allI impI)
    fix i assume i: "i < length (reads s)" "fst (reads s ! i) \<noteq> preview_file s"
    obtain f a where r: "reads s ! i = (f, a)" by fastforce
    then have "\<not> a" using active_reads [OF assms, of f] i nth_mem [OF i(1)] by (cases a) auto
    with r show "finish_read src i s = forget_read i s" by (simp add: finish_read_def)
  qed
qed

definition two_files :: "bool \<Rightarrow> jsstring" where
  "two_files b = (if b then js ''new'' else js ''old'')"

text \<open>The old file's read finishes last.\<close>

theorem preview_shows_chosen_file_witness:
  "let s = finish_read two_files 0 (finish_read two_files 1 (change_file True (first_preview False)))
   in preview_source s = js ''new'' \<and> (preview_source s = [] \<or> shows_first_lines 240 (two_files True) (preview_source s) (preview_cut s))"
proof -
  let ?a = "change_file True (first_preview False)"
  let ?b = "finish_read two_files 1 ?a"
  let ?s = "finish_read two_files 0 ?b"
  have a: "preview_reachable two_files ?a"
    by (rule preview_reachable.another [OF preview_reachable.first_file]) (simp add: first_preview_def start_read_def)
  have b: "preview_reachable two_files ?b"
    by (rule preview_reachable.finished [OF a]) (simp add: first_preview_def start_read_def change_file_def)
  note simps = first_preview_def start_read_def change_file_def finish_read_def forget_read_def Let_def
  have s: "preview_reachable two_files ?s"
    by (rule preview_reachable.finished [OF b]) (simp add: simps)
  have "preview_file ?s = True" by (simp add: simps)
  moreover have "preview_source ?s = preview_lines 240 (js ''new'')" by (simp add: simps two_files_def previewLineLimit_def)
  moreover have "preview_lines 240 (js ''new'') = js ''new''" by (simp add: preview_lines_def js_eval)
  ultimately show ?thesis using preview_shows_chosen_file [OF s] by (auto simp: Let_def)
qed

section \<open>The dialog\<close>

fun shikiLanguage :: "language \<Rightarrow> jsstring" where
  "shikiLanguage (Native_language Lang_other) = js ''text''"
| "shikiLanguage (Native_language l) = native_language_name l"
| "shikiLanguage (Script_language Bun) = js ''typescript''"
| "shikiLanguage (Script_language k) = script_kind_name k"

datatype dialog_body = Dialog_loading | Dialog_error jsstring | Dialog_code jsstring jsstring bool

text \<open>The query's result is \<open>None\<close> while it is pending; a disabled query stays pending.  The reply
  is read as text.\<close>

definition dialog_query :: "fetch \<Rightarrow> jsstring option \<Rightarrow> result option" where
  "dialog_query fetch sid = map_option (submission_source fetch) sid"

definition dialog_body_of :: "language \<Rightarrow> result option \<Rightarrow> dialog_body" where
  "dialog_body_of l r =
     (case r of
        None \<Rightarrow> Dialog_loading
      | Some (Inl m) \<Rightarrow> Dialog_error m
      | Some (Inr d) \<Rightarrow>
          (let src = (case d of Some (JStr t) \<Rightarrow> t | _ \<Rightarrow> []) in
           Dialog_code (shikiLanguage l) (preview_lines dialog_line_limit src) (preview_truncated dialog_line_limit src)))"

lemma dialog_code: "dialog_body_of l (Some (Inr (Some (JStr t)))) = Dialog_code name shown tr \<Longrightarrow> shows_first_lines 500 t shown tr"
  using preview_shows [of 500 t] by (auto simp: dialog_body_of_def dialog_line_limit_def)

end
