(* ===== verification/Admin_Page.thy ===== *)
theory Admin_Page
  imports Contest_Live Manifest Submission_History
begin

text \<open>
  The administration page, \<^verbatim>\<open>pages/admin-page.tsx\<close>: importing a dataset manifest from a file,
  publishing the private results, retrying and disqualifying submissions, and the queries it makes
  stale afterwards.  zod and the server are arguments.
\<close>

section \<open>Importing a manifest\<close>

text \<open>What zod's parser returns for an accepted object has the members of the schema only, in the
  schema's order.\<close>

definition keep_members :: "jsstring list \<Rightarrow> json \<Rightarrow> json" where
  "keep_members ks v = JObj (List.map_filter (\<lambda>k. map_option (Pair k) (member v k)) ks)"

definition artifact_keys :: "jsstring list" where
  "artifact_keys = [js ''id'', js ''kind'', js ''label'', js ''objectKey'', js ''rows'', js ''compressedBytes'',
     js ''uncompressedBytes'', js ''compressedSha256'', js ''uncompressedSha256'', js ''isPublic'']"

definition manifest_keys :: "jsstring list" where
  "manifest_keys = [js ''schemaVersion'', js ''contestId'', js ''generatedAt'', js ''generatorRevision'', js ''artifacts'']"

definition elements :: "json \<Rightarrow> json list" where
  "elements v = (case v of JArr vs \<Rightarrow> vs | _ \<Rightarrow> [])"

definition with_elements :: "(json \<Rightarrow> json) \<Rightarrow> jsstring \<times> json \<Rightarrow> jsstring \<times> json" where
  "with_elements f p = (if fst p = js ''artifacts'' then (fst p, JArr (map f (elements (snd p)))) else p)"

definition parsed_artifact :: "json \<Rightarrow> json" where
  "parsed_artifact v = keep_members artifact_keys v"

definition parsed_manifest :: "json \<Rightarrow> json" where
  "parsed_manifest v = (case keep_members manifest_keys v of
      JObj ms \<Rightarrow> JObj (map (with_elements parsed_artifact) ms)
    | w \<Rightarrow> w)"

text \<open>The members the consistency check reads.\<close>

definition text_at :: "json \<Rightarrow> string \<Rightarrow> jsstring" where
  "text_at v k = (case member v (js k) of Some (JStr s) \<Rightarrow> s | _ \<Rightarrow> [])"

definition artifact_of :: "json \<Rightarrow> artifact" where
  "artifact_of v = \<lparr>artifact_id = text_at v ''id'',
     artifact_kind_of = (if text_at v ''kind'' = js ''input'' then Input else Expected),
     objectKey = text_at v ''objectKey'',
     rows = (case member v (js ''rows'') of Some (JNum (Fin r)) \<Rightarrow> nat \<lfloor>r\<rfloor> | _ \<Rightarrow> 0),
     isPublic = (member v (js ''isPublic'') = Some (JBool True))\<rparr>"

definition manifest_of :: "json \<Rightarrow> manifest" where
  "manifest_of v = \<lparr>contestId = text_at v ''contestId'',
     artifacts = (case member v (js ''artifacts'') of Some w \<Rightarrow> map artifact_of (elements w) | None \<Rightarrow> [])\<rparr>"

datatype import_error = No_manifest_file | Manifest_not_json | Manifest_not_valid | Manifest_inconsistent "issue list"
  | Import_failed jsstring

text \<open>The file is given by its text.\<close>

definition import_manifest ::
    "(schema \<Rightarrow> json \<Rightarrow> bool) \<Rightarrow> fetch \<Rightarrow> jsstring option \<Rightarrow> import_error + json option" where
  "import_manifest accepts fetch file =
     (case file of
        None \<Rightarrow> Inl No_manifest_file
      | Some t \<Rightarrow>
          (case json_parse t of
             None \<Rightarrow> Inl Manifest_not_json
           | Some v \<Rightarrow>
               if \<not> accepts datasetManifestObjectSchema v then Inl Manifest_not_valid
               else if manifest_issues (manifest_of v) \<noteq> [] then Inl (Manifest_inconsistent (manifest_issues (manifest_of v)))
               else (case import_datasets fetch (parsed_manifest v) of
                   Inl m \<Rightarrow> Inl (Import_failed m)
                 | Inr d \<Rightarrow> Inr d)))"

section \<open>The other actions\<close>

definition retry_offered :: "submission_status \<Rightarrow> bool" where
  "retry_offered s \<longleftrightarrow> s = Infrastructure_error_status"

definition disqualify_offered :: "submission_status \<Rightarrow> bool" where
  "disqualify_offered s \<longleftrightarrow> s \<notin> {Uploading, Running, Disqualified_status}"

text \<open>The prompt's answer is \<open>None\<close> when it is cancelled; no request is made without a reason.\<close>

definition disqualify_with :: "fetch \<Rightarrow> jsstring \<Rightarrow> jsstring option \<Rightarrow> result option" where
  "disqualify_with fetch sid answer =
     (case answer of
        None \<Rightarrow> None
      | Some reason \<Rightarrow> if trim reason = [] then None else Some (disqualify fetch sid (trim reason)))"

datatype release_button = Unpublish_button | Publish_button

definition release_button_of :: "jsstring option \<Rightarrow> release_button" where
  "release_button_of privatePublishedAt =
     (if privatePublishedAt = None \<or> privatePublishedAt = Some [] then Publish_button else Unpublish_button)"

definition press_release :: "fetch \<Rightarrow> release_button \<Rightarrow> result" where
  "press_release fetch b = (case b of Unpublish_button \<Rightarrow> unpublish_private fetch | Publish_button \<Rightarrow> publish_private fetch)"

text \<open>A successful action makes stale every query whose key starts with one of these.\<close>

definition refresh_keys :: "query_key list" where
  "refresh_keys = [[js ''admin-submissions''], [js ''contest''], [js ''leaderboard''], [js ''submissions'']]"

definition invalidated :: "query_key \<Rightarrow> bool" where
  "invalidated k \<longleftrightarrow> list_ex (\<lambda>p. starts_with k p) refresh_keys"

lemma live_queries_invalidated: "invalidated overview_key" "invalidated (leaderboard_key b l)"
  by (simp_all add: invalidated_def refresh_keys_def overview_key_def leaderboard_key_def starts_with_def)

section \<open>Only consistent manifests are sent\<close>

lemma member_keep: "member (keep_members ks v) k = (if k \<in> set ks then member v k else None)"
proof -
  have "map_of (List.map_filter (\<lambda>k. map_option (Pair k) (member v k)) ks) k = (if k \<in> set ks then member v k else None)"
    by (induction ks) (auto simp: List.map_filter_simps split: option.splits)
  then show ?thesis by (simp add: keep_members_def member_def [of "JObj _"])
qed

lemma member_parsed_manifest:
  "member (parsed_manifest v) k = (if k \<in> set manifest_keys
    then (if k = js ''artifacts'' then map_option (\<lambda>w. JArr (map parsed_artifact (elements w))) (member v k) else member v k)
    else None)"
proof -
  obtain ms where ms: "keep_members manifest_keys v = JObj ms" by (simp add: keep_members_def)
  have "map_of (map (with_elements f) xs) k = (if k = js ''artifacts'' then map_option (\<lambda>w. JArr (map f (elements w))) (map_of xs k)
      else map_of xs k)" for f xs
    by (induction xs) (auto simp: with_elements_def)
  then have "member (parsed_manifest v) k =
      (if k = js ''artifacts'' then map_option (\<lambda>w. JArr (map parsed_artifact (elements w))) (member (JObj ms) k) else member (JObj ms) k)"
    by (simp add: parsed_manifest_def ms member_def)
  then show ?thesis unfolding ms [symmetric] member_keep by auto
qed

lemma is_object_parsed: "is_object (keep_members ks v)" "is_object (parsed_manifest v)"
  by (simp_all add: is_object_def keep_members_def parsed_manifest_def)

lemma parsed_artifact_same: "k \<in> set artifact_keys \<Longrightarrow> member (parsed_artifact v) k = member v k"
  by (simp add: parsed_artifact_def member_keep)

lemma artifact_of_parsed: "artifact_of (parsed_artifact v) = artifact_of v"
  by (simp add: artifact_of_def text_at_def parsed_artifact_same artifact_keys_def)

lemma parsed_artifact_accepted:
  assumes "zod accepts" "accepts datasetArtifactSchema v"
  shows "accepts datasetArtifactSchema (parsed_artifact v)"
proof -
  have keys: "accepts (Object fs) (parsed_artifact v)"
    if ks: "\<forall>p \<in> set fs. fst p \<in> set artifact_keys" and ok: "accepts (Object fs) v" for fs
  proof -
    have "\<exists>x. member (parsed_artifact v) k = Some x \<and> accepts s x" if "(k, s) \<in> set fs" for k s
    proof -
      have "member (parsed_artifact v) k = member v k" using ks that by (intro parsed_artifact_same) auto
      then show ?thesis using ok that unfolding zod.object_law [OF assms(1)] by auto
    qed
    moreover have "is_object (parsed_artifact v)" by (simp add: parsed_artifact_def is_object_parsed)
    ultimately show ?thesis unfolding zod.object_law [OF assms(1)] by blast
  qed
  show ?thesis
    using assms(2) unfolding datasetArtifactSchema_def by (rule keys [rotated]) (simp add: artifact_keys_def)
qed

lemma parsed_manifest_accepted:
  assumes "zod accepts" "accepts datasetManifestObjectSchema v"
  shows "accepts datasetManifestObjectSchema (parsed_manifest v)"
proof -
  obtain vs where vs: "member v (js ''artifacts'') = Some (JArr vs)" "4 \<le> length vs" "\<forall>x \<in> set vs. accepts datasetArtifactSchema x"
    using assms(2) unfolding datasetManifestObjectSchema_def zod.object_law [OF assms(1)] by (auto simp: zod.list_law [OF assms(1)])
  have "member (parsed_manifest v) (js ''artifacts'') = Some (JArr (map parsed_artifact vs))"
    by (simp add: member_parsed_manifest manifest_keys_def vs(1) elements_def)
  moreover have "accepts (List_of 4 datasetArtifactSchema) (JArr (map parsed_artifact vs))"
    using vs(2,3) parsed_artifact_accepted [OF assms(1)] by (simp add: zod.list_law [OF assms(1)])
  moreover have "member (parsed_manifest v) k = member v k"
    if "k \<in> {js ''schemaVersion'', js ''contestId'', js ''generatedAt'', js ''generatorRevision''}" for k
    using that by (auto simp: member_parsed_manifest manifest_keys_def)
  ultimately show ?thesis
    using assms(2) unfolding datasetManifestObjectSchema_def zod.object_law [OF assms(1)] by (auto simp: is_object_parsed)
qed

lemma manifest_of_parsed: "manifest_of (parsed_manifest v) = manifest_of v"
proof -
  have "text_at (parsed_manifest v) ''contestId'' = text_at v ''contestId''"
    by (simp add: text_at_def member_parsed_manifest manifest_keys_def)
  moreover have "member (parsed_manifest v) (js ''artifacts'') =
      map_option (\<lambda>w. JArr (map parsed_artifact (elements w))) (member v (js ''artifacts''))"
    by (simp add: member_parsed_manifest manifest_keys_def)
  ultimately show ?thesis
    by (cases "member v (js ''artifacts'')") (simp_all add: manifest_of_def elements_def artifact_of_parsed comp_def)
qed

text \<open>C34: Importing a file makes a request exactly when the file's text is JSON that the schema accepts
  and the consistency check raises no issue; the one request has as its body what was read, without
  members the schema does not know, which is still accepted, allowed by the HTTP contract and
  without issues.  Otherwise nothing is sent and the error does not depend on the server.\<close>

theorem import_sends_consistent_manifest:
  assumes "zod accepts"
  shows "if \<exists>t v. chosen = Some t \<and> json_parse t = Some v \<and> accepts datasetManifestObjectSchema v \<and> manifest_issues (manifest_of v) = []
    then \<exists>body. import_manifest accepts fetch chosen = (case apiResult (fetch (plain_request POST (js ''/api/v1/admin/datasets/import'')
          \<lparr>request_content := Json_content body\<rparr>)) of Inl m \<Rightarrow> Inl (Import_failed m) | Inr d \<Rightarrow> Inr d) \<and>
        accepts datasetManifestObjectSchema body \<and> conforms DatasetManifest body \<and> manifest_issues (manifest_of body) = []
    else \<exists>e. \<forall>fetch'. import_manifest accepts fetch' chosen = Inl e"
proof (cases "\<exists>t v. chosen = Some t \<and> json_parse t = Some v \<and> accepts datasetManifestObjectSchema v \<and> manifest_issues (manifest_of v) = []")
  case True
  then obtain t v where v: "chosen = Some t" "json_parse t = Some v" "accepts datasetManifestObjectSchema v"
    "manifest_issues (manifest_of v) = []" by blast
  note body = parsed_manifest_accepted [OF assms v(3)]
  have "conforms DatasetManifest (parsed_manifest v)" using assms body by (rule zod.manifest_conforms)
  with body v have "\<exists>body. import_manifest accepts fetch chosen = (case apiResult (fetch (plain_request POST (js ''/api/v1/admin/datasets/import'')
          \<lparr>request_content := Json_content body\<rparr>)) of Inl m \<Rightarrow> Inl (Import_failed m) | Inr d \<Rightarrow> Inr d) \<and>
        accepts datasetManifestObjectSchema body \<and> conforms DatasetManifest body \<and> manifest_issues (manifest_of body) = []"
    by (intro exI [of _ "parsed_manifest v"]) (simp add: import_manifest_def import_datasets_def manifest_of_parsed)
  with True show ?thesis by simp
next
  case False
  then have "\<exists>e. \<forall>fetch'. import_manifest accepts fetch' chosen = Inl e"
  proof (cases "\<exists>t v. chosen = Some t \<and> json_parse t = Some v \<and> accepts datasetManifestObjectSchema v")
    case True
    with False show ?thesis by (auto simp: import_manifest_def)
  next
    case False
    then show ?thesis by (cases chosen; cases "json_parse (the chosen)") (auto simp: import_manifest_def)
  qed
  then show ?thesis unfolding if_not_P [OF False] .
qed

section \<open>Witness\<close>

definition demo_entry_json :: "string \<Rightarrow> string \<Rightarrow> bool \<Rightarrow> json" where
  "demo_entry_json scope_name kind listed = JObj
     [(js ''id'', JStr (js (scope_name @ ''-'' @ kind))), (js ''kind'', JStr (js kind)), (js ''label'', JStr (js ''x'')),
      (js ''objectKey'', JStr (js (''datasets/c/'' @ scope_name @ ''/'' @ kind))), (js ''rows'', JNum (Fin 1)),
      (js ''compressedBytes'', JNum (Fin 1)), (js ''uncompressedBytes'', JNum (Fin 1)),
      (js ''compressedSha256'', JStr (replicate 64 97)), (js ''uncompressedSha256'', JStr (replicate 64 97)),
      (js ''isPublic'', JBool listed), (js ''note'', JNull)]"

definition demo_dataset :: json where
  "demo_dataset = JObj
     [(js ''schemaVersion'', JNum (Fin 1)), (js ''contestId'', JStr (js ''c'')),
      (js ''generatedAt'', JStr (js ''2027-02-28T15:59:59.007Z'')), (js ''generatorRevision'', JStr (js ''r'')),
      (js ''artifacts'', JArr [demo_entry_json ''public'' ''input'' True, demo_entry_json ''public'' ''expected'' True,
         demo_entry_json ''private'' ''input'' False, demo_entry_json ''private'' ''expected'' False])]"

lemma demo_dataset_accepted: "documented_accepts datasetManifestObjectSchema demo_dataset"
  by code_simp

lemma demo_dataset_manifest: "manifest_of demo_dataset = \<lparr>contestId = js ''c'', artifacts =
  [\<lparr>artifact_id = js ''public-input'', artifact_kind_of = Input, objectKey = js ''datasets/c/public/input'', rows = 1, isPublic = True\<rparr>,
   \<lparr>artifact_id = js ''public-expected'', artifact_kind_of = Expected, objectKey = js ''datasets/c/public/expected'', rows = 1, isPublic = True\<rparr>,
   \<lparr>artifact_id = js ''private-input'', artifact_kind_of = Input, objectKey = js ''datasets/c/private/input'', rows = 1, isPublic = False\<rparr>,
   \<lparr>artifact_id = js ''private-expected'', artifact_kind_of = Expected, objectKey = js ''datasets/c/private/expected'', rows = 1, isPublic = False\<rparr>]\<rparr>"
  by (simp add: manifest_of_def artifact_of_def text_at_def demo_dataset_def demo_entry_json_def member_def elements_def)

lemma demo_dataset_consistent: "manifest_issues (manifest_of demo_dataset) = []"
  by (simp add: demo_dataset_manifest manifest_issues_def refine_artifact_def Let_def pairKey_def scope_def issue_if_def incomplete_pair_def missing_scope_def
   map_defs starts_with_def ends_with_def js_eval nat_to_string.simps digit_unit_def)

theorem import_sends_consistent_manifest_witness:
  "\<exists>body. import_manifest documented_accepts demo_fetch (Some (stringify demo_dataset)) = Inr (Some demo_receipt) \<and>
    conforms DatasetManifest body \<and> manifest_issues (manifest_of body) = []"
proof -
  have parsed: "json_parse (stringify demo_dataset) = Some demo_dataset"
    by (rule json_round_trip) (simp add: demo_dataset_def demo_entry_json_def)
  have "\<exists>t v. Some (stringify demo_dataset) = Some t \<and> json_parse t = Some v \<and> documented_accepts datasetManifestObjectSchema v \<and>
      manifest_issues (manifest_of v) = []"
    using parsed demo_dataset_accepted demo_dataset_consistent by blast
  with import_sends_consistent_manifest [OF documented.zod_axioms, of "Some (stringify demo_dataset)" demo_fetch]
  show ?thesis by (auto simp: demo_fetch_def apiResult_def reply_ok_def)
qed

end
