(* ===== verification/Dashboard.thy ===== *)
theory Dashboard
  imports Contest_Clock Js_Convert
begin

text \<open>
  What \<^verbatim>\<open>pages/dashboard-page.tsx\<close> shows of a contest: the phase with its countdown, the ring with
  the share of the contest that has passed, the links and the head of the leaderboard.  The clock is
  a number of milliseconds.
\<close>

definition time_number :: "int option \<Rightarrow> number" where
  "time_number d = (case d of None \<Rightarrow> NaN | Some t \<Rightarrow> Fin (of_int t))"

definition num_sub :: "number \<Rightarrow> number \<Rightarrow> number" where
  "num_sub a b = num_add a (num_neg b)"

text \<open>Until the contest is loaded its bounds are 0 and 1.\<close>

definition dashboard_bounds :: "(jsstring \<Rightarrow> int option) \<Rightarrow> 'a contest_schedule_scheme option \<Rightarrow> number \<times> number" where
  "dashboard_bounds other contest =
     (case contest of
        None \<Rightarrow> (Fin 0, Fin 1)
      | Some c \<Rightarrow> (time_number (new_date other (startAt c)), time_number (new_date other (endAt c))))"

definition elapsedRatio :: "(jsstring \<Rightarrow> int option) \<Rightarrow> 'a contest_schedule_scheme option \<Rightarrow> int \<Rightarrow> number" where
  "elapsedRatio other contest now =
     (let (startsAt, endsAt) = dashboard_bounds other contest in
      num_max (Fin 0) (num_min (Fin 1) (num_div (num_sub (Fin (of_int now)) startsAt) (num_sub endsAt startsAt))))"

definition countdown_text :: "(jsstring \<Rightarrow> int option) \<Rightarrow> 'a contest_schedule_scheme \<Rightarrow> int \<Rightarrow> jsstring" where
  "countdown_text other contest now =
     formatRemaining (num_sub (time_number (phase_target (getContestPhase other contest (Some now)))) (Fin (of_int now)))"

text \<open>A published time is an empty or missing string when there is none.\<close>

definition dashboard_board :: "jsstring option \<Rightarrow> board" where
  "dashboard_board privatePublishedAt =
     (if privatePublishedAt = None \<or> privatePublishedAt = Some [] then Public_board else Private_board)"

definition dashboard_links :: "(jsstring \<Rightarrow> int option) \<Rightarrow> 'a contest_schedule_scheme option \<Rightarrow> int \<Rightarrow> jsstring list" where
  "dashboard_links other contest now =
     (case contest of
        None \<Rightarrow> []
      | Some c \<Rightarrow>
          if hasContestStarted other c (Some now)
          then (if isSubmissionOpen other c (Some now) then [js ''/submit''] else []) @ [js ''/contest'']
          else [])"

definition dashboard_rows :: "'e list option \<Rightarrow> 'e list \<times> 'e list \<times> bool" where
  "dashboard_rows ranked = (case ranked of
      None \<Rightarrow> ([], [], False)
    | Some es \<Rightarrow> (take 8 es, es, True))"

section \<open>The clock and the ring agree\<close>

lemma num_sub_int: "\<bar>a - b\<bar> \<le> 2 ^ 53 \<Longrightarrow> num_sub (Fin (of_int a)) (Fin (of_int b)) = Fin (of_int (a - b))"
  using f64_int [of "a - b"] by (simp add: num_sub_def num_neg_def)

lemma f64_nonpositive: "r \<le> 0 \<Longrightarrow> (\<exists>v \<le> 0. f64 r = Fin v) \<or> f64 r = NegInf"
proof (cases "r = 0")
  case False
  assume r: "r \<le> 0"
  let ?v = "of_int (round_half_even (\<bar>r\<bar> / 2 powi ulp_exponent r)) * 2 powi ulp_exponent r :: rat"
  have "0 \<le> ?v" by (intro mult_nonneg_nonneg) (simp_all add: round_half_even_nonneg)
  then show ?thesis using r False by (auto simp: f64_def Let_def)
qed (simp add: f64_def)

lemma ring_before:
  assumes "a \<le> 0" "0 < b"
  shows "num_max (Fin 0) (num_min (Fin 1) (num_div (Fin (of_int a)) (Fin (of_int b)))) = Fin 0"
proof -
  have "(of_int a / of_int b :: rat) \<le> 0" using assms by (intro divide_nonpos_pos) simp_all
  from f64_nonpositive [OF this] show ?thesis using assms(2) by auto
qed

lemma quotient_cases:
  assumes "a < 2 ^ 53" "0 < b" "b < 2 ^ 53"
  shows "\<exists>v. num_div (Fin (of_nat a)) (Fin (of_nat b)) = Fin v \<and> of_nat (a div b) \<le> v \<and> v \<le> of_nat (a div b) + 1"
proof (cases "a mod b = 0")
  case True
  then obtain c where c: "a = c * b" by (metis add.right_neutral div_mult_mod_eq)
  have "(of_nat a / of_nat b :: rat) = of_int (int c)" using assms(2) by (simp add: c)
  moreover have "c \<le> a" using assms(2) by (simp add: c)
  then have "f64 (of_int (int c)) = Fin (of_int (int c))" using assms(1) by (intro f64_int) simp
  ultimately show ?thesis using assms(2) by (simp add: c)
next
  case False
  with quotient_near [of b a] assms obtain v where "f64 (of_nat a / of_nat b) = Fin v" "of_nat (a div b) < v" "v < of_nat (a div b) + 1"
    by (metis less_imp_le_nat)
  then show ?thesis using assms(2) by auto
qed

lemma ring_inside:
  assumes "0 < b" "b < 2 ^ 53" "a < 2 ^ 53"
  shows "\<exists>v. num_max (Fin 0) (num_min (Fin 1) (num_div (Fin (of_nat a)) (Fin (of_nat b)))) = Fin v \<and> 0 \<le> v \<and> v \<le> 1 \<and>
    (b \<le> a \<longrightarrow> v = 1)"
proof -
  obtain q where q: "num_div (Fin (of_nat a)) (Fin (of_nat b)) = Fin q" "of_nat (a div b) \<le> q"
    using quotient_cases [OF assms(3,1,2)] by blast
  have "(0 :: rat) \<le> of_nat (a div b)" by simp
  then have "0 \<le> q" using q(2) by (rule order_trans)
  moreover have "1 \<le> q" if "b \<le> a"
  proof -
    have "1 \<le> a div b" using that assms(1) by (simp add: Suc_leI div_greater_zero_iff)
    then have "(1 :: rat) \<le> of_nat (a div b)" using of_nat_mono [of 1 "a div b"] by simp
    with q(2) show ?thesis by (rule order_trans [rotated])
  qed
  ultimately show ?thesis unfolding q(1) by auto
qed

text \<open>C35: For valid dates the dashboard's label, countdown and ring agree: before the start it counts
  down to the start with an empty ring; from then to the end it counts down to the end and the ring
  shows a share between 0 and 1; afterwards the label says that the contest is over, the countdown
  shows zero and the ring is full.  The link to submit is there exactly from the start on.\<close>

theorem dashboard_clock:
  assumes "new_date other (startAt contest) = Some s" "new_date other (endAt contest) = Some e" "s < e"
    "0 \<le> s" "e < 2 ^ 52" "0 \<le> t" "t < 2 ^ 52"
  shows "(t < s \<longrightarrow> phase_label (getContestPhase other contest (Some t)) = until_start \<and>
      countdown_text other contest t = formatRemaining (Fin (of_nat (nat (s - t)))) \<and> elapsedRatio other (Some contest) t = Fin 0) \<and>
    (s \<le> t \<and> t \<le> e \<longrightarrow> phase_label (getContestPhase other contest (Some t)) = until_end \<and>
      countdown_text other contest t = formatRemaining (Fin (of_nat (nat (e - t)))) \<and>
      (\<exists>r. elapsedRatio other (Some contest) t = Fin r \<and> 0 \<le> r \<and> r \<le> 1)) \<and>
    (e < t \<longrightarrow> phase_label (getContestPhase other contest (Some t)) = contest_over \<and>
      countdown_text other contest t = js ''00:00:00'' \<and> elapsedRatio other (Some contest) t = Fin 1) \<and>
    (js ''/submit'' \<in> set (dashboard_links other (Some contest) t) \<longleftrightarrow> s \<le> t)"
proof -
  note phase = getContestPhase_def Let_def date_less_def date_at_least_def
  have ratio: "elapsedRatio other (Some contest) t =
      num_max (Fin 0) (num_min (Fin 1) (num_div (Fin (of_int (t - s))) (Fin (of_int (e - s)))))"
    using num_sub_int [of t s] num_sub_int [of e s] assms
    by (simp add: elapsedRatio_def dashboard_bounds_def time_number_def)
  have len: "e - s = int (nat (e - s))" "nat (e - s) < 2 ^ 53" "0 < nat (e - s)" using assms by simp_all
  have before: "elapsedRatio other (Some contest) t = Fin 0" if "t < s"
    unfolding ratio using that assms by (intro ring_before) simp_all
  have after: "\<exists>v. elapsedRatio other (Some contest) t = Fin v \<and> 0 \<le> v \<and> v \<le> 1 \<and> (e \<le> t \<longrightarrow> v = 1)" if "s \<le> t"
  proof -
    have t: "t - s = int (nat (t - s))" "nat (t - s) < 2 ^ 53" using that assms by simp_all
    have "(of_int (t - s) :: rat) = of_nat (nat (t - s))" "(of_int (e - s) :: rat) = of_nat (nat (e - s))"
      using that assms(3) by simp_all
    note casts = this
    have "e \<le> t \<longleftrightarrow> nat (e - s) \<le> nat (t - s)" using that assms(3) by auto
    then show ?thesis using ring_inside [OF len(3,2) t(2)] unfolding ratio casts by blast
  qed
  have count: "countdown_text other contest t = formatRemaining (Fin (of_int (d - t)))"
    if "phase_target (getContestPhase other contest (Some t)) = Some d" "\<bar>d - t\<bar> \<le> 2 ^ 53" for d
    using num_sub_int [OF that(2)] that(1) by (simp add: countdown_text_def time_number_def)
  have "countdown_text other contest t = formatRemaining (Fin (of_nat (nat (s - t))))" if "t < s"
    using count [of s] that assms by (simp add: phase)
  moreover have "countdown_text other contest t = formatRemaining (Fin (of_nat (nat (e - t))))" if "s \<le> t" "t \<le> e"
    using count [of e] that assms by (simp add: phase)
  moreover have "countdown_text other contest t = js ''00:00:00''" if "e < t"
  proof -
    have "countdown_text other contest t = formatRemaining (Fin (- of_nat (nat (t - e))))"
      using count [of e] that assms by (simp add: phase)
    then show ?thesis by (simp add: remaining_past clock_text_def pad_start_def digit_unit_def js_eval)
  qed
  moreover have "js ''/submit'' \<in> set (dashboard_links other (Some contest) t) \<longleftrightarrow> s \<le> t"
    using assms by (simp add: dashboard_links_def hasContestStarted_def isSubmissionOpen_def date_at_least_def)
  ultimately show ?thesis
    using before after assms by (auto simp: phase until_start_def until_end_def contest_over_def)
qed

theorem dashboard_clock_witness:
  "countdown_text (\<lambda>_. None) \<lparr>startAt = Date_object (Some 0), endAt = Date_object (Some 10)\<rparr> 11 = js ''00:00:00'' \<and>
   elapsedRatio (\<lambda>_. None) (Some \<lparr>startAt = Date_object (Some 0), endAt = Date_object (Some 10)\<rparr>) 11 = Fin 1"
  using dashboard_clock [of "\<lambda>_. None" "\<lparr>startAt = Date_object (Some 0), endAt = Date_object (Some 10)\<rparr>" 0 10 11]
  by simp

end
