(* ===== verification/Mock_Auth.thy ===== *)
theory Mock_Auth
  imports Js_Uri Js_Regex Js_Collections
begin

text \<open>
  The development proxy \<^verbatim>\<open>apps/mock-auth/src/index.ts\<close>: logging in and out by a cookie, and passing
  every other request on with the user's name in a header.  The server hands over parsed requests;
  \<open>send\<close> stands for the network.  A handler that throws is \<open>None\<close>.
\<close>

section \<open>Cookies and redirects\<close>

fun decode_items :: "jsstring list list \<Rightarrow> (jsstring \<times> jsstring) list option" where
  "decode_items [] = Some []"
| "decode_items (item # items) =
     (case decodeURIComponent (item ! 1) of
        None \<Rightarrow> None
      | Some v \<Rightarrow> map_option (Cons (item ! 0, v)) (decode_items items))"

definition parseCookie :: "jsstring \<Rightarrow> (jsstring, jsstring) js_map option" where
  "parseCookie value =
     map_option (foldl (\<lambda>m p. map_set (fst p) (snd p) m) map_new)
       (decode_items (filter (\<lambda>item. length item = 2)
         (map (\<lambda>part. take 2 (split_on 61 (trim part))) (split_on 59 value))))"

definition safeRedirect :: "jsstring option \<Rightarrow> jsstring" where
  "safeRedirect value =
     (case value of
        None \<Rightarrow> js ''/''
      | Some v \<Rightarrow> if starts_with v (js ''/'') \<and> \<not> starts_with v (js ''//'') then v else js ''/'')"

definition username_regex :: regex where
  "username_regex = (let c = Cls [(65, 90), (97, 122), (48, 57), (95, 95), (45, 45)] in Seq c (at_most 63 c))"

section \<open>The handler\<close>

text \<open>Header names are stored in lower case; \<open>headers.get\<close>, \<open>set\<close> and \<open>delete\<close> ignore case.\<close>

type_synonym header_map = "(jsstring, jsstring) js_map"

record http_request =
  req_method :: jsstring
  pathname :: jsstring
  search :: jsstring
  search_params :: "(jsstring \<times> jsstring) list"
  host :: jsstring
  protocol :: jsstring
  req_headers :: header_map

record http_response =
  resp_status :: nat
  resp_headers :: header_map
  resp_body :: "jsstring option"

text \<open>A reference that starts with two slashes names a host of its own; any other path belongs to the
  target's origin.\<close>

datatype upstream = Target_path jsstring | Other_host jsstring

definition resolve_upstream :: "jsstring \<Rightarrow> upstream" where
  "resolve_upstream ref = (if starts_with ref (js ''//'') then Other_host ref else Target_path ref)"

record upstream_request =
  up_url :: upstream
  up_method :: jsstring
  up_headers :: header_map
  up_body :: bool

definition cookie_attributes :: jsstring where
  "cookie_attributes = js ''; Path=/; HttpOnly; SameSite=Lax''"

definition login_response :: "jsstring \<Rightarrow> http_request \<Rightarrow> http_response option" where
  "login_response defaultUser req = map_option (\<lambda>u. \<lparr>resp_status = 302,
     resp_headers = [(js ''location'', safeRedirect (map_of (search_params req) (js ''redirect''))),
       (js ''set-cookie'', js ''onebrc_user='' @ u @ cookie_attributes),
       (js ''cache-control'', js ''no-store'')],
     resp_body = None\<rparr>) (encodeURIComponent defaultUser)"

definition logout_response :: http_response where
  "logout_response = \<lparr>resp_status = 302,
     resp_headers = [(js ''location'', js ''/''),
       (js ''set-cookie'', js ''onebrc_user='' @ cookie_attributes @ js ''; Max-Age=0''),
       (js ''cache-control'', js ''no-store'')],
     resp_body = None\<rparr>"

definition forward_headers :: "jsstring \<Rightarrow> http_request \<Rightarrow> header_map option" where
  "forward_headers targetHost req =
     (let headers = map_delete (js ''x-forwarded-user'') (req_headers req) in
      case parseCookie (case map_get headers (js ''cookie'') of None \<Rightarrow> [] | Some c \<Rightarrow> c) of
        None \<Rightarrow> None
      | Some cookies \<Rightarrow>
          (let headers = (case map_get cookies (js ''onebrc_user'') of
               Some username \<Rightarrow>
                 if username \<noteq> [] \<and> regex_test username_regex username
                 then map_set (js ''x-forwarded-user'') username headers else headers
             | None \<Rightarrow> headers)
           in Some (map_set (js ''host'') targetHost
                (map_set (js ''x-forwarded-proto'') (butlast (protocol req))
                  (map_set (js ''x-forwarded-host'') (host req) headers)))))"

definition upstream_of :: "jsstring \<Rightarrow> http_request \<Rightarrow> upstream_request option" where
  "upstream_of targetHost req = map_option (\<lambda>hs. \<lparr>up_url = resolve_upstream (pathname req @ search req),
     up_method = req_method req, up_headers = hs,
     up_body = (req_method req \<noteq> js ''GET'' \<and> req_method req \<noteq> js ''HEAD'')\<rparr>) (forward_headers targetHost req)"

text \<open>The message says that the development proxy cannot reach the API.\<close>

definition unreachable_message :: jsstring where
  "unreachable_message = [0x958B, 0x767A, 0x7528, 0x8A8D, 0x8A3C, 0x30D7, 0x30ED, 0x30AD, 0x30B7, 0x304B, 0x3089] @
     js ''API'' @ [0x3078, 0x63A5, 0x7D9A, 0x3067, 0x304D, 0x307E, 0x305B, 0x3093] @ js '': ''"

definition handle_request ::
    "jsstring \<Rightarrow> jsstring \<Rightarrow> (upstream_request \<Rightarrow> jsstring + http_response) \<Rightarrow> http_request \<Rightarrow> http_response option" where
  "handle_request defaultUser targetHost send req =
     (if pathname req = js ''/_oauth/login'' then login_response defaultUser req
      else if pathname req = js ''/_oauth/logout'' then Some logout_response
      else map_option (\<lambda>u. case send u of
             Inr response \<Rightarrow> response
           | Inl message \<Rightarrow> \<lparr>resp_status = 502,
               resp_headers = [(js ''content-type'', js ''text/plain; charset=utf-8'')],
               resp_body = Some (unreachable_message @ message)\<rparr>)
         (upstream_of targetHost req))"

section \<open>The identity passed on\<close>

definition cookie_pair :: "jsstring \<times> jsstring \<Rightarrow> jsstring" where
  "cookie_pair p = fst p @ 61 # snd p"

definition cookie_header :: "(jsstring \<times> jsstring) list \<Rightarrow> jsstring" where
  "cookie_header ps = join_with (js ''; '') (map cookie_pair ps)"

text \<open>A cookie a browser may send: no white space or semicolon, and a value that decodes.\<close>

definition cookie_ok :: "jsstring \<times> jsstring \<Rightarrow> bool" where
  "cookie_ok p \<longleftrightarrow> list_all (\<lambda>c. \<not> is_space c \<and> c \<noteq> 59) (cookie_pair p) \<and> 61 \<notin> set (fst p) \<and>
     decodeURIComponent (hd (split_on 61 (snd p))) \<noteq> None"

definition cookie_value :: "jsstring \<times> jsstring \<Rightarrow> jsstring" where
  "cookie_value p = the (decodeURIComponent (hd (split_on 61 (snd p))))"

lemma join_with_prefix: "c # join_with sep (q # ps) = join_with sep ((c # q) # ps)"
  by (cases ps) simp_all

lemma split_cookies:
  fixes p :: jsstring
  shows "\<forall>q \<in> set (p # ps). 59 \<notin> set q \<Longrightarrow> split_on 59 (join_with [59, 32] (p # ps)) = p # map (Cons 32) ps"
proof (induction ps arbitrary: p)
  case (Cons q ps)
  have "join_with [59, 32] (p # q # ps) = p @ 59 # join_with [59, 32] ((32 # q) # ps)"
    by (simp add: join_with_prefix [symmetric])
  then have "split_on 59 (join_with [59, 32] (p # q # ps)) = p # split_on 59 (join_with [59, 32] ((32 # q) # ps))"
    using Cons.prems by (simp add: split_on_append del: join_with.simps)
  also have "split_on 59 (join_with [59, 32] ((32 # q) # ps)) = (32 # q) # map (Cons 32) ps"
    using Cons.prems by (intro Cons.IH) auto
  finally show ?case by simp
qed (simp add: split_on_notin)

lemma trim_space: "list_all (\<lambda>c. \<not> is_space c) s \<Longrightarrow> trim (32 # s) = s"
  using trim_no_space [of s] by (simp add: trim_def is_space_def)

lemma cookie_item:
  assumes "cookie_ok p"
  shows "take 2 (split_on 61 (cookie_pair p)) = [fst p, hd (split_on 61 (snd p))]"
proof -
  have "split_on 61 (cookie_pair p) = fst p # split_on 61 (snd p)"
    using assms by (simp add: cookie_ok_def cookie_pair_def split_on_append)
  then show ?thesis by (cases "split_on 61 (snd p)") simp_all
qed

lemma cookie_items:
  assumes "\<forall>p \<in> set ps. cookie_ok p" "ps \<noteq> []"
  shows "map (\<lambda>part. take 2 (split_on 61 (trim part))) (split_on 59 (cookie_header ps)) =
    map (\<lambda>p. [fst p, hd (split_on 61 (snd p))]) ps"
proof -
  have plain: "trim (cookie_pair p) = cookie_pair p" "trim (32 # cookie_pair p) = cookie_pair p" if "p \<in> set ps" for p
    using assms that trim_no_space [of "cookie_pair p"] trim_space [of "cookie_pair p"]
    by (auto simp: cookie_ok_def list_all_iff)
  obtain p qs where ps: "ps = p # qs" using assms(2) by (cases ps) auto
  have "59 \<notin> set q" if "q \<in> set (cookie_pair p # map cookie_pair qs)" for q
    using that assms(1) unfolding ps by (auto simp: cookie_ok_def list_all_iff)
  then have "split_on 59 (cookie_header ps) = cookie_pair p # map (Cons 32) (map cookie_pair qs)"
    using split_cookies [of "cookie_pair p" "map cookie_pair qs"] by (simp add: ps cookie_header_def js_eval)
  then show ?thesis using plain cookie_item assms(1) by (simp add: ps)
qed

lemma decode_cookies:
  "\<forall>p \<in> set ps. cookie_ok p \<Longrightarrow>
    decode_items (map (\<lambda>p. [fst p, hd (split_on 61 (snd p))]) ps) = Some (map (\<lambda>p. (fst p, cookie_value p)) ps)"
  by (induction ps) (auto simp: cookie_ok_def cookie_value_def)

lemma parse_cookies:
  assumes "\<forall>p \<in> set ps. cookie_ok p" "ps \<noteq> []"
  shows "parseCookie (cookie_header ps) = Some (foldl (\<lambda>m p. map_set (fst p) (cookie_value p) m) map_new ps)"
proof -
  have "filter (\<lambda>item. length item = 2) (map (\<lambda>p. [fst p, hd (split_on 61 (snd p))]) ps) =
      map (\<lambda>p. [fst p, hd (split_on 61 (snd p))]) ps" by (simp add: filter_id_conv)
  then show ?thesis
    using decode_cookies [OF assms(1)] by (simp add: parseCookie_def cookie_items [OF assms] foldl_map)
qed

lemma encoded_cookie_ok:
  assumes "encodeURIComponent user = Some u"
  shows "cookie_ok (js ''onebrc_user'', u)" "cookie_value (js ''onebrc_user'', u) = user"
proof -
  have chars: "\<not> is_space c \<and> c \<noteq> 59 \<and> c \<noteq> 61" if "c \<in> set u" for c
    using encoded_chars [OF assms that] by (auto simp: unreserved_def is_space_def word_le_nat_alt)
  then have split: "split_on 61 u = [u]" by (intro split_on_notin) blast
  have "list_all (\<lambda>c. \<not> is_space c \<and> c \<noteq> 59) (js ''onebrc_user'')" "61 \<notin> set (js ''onebrc_user'')"
    by (simp_all add: js_eval is_space_def)
  then show "cookie_ok (js ''onebrc_user'', u)"
    using chars decode_encode [OF assms] by (auto simp: cookie_ok_def cookie_pair_def split list_all_iff is_space_def)
  show "cookie_value (js ''onebrc_user'', u) = user"
    using decode_encode [OF assms] by (simp add: cookie_value_def split)
qed

lemma found_cookie:
  assumes "\<forall>p \<in> set (pre @ post). fst p \<noteq> k"
  shows "map_get (foldl (\<lambda>m p. map_set (fst p) (cookie_value p) m) map_new (pre @ (k, v) # post)) k = Some (cookie_value (k, v))"
proof -
  have "find (\<lambda>p. fst p = k) (rev post @ (k, v) # rev pre) = Some (k, v)"
  proof -
    have "find (\<lambda>p. fst p = k) (xs @ (k, v) # ys) = Some (k, v)" if "\<forall>p \<in> set xs. fst p \<noteq> k" for xs ys
      using that by (induction xs) auto
    then show ?thesis using assms by simp
  qed
  then show ?thesis
    using jm.get_foldl_put [of fst cookie_value map_new "pre @ (k, v) # post" k] by simp
qed

definition forwarded_user :: "jsstring \<Rightarrow> http_request \<Rightarrow> jsstring option" where
  "forwarded_user targetHost req =
     Option.bind (forward_headers targetHost req) (\<lambda>hs. map_get hs (js ''x-forwarded-user''))"

lemma forwarded_cookie:
  assumes "parseCookie (case map_get (req_headers req) (js ''cookie'') of None \<Rightarrow> [] | Some c \<Rightarrow> c) = Some cookies"
  shows "forward_headers targetHost req \<noteq> None" "forwarded_user targetHost req =
    (case map_get cookies (js ''onebrc_user'') of
       Some user \<Rightarrow> if user \<noteq> [] \<and> regex_test username_regex user then Some user else None
     | None \<Rightarrow> None)"
  using assms by (simp_all add: forward_headers_def forwarded_user_def Let_def jm.get_put split: option.splits)

text \<open>C28: Logging in sets a cookie with the encoded name.  A request that sends it back, among any
  other cookies, is passed on with exactly this name in \<open>X-Forwarded-User\<close> when the name is valid
  and without the header when it is not; a request without cookies is passed on without it.  A
  header of that name sent by the client never gets through.\<close>

theorem login_identity:
  assumes "encodeURIComponent user = Some u"
    "\<forall>p \<in> set (pre @ post). cookie_ok p \<and> fst p \<noteq> js ''onebrc_user''"
    "map_get (req_headers req) (js ''cookie'') = Some (cookie_header (pre @ (js ''onebrc_user'', u) # post))"
    "map_get (req_headers anonymous) (js ''cookie'') = None"
  shows "(\<exists>r. login_response user login = Some r \<and>
      map_get (resp_headers r) (js ''set-cookie'') = Some (cookie_pair (js ''onebrc_user'', u) @ cookie_attributes)) \<and>
    forward_headers targetHost req \<noteq> None \<and>
    forwarded_user targetHost req = (if user \<noteq> [] \<and> regex_test username_regex user then Some user else None) \<and>
    forward_headers targetHost anonymous \<noteq> None \<and> forwarded_user targetHost anonymous = None"
proof -
  let ?cs = "pre @ (js ''onebrc_user'', u) # post"
  have "\<forall>p \<in> set ?cs. cookie_ok p" using assms(2) encoded_cookie_ok(1) [OF assms(1)] by auto
  then have "parseCookie (case map_get (req_headers req) (js ''cookie'') of None \<Rightarrow> [] | Some c \<Rightarrow> c) =
      Some (foldl (\<lambda>m p. map_set (fst p) (cookie_value p) m) map_new ?cs)"
    using parse_cookies [of ?cs] by (simp add: assms(3))
  moreover have "map_get (foldl (\<lambda>m p. map_set (fst p) (cookie_value p) m) map_new ?cs) (js ''onebrc_user'') = Some user"
    using found_cookie [of pre post "js ''onebrc_user''" u] assms(2) encoded_cookie_ok(2) [OF assms(1)] by simp
  moreover have "parseCookie (case map_get (req_headers anonymous) (js ''cookie'') of None \<Rightarrow> [] | Some c \<Rightarrow> c) = Some map_new"
    by (simp add: assms(4) parseCookie_def trim_def)
  moreover have "js ''onebrc_user='' @ u = cookie_pair (js ''onebrc_user'', u)"
    by (simp add: cookie_pair_def js_eval)
  ultimately show ?thesis
    using forwarded_cookie [of req _ targetHost] forwarded_cookie [of anonymous map_new targetHost] assms(1)
    by (simp add: login_response_def map_get_def jm.get_empty [unfolded map_get_def])
qed

definition demo_request :: "header_map \<Rightarrow> http_request" where
  "demo_request hs = \<lparr>req_method = js ''GET'', pathname = js ''/api/v1/me'', search = [], search_params = [],
     host = js ''localhost:8080'', protocol = js ''http:'', req_headers = hs\<rparr>"

theorem login_identity_witness:
  "forwarded_user (js ''api:3000'') (demo_request
     [(js ''x-forwarded-user'', js ''admin''), (js ''cookie'', js ''onebrc_user=cp20'')]) = Some (js ''cp20'')"
proof -
  have "encodeURIComponent (js ''cp20'') = Some (js ''cp20'')"
    by (rule encode_unreserved) (simp add: js_eval unreserved_def)
  from login_identity [OF this, of "[]" "[]" "demo_request
      [(js ''x-forwarded-user'', js ''admin''), (js ''cookie'', js ''onebrc_user=cp20'')]"
      "demo_request []" undefined "js ''api:3000''"]
  have "forwarded_user (js ''api:3000'') (demo_request
      [(js ''x-forwarded-user'', js ''admin''), (js ''cookie'', js ''onebrc_user=cp20'')]) =
      (if js ''cp20'' \<noteq> [] \<and> regex_test username_regex (js ''cp20'') then Some (js ''cp20'') else None)"
    by (simp add: demo_request_def map_get_def cookie_header_def cookie_pair_def js_eval)
  moreover have "regex_test username_regex (js ''cp20'')" by code_simp
  ultimately show ?thesis by simp
qed

section \<open>Where requests and redirects go\<close>

text \<open>A browser drops tabs and line ends of a \<open>Location\<close> and takes a backslash for a slash; a
  location that then starts with two slashes names another host.\<close>

definition stays_on_site :: "jsstring \<Rightarrow> bool" where
  "stays_on_site location =
     (case filter (\<lambda>c. c \<notin> {9, 10, 13}) location of a # b # r \<Rightarrow> \<not> (a \<in> {47, 92} \<and> b \<in> {47, 92}) | _ \<Rightarrow> True)"

lemma url_parts:
  "filter (\<lambda>c. c \<notin> {9, 10, 13}) s = s \<Longrightarrow> 92 \<notin> set s \<Longrightarrow> \<not> starts_with s (js ''//'') \<Longrightarrow> stays_on_site s"
  by (auto simp: stays_on_site_def starts_with_def js_eval split: list.splits)

lemma redirect_path: "starts_with (safeRedirect v) (js ''/'') \<and> \<not> starts_with (safeRedirect v) (js ''//'')"
  by (cases v) (auto simp: safeRedirect_def starts_with_def js_eval)

lemma redirect_chars: "safeRedirect (Some s) = s \<or> safeRedirect (Some s) = js ''/''"
  by (simp add: safeRedirect_def)

text \<open>The location after a login is always an absolute path that does not start with two slashes,
  and it stays on the site when the requested redirect has no backslash, tab or line end; a
  backslash after the first slash, which is let through, leads to another site.  A request whose path
  does not start with two slashes is passed on to the target's origin under its own path, query
  and method, with a body only when it is neither a GET nor a HEAD request.\<close>

theorem redirect_and_upstream:
  assumes "\<forall>c \<in> set s. c \<notin> {9, 10, 13, 92}"
    "upstream_of targetHost req = Some u" "\<not> starts_with (pathname req @ search req) (js ''//'')"
  shows "starts_with (safeRedirect v) (js ''/'') \<and> \<not> starts_with (safeRedirect v) (js ''//'') \<and>
    stays_on_site (safeRedirect (Some s)) \<and> stays_on_site (safeRedirect None) \<and>
    \<not> stays_on_site (safeRedirect (Some (js ''/'' @ [92] @ js ''evil.example''))) \<and>
    up_url u = Target_path (pathname req @ search req) \<and> up_method u = req_method req \<and>
    (up_body u \<longleftrightarrow> req_method req \<notin> {js ''GET'', js ''HEAD''}) \<and> forward_headers targetHost req = Some (up_headers u)"
proof -
  have "filter (\<lambda>c. c \<notin> {9, 10, 13}) s = s" using assms(1) by (intro filter_True) auto
  then have "stays_on_site s" if "\<not> starts_with s (js ''//'')" using url_parts that assms(1) by blast
  moreover have "stays_on_site (js ''/'')" by code_simp
  ultimately have "stays_on_site (safeRedirect (Some s))"
    using redirect_path [of "Some s"] redirect_chars [of s] by metis
  moreover have "stays_on_site (safeRedirect None) \<and>
      \<not> stays_on_site (safeRedirect (Some (js ''/'' @ [92] @ js ''evil.example'')))"
    by code_simp
  ultimately show ?thesis
    using redirect_path [of v] assms(2,3) by (auto simp: upstream_of_def resolve_upstream_def)
qed

theorem redirect_and_upstream_witness:
  "\<exists>u. upstream_of (js ''api:3000'') (demo_request []) = Some u \<and> up_url u = Target_path (js ''/api/v1/me'') \<and>
    \<not> up_body u \<and> stays_on_site (safeRedirect (Some (js ''/contest'')))"
proof -
  have "\<forall>c \<in> set (js ''/contest''). c \<notin> {9, 10, 13, 92}" by (simp add: js_eval)
  moreover obtain u where u: "upstream_of (js ''api:3000'') (demo_request []) = Some u"
    using forwarded_cookie(1) [of "demo_request []" map_new "js ''api:3000''"]
    by (auto simp: upstream_of_def demo_request_def map_get_def parseCookie_def trim_def)
  moreover have "\<not> starts_with (pathname (demo_request []) @ search (demo_request [])) (js ''//'')"
    by (simp add: demo_request_def starts_with_def js_eval)
  ultimately show ?thesis
    using redirect_and_upstream [of "js ''/contest''" "js ''api:3000''" "demo_request []" u] by (auto simp: demo_request_def)
qed

end
