(* ===== verification/Web_Pages.thy ===== *)
theory Web_Pages
  imports Dashboard Leaderboard_Highlights Submission_History Mock_Auth
begin

text \<open>
  The pages of the web client: the routes of \<^verbatim>\<open>App.tsx\<close> with their guards, the menus of
  \<^verbatim>\<open>components/app-shell.tsx\<close>, the rows of \<^verbatim>\<open>components/leaderboard-table.tsx\<close>, the badges of
  \<^verbatim>\<open>components/ui.tsx\<close> and the key of \<^verbatim>\<open>pages/access-key-page.tsx\<close>.  A path is one of the route
  table's or another one; how the router normalizes paths is not modelled.
\<close>

section \<open>Routes\<close>

record current_user =
  current_username :: jsstring
  isAdmin :: bool

datatype page_view =
    Dashboard_page | Contest_page | Guide_page | Guide_loading | Leaderboard_page | Submit_page
  | Submissions_page | Access_key_page | Admin_page | Login_required | Navigate_to jsstring

text \<open>What the client knows: the user, unless nobody is logged in or the answer is outstanding, and
  the contest, which may be pending.\<close>

record app_state =
  app_user :: "current_user option"
  contest_pending :: bool
  app_contest :: "contest_schedule option"

definition guideAvailable :: "(jsstring \<Rightarrow> int option) \<Rightarrow> app_state \<Rightarrow> int option \<Rightarrow> bool" where
  "guideAvailable other a now = (case app_contest a of None \<Rightarrow> False | Some c \<Rightarrow> hasContestEnded other c now)"

definition require_login :: "current_user option \<Rightarrow> page_view \<Rightarrow> page_view" where
  "require_login user p = (if user = None then Login_required else p)"

definition app_page :: "(jsstring \<Rightarrow> int option) \<Rightarrow> app_state \<Rightarrow> int option \<Rightarrow> jsstring \<Rightarrow> page_view" where
  "app_page other a now to =
     (if to = js ''/'' then Dashboard_page
      else if to = js ''/contest'' then Contest_page
      else if to = js ''/guide''
      then (if contest_pending a then Guide_loading
        else if guideAvailable other a now then Guide_page else Navigate_to (js ''/contest''))
      else if to = js ''/leaderboard'' then Leaderboard_page
      else if to = js ''/submit'' then require_login (app_user a) Submit_page
      else if to = js ''/submissions'' then require_login (app_user a) Submissions_page
      else if to = js ''/access-key'' then require_login (app_user a) Access_key_page
      else if to = js ''/admin''
      then (case app_user a of Some u \<Rightarrow> if isAdmin u then Admin_page else Navigate_to (js ''/'') | None \<Rightarrow> Navigate_to (js ''/''))
      else Navigate_to (js ''/''))"

text \<open>The menus: the navigation, and the account's menu when somebody is logged in.\<close>

definition navigation :: "bool \<Rightarrow> jsstring list" where
  "navigation showGuide = [js ''/'', js ''/contest'', js ''/leaderboard''] @
     (if showGuide then [js ''/guide''] else []) @ [js ''/submit'']"

definition account_menu :: "current_user option \<Rightarrow> jsstring list" where
  "account_menu user = (case user of
      None \<Rightarrow> []
    | Some u \<Rightarrow> [js ''/submissions'', js ''/access-key''] @ (if isAdmin u then [js ''/admin''] else []))"

definition login_link :: jsstring where
  "login_link = js ''/_oauth/login?redirect=/''"

section \<open>Every page is guarded and every link works\<close>

text \<open>The pages that need a login, and what each page needs.\<close>

definition allowed_page :: "(jsstring \<Rightarrow> int option) \<Rightarrow> app_state \<Rightarrow> int option \<Rightarrow> page_view \<Rightarrow> bool" where
  "allowed_page other a now p =
     (case p of
        Admin_page \<Rightarrow> (\<exists>u. app_user a = Some u \<and> isAdmin u)
      | Submit_page \<Rightarrow> app_user a \<noteq> None
      | Submissions_page \<Rightarrow> app_user a \<noteq> None
      | Access_key_page \<Rightarrow> app_user a \<noteq> None
      | Guide_page \<Rightarrow> guideAvailable other a now
      | Navigate_to to \<Rightarrow> (\<forall>q. app_page other a now to \<noteq> Navigate_to q)
      | _ \<Rightarrow> True)"

definition login_request :: http_request where
  "login_request = \<lparr>req_method = js ''GET'', pathname = js ''/_oauth/login'', search = js ''?redirect=/'',
     search_params = parse_params (js ''?redirect=/''), host = [], protocol = js ''http:'', req_headers = []\<rparr>"

lemma login_params: "parse_params (js ''?redirect=/'') = [(js ''redirect'', js ''/'')]"
proof -
  have "takeWhile (\<lambda>c. c \<noteq> 61) (js ''redirect=/'') = js ''redirect''" "drop 1 (dropWhile (\<lambda>c. c \<noteq> 61) (js ''redirect=/'')) = js ''/''"
    by (simp_all add: js_eval)
  moreover have "split_on 38 (js ''redirect=/'') = [js ''redirect=/'']" by (simp add: js_eval)
  moreover have "decode_component (js ''redirect'') = js ''redirect''" "decode_component (js ''/'') = js ''/''"
    by (simp_all add: decode_component_def plus_to_space_def js_eval percent_bytes_other utf16_def)
  ultimately show ?thesis by (simp add: parse_params_def starts_with_def js_eval parse_pair_def)
qed

text \<open>C36: A page is only shown to whom it is meant for: administration to administrators, submitting,
  the history and the access key to users who are logged in, the guide once the contest has ended;
  a redirect leads to a page at once.  Every link of the menus leads to its page, only submitting
  asks for a login first, and the login link leads back to the start page with the user's cookie.\<close>

theorem pages_guarded:
  assumes "encodeURIComponent user = Some u"
  shows "allowed_page other a now (app_page other a now to) \<and>
    (\<forall>p \<in> set (navigation (guideAvailable other a now)) \<union> set (account_menu (app_user a)).
      (\<forall>q. app_page other a now p \<noteq> Navigate_to q) \<and>
      (app_page other a now p = Login_required \<longleftrightarrow> p = js ''/submit'' \<and> app_user a = None)) \<and>
    (\<exists>r. handle_request user targetHost send login_request = Some r \<and> resp_status r = 302 \<and>
      map_get (resp_headers r) (js ''location'') = Some (js ''/'') \<and>
      map_get (resp_headers r) (js ''set-cookie'') = Some (js ''onebrc_user='' @ u @ cookie_attributes))"
proof (intro conjI ballI)
  show "allowed_page other a now (app_page other a now to)"
    by (auto simp: app_page_def allowed_page_def require_login_def split: option.splits)
  fix p assume p: "p \<in> set (navigation (guideAvailable other a now)) \<union> set (account_menu (app_user a))"
  then show "\<forall>q. app_page other a now p \<noteq> Navigate_to q"
    by (auto simp: app_page_def navigation_def account_menu_def require_login_def split: if_splits option.splits)
  show "app_page other a now p = Login_required \<longleftrightarrow> p = js ''/submit'' \<and> app_user a = None"
    using p by (auto simp: app_page_def navigation_def account_menu_def require_login_def split: if_splits option.splits)
next
  show "\<exists>r. handle_request user targetHost send login_request = Some r \<and> resp_status r = 302 \<and>
      map_get (resp_headers r) (js ''location'') = Some (js ''/'') \<and>
      map_get (resp_headers r) (js ''set-cookie'') = Some (js ''onebrc_user='' @ u @ cookie_attributes)"
    using assms by (simp add: handle_request_def login_response_def login_request_def login_params safeRedirect_def starts_with_def map_defs)
qed

theorem pages_guarded_witness:
  "\<exists>r. handle_request (js ''alice'') (js ''api'') (\<lambda>_. Inl []) login_request = Some r \<and>
    map_get (resp_headers r) (js ''set-cookie'') = Some (js ''onebrc_user='' @ js ''alice'' @ cookie_attributes)"
proof -
  have "encodeURIComponent (js ''alice'') = Some (js ''alice'')"
    by (rule encode_unreserved) (simp add: js_eval unreserved_def)
  from pages_guarded [OF this, of _ _ _ _ "js ''api''" "\<lambda>_. Inl []"] show ?thesis by blast
qed

section \<open>Rows of the leaderboard\<close>

datatype row_class = Updated_row_A | Updated_row_B

text \<open>Two highlights in a row of one user have different classes, so the animation starts again.\<close>

definition row_class_of :: "bool \<Rightarrow> visible_update option \<Rightarrow> row_class option" where
  "row_class_of highlightUpdates u =
     (if \<not> highlightUpdates then None
      else map_option (\<lambda>v. if update_sequence v mod 2 = 0 then Updated_row_A else Updated_row_B) u)"

datatype rank_arrow = Arrow_up | Arrow_down | No_arrow

definition rank_arrow_of :: "int \<Rightarrow> rank_arrow" where
  "rank_arrow_of change = (if change > 0 then Arrow_up else if change < 0 then Arrow_down else No_arrow)"

definition rankChangeLabel :: "int \<Rightarrow> jsstring" where
  "rankChangeLabel change =
     (let from_public = js ''Public'' @ [0x9806, 0x4F4D, 0x304B, 0x3089] in
      if change > 0 then from_public @ int_to_string change @ [0x4F4D, 0x4E0A, 0x6607]
      else if change < 0 then from_public @ int_to_string \<bar>change\<bar> @ [0x4F4D, 0x4E0B, 0x964D]
      else from_public @ [0x5909, 0x52D5, 0x306A, 0x3057])"

datatype table_score = Table_duration "jsstring option" "(jsstring \<times> diff_class option) option" | Table_verdict jsstring

definition table_score_of :: "visible_update option \<Rightarrow> leaderboard_entry \<Rightarrow> table_score" where
  "table_score_of u e =
     (if entry_verdict e = Accepted
      then Table_duration (scoreNs e)
        (case Option.bind u runtimeDeltaNs of None \<Rightarrow> None | Some d \<Rightarrow> Some (d, runtimeDiffClass d))
      else Table_verdict (verdictLabel (entry_verdict e)))"

record table_row =
  table_class :: "row_class option"
  table_rank :: "int option"
  table_change :: "(rank_arrow \<times> jsstring \<times> int) option"
  table_avatar :: "jsstring option"
  table_language :: jsstring
  table_score :: table_score
  table_source :: bool

definition table_row_of :: "bool \<Rightarrow> (jsstring, visible_update) js_map \<Rightarrow> leaderboard_entry \<Rightarrow> table_row" where
  "table_row_of highlightUpdates updates e =
     (let u = map_get updates (username e) in
      \<lparr>table_class = row_class_of highlightUpdates u, table_rank = rank e,
       table_change = map_option (\<lambda>c. (rank_arrow_of c, rankChangeLabel c, \<bar>c\<bar>)) (rankChange e),
       table_avatar = avatarUrl (username e) (Fin 48), table_language = languageLabel (language_name (entry_language e)),
       table_score = table_score_of u e, table_source = sourceAvailable e\<rparr>)"

definition skeleton_rows :: "bool \<Rightarrow> bool \<Rightarrow> nat" where
  "skeleton_rows initialized small = (if initialized then 0 else if small then 5 else 8)"

lemma row_class_changes:
  "row_class_of True (Some v) = row_class_of True (Some w) \<longleftrightarrow> even (update_sequence v) = even (update_sequence w)"
  by (auto simp: row_class_of_def even_iff_mod_2_eq_zero)

section \<open>Badges\<close>

datatype badge_tone = Positive | Info | Warning | Negative | Muted

definition status_tone :: "submission_status \<Rightarrow> badge_tone" where
  "status_tone s = (case s of
      Completed \<Rightarrow> Positive
    | Running \<Rightarrow> Info
    | Queued \<Rightarrow> Warning
    | Uploading \<Rightarrow> Warning
    | _ \<Rightarrow> Negative)"

definition verdict_tone :: "verdict \<Rightarrow> badge_tone" where
  "verdict_tone v = (case v of Accepted \<Rightarrow> Positive | Infrastructure_error \<Rightarrow> Warning | _ \<Rightarrow> Negative)"

section \<open>The access key\<close>

text \<open>The replies of the two mutations, in the order in which they arrive.\<close>

datatype key_reply = Key_issued jsstring | Key_revoked | Key_failed

fun key_shown :: "jsstring option \<Rightarrow> key_reply \<Rightarrow> jsstring option" where
  "key_shown k (Key_issued new) = Some new"
| "key_shown k Key_revoked = None"
| "key_shown k Key_failed = k"

end
