(* ===== verification/Configure_Ansible.thy ===== *)
theory Configure_Ansible
  imports Zod Node
begin

text \<open>
  The script \<^verbatim>\<open>scripts/configure-ansible.ts\<close>, which turns the outputs of the CDK stack, the runner's
  public key and the presigned downloads into the inventory and the variables of Ansible.  The
  parsed options, the texts of the files it reads, the home and working directory, the clock and
  zod's \<open>z.url\<close> are arguments.  An error is the error the script ends with before it has written
  anything; the texts it writes are lists of lines.
\<close>

record ansible_options =
  cdk_outputs :: jsstring
  ssh_private_key :: "jsstring option"
  runner_public_key :: "jsstring option"
  runner_downloads :: jsstring
  inventory :: jsstring
  group_vars :: jsstring
  runner_image :: jsstring

definition default_ansible_options :: ansible_options where
  "default_ansible_options = \<lparr>cdk_outputs = js ''infra/cdk/cdk-outputs.json'', ssh_private_key = None,
     runner_public_key = None, runner_downloads = js ''data/contest/runner-downloads.json'',
     inventory = js ''infra/ansible/inventory.yml'', group_vars = js ''infra/ansible/group_vars/all.yml'',
     runner_image = js ''onebrc-runner:ubuntu26-v2''\<rparr>"

section \<open>The schemas\<close>

definition datasetFiles :: "jsstring list" where
  "datasetFiles = [js ''public.csv'', js ''public.expected'', js ''private.csv'', js ''private.expected'']"

definition sha256Schema :: schema where
  "sha256Schema = Text [Pattern (exactly 64 (Cls [(48, 57), (97, 102)]))]"

definition downloadSchema :: schema where
  "downloadSchema = Object [(js ''url'', Text [Prefix (js ''https://'')]), (js ''sha256'', sha256Schema),
     (js ''compressedSha256'', sha256Schema)]"

text \<open>A record with the keys of an enumeration has every one of them and no others.\<close>

definition runnerDownloadsSchema :: schema where
  "runnerDownloadsSchema = Object [(js ''expiresAt'', Iso_datetime),
     (js ''files'', Strict_object (map (\<lambda>f. (f, downloadSchema)) datasetFiles))]"

definition optional_text :: "(schema \<Rightarrow> json \<Rightarrow> bool) \<Rightarrow> json \<Rightarrow> jsstring \<Rightarrow> bool" where
  "optional_text accepts v k = (case member v k of None \<Rightarrow> True | Some x \<Rightarrow> accepts (Text [Min_length 1]) x)"

definition stack_ok :: "(schema \<Rightarrow> json \<Rightarrow> bool) \<Rightarrow> json \<Rightarrow> bool" where
  "stack_ok accepts v \<longleftrightarrow> accepts (Object []) v \<and> optional_text accepts v (js ''BenchmarkPublicIp'') \<and>
     optional_text accepts v (js ''BenchmarkEnvironment'')"

definition cdk_outputs_ok :: "(schema \<Rightarrow> json \<Rightarrow> bool) \<Rightarrow> json \<Rightarrow> bool" where
  "cdk_outputs_ok accepts v = (case v of JObj ms \<Rightarrow> list_all (\<lambda>m. stack_ok accepts (snd m)) ms | _ \<Rightarrow> False)"

definition text_member :: "json \<Rightarrow> jsstring \<Rightarrow> jsstring" where
  "text_member v k = (case member v k of Some (JStr s) \<Rightarrow> s | _ \<Rightarrow> [])"

definition object_member :: "json \<Rightarrow> jsstring \<Rightarrow> json" where
  "object_member v k = (case member v k of Some x \<Rightarrow> x | None \<Rightarrow> JNull)"

definition downloads_ok :: "(schema \<Rightarrow> json \<Rightarrow> bool) \<Rightarrow> (jsstring \<Rightarrow> bool) \<Rightarrow> json \<Rightarrow> bool" where
  "downloads_ok accepts is_url v \<longleftrightarrow> accepts runnerDownloadsSchema v \<and>
     list_all (\<lambda>f. is_url (text_member (object_member (object_member v (js ''files'')) f) (js ''url''))) datasetFiles"

section \<open>Paths and values\<close>

definition path_resolve :: "jsstring \<Rightarrow> jsstring \<Rightarrow> jsstring" where
  "path_resolve cwd p =
     (let q = (if starts_with p (js ''/'') then p else cwd @ js ''/'' @ p)
      in 47 # join_with [47] (normalize_segments True [] (split_on 47 q)))"

definition resolvePath :: "jsstring \<Rightarrow> jsstring \<Rightarrow> jsstring \<Rightarrow> jsstring" where
  "resolvePath home cwd p =
     path_resolve cwd (if starts_with p (js ''~/'') then home @ js ''/'' @ drop 2 p else p)"

definition yamlString :: "jsstring \<Rightarrow> jsstring" where
  "yamlString v = stringify (JStr v)"

section \<open>The files\<close>

record ansible_files =
  inventory_path :: jsstring
  inventory_text :: jsstring
  group_vars_path :: jsstring
  group_vars_text :: jsstring
  group_vars_mode :: nat
  created_directories :: "jsstring list"
  report :: jsstring

datatype ansible_error = Keys_required | Unreadable jsstring | Not_json | Not_valid | No_stack | Not_a_public_key | Downloads_expired

definition found_stack :: "json \<Rightarrow> json option" where
  "found_stack outputs = (case outputs of
      JObj ms \<Rightarrow> find (\<lambda>v. text_member v (js ''BenchmarkPublicIp'') \<noteq> [] \<and> text_member v (js ''BenchmarkEnvironment'') \<noteq> [])
        (map snd ms)
    | _ \<Rightarrow> None)"

definition inventory_lines :: "json \<Rightarrow> jsstring \<Rightarrow> jsstring list" where
  "inventory_lines stack private_key =
     [js ''all:'', js ''  hosts:'', js ''    benchmark:'',
      js ''      ansible_host: '' @ yamlString (text_member stack (js ''BenchmarkPublicIp'')),
      js ''      ansible_user: ubuntu'',
      js ''      ansible_ssh_private_key_file: '' @ yamlString private_key,
      js ''      ansible_ssh_common_args: '' @ [34] @ js ''-o StrictHostKeyChecking=accept-new'' @ [34]]"

definition download_lines :: "json \<Rightarrow> jsstring \<Rightarrow> jsstring list" where
  "download_lines downloads filename =
     (let d = object_member downloads filename in
      [js ''  '' @ filename @ js '':'',
       js ''    url: '' @ yamlString (text_member d (js ''url'')),
       js ''    sha256: '' @ yamlString (text_member d (js ''sha256'')),
       js ''    compressed_sha256: '' @ yamlString (text_member d (js ''compressedSha256''))])"

definition data_path :: "jsstring \<Rightarrow> jsstring \<Rightarrow> jsstring" where
  "data_path key filename = key @ js '': '' @ [34] @ js ''/var/lib/1brc/data/'' @ filename @ [34]"

definition group_vars_lines :: "json \<Rightarrow> jsstring \<Rightarrow> jsstring \<Rightarrow> json \<Rightarrow> jsstring list" where
  "group_vars_lines stack public_key runner downloads =
     [js ''onebrc_runner_public_key: '' @ yamlString public_key,
      js ''onebrc_environment_id: '' @ yamlString (text_member stack (js ''BenchmarkEnvironment'')),
      js ''onebrc_runner_image: '' @ yamlString runner,
      data_path (js ''onebrc_public_input'') (js ''public.csv''),
      data_path (js ''onebrc_public_expected'') (js ''public.expected''),
      data_path (js ''onebrc_private_input'') (js ''private.csv''),
      data_path (js ''onebrc_private_expected'') (js ''private.expected''),
      js ''onebrc_dataset_downloads:''] @ concat (map (download_lines downloads) datasetFiles)"

definition file_text :: "jsstring list \<Rightarrow> jsstring" where
  "file_text ls = join_with [10] ls @ [10]"

definition read_json :: "(jsstring \<Rightarrow> jsstring + jsstring) \<Rightarrow> jsstring \<Rightarrow> ansible_error + json" where
  "read_json read p = (case read p of
      Inl e \<Rightarrow> Inl (Unreadable e)
    | Inr t \<Rightarrow> (case json_parse t of None \<Rightarrow> Inl Not_json | Some v \<Rightarrow> Inr v))"

record ansible_machine =
  home_directory :: jsstring
  working_directory :: jsstring
  read_file :: "jsstring \<Rightarrow> jsstring + jsstring"
  other_date :: "jsstring \<Rightarrow> int option"
  now_ms :: int

definition ansible_files_of ::
    "ansible_machine \<Rightarrow> ansible_options \<Rightarrow> jsstring \<Rightarrow> json \<Rightarrow> jsstring \<Rightarrow> json \<Rightarrow> ansible_files" where
  "ansible_files_of m opts private_key stack public_key downloads =
     (let path = resolvePath (home_directory m) (working_directory m);
          files = object_member downloads (js ''files'')
      in \<lparr>inventory_path = path (inventory opts),
          inventory_text = file_text (inventory_lines stack (path private_key)),
          group_vars_path = path (group_vars opts),
          group_vars_text = file_text (group_vars_lines stack public_key (runner_image opts) files),
          group_vars_mode = 384,
          created_directories = [parent (path (inventory opts)), parent (path (group_vars opts))],
          report = js ''Wrote '' @ path (inventory opts) @ [10] @ js ''Wrote '' @ path (group_vars opts) @
            js '' (URLs expire at '' @ text_member downloads (js ''expiresAt'') @ js '')'' @ [10]\<rparr>)"

definition configure ::
    "(schema \<Rightarrow> json \<Rightarrow> bool) \<Rightarrow> (jsstring \<Rightarrow> bool) \<Rightarrow> ansible_machine \<Rightarrow> ansible_options \<Rightarrow> ansible_error + ansible_files" where
  "configure accepts is_url m opts =
     (let path = resolvePath (home_directory m) (working_directory m) in
      case (ssh_private_key opts, runner_public_key opts) of
        (Some private_key, Some public_key_path) \<Rightarrow>
          if private_key = [] \<or> public_key_path = [] then Inl Keys_required
          else (case read_json (read_file m) (path (cdk_outputs opts)) of
              Inl e \<Rightarrow> Inl e
            | Inr outputs \<Rightarrow>
                if \<not> cdk_outputs_ok accepts outputs then Inl Not_valid
                else (case found_stack outputs of
                    None \<Rightarrow> Inl No_stack
                  | Some stack \<Rightarrow>
                      (case read_file m (path public_key_path) of
                         Inl e \<Rightarrow> Inl (Unreadable e)
                       | Inr t \<Rightarrow>
                           if \<not> starts_with (trim t) (js ''ssh-'') then Inl Not_a_public_key
                           else (case read_json (read_file m) (path (runner_downloads opts)) of
                               Inl e \<Rightarrow> Inl e
                             | Inr downloads \<Rightarrow>
                                 if \<not> downloads_ok accepts is_url downloads then Inl Not_valid
                                 else (case date_parse (other_date m) (text_member downloads (js ''expiresAt'')) of
                                     None \<Rightarrow> Inl Downloads_expired
                                   | Some e \<Rightarrow>
                                       if e \<le> now_ms m then Inl Downloads_expired
                                       else Inr (ansible_files_of m opts private_key stack (trim t) downloads))))))
      | _ \<Rightarrow> Inl Keys_required)"

section \<open>No value can break out of its line\<close>

lemma hex_digit_printable: "hex_digit d = c \<Longrightarrow> d < 16 \<Longrightarrow> c \<noteq> 10"
  using unat_hex_digit [of d] by (auto split: if_splits)

lemma unicode_escape_printable: "10 \<notin> set (unicode_escape c)"
proof -
  have "hex_digit d \<noteq> 10" if "d < 16" for d using hex_digit_printable [OF refl that] .
  moreover have "unat c div 4096 < 16" using code_unit_bound [of c] by simp
  ultimately show ?thesis by (simp add: unicode_escape_def Let_def)
qed

lemma quote_char_printable: "10 \<notin> set (quote_char c)"
  using unicode_escape_printable by (simp add: quote_char_def)

lemma quote_chars_printable: "10 \<notin> set (quote_chars s)"
proof (induction s rule: quote_chars.induct)
  case (3 c d s)
  have "c \<noteq> 10" "d \<noteq> 10" if "high_surrogate c" "low_surrogate d"
    using that by (auto simp: high_surrogate_def low_surrogate_def)
  with 3 show ?case by (auto simp: unicode_escape_printable quote_char_printable)
qed (simp_all add: unicode_escape_printable quote_char_printable)

lemma yamlString_printable: "10 \<notin> set (yamlString v)"
  by (simp add: yamlString_def quote_def quote_chars_printable)

lemma yamlString_value: "json_parse (yamlString v) = Some (JStr v)"
  unfolding yamlString_def by (rule json_round_trip) simp

lemma file_lines:
  assumes "ls \<noteq> []" "\<forall>l \<in> set ls. 10 \<notin> set l"
  shows "split_on 10 (file_text ls) = ls @ [[]]"
proof -
  have "file_text ls = join_with [10] (ls @ [[]])"
    unfolding file_text_def using assms(1)
    by (induction "[10] :: jsstring" ls rule: join_with.induct) simp_all
  then show ?thesis using split_on_join [of "ls @ [[]]" 10] assms(2) by simp
qed

lemma inventory_printable: "\<forall>l \<in> set (inventory_lines stack k). 10 \<notin> set l"
  using yamlString_printable by (simp add: inventory_lines_def js_eval)

lemma group_vars_printable: "\<forall>l \<in> set (group_vars_lines stack k r d). 10 \<notin> set l"
  using yamlString_printable
  by (simp add: group_vars_lines_def download_lines_def data_path_def datasetFiles_def Let_def js_eval)

lemma lines_present: "inventory_lines stack k \<noteq> []" "group_vars_lines stack p r d \<noteq> []"
  by (simp_all add: inventory_lines_def group_vars_lines_def)

lemma found_stack_values:
  "found_stack v = Some stack \<Longrightarrow> text_member stack (js ''BenchmarkPublicIp'') \<noteq> [] \<and> text_member stack (js ''BenchmarkEnvironment'') \<noteq> []"
  by (auto simp: found_stack_def find_Some_iff split: json.splits)

lemma is_text_cases: "is_text cs v \<longleftrightarrow> (\<exists>s. v = JStr s \<and> list_all (\<lambda>c. string_check_ok c s) cs)"
  by (auto simp: is_text_def split: json.splits)

text \<open>What a run read when it succeeds.\<close>

lemma configure_Inr:
  assumes "configure accepts is_url m opts = Inr out"
  obtains private_key key_path outputs stack key_text downloads e where
    "ssh_private_key opts = Some private_key" "runner_public_key opts = Some key_path" "private_key \<noteq> []" "key_path \<noteq> []"
    "read_json (read_file m) (resolvePath (home_directory m) (working_directory m) (cdk_outputs opts)) = Inr outputs"
    "found_stack outputs = Some stack"
    "read_file m (resolvePath (home_directory m) (working_directory m) key_path) = Inr key_text"
    "starts_with (trim key_text) (js ''ssh-'')"
    "read_json (read_file m) (resolvePath (home_directory m) (working_directory m) (runner_downloads opts)) = Inr downloads"
    "downloads_ok accepts is_url downloads"
    "date_parse (other_date m) (text_member downloads (js ''expiresAt'')) = Some e" "now_ms m < e"
    "out = ansible_files_of m opts private_key stack (trim key_text) downloads"
proof -
  let ?path = "resolvePath (home_directory m) (working_directory m)"
  obtain private_key key_path where keys: "ssh_private_key opts = Some private_key" "runner_public_key opts = Some key_path"
      "private_key \<noteq> []" "key_path \<noteq> []"
    using assms by (auto simp: configure_def Let_def split: option.splits if_splits)
  obtain outputs where outputs: "read_json (read_file m) (?path (cdk_outputs opts)) = Inr outputs" "cdk_outputs_ok accepts outputs"
    using assms keys by (auto simp: configure_def Let_def split: sum.splits if_splits)
  obtain stack where stack: "found_stack outputs = Some stack"
    using assms keys outputs by (auto simp: configure_def Let_def split: option.splits)
  obtain t where t: "read_file m (?path key_path) = Inr t" "starts_with (trim t) (js ''ssh-'')"
    using assms keys outputs stack by (auto simp: configure_def Let_def split: sum.splits if_splits)
  obtain downloads where downloads: "read_json (read_file m) (?path (runner_downloads opts)) = Inr downloads"
      "downloads_ok accepts is_url downloads"
    using assms keys outputs stack t by (auto simp: configure_def Let_def split: sum.splits if_splits)
  obtain e where "date_parse (other_date m) (text_member downloads (js ''expiresAt'')) = Some e" "now_ms m < e"
      "out = ansible_files_of m opts private_key stack (trim t) downloads"
    using assms keys outputs stack t downloads by (auto simp: configure_def Let_def split: option.splits if_splits)
  then show thesis using that keys outputs(1) stack t downloads by blast
qed

lemma file_text_lines:
  "split_on 10 (file_text (inventory_lines stack k)) = inventory_lines stack k @ [[]]"
  "split_on 10 (file_text (group_vars_lines stack p r d)) = group_vars_lines stack p r d @ [[]]"
  by (simp_all add: file_lines lines_present inventory_printable group_vars_printable)

text \<open>C31: When the script succeeds, what it writes comes from the files its options name: the address and the
  environment from the first stack of the CDK outputs that has both, the key from the trimmed text of the
  public key file, which starts as an OpenSSH key, and the downloads from the downloads file, whose expiry is a
  date later than the present; each of the four files has an HTTPS address and two digests.
  Every value is written as one JSON string on a line of its own, so no value can add a line, and reading
  the JSON string gives the value.  The variables, which hold the presigned addresses, are readable by the
  owner only.\<close>

theorem ansible_values_intact:
  assumes "configure accepts is_url m opts = Inr out" "zod accepts"
  shows "\<exists>path private_key key_path outputs stack key_text downloads files e.
    path = resolvePath (home_directory m) (working_directory m) \<and>
    ssh_private_key opts = Some private_key \<and> runner_public_key opts = Some key_path \<and>
    read_json (read_file m) (path (cdk_outputs opts)) = Inr outputs \<and> found_stack outputs = Some stack \<and>
    text_member stack (js ''BenchmarkPublicIp'') \<noteq> [] \<and> text_member stack (js ''BenchmarkEnvironment'') \<noteq> [] \<and>
    read_file m (path key_path) = Inr key_text \<and> starts_with (trim key_text) (js ''ssh-'') \<and>
    read_json (read_file m) (path (runner_downloads opts)) = Inr downloads \<and>
    date_parse (other_date m) (text_member downloads (js ''expiresAt'')) = Some e \<and> now_ms m < e \<and>
    member downloads (js ''files'') = Some files \<and>
    (\<forall>f \<in> set datasetFiles. \<exists>d. member files f = Some d \<and> starts_with (text_member d (js ''url'')) (js ''https://'') \<and>
      is_url (text_member d (js ''url'')) \<and> length (text_member d (js ''sha256'')) = 64 \<and>
      length (text_member d (js ''compressedSha256'')) = 64) \<and>
    split_on 10 (inventory_text out) = inventory_lines stack (path private_key) @ [[]] \<and>
    split_on 10 (group_vars_text out) = group_vars_lines stack (trim key_text) (runner_image opts) files @ [[]] \<and>
    (\<forall>v. json_parse (yamlString v) = Some (JStr v)) \<and>
    group_vars_mode out = 384"
proof -
  let ?path = "resolvePath (home_directory m) (working_directory m)"
  obtain private_key key_path outputs stack key_text downloads e where
    keys: "ssh_private_key opts = Some private_key" "runner_public_key opts = Some key_path" and
    outputs: "read_json (read_file m) (?path (cdk_outputs opts)) = Inr outputs" "found_stack outputs = Some stack" and
    key: "read_file m (?path key_path) = Inr key_text" "starts_with (trim key_text) (js ''ssh-'')" and
    read: "read_json (read_file m) (?path (runner_downloads opts)) = Inr downloads" and
    ok: "downloads_ok accepts is_url downloads" and
    e: "date_parse (other_date m) (text_member downloads (js ''expiresAt'')) = Some e" "now_ms m < e" and
    out: "out = ansible_files_of m opts private_key stack (trim key_text) downloads"
    using configure_Inr [OF assms(1)] by metis
  note stack = found_stack_values [OF outputs(2)]
  have text_law: "accepts (Text cs) v \<longleftrightarrow> is_text cs v" for cs v using assms(2) by (rule zod.text_law)
  obtain files where files: "member downloads (js ''files'') = Some files"
      "accepts (Strict_object (map (\<lambda>f. (f, downloadSchema)) datasetFiles)) files"
    using ok unfolding downloads_ok_def runnerDownloadsSchema_def zod.object_law [OF assms(2)] by auto
  have each: "\<forall>f \<in> set datasetFiles. \<exists>d. member files f = Some d \<and> accepts downloadSchema d"
    using files(2) unfolding zod.strict_law [OF assms(2)] zod.object_law [OF assms(2)] by auto
  have "\<exists>d. member files f = Some d \<and> starts_with (text_member d (js ''url'')) (js ''https://'') \<and>
      is_url (text_member d (js ''url'')) \<and> length (text_member d (js ''sha256'')) = 64 \<and>
      length (text_member d (js ''compressedSha256'')) = 64" if f: "f \<in> set datasetFiles" for f
  proof -
    obtain d where d: "member files f = Some d" "accepts downloadSchema d" using each f by blast
    have "is_url (text_member d (js ''url''))" using ok files(1) d(1) f by (auto simp: downloads_ok_def list_all_iff object_member_def)
    moreover have "starts_with (text_member d (js ''url'')) (js ''https://'') \<and> length (text_member d (js ''sha256'')) = 64 \<and>
        length (text_member d (js ''compressedSha256'')) = 64"
      using d(2) unfolding downloadSchema_def zod.object_law [OF assms(2)] sha256Schema_def
      by (auto simp: text_law text_member_def is_text_cases regex_test_lang)
    ultimately show ?thesis using d(1) by blast
  qed
  then have each_file: "\<forall>f \<in> set datasetFiles. \<exists>d. member files f = Some d \<and> starts_with (text_member d (js ''url'')) (js ''https://'') \<and>
      is_url (text_member d (js ''url'')) \<and> length (text_member d (js ''sha256'')) = 64 \<and>
      length (text_member d (js ''compressedSha256'')) = 64" by blast
  have written: "split_on 10 (inventory_text out) = inventory_lines stack (?path private_key) @ [[]]"
    "split_on 10 (group_vars_text out) = group_vars_lines stack (trim key_text) (runner_image opts) files @ [[]]"
    "group_vars_mode out = 384"
    by (simp_all add: out ansible_files_of_def Let_def object_member_def files(1) file_text_lines)
  have "?path = ?path \<and> ssh_private_key opts = Some private_key \<and> runner_public_key opts = Some key_path \<and>
    read_json (read_file m) (?path (cdk_outputs opts)) = Inr outputs \<and> found_stack outputs = Some stack \<and>
    text_member stack (js ''BenchmarkPublicIp'') \<noteq> [] \<and> text_member stack (js ''BenchmarkEnvironment'') \<noteq> [] \<and>
    read_file m (?path key_path) = Inr key_text \<and> starts_with (trim key_text) (js ''ssh-'') \<and>
    read_json (read_file m) (?path (runner_downloads opts)) = Inr downloads \<and>
    date_parse (other_date m) (text_member downloads (js ''expiresAt'')) = Some e \<and> now_ms m < e \<and>
    member downloads (js ''files'') = Some files"
    using keys outputs stack key read e files(1) by blast
  then show ?thesis using each_file written yamlString_value by blast
qed

section \<open>Witness\<close>

definition demo_download :: json where
  "demo_download = JObj [(js ''url'', JStr (js ''https://e.example/f'')), (js ''sha256'', JStr (replicate 64 97)),
     (js ''compressedSha256'', JStr (replicate 64 48))]"

definition demo_downloads :: json where
  "demo_downloads = JObj [(js ''expiresAt'', JStr (js ''2027-03-01T00:00:00Z'')),
     (js ''files'', JObj (map (\<lambda>f. (f, demo_download)) datasetFiles))]"

definition demo_outputs :: json where
  "demo_outputs = JObj [(js ''Bootstrap'', JObj []), (js ''Benchmark'', JObj
     [(js ''BenchmarkPublicIp'', JStr (js ''192.0.2.1'')), (js ''BenchmarkEnvironment'', JStr (js ''c7i''))])]"

definition machine_reading :: "json \<Rightarrow> ansible_machine" where
  "machine_reading outputs = \<lparr>home_directory = js ''/home/u'', working_directory = js ''/repo'',
     read_file = (\<lambda>p. if p = js ''/home/u/key.pub'' then Inr (js ''ssh-ed25519 AAAA'' @ [10])
       else if p = js ''/repo/infra/cdk/cdk-outputs.json'' then Inr (stringify outputs)
       else Inr (stringify demo_downloads)), other_date = (\<lambda>_. None), now_ms = 0\<rparr>"

definition demo_machine :: ansible_machine where
  "demo_machine = machine_reading demo_outputs"

definition demo_ansible_options :: ansible_options where
  "demo_ansible_options = default_ansible_options\<lparr>ssh_private_key := Some (js ''~/key''), runner_public_key := Some (js ''~/key.pub'')\<rparr>"

lemma demo_downloads_ok: "downloads_ok documented_accepts (\<lambda>_. True) demo_downloads"
  by code_simp

lemma demo_expiry: "date_parse (\<lambda>_. None) (text_member demo_downloads (js ''expiresAt'')) = Some 1803859200000"
proof -
  have "regex_test iso_regex (js ''2027-03-01T00:00:00Z'')" by code_simp
  moreover have "iso_fields (js ''2027-03-01T00:00:00Z'') = \<lparr>utc_year = 2027, utc_month_number = 3, utc_day = 1,
      utc_hour = 0, utc_minute = 0, utc_second = 0, utc_millisecond = 0\<rparr>" (is "_ = ?f")
    by (simp add: iso_fields_def field_at_def digits_value_def digit_value_def js_eval)
  moreover have "valid_fields ?f"
    by (simp add: valid_fields_def month_lengths_def)
  moreover have "utc_ms ?f = 1803859200000"
    by (simp add: utc_ms_def days_from_epoch_def days_before_year_def month_lengths_def leap_year_def)
  moreover have "text_member demo_downloads (js ''expiresAt'') = js ''2027-03-01T00:00:00Z''"
    by (simp add: text_member_def demo_downloads_def member_def)
  ultimately show ?thesis by (simp add: date_parse_def)
qed

lemma configured_with:
  assumes "json_ok outputs" "cdk_outputs_ok documented_accepts outputs" "found_stack outputs \<noteq> None"
  shows "\<exists>out. configure documented_accepts (\<lambda>_. True) (machine_reading outputs) demo_ansible_options = Inr out"
proof -
  have "json_ok demo_downloads"
    by (simp add: demo_downloads_def demo_download_def datasetFiles_def)
  note parsed = json_round_trip [OF assms(1)] json_round_trip [OF this]
  have "downloads_ok documented_accepts (\<lambda>_. True) demo_downloads" by (rule demo_downloads_ok)
  moreover have "date_parse (\<lambda>_. None) (text_member demo_downloads (js ''expiresAt'')) = Some 1803859200000" by (rule demo_expiry)
  moreover have "resolvePath (js ''/home/u'') (js ''/repo'') (js ''~/key.pub'') = js ''/home/u/key.pub''"
    "resolvePath (js ''/home/u'') (js ''/repo'') (js ''infra/cdk/cdk-outputs.json'') = js ''/repo/infra/cdk/cdk-outputs.json''"
    "resolvePath (js ''/home/u'') (js ''/repo'') (js ''data/contest/runner-downloads.json'') = js ''/repo/data/contest/runner-downloads.json''"
    "starts_with (trim (js ''ssh-ed25519 AAAA'' @ [10])) (js ''ssh-'')"
    by code_simp+
  ultimately show ?thesis
    using parsed assms(2,3)
    by (auto simp: configure_def machine_reading_def demo_ansible_options_def default_ansible_options_def read_json_def)
qed

lemma demo_configured:
  "\<exists>out. configure documented_accepts (\<lambda>_. True) demo_machine demo_ansible_options = Inr out"
  unfolding demo_machine_def
proof (rule configured_with)
  show "json_ok demo_outputs" by (simp add: demo_outputs_def)
  show "cdk_outputs_ok documented_accepts demo_outputs" by code_simp
  show "found_stack demo_outputs \<noteq> None" by code_simp
qed

theorem ansible_values_intact_witness:
  "\<exists>out key_text. configure documented_accepts (\<lambda>_. True) demo_machine demo_ansible_options = Inr out \<and>
    key_text = js ''ssh-ed25519 AAAA'' @ [10] \<and> starts_with (trim key_text) (js ''ssh-'') \<and> group_vars_mode out = 384"
proof -
  obtain out where run: "configure documented_accepts (\<lambda>_. True) demo_machine demo_ansible_options = Inr out"
    using demo_configured by blast
  have "resolvePath (home_directory demo_machine) (working_directory demo_machine) (js ''~/key.pub'') = js ''/home/u/key.pub''"
    by code_simp
  then have key: "read_file demo_machine (resolvePath (home_directory demo_machine) (working_directory demo_machine) (js ''~/key.pub''))
      = Inr (js ''ssh-ed25519 AAAA'' @ [10])"
    by (simp add: demo_machine_def machine_reading_def)
  have "runner_public_key demo_ansible_options = Some (js ''~/key.pub'')" by (simp add: demo_ansible_options_def)
  with ansible_values_intact [OF run documented.zod_axioms] run key show ?thesis by auto
qed

end
