(* ===== verification/Benchmark_Stack.thy ===== *)
theory Benchmark_Stack
  imports Configure_Ansible Js_Convert
begin

text \<open>
  The stack of the measuring host, \<^verbatim>\<open>infra/cdk/lib/benchmark-stack.ts\<close> with \<^verbatim>\<open>infra/cdk/bin/onebrc.ts\<close>: its
  context values with their defaults and checks, the properties it passes to the constructs of the CDK,
  and its outputs, followed into the files that \<open>configure\<close> writes for Ansible.  The constructs are
  a library; a value known only after the deployment is a \<open>token\<close>, which the deployment resolves.
\<close>

section \<open>Context\<close>

text \<open>A context value is JSON from \<^verbatim>\<open>cdk.json\<close> or a string from the command line; \<open>??\<close> replaces a
  missing or null one.  \<open>Number\<close> of an array or an object is an argument.\<close>

definition context_or :: "(jsstring \<Rightarrow> json option) \<Rightarrow> jsstring \<Rightarrow> json \<Rightarrow> json" where
  "context_or ctx key fallback = (case ctx key of None \<Rightarrow> fallback | Some JNull \<Rightarrow> fallback | Some v \<Rightarrow> v)"

fun number_of_json :: "(json \<Rightarrow> number) \<Rightarrow> json \<Rightarrow> number" where
  "number_of_json other JNull = Fin 0"
| "number_of_json other (JBool b) = Fin (if b then 1 else 0)"
| "number_of_json other (JNum n) = n"
| "number_of_json other (JStr s) = string_to_number s"
| "number_of_json other v = other v"

definition falsy :: "json option \<Rightarrow> bool" where
  "falsy v \<longleftrightarrow> v \<in> {None, Some JNull, Some (JBool False), Some (JStr []), Some (JNum NaN), Some (JNum (Fin 0))}"

definition is_integer :: "number \<Rightarrow> bool" where
  "is_integer n = (case n of Fin r \<Rightarrow> of_int \<lfloor>r\<rfloor> = r | _ \<Rightarrow> False)"

section \<open>The stack\<close>

datatype token = Elastic_ip | Instance_id

datatype output_value = Deployed token | Given json

record benchmark_stack =
  max_azs :: nat
  nat_gateways :: nat
  all_outbound :: bool
  ingress_rules :: "(json \<times> nat) list"
  role_policies :: "jsstring list"
  key_pair :: json
  image_parameter :: jsstring
  instance_type :: json
  imdsv2_required :: bool
  detailed_monitoring :: bool
  root_device :: jsstring
  root_volume_gib :: number
  root_volume_type :: jsstring
  root_encrypted :: bool
  root_deleted :: bool
  user_data :: "jsstring list"
  stack_outputs :: "(jsstring \<times> output_value) list"

datatype stack_error = Key_pair_required | Volume_too_small

definition benchmark_stack :: "(json \<Rightarrow> number) \<Rightarrow> (jsstring \<Rightarrow> json option) \<Rightarrow> stack_error + benchmark_stack" where
  "benchmark_stack other ctx =
     (let instanceType = context_or ctx (js ''instanceType'') (JStr (js ''r7i.2xlarge''));
          allowedSshCidr = context_or ctx (js ''allowedSshCidr'') (JStr (js ''0.0.0.0/0''));
          keyPairName = ctx (js ''keyPairName'');
          volumeSizeGiB = number_of_json other (context_or ctx (js ''volumeSizeGiB'') (JNum (Fin 200)));
          environmentId = context_or ctx (js ''benchmarkEnvironmentId'') (JStr (js ''r7i-2xlarge-ubuntu26-v2''))
      in if falsy keyPairName then Inl Key_pair_required
         else if \<not> is_integer volumeSizeGiB \<or> num_less volumeSizeGiB (Fin 100) then Inl Volume_too_small
         else Inr \<lparr>max_azs = 1, nat_gateways = 0, all_outbound = True, ingress_rules = [(allowedSshCidr, 22)],
                   role_policies = [js ''AmazonSSMManagedInstanceCore''], key_pair = the keyPairName,
                   image_parameter = js ''/aws/service/canonical/ubuntu/server/26.04/stable/current/amd64/hvm/ebs-gp3/ami-id'',
                   instance_type = instanceType, imdsv2_required = True, detailed_monitoring = True,
                   root_device = js ''/dev/sda1'', root_volume_gib = volumeSizeGiB, root_volume_type = js ''gp3'',
                   root_encrypted = True, root_deleted = True,
                   user_data = [js ''set -eu'', js ''install -d -m 0755 /var/lib/1brc/data /var/lib/1brc/jobs'',
                     js ''systemctl mask apt-daily.service apt-daily-upgrade.service || true''],
                   stack_outputs = [(js ''BenchmarkPublicIp'', Deployed Elastic_ip),
                     (js ''BenchmarkInstanceId'', Deployed Instance_id),
                     (js ''BenchmarkEnvironment'', Given environmentId)]\<rparr>)"

text \<open>The application: an account and a region only count together, from the environment or from the context.\<close>

definition stack_target :: "(jsstring \<Rightarrow> jsstring option) \<Rightarrow> (jsstring \<Rightarrow> jsstring option) \<Rightarrow> (jsstring \<times> jsstring) option" where
  "stack_target env ctx =
     (let pick = (\<lambda>variable key. case env variable of Some v \<Rightarrow> Some v | None \<Rightarrow> ctx key) in
      case (pick (js ''CDK_DEFAULT_ACCOUNT'') (js ''account''), pick (js ''CDK_DEFAULT_REGION'') (js ''region'')) of
        (Some account, Some region) \<Rightarrow> if account \<noteq> [] \<and> region \<noteq> [] then Some (account, region) else None
      | _ \<Rightarrow> None)"

definition stackName :: jsstring where
  "stackName = js ''OneBrcBenchmarkStack''"

text \<open>What \<^verbatim>\<open>cdk deploy --outputs-file\<close> documents of the file it writes for this application of
  one stack: an object whose only member is named as the stack and has every output of it, a token resolved
  to the text the deployment gave it.\<close>

fun resolve_output :: "(token \<Rightarrow> jsstring) \<Rightarrow> output_value \<Rightarrow> json" where
  "resolve_output deployed (Deployed t) = JStr (deployed t)"
| "resolve_output deployed (Given v) = v"

definition outputs_written :: "(token \<Rightarrow> jsstring) \<Rightarrow> benchmark_stack \<Rightarrow> json \<Rightarrow> bool" where
  "outputs_written deployed s v \<longleftrightarrow> (\<exists>stack. v = JObj [(stackName, stack)] \<and>
     (\<forall>(k, x) \<in> set (stack_outputs s). member stack k = Some (resolve_output deployed x)))"

section \<open>From the stack to the inventory\<close>

lemma benchmark_stack_Inr:
  assumes "benchmark_stack other ctx = Inr s"
  shows "\<not> falsy (ctx (js ''keyPairName''))" "ctx (js ''keyPairName'') = Some (key_pair s)"
    "is_integer (root_volume_gib s)" "\<not> num_less (root_volume_gib s) (Fin 100)"
    "root_volume_gib s = number_of_json other (context_or ctx (js ''volumeSizeGiB'') (JNum (Fin 200)))"
    "ingress_rules s = [(context_or ctx (js ''allowedSshCidr'') (JStr (js ''0.0.0.0/0'')), 22)]"
    "instance_type s = context_or ctx (js ''instanceType'') (JStr (js ''r7i.2xlarge''))"
    "stack_outputs s = [(js ''BenchmarkPublicIp'', Deployed Elastic_ip), (js ''BenchmarkInstanceId'', Deployed Instance_id),
      (js ''BenchmarkEnvironment'', Given (context_or ctx (js ''benchmarkEnvironmentId'') (JStr (js ''r7i-2xlarge-ubuntu26-v2''))))]"
  using assms by (auto simp: benchmark_stack_def Let_def falsy_def split: if_splits)

text \<open>The lines of the address and of the environment in what \<open>configure\<close> writes.\<close>

lemma configured_lines:
  assumes "configure accepts is_url m opts = Inr out"
    and "read_json (read_file m) (resolvePath (home_directory m) (working_directory m) (cdk_outputs opts)) = Inr outputs"
  shows "\<exists>stack. found_stack outputs = Some stack \<and>
    split_on 10 (inventory_text out) ! 3 = js ''      ansible_host: '' @ yamlString (text_member stack (js ''BenchmarkPublicIp'')) \<and>
    split_on 10 (group_vars_text out) ! 1 = js ''onebrc_environment_id: '' @ yamlString (text_member stack (js ''BenchmarkEnvironment''))"
  using assms(1)
proof (rule configure_Inr)
  fix private_key key_path outputs' stack key_text downloads e
  assume "read_json (read_file m) (resolvePath (home_directory m) (working_directory m) (cdk_outputs opts)) = Inr outputs'"
    and "found_stack outputs' = Some stack"
    and "out = ansible_files_of m opts private_key stack (trim key_text) downloads"
  with assms(2) have "found_stack outputs = Some stack"
    "split_on 10 (inventory_text out) ! 3 = js ''      ansible_host: '' @ yamlString (text_member stack (js ''BenchmarkPublicIp''))"
    "split_on 10 (group_vars_text out) ! 1 = js ''onebrc_environment_id: '' @ yamlString (text_member stack (js ''BenchmarkEnvironment''))"
    by (simp_all add: ansible_files_of_def Let_def file_text_lines) (simp_all add: inventory_lines_def group_vars_lines_def)
  then show ?thesis by blast
qed

lemma whole_at_least: "is_integer n \<Longrightarrow> \<not> num_less n (Fin 100) \<Longrightarrow> \<exists>g \<ge> 100. n = Fin (of_int g)"
proof -
  assume n: "is_integer n" "\<not> num_less n (Fin 100)"
  then obtain r where r: "n = Fin r" "of_int \<lfloor>r\<rfloor> = r" by (auto simp: is_integer_def split: number.splits)
  then have "100 \<le> r" using n(2) by simp
  then have "100 \<le> \<lfloor>r\<rfloor>" by (simp add: le_floor_iff)
  with r show ?thesis by (intro exI [of _ "\<lfloor>r\<rfloor>"] conjI) (simp_all only: r(2))
qed

text \<open>C40: A stack is only built with a key pair and a whole volume size of at least 100 GiB, and it has the
  key pair, the volume size, the instance type and the address range for SSH of the context, or the
  defaults of the last three, with port 22 as the only way in.  When the configuration script then succeeds
  with the outputs file of its deployment, the inventory it writes names the address the deployment gave the
  host, and the variables name the environment of the context, which is a text that is not empty.\<close>

theorem stack_configures_host:
  assumes "benchmark_stack other ctx = Inr s" "configure accepts is_url m opts = Inr out"
    and "read_json (read_file m) (resolvePath (home_directory m) (working_directory m) (cdk_outputs opts)) = Inr outputs"
    and "outputs_written deployed s outputs"
  shows "\<not> falsy (ctx (js ''keyPairName'')) \<and> ctx (js ''keyPairName'') = Some (key_pair s) \<and>
    (\<exists>g \<ge> 100. root_volume_gib s = Fin (of_int g)) \<and>
    root_volume_gib s = number_of_json other (context_or ctx (js ''volumeSizeGiB'') (JNum (Fin 200))) \<and>
    instance_type s = context_or ctx (js ''instanceType'') (JStr (js ''r7i.2xlarge'')) \<and>
    ingress_rules s = [(context_or ctx (js ''allowedSshCidr'') (JStr (js ''0.0.0.0/0'')), 22)] \<and>
    (\<exists>e. context_or ctx (js ''benchmarkEnvironmentId'') (JStr (js ''r7i-2xlarge-ubuntu26-v2'')) = JStr e \<and> e \<noteq> [] \<and>
      deployed Elastic_ip \<noteq> [] \<and>
      split_on 10 (inventory_text out) ! 3 = js ''      ansible_host: '' @ yamlString (deployed Elastic_ip) \<and>
      split_on 10 (group_vars_text out) ! 1 = js ''onebrc_environment_id: '' @ yamlString e)"
proof -
  note s = benchmark_stack_Inr [OF assms(1)]
  obtain stack where stack: "found_stack outputs = Some stack"
      "split_on 10 (inventory_text out) ! 3 = js ''      ansible_host: '' @ yamlString (text_member stack (js ''BenchmarkPublicIp''))"
      "split_on 10 (group_vars_text out) ! 1 = js ''onebrc_environment_id: '' @ yamlString (text_member stack (js ''BenchmarkEnvironment''))"
    using configured_lines [OF assms(2,3)] by blast
  obtain v where v: "outputs = JObj [(stackName, v)]"
      "\<forall>(k, x) \<in> set (stack_outputs s). member v k = Some (resolve_output deployed x)"
    using assms(4) by (auto simp: outputs_written_def)
  have "stack = v" using stack(1) v(1) by (auto simp: found_stack_def split: if_splits)
  then have members: "text_member stack (js ''BenchmarkPublicIp'') = deployed Elastic_ip"
    "member stack (js ''BenchmarkEnvironment'') =
      Some (context_or ctx (js ''benchmarkEnvironmentId'') (JStr (js ''r7i-2xlarge-ubuntu26-v2'')))"
    using v(2) unfolding s(8) by (simp_all add: text_member_def)
  note texts = found_stack_values [OF stack(1)]
  obtain e where e: "context_or ctx (js ''benchmarkEnvironmentId'') (JStr (js ''r7i-2xlarge-ubuntu26-v2'')) = JStr e"
      "text_member stack (js ''BenchmarkEnvironment'') = e" "e \<noteq> []"
    using members(2) texts by (auto simp: text_member_def split: json.splits)
  have "\<exists>e. context_or ctx (js ''benchmarkEnvironmentId'') (JStr (js ''r7i-2xlarge-ubuntu26-v2'')) = JStr e \<and> e \<noteq> [] \<and>
      deployed Elastic_ip \<noteq> [] \<and>
      split_on 10 (inventory_text out) ! 3 = js ''      ansible_host: '' @ yamlString (deployed Elastic_ip) \<and>
      split_on 10 (group_vars_text out) ! 1 = js ''onebrc_environment_id: '' @ yamlString e"
    using e texts stack(2,3) members(1) by (intro exI [of _ e]) simp
  then show ?thesis using s(1,2,5,6,7) whole_at_least [OF s(3,4)] by blast
qed

text \<open>The context of \<^verbatim>\<open>cdk.json\<close> with a key pair from the command line.\<close>

definition demo_context :: "jsstring \<Rightarrow> json option" where
  "demo_context = map_of [(js ''keyPairName'', JStr (js ''admin'')), (js ''volumeSizeGiB'', JNum (Fin 200)),
     (js ''benchmarkEnvironmentId'', JStr (js ''r7i-2xlarge-ubuntu26-v2''))]"

lemma demo_context_values:
  "demo_context (js ''keyPairName'') = Some (JStr (js ''admin''))" "demo_context (js ''volumeSizeGiB'') = Some (JNum (Fin 200))"
  "demo_context (js ''benchmarkEnvironmentId'') = Some (JStr (js ''r7i-2xlarge-ubuntu26-v2''))"
  by (simp_all add: demo_context_def js_eval)

lemma demo_size: "context_or demo_context (js ''volumeSizeGiB'') d = JNum (Fin 200)" "js ''admin'' \<noteq> []"
  by (simp add: context_or_def demo_context_values) (simp add: js_eval)

text \<open>The outputs of a deployment of it.\<close>

definition deployed_outputs :: json where
  "deployed_outputs = JObj [(stackName, JObj [(js ''BenchmarkPublicIp'', JStr (js ''192.0.2.7'')),
     (js ''BenchmarkInstanceId'', JStr (js ''i-0abc'')), (js ''BenchmarkEnvironment'', JStr (js ''r7i-2xlarge-ubuntu26-v2''))])]"

definition demo_deployed :: "token \<Rightarrow> jsstring" where
  "demo_deployed t = (case t of Elastic_ip \<Rightarrow> js ''192.0.2.7'' | Instance_id \<Rightarrow> js ''i-0abc'')"

theorem stack_configures_host_witness:
  "\<exists>s out. benchmark_stack (\<lambda>_. NaN) demo_context = Inr s \<and>
    configure documented_accepts (\<lambda>_. True) (machine_reading deployed_outputs) demo_ansible_options = Inr out \<and>
    split_on 10 (inventory_text out) ! 3 = js ''      ansible_host: '' @ yamlString (js ''192.0.2.7'')"
proof -
  obtain s where s: "benchmark_stack (\<lambda>_. NaN) demo_context = Inr s"
    by (simp add: benchmark_stack_def Let_def demo_context_values falsy_def demo_size is_integer_def)
  have ne: "js ''BenchmarkInstanceId'' \<noteq> js ''BenchmarkPublicIp''" "js ''BenchmarkEnvironment'' \<noteq> js ''BenchmarkPublicIp''"
    "js ''BenchmarkEnvironment'' \<noteq> js ''BenchmarkInstanceId''"
    by (simp_all add: js_eval)
  have "context_or demo_context (js ''benchmarkEnvironmentId'') (JStr (js ''r7i-2xlarge-ubuntu26-v2'')) =
      JStr (js ''r7i-2xlarge-ubuntu26-v2'')"
    by (simp add: context_or_def demo_context_values)
  then have written: "outputs_written demo_deployed s deployed_outputs"
    using ne by (simp add: outputs_written_def benchmark_stack_Inr(8) [OF s] deployed_outputs_def demo_deployed_def member_def)
  have ok: "json_ok deployed_outputs" using ne by (auto simp: deployed_outputs_def)
  have "cdk_outputs_ok documented_accepts deployed_outputs" "found_stack deployed_outputs \<noteq> None" by code_simp+
  with configured_with [OF ok] obtain out where
    out: "configure documented_accepts (\<lambda>_. True) (machine_reading deployed_outputs) demo_ansible_options = Inr out" by blast
  have "resolvePath (js ''/home/u'') (js ''/repo'') (js ''infra/cdk/cdk-outputs.json'') = js ''/repo/infra/cdk/cdk-outputs.json''"
    "js ''/repo/infra/cdk/cdk-outputs.json'' \<noteq> js ''/home/u/key.pub''" by code_simp+
  then have "read_json (read_file (machine_reading deployed_outputs))
      (resolvePath (home_directory (machine_reading deployed_outputs)) (working_directory (machine_reading deployed_outputs))
        (cdk_outputs demo_ansible_options)) = Inr deployed_outputs"
    using json_round_trip [OF ok]
    by (simp add: read_json_def machine_reading_def demo_ansible_options_def default_ansible_options_def)
  from stack_configures_host [OF s out this written] s out show ?thesis by (auto simp: demo_deployed_def)
qed

end
