(* ===== verification/Format_Bytes.thy ===== *)
theory Format_Bytes
  imports Js_Math Js_Convert
begin

text \<open>
  \<open>formatBytes\<close> of \<^verbatim>\<open>utils/format.ts\<close> with \<open>Number.prototype.toFixed\<close>.  \<open>Math.log\<close> is approximated by
  the engine, so it is an argument.  Whatever it answers, the amount shown is right for the unit shown, and
  the theorem says when the unit is the one that fits: exactly when the quotient of the two logarithms is on
  the right side of 1, 2 and 3.  A quotient close to the real one is, except perhaps at a power of 1024.
\<close>

section \<open>Fixed decimals\<close>

text \<open>The nearest multiple of \<open>10\<^sup>-\<^sup>f\<close>, the larger one of two.\<close>

definition fixed_digits :: "nat \<Rightarrow> rat \<Rightarrow> nat" where
  "fixed_digits f r = nat \<lfloor>r * 10 ^ f + 1 / 2\<rfloor>"

definition decimal_places :: "nat \<Rightarrow> nat \<Rightarrow> jsstring" where
  "decimal_places f n =
     (if f = 0 then nat_to_string n
      else let m = pad_start (f + 1) 48 (nat_to_string n)
           in take (length m - f) m @ js ''.'' @ drop (length m - f) m)"

fun to_fixed :: "nat \<Rightarrow> number \<Rightarrow> jsstring" where
  "to_fixed f (Fin r) =
     (if 10 ^ 21 \<le> \<bar>r\<bar> then number_to_string (Fin r)
      else (if r < 0 then js ''-'' else []) @ decimal_places f (fixed_digits f \<bar>r\<bar>))"
| "to_fixed f x = number_to_string x"

lemma to_fixed_small:
  "0 \<le> r \<Longrightarrow> r < 10 ^ 21 \<Longrightarrow> to_fixed f (Fin r) = decimal_places f (fixed_digits f r)"
  by simp

lemma fixed_digits_error:
  assumes "0 \<le> r"
  shows "\<bar>of_nat (fixed_digits f r) / 10 ^ f - r\<bar> \<le> 1 / (2 * 10 ^ f)"
proof -
  let ?x = "r * 10 ^ f + 1 / 2"
  have "0 \<le> ?x" using assms by (intro add_nonneg_nonneg mult_nonneg_nonneg) simp_all
  then have t: "of_nat (fixed_digits f r) = (of_int \<lfloor>?x\<rfloor> :: rat)" by (simp add: fixed_digits_def)
  have "of_int \<lfloor>?x\<rfloor> \<le> ?x" "?x < of_int \<lfloor>?x\<rfloor> + 1" by linarith+
  then have "\<bar>of_nat (fixed_digits f r) - r * 10 ^ f\<bar> \<le> 1 / 2" unfolding t by (intro abs_leI) linarith+
  moreover have "of_nat (fixed_digits f r) / 10 ^ f - r = (of_nat (fixed_digits f r) - r * 10 ^ f) / 10 ^ f"
    by (simp add: diff_divide_distrib)
  ultimately show ?thesis by (simp add: abs_divide divide_right_mono field_simps)
qed

lemma fixed_digits_nat [simp]: "fixed_digits 0 (of_nat n) = n"
proof -
  have "\<lfloor>of_nat n + 1 / 2 :: rat\<rfloor> = int n" by (simp add: floor_eq_iff)
  then show ?thesis by (simp add: fixed_digits_def)
qed

text \<open>The double nearest to a decimal is printed as that decimal.\<close>

lemma to_fixed_decimal:
  assumes "0 < m" "m \<le> 2 ^ 32" "d \<le> 2"
  shows "to_fixed d (f64 (of_nat m / 10 ^ d)) = decimal_places d m"
proof -
  let ?r = "of_nat m / 10 ^ d :: rat"
  have d: "d = 0 \<or> d = 1 \<or> d = 2" using assms(3) by auto
  have "(of_nat m :: rat) \<le> of_nat (2 ^ 32)" using assms(2) by (simp only: of_nat_le_iff)
  then have m: "(1 :: rat) \<le> of_nat m" "(of_nat m :: rat) \<le> 2 ^ 32" using assms(1) by simp_all
  then have r: "0 < ?r" "?r \<le> 2 ^ 53" "2 powi (-7) \<le> ?r" using d by (auto simp: power_int_minus)
  have "(2 :: rat) powi (-1022) \<le> 2 powi (-7)" by (intro power_int_increasing) simp_all
  with r(3) have low: "2 powi (-1022) \<le> ?r" by (rule order_trans [rotated])
  obtain v where v: "f64 ?r = Fin v" "0 \<le> v" using f64_finite [of ?r] r(1,2) by auto
  have err: "\<bar>v - ?r\<bar> \<le> ?r * 2 powi (-53)" using f64_error [OF r(1) v(1) low] .
  have "v * 10 ^ d - of_nat m = (v - ?r) * 10 ^ d" by (simp add: left_diff_distrib)
  then have "\<bar>v * 10 ^ d - of_nat m\<bar> = \<bar>v - ?r\<bar> * 10 ^ d" by (simp only: abs_mult power_abs abs_numeral)
  also have "\<dots> \<le> ?r * 2 powi (-53) * 10 ^ d" using err by (intro mult_right_mono) simp_all
  also have "\<dots> = of_nat m * 2 powi (-53)" by simp
  also have "\<dots> < 1 / 2" using m(2) by (simp add: power_int_minus)
  finally have "\<lfloor>v * 10 ^ d + 1 / 2\<rfloor> = int m" unfolding floor_eq_iff abs_less_iff by simp
  then have "fixed_digits d v = m" by (simp add: fixed_digits_def)
  moreover have "v < 10 ^ 21"
  proof -
    have "?r * 2 powi (-53) \<le> ?r" using r(1) by (simp add: power_int_minus)
    then have "v \<le> ?r + ?r" using err by linarith
    also have "\<dots> \<le> 2 ^ 53 + 2 ^ 53" using r(2) by linarith
    also have "\<dots> < 10 ^ 21" by simp
    finally show ?thesis .
  qed
  ultimately show ?thesis using v by (simp only: to_fixed_small)
qed

section \<open>The unit and the text\<close>

definition byte_units :: "jsstring list" where
  "byte_units = [js ''B'', js ''KiB'', js ''MiB'', js ''GiB'']"

definition byte_index :: "(number \<Rightarrow> number) \<Rightarrow> number \<Rightarrow> number" where
  "byte_index math_log bytes =
     (if bytes = Fin 0 then Fin 0
      else num_min (num_floor (num_div (math_log bytes) (math_log (Fin 1024)))) (Fin (of_nat (length byte_units - 1))))"

text \<open>\<open>1024 ** index\<close> for a whole index, and the element at an index, \<open>undefined\<close> outside.\<close>

fun power_1024 :: "number \<Rightarrow> number" where
  "power_1024 (Fin k) = f64 (1024 powi \<lfloor>k\<rfloor>)"
| "power_1024 NegInf = Fin 0"
| "power_1024 x = x"

fun unit_at :: "number \<Rightarrow> jsstring" where
  "unit_at (Fin k) = (if 0 \<le> k \<and> k < of_nat (length byte_units) then byte_units ! nat \<lfloor>k\<rfloor> else js ''undefined'')"
| "unit_at _ = js ''undefined''"

text \<open>The value is a text or a number.\<close>

definition formatBytes :: "(number \<Rightarrow> number) \<Rightarrow> jsstring + number \<Rightarrow> jsstring" where
  "formatBytes math_log value =
     (let bytes = (case value of Inl s \<Rightarrow> string_to_number s | Inr n \<Rightarrow> n);
          index = byte_index math_log bytes
      in to_fixed (if index = Fin 0 then 0 else 1) (num_div bytes (power_1024 index)) @ js '' '' @ unit_at index)"

section \<open>The unit fits the number\<close>

definition log_error :: real where
  "log_error = 1 / 2 ^ 35"

definition close_log :: "(number \<Rightarrow> number) \<Rightarrow> nat \<Rightarrow> bool" where
  "close_log math_log n \<longleftrightarrow> (\<exists>q. num_div (math_log (Fin (of_nat n))) (math_log (Fin 1024)) = Fin q \<and>
     \<bar>of_rat q - log 1024 (of_nat n)\<bar> < log_error)"

lemma log_error_less: "log_error < 1 / 10"
  by (simp add: log_error_def)

lemma ln_1024: "0 < ln (1024 :: real)" "ln (1024 :: real) \<le> 10"
proof -
  have "(1024 :: real) = 2 ^ 10" by simp
  then have "ln (1024 :: real) = 10 * ln 2" by (simp only: ln_realpow)
  moreover have "ln (2 :: real) \<le> 1" using ln_le_minus_one [of 2] by simp
  ultimately show "ln (1024 :: real) \<le> 10" by simp
qed simp

text \<open>The logarithms of a power and of the next whole number differ by more than the error.\<close>

lemma log_gap:
  assumes "k \<le> 3" "1 \<le> k"
  shows "log 1024 (1024 ^ k + 1) \<ge> of_nat k + log_error"
    "log 1024 (1024 ^ k - 1) \<le> of_nat k - log_error"
proof -
  let ?N = "1024 ^ k :: real" let ?x = "1 / ?N"
  have k: "k \<in> {1, 2, 3}" using assms by auto
  then have x: "0 < ?x" "?x \<le> 1 / 1024" "20 * log_error \<le> ?x" by (auto simp: log_error_def)
  have N: "log 1024 ?N = of_nat k" "0 < ?N" by (simp_all add: log_nat_power)
  have tenth: "(10 * log_error) / 10 = log_error" "0 \<le> 10 * log_error" by (simp_all add: log_error_def)
  have "10 * log_error \<le> ?x - ?x\<^sup>2" using k by (auto simp: power2_eq_square log_error_def)
  also have "\<dots> \<le> ln (1 + ?x)" using x by (intro ln_one_plus_pos_lower_bound) simp_all
  finally have up: "10 * log_error \<le> ln (1 + ?x)" .
  have "(10 * log_error) / ln 1024 \<ge> (10 * log_error) / 10" using ln_1024 tenth(2) by (intro divide_left_mono) simp_all
  moreover have "ln (1 + ?x) / ln 1024 \<ge> (10 * log_error) / ln 1024"
    using up ln_1024 by (intro divide_right_mono) simp_all
  moreover have "log 1024 (1 + ?x) = ln (1 + ?x) / ln 1024" by (simp only: log_def)
  ultimately have "log 1024 (1 + ?x) \<ge> log_error" using tenth by linarith
  moreover have "?N + 1 = ?N * (1 + ?x)" using N by (simp add: distrib_left)
  then have "log 1024 (?N + 1) = of_nat k + log 1024 (1 + ?x)"
    using x N by (simp only: log_mult_pos [of ?N "1 + ?x"])
  ultimately show "log 1024 (?N + 1) \<ge> of_nat k + log_error" by simp
  have "ln (1 - ?x) \<le> - ?x" using x by (intro ln_one_minus_pos_upper_bound) simp_all
  then have "ln (1 - ?x) \<le> - (10 * log_error)" using x tenth(2) by linarith
  then have "ln (1 - ?x) / ln 1024 \<le> - (10 * log_error) / ln 1024" using ln_1024 by (intro divide_right_mono) simp_all
  moreover have "- (10 * log_error) / ln 1024 \<le> - (10 * log_error) / 10"
    using ln_1024 tenth(2) by (intro divide_left_mono_neg) simp_all
  moreover have "log 1024 (1 - ?x) = ln (1 - ?x) / ln 1024" by (simp only: log_def)
  ultimately have "log 1024 (1 - ?x) \<le> - (log_error)" using tenth by linarith
  moreover have "?N - 1 = ?N * (1 - ?x)" using N by (simp add: right_diff_distrib)
  then have "log 1024 (?N - 1) = of_nat k + log 1024 (1 - ?x)"
    using x N by (simp only: log_mult_pos [of ?N "1 - ?x"])
  ultimately show "log 1024 (?N - 1) \<le> of_nat k - log_error" by simp
qed

lemma close_log_power:
  assumes "\<bar>q - log 1024 (of_nat n)\<bar> < log_error" "0 < n" "1 \<le> k" "k \<le> 3" "n \<noteq> 1024 ^ k"
  shows "of_nat k \<le> q \<longleftrightarrow> 1024 ^ k \<le> n"
proof (cases "1024 ^ k \<le> n")
  case True
  then have "1024 ^ k + 1 \<le> n" using assms(5) by simp
  then have "(of_nat (1024 ^ k + 1) :: real) \<le> of_nat n" by (simp only: of_nat_le_iff)
  then have "(1024 ^ k + 1 :: real) \<le> of_nat n" by simp
  then have "log 1024 (1024 ^ k + 1) \<le> log 1024 (of_nat n)" by (intro log_mono) (simp_all add: add_pos_pos)
  with log_gap(1) [OF assms(4,3)] assms(1) True show ?thesis by linarith
next
  case False
  then have "n + 1 \<le> 1024 ^ k" by simp
  then have "(of_nat (n + 1) :: real) \<le> of_nat (1024 ^ k)" by (simp only: of_nat_le_iff)
  then have "(of_nat n + 1 :: real) \<le> 1024 ^ k" by simp
  then have "log 1024 (of_nat n) \<le> log 1024 (1024 ^ k - 1)" using assms(2) by (intro log_mono) simp_all
  with log_gap(2) [OF assms(4,3)] assms(1) False show ?thesis by linarith
qed

definition unit_index :: "nat \<Rightarrow> nat" where
  "unit_index n = (if n < 1024 then 0 else if n < 1024 ^ 2 then 1 else if n < 1024 ^ 3 then 2 else 3)"

lemma unit_index_le: "j \<in> {1, 2, 3} \<Longrightarrow> j \<le> unit_index n \<longleftrightarrow> 1024 ^ j \<le> n"
  by (auto simp: unit_index_def)

text \<open>The unit the code chooses for a quotient of logarithms.\<close>

definition chosen_unit :: "rat \<Rightarrow> nat" where
  "chosen_unit q = min (nat \<lfloor>q\<rfloor>) 3"

lemma chosen_unit_le:
  assumes "0 \<le> q" "j \<in> {1, 2, 3}"
  shows "j \<le> chosen_unit q \<longleftrightarrow> of_nat j \<le> q"
proof -
  have "j \<le> nat \<lfloor>q\<rfloor> \<longleftrightarrow> of_int (int j) \<le> q" using assms by (simp add: le_nat_iff le_floor_iff)
  moreover have "j \<le> 3" using assms(2) by auto
  ultimately show ?thesis by (simp add: chosen_unit_def)
qed

lemma same_unit:
  assumes "0 \<le> q"
  shows "chosen_unit q = unit_index n \<longleftrightarrow> (\<forall>j \<in> {1, 2, 3}. of_nat j \<le> q \<longleftrightarrow> 1024 ^ j \<le> n)"
proof -
  have "chosen_unit q \<le> 3" "unit_index n \<le> 3" by (simp_all add: chosen_unit_def unit_index_def)
  then have "chosen_unit q = unit_index n \<longleftrightarrow> (\<forall>j \<in> {1, 2, 3}. j \<le> chosen_unit q \<longleftrightarrow> j \<le> unit_index n)"
    by (auto; linarith)
  then show ?thesis using chosen_unit_le [OF assms] unit_index_le by auto
qed

lemma byte_index_nat:
  assumes "num_div (math_log (Fin (of_nat n))) (math_log (Fin 1024)) = Fin q" "0 \<le> q" "0 < n"
  shows "byte_index math_log (Fin (of_nat n)) = Fin (of_nat (chosen_unit q))"
proof -
  have "(0 :: rat) \<le> of_int \<lfloor>q\<rfloor>" using assms(2) by simp
  then have "num_min (Fin (of_int \<lfloor>q\<rfloor>)) (Fin 3) = Fin (of_nat (chosen_unit q))"
    using assms(2) by (auto simp: chosen_unit_def min_def nat_le_iff le_nat_iff)
  then show ?thesis using assms(1,3) by (simp add: byte_index_def byte_units_def)
qed

text \<open>With a quotient close to the real one the unit is right, or at a power of 1024 perhaps the one before.\<close>

lemma close_unit:
  assumes "\<bar>of_rat q - log 1024 (of_nat n)\<bar> < log_error" "0 \<le> q" "0 < n"
  shows "n \<notin> {1024, 1024 ^ 2, 1024 ^ 3} \<Longrightarrow> chosen_unit q = unit_index n"
    "chosen_unit q = unit_index n \<or> Suc (chosen_unit q) = unit_index n \<and> n = 1024 ^ unit_index n"
proof -
  have side: "of_nat j \<le> q \<longleftrightarrow> 1024 ^ j \<le> n" if "j \<in> {1, 2, 3}" "n \<noteq> 1024 ^ j" for j
  proof -
    have "of_nat j \<le> (of_rat q :: real) \<longleftrightarrow> 1024 ^ j \<le> n"
      using that assms(3) by (intro close_log_power [OF assms(1)]) auto
    moreover have "of_nat j \<le> (of_rat q :: real) \<longleftrightarrow> of_nat j \<le> q"
      by (metis of_rat_less_eq of_rat_of_nat_eq)
    ultimately show ?thesis by simp
  qed
  show same: "n \<notin> {1024, 1024 ^ 2, 1024 ^ 3} \<Longrightarrow> chosen_unit q = unit_index n"
    unfolding same_unit [OF assms(2)]
  proof
    fix j :: nat
    assume "n \<notin> {1024, 1024 ^ 2, 1024 ^ 3}" "j \<in> {1, 2, 3}"
    then have "n \<noteq> 1024 ^ j" by fastforce
    with side \<open>j \<in> {1, 2, 3}\<close> show "of_nat j \<le> q \<longleftrightarrow> 1024 ^ j \<le> n" by blast
  qed
  show "chosen_unit q = unit_index n \<or> Suc (chosen_unit q) = unit_index n \<and> n = 1024 ^ unit_index n"
  proof (cases "n \<in> {1024, 1024 ^ 2, 1024 ^ 3}")
    case True
    then have power: "n = 1024 ^ unit_index n" "unit_index n \<in> {1, 2, 3}" by (auto simp: unit_index_def)
    have le: "j \<le> chosen_unit q \<longleftrightarrow> j \<le> unit_index n" if "j \<in> {1, 2, 3}" "j \<noteq> unit_index n" for j
    proof -
      have "n \<noteq> 1024 ^ j"
      proof
        assume "n = 1024 ^ j"
        then have "(1024 :: nat) ^ j = 1024 ^ unit_index n" using power(1) by simp
        then show False using that(2) by (simp add: power_inject_exp)
      qed
      then show ?thesis using side [OF that(1)] chosen_unit_le [OF assms(2) that(1)] unit_index_le [OF that(1)] by simp
    qed
    have "chosen_unit q \<le> 3" by (simp add: chosen_unit_def)
    then have "chosen_unit q = unit_index n \<or> Suc (chosen_unit q) = unit_index n"
      using power(2) le [of 1] le [of 2] le [of 3] by auto
    then show ?thesis using power(1) by blast
  next
    case False
    then show ?thesis using same by blast
  qed
qed

lemma scaled_exact:
  assumes "n < 2 ^ 53" "k \<le> 3"
  shows "num_div (Fin (of_nat n)) (power_1024 (Fin (of_nat k))) = Fin (of_nat n / 1024 ^ k)"
proof -
  have "(1024 :: rat) ^ k = (2 ^ 10) ^ k" by simp
  also have "\<dots> = 2 ^ (10 * k)" by (simp only: power_mult)
  finally have p: "(1024 :: rat) ^ k = 2 powi (10 * int k)" using power_int_of_nat [of "2 :: rat" "10 * k"] by simp
  have "(1024 :: rat) ^ k = of_int (1024 ^ k)" by simp
  moreover have "\<bar>1024 ^ k :: int\<bar> \<le> 1024 ^ 3" using power_increasing [OF assms(2), of "1024 :: int"] by simp
  then have "f64 (of_int (1024 ^ k)) = Fin (of_int (1024 ^ k))" by (intro f64_int) simp
  ultimately have power: "power_1024 (Fin (of_nat k)) = Fin (1024 ^ k)" by (simp add: power_int_of_nat)
  have "f64 (of_nat n / 1024 ^ k) = Fin (of_nat n / 1024 ^ k)"
  proof (cases "n = 0")
    case False
    have "(of_nat n :: rat) < of_nat (2 ^ 53)" using assms(1) by (simp only: of_nat_less_iff)
    then have n: "(of_nat n :: rat) < 2 powi 53" by simp
    have e: "2 powi (- (10 * int k) + 53) = 2 powi 53 / (1024 ^ k :: rat)" "of_nat n / 1024 ^ k / 2 powi - (10 * int k) = (of_nat n :: rat)"
      unfolding p by (simp_all add: power_int_add power_int_minus power_int_diff field_simps)
    have "(of_nat n :: rat) / 1024 ^ k \<le> of_nat n" by (simp add: divide_le_eq self_le_power mult_le_cancel_left1)
    also have "\<dots> < overflow_bound" using n by (simp add: overflow_bound_def)
    finally have "of_nat n / 1024 ^ k < overflow_bound" .
    moreover have "(of_nat n :: rat) / 1024 ^ k < 2 powi (- (10 * int k) + 53)" unfolding e using n by (intro divide_strict_right_mono) simp_all
    ultimately have "representable (of_nat n / 1024 ^ k)"
      using assms(2) False by (intro representable_scaled [of _ "- (10 * int k)"]) (simp_all only: e, simp_all)
    then show ?thesis by (rule f64_representable)
  qed (simp add: f64_def)
  then show ?thesis unfolding power by simp
qed

text \<open>C38: Whatever the engine's logarithm answers, a positive number of bytes is shown as the exact quotient
  by the unit shown, rounded to the nearest tenth (single bytes without decimals), and a text with the same
  number is shown the same way.  The unit is the largest of the four that is at most the number exactly
  when the computed quotient of logarithms is on the same side of 1, 2 and 3 as the number is of the
  powers of 1024.  A quotient within \<open>2\<^sup>-\<^sup>3\<^sup>5\<close> of the real one always is, unless the number is
  one of these powers, like the limits of 1 MiB the pages show: then the unit may be the one before.\<close>

theorem bytes_in_fitting_unit:
  assumes "num_div (math_log (Fin (of_nat n))) (math_log (Fin 1024)) = Fin q" "0 \<le> q" "0 < n" "n < 2 ^ 53"
  shows "\<exists>k t. k \<le> 3 \<and> formatBytes math_log (Inr (Fin (of_nat n))) =
      decimal_places (if k = 0 then 0 else 1) t @ js '' '' @ byte_units ! k \<and>
    formatBytes math_log (Inl (nat_to_string n)) = formatBytes math_log (Inr (Fin (of_nat n))) \<and>
    (if k = 0 then t = n else \<bar>of_nat t / 10 - of_nat n / 1024 ^ k\<bar> \<le> (1 / 20 :: rat)) \<and>
    (1024 ^ k \<le> n \<and> (k < 3 \<longrightarrow> n < 1024 ^ Suc k) \<longleftrightarrow>
       (\<forall>j \<in> {1, 2, 3}. of_nat j \<le> q \<longleftrightarrow> 1024 ^ j \<le> n)) \<and>
    (\<bar>of_rat q - log 1024 (of_nat n)\<bar> < (1 / 2 ^ 35 :: real) \<longrightarrow>
       k = unit_index n \<or> Suc k = unit_index n \<and> n = 1024 ^ unit_index n)"
proof -
  let ?k = "chosen_unit q" let ?r = "of_nat n / 1024 ^ ?k :: rat" and ?f = "if ?k = 0 then 0 else 1 :: nat"
  have k: "?k \<le> 3" by (simp add: chosen_unit_def)
  have "(of_nat n :: rat) / 1024 ^ ?k \<le> of_nat n" by (simp add: divide_le_eq mult_le_cancel_left1)
  also have "\<dots> \<le> of_nat (2 ^ 53)" using assms(4) by (simp only: of_nat_le_iff)
  also have "\<dots> < 10 ^ 21" by simp
  finally have "?r < 10 ^ 21" .
  moreover have "0 \<le> ?r" by simp
  ultimately have "to_fixed ?f (Fin ?r) = decimal_places ?f (fixed_digits ?f ?r)" by (rule to_fixed_small [rotated])
  moreover have "unit_at (Fin (of_nat ?k)) = byte_units ! ?k" using k by (simp add: byte_units_def)
  ultimately have shown: "formatBytes math_log (Inr (Fin (of_nat n))) =
      decimal_places ?f (fixed_digits ?f ?r) @ js '' '' @ byte_units ! ?k"
    using byte_index_nat [OF assms(1-3)] scaled_exact [OF assms(4) k] by (simp add: formatBytes_def Let_def)
  have same: "formatBytes math_log (Inl (nat_to_string n)) = formatBytes math_log (Inr (Fin (of_nat n)))"
    using assms(4) by (simp add: formatBytes_def string_to_number_nat)
  have "\<bar>of_nat (fixed_digits 1 ?r) / 10 - ?r\<bar> \<le> 1 / 20" using fixed_digits_error [of ?r 1] by simp
  then have amount: "if ?k = 0 then fixed_digits ?f ?r = n else \<bar>of_nat (fixed_digits ?f ?r) / 10 - ?r\<bar> \<le> 1 / 20" by simp
  have "(1024 ^ ?k \<le> n \<and> (?k < 3 \<longrightarrow> n < 1024 ^ Suc ?k)) \<longleftrightarrow> ?k = unit_index n"
  proof -
    consider "?k = 0" | "?k = 1" | "?k = 2" | "?k = 3" using k by linarith
    then show ?thesis by cases (use assms(3) in \<open>auto simp: unit_index_def\<close>)
  qed
  with same_unit [OF assms(2)] have fits: "(1024 ^ ?k \<le> n \<and> (?k < 3 \<longrightarrow> n < 1024 ^ Suc ?k)) \<longleftrightarrow>
      (\<forall>j \<in> {1, 2, 3}. of_nat j \<le> q \<longleftrightarrow> 1024 ^ j \<le> n)" by simp
  have "\<bar>of_rat q - log 1024 (of_nat n)\<bar> < (1 / 2 ^ 35 :: real) \<longrightarrow>
      ?k = unit_index n \<or> Suc ?k = unit_index n \<and> n = 1024 ^ unit_index n"
    using close_unit(2) [OF _ assms(2,3)] unfolding log_error_def by blast
  then show ?thesis
    using k shown same amount fits by (intro exI [of _ ?k] exI [of _ "fixed_digits ?f ?r"] conjI) simp_all
qed

text \<open>The limit of a source file, with a logarithm to the base 2, and with one that is a little too small.\<close>

definition demo_log :: "number \<Rightarrow> number" where
  "demo_log x = (if x = Fin 1048576 then Fin 20 else if x = Fin 1024 then Fin 10 else Fin 0)"

definition low_log :: "number \<Rightarrow> number" where
  "low_log x = (if x = Fin 1048576 then Fin 15 else if x = Fin 1024 then Fin 10 else Fin 0)"

lemma f64_halves: "f64 2 = Fin 2" "f64 (3 / 2) = Fin (3 / 2)"
proof -
  show "f64 2 = Fin 2" using f64_int [of 2] by simp
  show "f64 (3 / 2) = Fin (3 / 2)"
    by (intro f64_representable representable_scaled [of _ "-1"]) (simp_all add: overflow_bound_def power_int_minus)
qed

lemma power_before_the_limit: "formatBytes low_log (Inr (Fin 1048576)) = js ''1024.0 KiB''"
proof -
  have "\<lfloor>3 / 2 :: rat\<rfloor> = 1" by (simp add: floor_eq_iff)
  moreover have "f64 1024 = Fin 1024" using f64_int [of 1024] by simp
  moreover have "\<lfloor>20481 / 2 :: rat\<rfloor> = 10240" by (simp add: floor_eq_iff)
  then have "fixed_digits 1 1024 = 10240" by (simp add: fixed_digits_def)
  ultimately show ?thesis
    by (simp add: formatBytes_def byte_index_def low_log_def f64_halves byte_units_def decimal_places_def pad_start_def Let_def js_eval digit_unit_def)
qed

theorem bytes_in_fitting_unit_witness: "formatBytes demo_log (Inr (Fin 1048576)) = js ''1.0 MiB''"
proof -
  have "num_div (demo_log (Fin (of_nat 1048576))) (demo_log (Fin 1024)) = Fin 2" by (simp add: demo_log_def f64_halves)
  from bytes_in_fitting_unit [OF this] obtain k t where k: "k \<le> 3"
      "formatBytes demo_log (Inr (Fin (of_nat 1048576))) = decimal_places (if k = 0 then 0 else 1) t @ js '' '' @ byte_units ! k"
      "if k = 0 then t = 1048576 else \<bar>of_nat t / 10 - of_nat 1048576 / 1024 ^ k\<bar> \<le> (1 / 20 :: rat)"
      "1024 ^ k \<le> (1048576 :: nat) \<and> (k < 3 \<longrightarrow> (1048576 :: nat) < 1024 ^ Suc k) \<longleftrightarrow>
        (\<forall>j \<in> {1, 2, 3}. of_nat j \<le> (2 :: rat) \<longleftrightarrow> 1024 ^ j \<le> (1048576 :: nat))" by auto
  then have "k = 2"
    by (cases "k = 0"; cases "k = 1"; cases "k = 2"; cases "k = 3") auto
  moreover from this have "\<bar>of_nat t / 10 - 1\<bar> \<le> (1 / 20 :: rat)" using k(3) by simp
  then have "(of_nat t :: rat) < 11" "(9 :: rat) < of_nat t" by (simp_all only: abs_le_iff) linarith+
  then have "(of_nat t :: rat) < of_nat 11" "(of_nat 9 :: rat) < of_nat t" by simp_all
  then have "t < 11" "9 < t" by (simp_all only: of_nat_less_iff)
  then have "t = 10" by linarith
  ultimately show ?thesis using k(2) by (simp add: decimal_places_def pad_start_def Let_def byte_units_def js_eval digit_unit_def)
qed

end
