(* ===== verification/Contest_Document.thy ===== *)
theory Contest_Document
  imports Judge_Baseline Format_Bytes Domain
begin

text \<open>
  The contest page \<^verbatim>\<open>pages/contest-page.tsx\<close> and the rules it shows,
  \<^verbatim>\<open>components/contest/contest-document.tsx\<close>: when the rules are visible, the public datasets, the
  table of the measuring environment, and the documented example, which is run through the model of
  the reference program and through the judge.
\<close>

section \<open>The page\<close>

text \<open>A query has data, an error, both (a failed refresh) or neither.\<close>

record 'd query =
  query_data :: "'d option"
  query_error :: "jsstring option"

datatype 'd contest_body = Contest_document 'd | Contest_locked date_input | Contest_alert jsstring | Contest_loading

definition contest_started ::
    "(jsstring \<Rightarrow> int option) \<Rightarrow> 'a contest_schedule_scheme query \<Rightarrow> int option \<Rightarrow> bool" where
  "contest_started other contest now =
     (case query_data contest of None \<Rightarrow> False | Some c \<Rightarrow> hasContestStarted other c now)"

definition submit_action ::
    "(jsstring \<Rightarrow> int option) \<Rightarrow> 'a contest_schedule_scheme query \<Rightarrow> int option \<Rightarrow> jsstring option" where
  "submit_action other contest now =
     (case query_data contest of
        None \<Rightarrow> None
      | Some c \<Rightarrow> if isSubmissionOpen other c now then Some (js ''/submit'') else None)"

definition datasets_enabled ::
    "(jsstring \<Rightarrow> int option) \<Rightarrow> 'a contest_schedule_scheme query \<Rightarrow> int option \<Rightarrow> bool" where
  "datasets_enabled = contest_started"

definition contest_body ::
    "(jsstring \<Rightarrow> int option) \<Rightarrow> 'a contest_schedule_scheme query \<Rightarrow> int option \<Rightarrow>
     'a contest_schedule_scheme contest_body" where
  "contest_body other contest now =
     (case query_data contest of
        Some c \<Rightarrow> if contest_started other contest now then Contest_document c else Contest_locked (startAt c)
      | None \<Rightarrow> (case query_error contest of Some e \<Rightarrow> Contest_alert e | None \<Rightarrow> Contest_loading))"

text \<open>The rules, the datasets and the link to the form appear at the same moment, the start; an error
  hides nothing that is already loaded.\<close>

theorem rules_open_at_start:
  "(case contest_body other contest now of Contest_document _ \<Rightarrow> True | _ \<Rightarrow> False) = datasets_enabled other contest now \<and>
   (submit_action other contest now \<noteq> None) = datasets_enabled other contest now \<and>
   contest_body other (contest\<lparr>query_error := e\<rparr>) now =
     (if query_data contest = None then (case e of Some m \<Rightarrow> Contest_alert m | None \<Rightarrow> Contest_loading) else contest_body other contest now)"
  by (simp add: contest_body_def datasets_enabled_def contest_started_def submit_action_def isSubmissionOpen_def split: option.splits)

section \<open>The datasets\<close>

record public_dataset =
  dataset_id :: jsstring
  downloadUrl :: jsstring
  dataset_label :: jsstring
  dataset_rows :: jsstring
  compressedBytes :: jsstring

record dataset_link =
  link_key :: jsstring
  link_href :: jsstring
  link_label :: jsstring
  link_detail :: jsstring

datatype datasets_view = Datasets_failed | Datasets_empty | Dataset_links "dataset_link list"

text \<open>\<open>toLocaleString\<close> and \<open>Math.log\<close> are arguments.  Between the number of rows, marked by the word for
  rows, and the size stands a middle dot.\<close>

definition dataset_link_of :: "(number \<Rightarrow> jsstring) \<Rightarrow> (number \<Rightarrow> number) \<Rightarrow> public_dataset \<Rightarrow> dataset_link" where
  "dataset_link_of locale_number math_log d =
     \<lparr>link_key = dataset_id d, link_href = downloadUrl d, link_label = dataset_label d,
      link_detail = locale_number (string_to_number (dataset_rows d)) @ js '' '' @ [0x884C] @ js '' '' @ [0xB7] @ js '' '' @
        formatBytes math_log (Inl (compressedBytes d))\<rparr>"

definition datasets_view ::
    "(number \<Rightarrow> jsstring) \<Rightarrow> (number \<Rightarrow> number) \<Rightarrow> bool \<Rightarrow> public_dataset list option \<Rightarrow> datasets_view" where
  "datasets_view locale_number math_log datasetsError datasets =
     (if datasetsError then Datasets_failed
      else if datasets = Some [] then Datasets_empty
      else Dataset_links (case datasets of None \<Rightarrow> [] | Some ds \<Rightarrow> map (dataset_link_of locale_number math_log) ds))"

section \<open>The environment\<close>

record environment =
  instanceType :: jsstring
  cpu :: jsstring
  memory :: jsstring
  os :: jsstring
  kernel :: jsstring
  docker :: jsstring
  node_version :: jsstring
  bun_version :: jsstring
  ruby_version :: jsstring
  sharedLibraries :: "jsstring list"
  policy :: benchmark_policy

text \<open>Memory, kernel, upper limit and time limit, and the unit of the time limit: seconds per run.\<close>

definition environment_rows :: "environment \<Rightarrow> (jsstring \<times> jsstring) list" where
  "environment_rows e =
     [(js ''CPU'', cpu e), ([0x30E1, 0x30E2, 0x30EA], memory e), (js ''OS'', os e),
      ([0x30AB, 0x30FC, 0x30CD, 0x30EB], kernel e), (js ''Docker'', docker e),
      (js ''PID'' @ [0x4E0A, 0x9650], nat_to_string (pidLimit (policy e))), (js ''Node.js'', node_version e),
      (js ''Bun'', bun_version e), (js ''Ruby'', ruby_version e),
      ([0x5236, 0x9650, 0x6642, 0x9593], nat_to_string (timeoutSeconds (policy e)) @ [0x79D2] @ js '' / '' @ [0x56DE])]"

definition library_text :: "environment \<Rightarrow> jsstring" where
  "library_text e = join_with (js '', '') (sharedLibraries e)"

definition output_limits :: "(number \<Rightarrow> number) \<Rightarrow> environment \<Rightarrow> jsstring \<times> jsstring" where
  "output_limits math_log e =
     (formatBytes math_log (Inr (Fin (of_nat (stdioLimitBytes (policy e))))),
      formatBytes math_log (Inr (Fin (of_nat (outputLimitBytes (policy e))))))"

definition file_limits :: "(number \<Rightarrow> number) \<Rightarrow> jsstring \<times> jsstring" where
  "file_limits math_log =
     (formatBytes math_log (Inr (Fin (of_nat (sourceLimitBytes submissionPolicy)))),
      formatBytes math_log (Inr (Fin (of_nat (binaryLimitBytes submissionPolicy)))))"

lemma environment_rows_distinct: "distinct (map fst (environment_rows e))"
  by (simp add: environment_rows_def js_eval)

section \<open>The documented example\<close>

definition inputExample :: jsstring where
  "inputExample = join_with [10]
     [js ''unix_timestamp,channel_path,message_length,stamp_count'',
      js ''1798761600,team/dev/api,120,3'',
      js ''1798761660,team/dev/api,80,1'',
      js ''1801440000,team/dev/api,200,0'',
      js ''1798761720,team/web,50,2'',
      js ''1798761780,team/web,70,4'']"

definition outputExample :: jsstring where
  "outputExample = join_with [10]
     [js ''team/dev/api,2027-01=80/100.00/120/2/4'',
      js ''team/dev/api,2027-02=200/200.00/200/1/0'',
      js ''team/web,2027-01=50/60.00/70/2/6'']"

definition example_rows :: "row list" where
  "example_rows =
     [\<lparr>row_time = 1798761600, row_channel = js ''team/dev/api'', row_length = 120, row_stamps = 3\<rparr>,
      \<lparr>row_time = 1798761660, row_channel = js ''team/dev/api'', row_length = 80, row_stamps = 1\<rparr>,
      \<lparr>row_time = 1801440000, row_channel = js ''team/dev/api'', row_length = 200, row_stamps = 0\<rparr>,
      \<lparr>row_time = 1798761720, row_channel = js ''team/web'', row_length = 50, row_stamps = 2\<rparr>,
      \<lparr>row_time = 1798761780, row_channel = js ''team/web'', row_length = 70, row_stamps = 4\<rparr>]"

lemma example_rows_valid: "\<forall>r \<in> set example_rows. valid_row r \<and> 61 \<notin> set (row_channel r)" "safe_rows example_rows"
  by (simp_all add: example_rows_def valid_row_def js_eval no_line_end_def safe_rows_def)

lemma example_csv: "csv_text example_rows = inputExample @ [10]"
  by (simp add: csv_text_def example_rows_def row_line_def header_line_def inputExample_def js_eval unlines_def digit_unit_def)

definition example_keys :: "jsstring list" where
  "example_keys = [js ''team/dev/api,2027-01'', js ''team/dev/api,2027-02'', js ''team/web,2027-01'']"

lemma example_row_keys:
  "map row_key example_rows = [example_keys ! 0, example_keys ! 0, example_keys ! 1, example_keys ! 2, example_keys ! 2]"
proof -
  have "utc_month 1798761600 = 0" "utc_month 1798761660 = 0" "utc_month 1798761720 = 0" "utc_month 1798761780 = 0"
    "utc_month 1801440000 = 1"
    by (rule utc_month_eq; simp add: monthStartUnix_def)+
  then show ?thesis
    by (simp add: example_rows_def example_keys_def row_key_def js_eval pad_start_def digit_unit_def)
qed

lemma example_keys_sorted: "sorted_list_of_set (row_key ` set example_rows) = example_keys"
proof -
  have "row_key ` set example_rows = set (map row_key example_rows)" by simp
  also have "\<dots> = set example_keys" unfolding example_row_keys by (simp add: example_keys_def)
  finally have "row_key ` set example_rows = set example_keys" .
  moreover have "sorted example_keys" "distinct example_keys" by (simp_all add: example_keys_def js_eval)
  ultimately show ?thesis by (simp add: sorted_list_of_set.idem_if_sorted_distinct)
qed

lemma whole_mean: "0 < n \<Longrightarrow> m \<le> 2 ^ 40 \<Longrightarrow> mean_cents (n * m) n = int (m * 100)"
proof -
  assume n: "0 < n" and m: "m \<le> 2 ^ 40"
  have "f64 (of_int (int m)) = Fin (of_int (int m))" using m by (intro f64_int) simp
  then have "double_value (of_nat m) = of_nat m" by (simp add: double_value_def)
  moreover have "of_nat (n * m) / of_nat n = (of_nat m :: rat)" using n by simp
  ultimately show ?thesis using round_half_even_of_int [of "int (m * 100)"] by (simp add: mean_cents_def)
qed

lemma example_lines: "map (group_line example_rows) example_keys =
    [js ''team/dev/api,2027-01=80/100.00/120/2/4'', js ''team/dev/api,2027-02=200/200.00/200/1/0'', js ''team/web,2027-01=50/60.00/70/2/6'']"
proof -
  have means: "mean_cents 200 (Suc (Suc 0)) = 10000" "mean_cents 200 (Suc 0) = 20000" "mean_cents 120 (Suc (Suc 0)) = 6000"
    using whole_mean [of "Suc (Suc 0)" 100] whole_mean [of "Suc 0" 200] whole_mean [of "Suc (Suc 0)" 60] by simp_all
  have keys: "example_keys ! 0 \<noteq> example_keys ! 1" "example_keys ! 0 \<noteq> example_keys ! 2" "example_keys ! 1 \<noteq> example_keys ! 2"
    by (simp_all add: example_keys_def js_eval)
  have groups: "filter (\<lambda>r. row_key r = example_keys ! 0) example_rows = take 2 example_rows"
    "filter (\<lambda>r. row_key r = example_keys ! 1) example_rows = [example_rows ! 2]"
    "filter (\<lambda>r. row_key r = example_keys ! 2) example_rows = drop 3 example_rows"
    using example_row_keys keys by (simp_all add: example_rows_def)
  have "group_value (take 2 example_rows) = js ''80/100.00/120/2/4''" "group_value [example_rows ! 2] = js ''200/200.00/200/1/0''"
    "group_value (drop 3 example_rows) = js ''50/60.00/70/2/6''"
    using means by (simp_all add: group_value_def example_rows_def fixed2_def int_to_string_def pad_start_def digit_unit_def js_eval)
  then have "group_line example_rows (example_keys ! 0) = js ''team/dev/api,2027-01=80/100.00/120/2/4''"
    "group_line example_rows (example_keys ! 1) = js ''team/dev/api,2027-02=200/200.00/200/1/0''"
    "group_line example_rows (example_keys ! 2) = js ''team/web,2027-01=50/60.00/70/2/6''"
    unfolding group_line_def groups by (simp_all add: example_keys_def js_eval)
  moreover have "example_keys = [example_keys ! 0, example_keys ! 1, example_keys ! 2]" by (simp add: example_keys_def)
  ultimately show ?thesis by (metis list.map)
qed

text \<open>The documentation's example is right: from the shown input, ended by a line feed, the
  reference program writes exactly the shown output, ended by a line feed, and the judge accepts the
  shown output as it stands, without the last line feed.\<close>

theorem documented_example:
  "baseline_main (\<lambda>_. inputExample @ [10]) [js ''input.csv'', js ''output.txt''] = Inr (js ''output.txt'', outputExample @ [10]) \<and>
   compareOutput (\<lambda>p. Inr (if p = js ''expected.txt'' then outputExample @ [10] else outputExample))
     (js ''output.txt'') (js ''expected.txt'') = Inr ()"
proof
  have valid: "\<forall>r \<in> set example_rows. valid_row r" using example_rows_valid(1) by blast
  have names: "\<not> starts_with (js ''input.csv'') (js ''-'')" "\<not> starts_with (js ''output.txt'') (js ''-'')"
    by (simp_all add: starts_with_def js_eval)
  have lines: "unlines (map (group_line example_rows) example_keys) = outputExample @ [10]"
    unfolding example_lines by (simp add: unlines_def outputExample_def)
  show "baseline_main (\<lambda>_. inputExample @ [10]) [js ''input.csv'', js ''output.txt''] = Inr (js ''output.txt'', outputExample @ [10])"
    using analyze_csv [OF valid example_rows_valid(2)] writeResult_groups [OF example_rows_valid(2)] names
    unfolding example_csv example_keys_sorted lines by (simp add: baseline_main_def parseArgs_def)
  have ks: "set example_keys \<subseteq> row_key ` set example_rows" "distinct example_keys"
    using example_keys_sorted by (metis List.finite_set finite_imageI set_sorted_list_of_set subset_refl, metis distinct_sorted_list_of_set)
  note loaded = reference_lines(2) [OF example_rows_valid ks, unfolded lines]
  have "readline_lines outputExample = readline_lines (outputExample @ [10])" by code_simp
  then have same: "loadRecords (Inr outputExample) = loadRecords (Inr (outputExample @ [10]))" by (simp add: loadRecords_def)
  have "distinct (map_keys (map (expected_record example_rows) example_keys))" using loaded unfolding loaded_lines by blast
  then show "compareOutput (\<lambda>p. Inr (if p = js ''expected.txt'' then outputExample @ [10] else outputExample))
      (js ''output.txt'') (js ''expected.txt'') = Inr ()"
    using accepts_records [of "\<lambda>p. Inr (if p = js ''expected.txt'' then outputExample @ [10] else outputExample)" "js ''expected.txt''"
        "map (expected_record example_rows) example_keys" "js ''output.txt''" outputExample] loaded same
    by (simp add: js_eval)
qed

end
