(* ===== verification/Code_View.thy ===== *)
theory Code_View
  imports Js_Prelude Js_Math Js_Convert
begin

text \<open>
  Code on the pages: the highlighting of a diff in \<^verbatim>\<open>utils/syntax-highlighter.ts\<close> and the code
  block that highlights asynchronously in \<^verbatim>\<open>components/code-block.tsx\<close>.  The highlighter is the
  library shiki: an argument, with its documented output as the locale \<open>line_highlighter\<close>.
\<close>

section \<open>Diffs\<close>

definition line_span :: jsstring where
  "line_span = js ''<span class='' @ [34] @ js ''line'' @ [34, 62]"

text \<open>Is \<open>p\<close> somewhere in the string?\<close>

fun has_part :: "jsstring \<Rightarrow> jsstring \<Rightarrow> bool" where
  "has_part p [] = (p = [])"
| "has_part p (c # s) = (starts_with (c # s) p \<or> has_part p s)"

definition is_marked :: "jsstring \<Rightarrow> bool" where
  "is_marked l \<longleftrightarrow> l \<noteq> [] \<and> (hd l = 43 \<or> hd l = 45)"

definition strip_marker :: "jsstring \<Rightarrow> jsstring" where
  "strip_marker l = (if is_marked l then drop 1 l else l)"

definition diff_code :: "jsstring \<Rightarrow> jsstring" where
  "diff_code diff = join_with [10] (map strip_marker (split_on 10 diff))"

text \<open>The replacement for the line a marker belongs to; a line that is missing or empty has none.\<close>

definition marked_span :: "jsstring \<Rightarrow> jsstring" where
  "marked_span l =
     (let kind = (if l \<noteq> [] \<and> hd l = 43 then js ''added'' else if l \<noteq> [] \<and> hd l = 45 then js ''removed'' else js ''same'')
      in js ''<span class='' @ [34] @ js ''line diff-line diff-'' @ kind @ [34] @ js ''><span class='' @ [34] @
         js ''diff-marker'' @ [34, 62] @ (if is_marked l then [hd l] else [32]) @ js ''</span>'')"

definition nth_or_empty :: "jsstring list \<Rightarrow> nat \<Rightarrow> jsstring" where
  "nth_or_empty ls i = (if i < length ls then ls ! i else [])"

text \<open>\<open>replaceAll\<close> of the line's opening tag, with a counter.\<close>

function mark_lines :: "jsstring list \<Rightarrow> nat \<Rightarrow> jsstring \<Rightarrow> jsstring" where
  "mark_lines ls i s =
     (if starts_with s line_span then marked_span (nth_or_empty ls i) @ mark_lines ls (Suc i) (drop (length line_span) s)
      else case s of [] \<Rightarrow> [] | c # r \<Rightarrow> c # mark_lines ls i r)"
  by pat_completeness auto

lemma line_span_length [simp]: "length line_span = 19"
  by (simp add: line_span_def)

lemma line_span_not_Nil [simp]: "line_span \<noteq> []"
  by (simp add: line_span_def)

lemma line_span_shorter: "starts_with s line_span \<Longrightarrow> length s - 19 < length s"
  by (auto simp: starts_with_iff)

termination mark_lines
  by (relation "measure (\<lambda>(ls, i, s). length s)") (auto dest: line_span_shorter)

declare mark_lines.simps [simp del]

text \<open>\<open>None\<close> is a highlighter that fails.\<close>

definition highlightDiff :: "(jsstring \<Rightarrow> jsstring option) \<Rightarrow> jsstring \<Rightarrow> jsstring option" where
  "highlightDiff highlight diff = map_option (mark_lines (split_on 10 diff) 0) (highlight (diff_code diff))"

section \<open>The highlighter\<close>

definition line_html :: "jsstring list \<Rightarrow> jsstring" where
  "line_html bodies = concat (map (\<lambda>b. line_span @ b) bodies)"

locale line_highlighter =
  fixes highlight :: "jsstring \<Rightarrow> jsstring option"
  assumes one_span_per_line: "highlight code = Some html \<Longrightarrow>
    \<exists>pre bodies. html = pre @ line_html bodies \<and> \<not> has_part line_span pre \<and> (\<forall>b \<in> set bodies. \<not> has_part line_span b) \<and>
      length bodies = length (split_on 10 code)"

text \<open>A highlighter without colours: it only escapes the text.\<close>

definition escape_unit :: "code_unit \<Rightarrow> jsstring" where
  "escape_unit c = (if c = 60 then js ''&#x3C;'' else if c = 38 then js ''&#x26;'' else [c])"

definition plain_highlight :: "jsstring \<Rightarrow> jsstring option" where
  "plain_highlight code = Some (js ''<pre><code>'' @
     line_html (map (\<lambda>l. concat (map escape_unit l) @ js ''</span>'') (split_on 10 code)))"

lemma span_head: "starts_with (c # s) line_span \<Longrightarrow> c = 60"
  by (auto simp: starts_with_iff line_span_def js_eval)

lemma span_open_once: "60 \<notin> set (tl line_span)"
  by (simp add: line_span_def js_eval)

text \<open>The tag begins with the only \<open><\<close> in it, so no occurrence ends inside another one.\<close>

lemma no_early_span:
  assumes "u \<noteq> []" "\<not> starts_with u line_span" "starts_with r line_span \<or> r = []"
  shows "\<not> starts_with (u @ r) line_span"
proof
  assume "starts_with (u @ r) line_span"
  then have t: "take 19 (u @ r) = line_span" by (simp add: starts_with_def)
  have "length u < 19" using assms(2) t by (cases "length u < 19") (auto simp: starts_with_def)
  moreover have "length (take 19 (u @ r)) = 19" by (simp only: t line_span_length)
  ultimately have "r \<noteq> []" by auto
  then have "r ! 0 = 60" using assms(3) by (cases r) (auto dest: span_head)
  then have "line_span ! length u = 60" using \<open>length u < 19\<close> by (simp add: t [symmetric] nth_append)
  moreover have "line_span ! length u = tl line_span ! (length u - 1)"
    using assms(1) \<open>length u < 19\<close> by (simp add: nth_tl)
  ultimately show False
    using span_open_once assms(1) \<open>length u < 19\<close> nth_mem [of "length u - 1" "tl line_span"] by (cases u) auto
qed

lemma mark_lines_skip:
  "\<not> has_part line_span b \<Longrightarrow> starts_with r line_span \<or> r = [] \<Longrightarrow> mark_lines ls i (b @ r) = b @ mark_lines ls i r"
proof (induction b)
  case (Cons c b)
  then have "\<not> starts_with ((c # b) @ r) line_span" by (intro no_early_span) simp_all
  then have "mark_lines ls i ((c # b) @ r) = c # mark_lines ls i (b @ r)"
    by (subst mark_lines.simps) simp
  with Cons show ?case by simp
qed simp

lemma starts_with_html: "starts_with (line_html bodies) line_span \<or> line_html bodies = []"
  by (cases bodies) (simp_all add: line_html_def)

lemma mark_lines_html:
  "\<forall>b \<in> set bodies. \<not> has_part line_span b \<Longrightarrow>
    mark_lines ls i (line_html bodies) = concat (map (\<lambda>(j, b). marked_span (nth_or_empty ls j) @ b) (List.enumerate i bodies))"
proof (induction bodies arbitrary: i)
  case Nil
  then show ?case by (subst mark_lines.simps) (simp add: line_html_def starts_with_def line_span_not_Nil [symmetric])
next
  case (Cons b bodies)
  have "mark_lines ls i (line_span @ b @ line_html bodies) = marked_span (nth_or_empty ls i) @ mark_lines ls (Suc i) (b @ line_html bodies)"
    by (subst mark_lines.simps) simp
  also have "mark_lines ls (Suc i) (b @ line_html bodies) = b @ mark_lines ls (Suc i) (line_html bodies)"
    using Cons.prems starts_with_html by (intro mark_lines_skip) auto
  finally show ?case using Cons by (simp add: line_html_def)
qed

lemma strip_no_newline: "10 \<notin> set l \<Longrightarrow> 10 \<notin> set (strip_marker l)"
  by (auto simp: strip_marker_def dest: in_set_dropD)

lemma diff_code_lines: "split_on 10 (diff_code diff) = map strip_marker (split_on 10 diff)"
  unfolding diff_code_def
proof (rule split_on_join)
  show "\<forall>l \<in> set (map strip_marker (split_on 10 diff)). 10 \<notin> set l"
    using strip_no_newline split_on_parts_notin by fastforce
qed simp

text \<open>For a highlighter that writes one line tag per line of its code, the highlighted diff is its
  output for the code without the markers, with the tag of each line replaced by that of the same
  line of the diff: added, removed or unchanged, showing the marker that was taken off.\<close>

theorem diff_lines_marked:
  assumes "line_highlighter highlight" "highlight (diff_code diff) = Some html"
  shows "split_on 10 (diff_code diff) = map strip_marker (split_on 10 diff) \<and>
    (\<exists>pre bodies. html = pre @ line_html bodies \<and> length bodies = length (split_on 10 diff) \<and>
      highlightDiff highlight diff =
        Some (pre @ concat (map2 (\<lambda>l b. marked_span l @ b) (split_on 10 diff) bodies)))"
proof -
  let ?ls = "split_on 10 diff"
  obtain pre bodies where h: "html = pre @ line_html bodies" "\<not> has_part line_span pre"
    "\<forall>b \<in> set bodies. \<not> has_part line_span b" "length bodies = length ?ls"
    using line_highlighter.one_span_per_line [OF assms] by (auto simp: diff_code_lines)
  have "mark_lines ?ls 0 html = pre @ concat (map (\<lambda>(j, b). marked_span (nth_or_empty ?ls j) @ b) (List.enumerate 0 bodies))"
    unfolding h(1) mark_lines_skip [OF h(2) starts_with_html] mark_lines_html [OF h(3)] ..
  also have "map (\<lambda>(j, b). marked_span (nth_or_empty ?ls j) @ b) (List.enumerate 0 bodies) = map2 (\<lambda>l b. marked_span l @ b) ?ls bodies"
    using h(4) by (intro nth_equalityI) (simp_all add: nth_enumerate_eq nth_or_empty_def)
  finally show ?thesis using assms(2) h(1,4) by (auto simp: highlightDiff_def diff_code_lines)
qed

section \<open>A highlighter for the law\<close>

lemma has_part_skip: "60 \<notin> set u \<Longrightarrow> has_part line_span (u @ v) \<Longrightarrow> has_part line_span v"
  by (induction u) (auto dest: span_head)

lemma escaped_no_tag: "60 \<notin> set (concat (map escape_unit l))"
  by (induction l) (auto simp: escape_unit_def js_eval)

lemma closing_no_span: "\<not> has_part line_span (js ''</span>'')" "\<not> has_part line_span (js ''<pre><code>'')"
  by code_simp+

interpretation plain: line_highlighter plain_highlight
proof
  fix code html
  assume "plain_highlight code = Some html"
  then show "\<exists>pre bodies. html = pre @ line_html bodies \<and> \<not> has_part line_span pre \<and> (\<forall>b \<in> set bodies. \<not> has_part line_span b) \<and>
      length bodies = length (split_on 10 code)"
    using has_part_skip [OF escaped_no_tag] closing_no_span
    by (intro exI [of _ "js ''<pre><code>''"] exI [of _ "map (\<lambda>l. concat (map escape_unit l) @ js ''</span>'') (split_on 10 code)"])
      (auto simp: plain_highlight_def)
qed

theorem diff_lines_marked_witness:
  "\<exists>pre bodies. highlightDiff plain_highlight (js ''-a'' @ 10 # js ''+b'') =
    Some (pre @ concat (map2 (\<lambda>l b. marked_span l @ b) [js ''-a'', js ''+b''] bodies)) \<and> length bodies = 2"
proof -
  have "plain_highlight (diff_code (js ''-a'' @ 10 # js ''+b'')) = Some (the (plain_highlight (diff_code (js ''-a'' @ 10 # js ''+b''))))"
    by (simp add: plain_highlight_def)
  from diff_lines_marked [OF plain.line_highlighter_axioms this] obtain pre bodies where
    "highlightDiff plain_highlight (js ''-a'' @ 10 # js ''+b'') =
      Some (pre @ concat (map2 (\<lambda>l b. marked_span l @ b) (split_on 10 (js ''-a'' @ 10 # js ''+b'')) bodies))"
    "length bodies = length (split_on 10 (js ''-a'' @ 10 # js ''+b''))" by blast
  moreover have "split_on 10 (js ''-a'' @ 10 # js ''+b'') = [js ''-a'', js ''+b'']" by (simp add: js_eval)
  ultimately show ?thesis by (metis length_Cons list.size(3) numeral_2_eq_2)
qed

section \<open>The code block\<close>

text \<open>A block shows its text plainly until the highlighted HTML has arrived.  \<open>block_for\<close> is the text
  for which the effect has last run: a changed text is rendered once before the effect runs again.
  A run of the effect starts a task, whose \<open>active\<close> variable the next run's cleanup clears.\<close>

record code_props =
  block_text :: jsstring
  block_lang :: jsstring
  block_diff :: bool

record code_block =
  block_props :: code_props
  block_for :: "code_props option"
  tasks :: "(code_props \<times> bool) list"
  html :: "jsstring option"

definition highlight_props ::
    "(jsstring \<Rightarrow> jsstring \<Rightarrow> jsstring option) \<Rightarrow> code_props \<Rightarrow> jsstring option" where
  "highlight_props highlightCode p =
     (if block_diff p then highlightDiff (\<lambda>c. highlightCode c (block_lang p)) (block_text p)
      else highlightCode (block_text p) (block_lang p))"

definition mount_block :: "code_props \<Rightarrow> code_block" where
  "mount_block p = \<lparr>block_props = p, block_for = None, tasks = [], html = None\<rparr>"

definition change_props :: "code_props \<Rightarrow> code_block \<Rightarrow> code_block" where
  "change_props p b = b\<lparr>block_props := p\<rparr>"

definition block_effect :: "code_block \<Rightarrow> code_block" where
  "block_effect b =
     (if block_for b = Some (block_props b) then b
      else b\<lparr>block_for := Some (block_props b), html := None,
        tasks := map (\<lambda>(p, a). (p, False)) (tasks b) @
          (if block_lang (block_props b) = js ''text'' then [] else [(block_props b, True)])\<rparr>)"

definition finish_task ::
    "(jsstring \<Rightarrow> jsstring \<Rightarrow> jsstring option) \<Rightarrow> nat \<Rightarrow> code_block \<Rightarrow> code_block" where
  "finish_task highlightCode i b =
     (let (p, active) = tasks b ! i; c = b\<lparr>tasks := take i (tasks b) @ drop (Suc i) (tasks b)\<rparr> in
      case highlight_props highlightCode p of
        Some h \<Rightarrow> if active then c\<lparr>html := Some h\<rparr> else c
      | None \<Rightarrow> c)"

datatype block_view = Plain_block jsstring | Html_block jsstring

definition block_view_of :: "code_block \<Rightarrow> block_view" where
  "block_view_of b = (case html b of
      None \<Rightarrow> Plain_block (block_text (block_props b))
    | Some h \<Rightarrow> if h = [] then Plain_block (block_text (block_props b)) else Html_block h)"

inductive block_reachable :: "(jsstring \<Rightarrow> jsstring \<Rightarrow> jsstring option) \<Rightarrow> code_block \<Rightarrow> bool" for highlightCode where
  mounted_block: "block_reachable highlightCode (mount_block p)"
| changed: "block_reachable highlightCode b \<Longrightarrow> block_reachable highlightCode (change_props p b)"
| effect_run: "block_reachable highlightCode b \<Longrightarrow> block_reachable highlightCode (block_effect b)"
| task_done: "block_reachable highlightCode b \<Longrightarrow> i < length (tasks b) \<Longrightarrow> block_reachable highlightCode (finish_task highlightCode i b)"

definition block_ok :: "(jsstring \<Rightarrow> jsstring \<Rightarrow> jsstring option) \<Rightarrow> code_block \<Rightarrow> bool" where
  "block_ok highlightCode b \<longleftrightarrow>
     (\<forall>p. (p, True) \<in> set (tasks b) \<longrightarrow> block_for b = Some p \<and> block_lang p \<noteq> js ''text'') \<and>
     (\<forall>h. html b = Some h \<longrightarrow> (\<exists>p. block_for b = Some p \<and> block_lang p \<noteq> js ''text'' \<and> highlight_props highlightCode p = Some h))"

lemma finish_task_ok:
  assumes "block_ok highlightCode b" "i < length (tasks b)"
  shows "block_ok highlightCode (finish_task highlightCode i b)"
proof -
  obtain p a where t: "tasks b ! i = (p, a)" by fastforce
  then have p: "(p, a) \<in> set (tasks b)" using assms(2) nth_mem by metis
  let ?c = "finish_task highlightCode i b"
  have fields: "set (tasks ?c) \<subseteq> set (tasks b)" "block_for ?c = block_for b"
    "html ?c = html b \<or> a \<and> html ?c = highlight_props highlightCode p"
    using set_take_subset [of i "tasks b"] set_drop_subset [of "Suc i" "tasks b"]
    by (auto simp: finish_task_def Let_def t split: option.splits)
  have "\<exists>q. block_for b = Some q \<and> block_lang q \<noteq> js ''text'' \<and> highlight_props highlightCode q = Some h" if "html ?c = Some h" for h
  proof (cases "html ?c = html b")
    case False
    then show ?thesis using fields(3) that p assms(1) by (auto simp: block_ok_def)
  next
    case True
    then have "html b = Some h" using that by simp
    then show ?thesis using assms(1) unfolding block_ok_def by blast
  qed
  then show ?thesis using fields(1,2) assms(1) by (auto simp: block_ok_def)
qed

lemma block_reachable_ok: "block_reachable highlightCode b \<Longrightarrow> block_ok highlightCode b"
proof (induction rule: block_reachable.induct)
  case (task_done b i)
  then show ?case by (intro finish_task_ok)
qed (auto simp: block_ok_def mount_block_def change_props_def block_effect_def)

text \<open>C37: However often the text, the language or the mode of a block changes and in whatever order the
  tasks end, once its effect has run for what it is given now the block shows that text, plainly or
  as the highlighter's HTML for it; text without a language stays plain.\<close>

theorem block_shows_current_text:
  assumes "block_reachable highlightCode b" "block_for b = Some (block_props b)"
  shows "(block_view_of b = Plain_block (block_text (block_props b)) \<or>
      (\<exists>h. highlight_props highlightCode (block_props b) = Some h \<and> block_view_of b = Html_block h)) \<and>
    (block_lang (block_props b) = js ''text'' \<longrightarrow> block_view_of b = Plain_block (block_text (block_props b)))"
  using block_reachable_ok [OF assms(1)] assms(2)
  by (auto simp: block_ok_def block_view_of_def split: option.splits)

definition demo_props :: "string \<Rightarrow> code_props" where
  "demo_props t = \<lparr>block_text = js t, block_lang = js ''cpp'', block_diff = False\<rparr>"

text \<open>The first text's task ends after the second one's.\<close>

theorem block_shows_current_text_witness:
  "let b = finish_task (\<lambda>c l. Some (60 # c)) 0 (finish_task (\<lambda>c l. Some (60 # c)) 1 (block_effect (change_props (demo_props ''new'')
      (block_effect (mount_block (demo_props ''old''))))))
   in block_view_of b = Html_block (60 # js ''new'')"
proof -
  let ?hl = "\<lambda>c l :: jsstring. Some (60 # c)"
  let ?a = "block_effect (change_props (demo_props ''new'') (block_effect (mount_block (demo_props ''old''))))"
  let ?b = "finish_task ?hl 0 (finish_task ?hl 1 ?a)"
  note defs = block_effect_def change_props_def mount_block_def demo_props_def finish_task_def highlight_props_def
  have "block_reachable ?hl ?a" by (intro block_reachable.intros)
  then have "block_reachable ?hl ?b"
    by (intro block_reachable.task_done) (simp_all add: defs)
  moreover have "block_for ?b = Some (block_props ?b)" by (simp add: defs)
  ultimately have "block_view_of ?b = Plain_block (block_text (block_props ?b)) \<or>
      (\<exists>h. highlight_props ?hl (block_props ?b) = Some h \<and> block_view_of ?b = Html_block h)"
    using block_shows_current_text [of ?hl ?b] by blast
  moreover have "html ?b = Some (60 # js ''new'')" "highlight_props ?hl (block_props ?b) = Some (60 # js ''new'')" by (simp_all add: defs)
  ultimately show ?thesis by (auto simp: Let_def block_view_of_def split: if_splits)
qed

end
