(* ===== verification/Optimization_Guide.thy ===== *)
theory Optimization_Guide
  imports Code_View Format_Bytes
begin

text \<open>
  The guide of \<^verbatim>\<open>components/contest/cpp-optimization-guide.tsx\<close>: text with code in backticks, the
  sections of the stages with their flame graphs, the dialog that enlarges one, and the measured
  times of \<^verbatim>\<open>content/cpp-optimization/stages.ts\<close>.
\<close>

section \<open>Text with code\<close>

text \<open>\<open>split(/(`[^`]+`)/g)\<close> keeps what the group matches: text and code alternate.  \<open>acc\<close> is the text
  since the last match, reversed.\<close>

function rich_parts :: "jsstring \<Rightarrow> jsstring \<Rightarrow> jsstring list" where
  "rich_parts acc [] = [rev acc]"
| "rich_parts acc (c # s) =
     (if c = 96 \<and> takeWhile (\<lambda>d. d \<noteq> 96) s \<noteq> [] \<and> dropWhile (\<lambda>d. d \<noteq> 96) s \<noteq> []
      then rev acc # (96 # takeWhile (\<lambda>d. d \<noteq> 96) s @ [96]) # rich_parts [] (tl (dropWhile (\<lambda>d. d \<noteq> 96) s))
      else rich_parts (c # acc) s)"
  by pat_completeness auto

termination rich_parts
proof (relation "measure (\<lambda>(acc, s). length s)")
  fix acc s :: jsstring and c :: code_unit
  show "((([], tl (dropWhile (\<lambda>d. d \<noteq> 96) s)), acc, c # s) \<in> measure (\<lambda>(acc, s). length s))"
    if "c = 96 \<and> takeWhile (\<lambda>d. d \<noteq> 96) s \<noteq> [] \<and> dropWhile (\<lambda>d. d \<noteq> 96) s \<noteq> []"
    using length_dropWhile_le [of "\<lambda>d. d \<noteq> 96" s] by simp
qed simp_all

datatype rich_view = Rich_code jsstring | Rich_span jsstring

definition rich_view_of :: "jsstring \<Rightarrow> rich_view" where
  "rich_view_of part =
     (if starts_with part [96] \<and> ends_with part [96] then Rich_code (butlast (drop 1 part)) else Rich_span part)"

text \<open>The key of a part is the part with the number of its occurrence.\<close>

fun rich_keys :: "jsstring list \<Rightarrow> jsstring list \<Rightarrow> jsstring list" where
  "rich_keys seen [] = []"
| "rich_keys seen (p # ps) = (p @ 58 # nat_to_string (Suc (count_list seen p))) # rich_keys (p # seen) ps"

definition rich_text :: "jsstring \<Rightarrow> (jsstring \<times> rich_view) list" where
  "rich_text t = (let parts = rich_parts [] t in zip (rich_keys [] parts) (map rich_view_of parts))"

lemma concat_rich_parts: "concat (rich_parts acc s) = rev acc @ s"
proof (induction acc s rule: rich_parts.induct)
  case (2 acc c s)
  show ?case
  proof (cases "c = 96 \<and> takeWhile (\<lambda>d. d \<noteq> 96) s \<noteq> [] \<and> dropWhile (\<lambda>d. d \<noteq> 96) s \<noteq> []")
    case True
    then have "dropWhile (\<lambda>d. d \<noteq> 96) s = 96 # tl (dropWhile (\<lambda>d. d \<noteq> 96) s)"
      using hd_dropWhile [of "\<lambda>d. d \<noteq> 96" s] by (cases "dropWhile (\<lambda>d. d \<noteq> 96) s") auto
    then have "s = takeWhile (\<lambda>d. d \<noteq> 96) s @ 96 # tl (dropWhile (\<lambda>d. d \<noteq> 96) s)"
      using takeWhile_dropWhile_id [of "\<lambda>d. d \<noteq> 96" s] by metis
    then show ?thesis using 2(1) [OF True] True by simp
  next
    case False
    then show ?thesis using 2(2) [OF False] by auto
  qed
qed simp

lemma colon_split:
  fixes a b p q :: jsstring
  assumes "58 \<notin> set a" "58 \<notin> set b" "p @ 58 # a = q @ 58 # b"
  shows "p = q \<and> a = b"
proof -
  have "takeWhile (\<lambda>c. c \<noteq> 58) (rev (r @ 58 # c)) = rev c" if "58 \<notin> set c" for r c :: jsstring
    using that by (simp add: takeWhile_append)
  then have "rev a = rev b" using assms by metis
  then show ?thesis using assms(3) by simp
qed

lemma number_no_colon: "58 \<notin> set (nat_to_string n)"
  using set_nat_to_string [of 58 n] by (auto simp: is_digit_def)

lemma rich_key_eq: "p @ 58 # nat_to_string m = q @ 58 # nat_to_string n \<Longrightarrow> p = q \<and> m = n"
  using colon_split [OF number_no_colon number_no_colon] inj_nat_to_string by blast

lemma rich_keys_later:
  "k \<in> set (rich_keys seen ps) \<Longrightarrow> \<exists>p n. k = p @ 58 # nat_to_string n \<and> count_list seen p < n"
proof (induction ps arbitrary: seen)
  case (Cons q ps)
  show ?case
  proof (cases "k = q @ 58 # nat_to_string (Suc (count_list seen q))")
    case False
    then have "k \<in> set (rich_keys (q # seen) ps)" using Cons.prems by simp
    then obtain p n where "k = p @ 58 # nat_to_string n" "count_list (q # seen) p < n" using Cons.IH by blast
    then show ?thesis by (auto split: if_splits intro: Suc_lessD)
  qed blast
qed simp

lemma distinct_rich_keys: "distinct (rich_keys seen ps)"
proof (induction ps arbitrary: seen)
  case (Cons q ps)
  have "q @ 58 # nat_to_string (Suc (count_list seen q)) \<notin> set (rich_keys (q # seen) ps)"
  proof
    assume "q @ 58 # nat_to_string (Suc (count_list seen q)) \<in> set (rich_keys (q # seen) ps)"
    then obtain p n where "q @ 58 # nat_to_string (Suc (count_list seen q)) = p @ 58 # nat_to_string n"
      "count_list (q # seen) p < n" using rich_keys_later by blast
    then show False using rich_key_eq [of q "Suc (count_list seen q)" p n] by auto
  qed
  then show ?case using Cons by simp
qed simp

text \<open>Nothing of a text is lost, every part has a key of its own, and code is a part in backticks.\<close>

theorem rich_text_complete:
  "concat (rich_parts [] t) = t \<and> distinct (map fst (rich_text t)) \<and> map snd (rich_text t) = map rich_view_of (rich_parts [] t)"
proof -
  have "length (rich_keys seen ps) = length ps" for seen ps by (induction ps arbitrary: seen) simp_all
  then show ?thesis by (simp add: rich_text_def Let_def concat_rich_parts distinct_rich_keys)
qed

section \<open>Measured times\<close>

record stage_times =
  wallSeconds :: number
  changePercent :: "number option"
  overallPercent :: number

definition naive_times :: stage_times where
  "naive_times = \<lparr>wallSeconds = f64 (42006 / 100), changePercent = None, overallPercent = Fin 0\<rparr>"

definition fixed_month_times :: stage_times where
  "fixed_month_times = \<lparr>wallSeconds = f64 (34609 / 100), changePercent = Some (f64 (176 / 10)), overallPercent = f64 (176 / 10)\<rparr>"

definition no_stringstream_times :: stage_times where
  "no_stringstream_times = \<lparr>wallSeconds = f64 (24171 / 100), changePercent = Some (f64 (302 / 10)), overallPercent = f64 (425 / 10)\<rparr>"

definition direct_numbers_times :: stage_times where
  "direct_numbers_times = \<lparr>wallSeconds = f64 (18406 / 100), changePercent = Some (f64 (239 / 10)), overallPercent = f64 (562 / 10)\<rparr>"

definition split_key_times :: stage_times where
  "split_key_times = \<lparr>wallSeconds = f64 (9818 / 100), changePercent = Some (f64 (467 / 10)), overallPercent = f64 (766 / 10)\<rparr>"

definition flat_map_times :: stage_times where
  "flat_map_times = \<lparr>wallSeconds = f64 (7346 / 100), changePercent = Some (f64 (252 / 10)), overallPercent = f64 (825 / 10)\<rparr>"

definition mmap_times :: stage_times where
  "mmap_times = \<lparr>wallSeconds = f64 (4666 / 100), changePercent = Some (f64 (365 / 10)), overallPercent = f64 (889 / 10)\<rparr>"

definition month_table_times :: stage_times where
  "month_table_times = \<lparr>wallSeconds = f64 (3893 / 100), changePercent = Some (f64 (166 / 10)), overallPercent = f64 (907 / 10)\<rparr>"

definition parallel_times :: stage_times where
  "parallel_times = \<lparr>wallSeconds = f64 (780 / 100), changePercent = Some (f64 (800 / 10)), overallPercent = f64 (981 / 10)\<rparr>"

text \<open>The texts say seconds and percent less; the base value has no change.\<close>

definition seconds_suffix :: jsstring where
  "seconds_suffix = [0x79D2]"

definition shorter_suffix :: jsstring where
  "shorter_suffix = js ''% '' @ [0x77ED, 0x7E2E]"

definition formatChange :: "number option \<Rightarrow> jsstring" where
  "formatChange change = (case change of None \<Rightarrow> [0x57FA, 0x6E96, 0x5024] | Some c \<Rightarrow> to_fixed 1 c @ shorter_suffix)"

definition benchmark_cells :: "stage_times \<Rightarrow> jsstring list" where
  "benchmark_cells b =
     [to_fixed 2 (wallSeconds b) @ seconds_suffix, formatChange (changePercent b), to_fixed 1 (overallPercent b) @ shorter_suffix]"

definition measured_times :: "stage_times list" where
  "measured_times = [naive_times, fixed_month_times, no_stringstream_times, direct_numbers_times, split_key_times,
     flat_map_times, mmap_times, month_table_times, parallel_times]"

text \<open>The times in hundredths of a second and the share of \<open>a\<close> that \<open>b\<close> saves, in percent.\<close>

definition centiseconds :: "nat list" where
  "centiseconds = [42006, 34609, 24171, 18406, 9818, 7346, 4666, 3893, 780]"

definition saved_percent :: "nat \<Rightarrow> nat \<Rightarrow> rat" where
  "saved_percent a b = (of_nat a - of_nat b) / of_nat a * 100"

definition rounds_to_tenths :: "rat \<Rightarrow> nat \<Rightarrow> bool" where
  "rounds_to_tenths p t \<longleftrightarrow> \<bar>of_nat t / 10 - p\<bar> \<le> 1 / 20"

lemma shown_tenths: "t \<in> {1..1000} \<Longrightarrow> to_fixed 1 (f64 (of_nat t / 10)) = decimal_places 1 t"
  using to_fixed_decimal [of t 1] by simp

lemma shown_hundredths: "t \<in> {1..100000} \<Longrightarrow> to_fixed 2 (f64 (of_nat t / 100)) = decimal_places 2 t"
  using to_fixed_decimal [of t 2] by simp

lemma overall_row:
  assumes "h \<in> {1..100000}" "t \<in> {1..1000}" "rounds_to_tenths (saved_percent 42006 h) t"
    "wallSeconds b = f64 (of_nat h / 100)" "overallPercent b = f64 (of_nat t / 10)"
  shows "\<exists>c t. benchmark_cells b = [decimal_places 2 h @ seconds_suffix, c, decimal_places 1 t @ shorter_suffix] \<and>
    rounds_to_tenths (saved_percent 42006 h) t"
  using assms(3) unfolding benchmark_cells_def assms(4,5) shown_hundredths [OF assms(1)] shown_tenths [OF assms(2)] by blast

lemma first_row:
  "\<exists>c t. benchmark_cells naive_times = [decimal_places 2 42006 @ seconds_suffix, c, decimal_places 1 t @ shorter_suffix] \<and>
    rounds_to_tenths (saved_percent 42006 42006) t"
proof -
  have "to_fixed 2 (wallSeconds naive_times) = decimal_places 2 42006"
    using shown_hundredths [of 42006] by (simp add: naive_times_def del: to_fixed.simps)
  moreover have "to_fixed 1 (overallPercent naive_times) = decimal_places 1 0"
    by (simp add: naive_times_def fixed_digits_def)
  ultimately show ?thesis unfolding benchmark_cells_def
    by (intro exI [of _ "formatChange (changePercent naive_times)"] exI [of _ 0]) (simp add: rounds_to_tenths_def saved_percent_def)
qed

lemma change_row:
  assumes "t \<in> {1..1000}" "rounds_to_tenths (saved_percent h h') t" "changePercent b = Some (f64 (of_nat t / 10))"
  shows "\<exists>t. formatChange (changePercent b) = decimal_places 1 t @ shorter_suffix \<and> rounds_to_tenths (saved_percent h h') t"
  using assms(2) unfolding formatChange_def assms(3) option.case shown_tenths [OF assms(1)] by blast

text \<open>What the guide shows of the measured times is consistent: each row shows its time with two
  decimals, and the shown percentages are those times' exact savings over the previous and over the
  first time, rounded to tenths.\<close>

theorem shown_percentages:
  "list_all2 (\<lambda>b h. \<exists>c t. benchmark_cells b = [decimal_places 2 h @ seconds_suffix, c, decimal_places 1 t @ shorter_suffix] \<and>
      rounds_to_tenths (saved_percent (hd centiseconds) h) t) measured_times centiseconds \<and>
   list_all2 (\<lambda>b (h, h'). \<exists>t. formatChange (changePercent b) = decimal_places 1 t @ shorter_suffix \<and>
      rounds_to_tenths (saved_percent h h') t) (tl measured_times) (zip centiseconds (tl centiseconds))"
proof (intro conjI)
  note evaluate = naive_times_def fixed_month_times_def no_stringstream_times_def direct_numbers_times_def split_key_times_def flat_map_times_def mmap_times_def month_table_times_def parallel_times_def
    rounds_to_tenths_def saved_percent_def abs_le_iff
  show "list_all2 (\<lambda>b h. \<exists>c t. benchmark_cells b = [decimal_places 2 h @ seconds_suffix, c, decimal_places 1 t @ shorter_suffix] \<and>
      rounds_to_tenths (saved_percent (hd centiseconds) h) t) measured_times centiseconds"
    unfolding centiseconds_def measured_times_def list.sel
    by (intro list_all2_Cons [THEN iffD2] list_all2_Nil [THEN iffD2] conjI TrueI first_row
      overall_row [of 34609 176 fixed_month_times]
      overall_row [of 24171 425 no_stringstream_times]
      overall_row [of 18406 562 direct_numbers_times]
      overall_row [of 9818 766 split_key_times]
      overall_row [of 7346 825 flat_map_times]
      overall_row [of 4666 889 mmap_times]
      overall_row [of 3893 907 month_table_times]
      overall_row [of 780 981 parallel_times])
      (simp_all add: evaluate)
  show "list_all2 (\<lambda>b (h, h'). \<exists>t. formatChange (changePercent b) = decimal_places 1 t @ shorter_suffix \<and>
      rounds_to_tenths (saved_percent h h') t) (tl measured_times) (zip centiseconds (tl centiseconds))"
    unfolding centiseconds_def measured_times_def list.sel zip_Cons_Cons
    by (simp only: zip.simps list.case list_all2_Cons list_all2_Nil2 prod.case, intro conjI refl
      change_row [of 176 42006 34609 fixed_month_times]
      change_row [of 302 34609 24171 no_stringstream_times]
      change_row [of 239 24171 18406 direct_numbers_times]
      change_row [of 467 18406 9818 split_key_times]
      change_row [of 252 9818 7346 flat_map_times]
      change_row [of 365 7346 4666 mmap_times]
      change_row [of 166 4666 3893 month_table_times]
      change_row [of 800 3893 780 parallel_times])
      (simp_all add: evaluate)
qed

section \<open>The sections of the stages\<close>

record optimization_stage =
  stage_id :: jsstring
  stage_title :: jsstring
  short_title :: jsstring
  stage_filename :: jsstring
  flamegraph_focus :: "jsstring list"
  stage_source :: jsstring
  goal :: jsstring
  diagnosis :: jsstring
  verification :: jsstring
  explanation :: "jsstring list"
  stage_diff :: "jsstring option"
  diff_note :: "jsstring option"
  times :: stage_times
  bottleneck :: jsstring
  next_evidence :: jsstring

text \<open>\<open>replace\<close> with strings: the first occurrence.\<close>

fun replace_first :: "jsstring \<Rightarrow> jsstring \<Rightarrow> jsstring \<Rightarrow> jsstring" where
  "replace_first p r [] = (if p = [] then r else [])"
| "replace_first p r (c # s) = (if starts_with (c # s) p then r @ drop (length p) (c # s) else c # replace_first p r s)"

definition flamegraph_source :: "optimization_stage \<Rightarrow> jsstring" where
  "flamegraph_source stage = js ''/flamegraphs/cpp/'' @ replace_first (js ''.cpp'') (js ''.svg'') (stage_filename stage)"

datatype section_part =
    Section_number jsstring
  | Section_title jsstring
  | Rich_text jsstring
  | Flamegraph jsstring
  | Improves jsstring
  | Diff_block jsstring
  | Benchmark_cells "jsstring list"
  | Source_code jsstring jsstring

text \<open>A stage with a change must have a note: without one the text component is called on null and throws.
  An empty diff counts as none.\<close>

definition diff_parts :: "optimization_stage \<Rightarrow> section_part list option" where
  "diff_parts stage =
     (case stage_diff stage of
        None \<Rightarrow> Some []
      | Some d \<Rightarrow> if d = [] then Some [] else map_option (\<lambda>n. [Rich_text n, Diff_block d]) (diff_note stage))"

definition previous_parts :: "optimization_stage option \<Rightarrow> optimization_stage \<Rightarrow> section_part list" where
  "previous_parts previousStage stage =
     (case previousStage of
        None \<Rightarrow> []
      | Some p \<Rightarrow> [Flamegraph (flamegraph_source p), Improves (bottleneck p), Rich_text (goal stage)])"

definition stage_section :: "nat \<Rightarrow> optimization_stage \<Rightarrow> nat \<Rightarrow> optimization_stage option \<Rightarrow> section_part list option" where
  "stage_section stages_shown stage index previousStage =
     map_option (\<lambda>diff.
       [Section_number (pad_start 2 48 (nat_to_string (index + 1))), Section_title (stage_title stage),
        Rich_text (if index = 0 then goal stage else diagnosis stage)] @
       previous_parts previousStage stage @ map Rich_text (explanation stage) @ diff @
       (if index = 0 then [Rich_text (diagnosis stage)] else []) @
       [Benchmark_cells (benchmark_cells (times stage)), Rich_text (verification stage)] @
       (if index = stages_shown - 1 then [Rich_text (next_evidence stage), Flamegraph (flamegraph_source stage)] else []) @
       [Source_code (stage_filename stage) (trim (stage_source stage))]) (diff_parts stage)"

definition contents_links :: "optimization_stage list \<Rightarrow> (jsstring \<times> jsstring) list" where
  "contents_links stages =
     map (\<lambda>(index, stage). (js ''#optimization-'' @ stage_id stage, nat_to_string (index + 1) @ js ''. '' @ short_title stage))
       (enumerate 0 stages)"

definition guide_sections :: "optimization_stage list \<Rightarrow> section_part list option list" where
  "guide_sections stages =
     map (\<lambda>index. stage_section (length stages) (stages ! index) index (if index = 0 then None else Some (stages ! (index - 1))))
       [0..<length stages]"

definition figures :: "section_part list option \<Rightarrow> jsstring list" where
  "figures section = (case section of None \<Rightarrow> [] | Some ps \<Rightarrow> concat (map (\<lambda>p. case p of Flamegraph f \<Rightarrow> [f] | _ \<Rightarrow> []) ps))"

lemma figures_texts [simp]: "concat (map (\<lambda>p. case p of Flamegraph f \<Rightarrow> [f] | _ \<Rightarrow> []) (map Rich_text ts)) = []"
  by simp

lemma figures_diff: "diff_parts stage = Some d \<Longrightarrow> concat (map (\<lambda>p. case p of Flamegraph f \<Rightarrow> [f] | _ \<Rightarrow> []) d) = []"
  by (auto simp: diff_parts_def split: option.splits if_splits)

lemma section_figures:
  assumes "stage_section n stage index p \<noteq> None"
  shows "figures (stage_section n stage index p) =
    (case p of None \<Rightarrow> [] | Some q \<Rightarrow> [flamegraph_source q]) @ (if index = n - 1 then [flamegraph_source stage] else [])"
proof -
  obtain d where d: "diff_parts stage = Some d" using assms by (cases "diff_parts stage") (simp_all add: stage_section_def)
  show ?thesis
    by (cases p) (simp_all add: stage_section_def figures_def d figures_diff [OF d] previous_parts_def comp_def)
qed

text \<open>The guide shows the flame graph of every stage exactly once and in the order of the stages:
  each section shows the one of the stage before it, the last section also its own.\<close>

theorem guide_shows_each_flamegraph:
  assumes "None \<notin> set (guide_sections stages)"
  shows "concat (map figures (guide_sections stages)) = map flamegraph_source stages"
proof (cases "length stages")
  case (Suc m)
  let ?s = "\<lambda>index. stage_section (length stages) (stages ! index) index (if index = 0 then None else Some (stages ! (index - 1)))"
  have defined: "?s index \<noteq> None" if "index < length stages" for index
  proof -
    have "?s index \<in> set (guide_sections stages)"
      unfolding guide_sections_def set_map using that by (intro image_eqI [of _ _ index]) simp_all
    then show ?thesis using assms by metis
  qed
  have before: "figures (?s index) = (if index = 0 then [] else [flamegraph_source (stages ! (index - 1))])" if "index < m" for index
    using section_figures [OF defined [of index]] that Suc by simp
  have upto: "concat (map (figures \<circ> ?s) [0..<k]) = map (\<lambda>i. flamegraph_source (stages ! i)) [0..<k - 1]" if "k \<le> m" for k
    using that
  proof (induction k)
    case (Suc k)
    then show ?case using before [of k] by (cases k) (simp_all add: comp_def)
  qed simp
  have own: "figures (?s m) = (if m = 0 then [] else [flamegraph_source (stages ! (m - 1))]) @ [flamegraph_source (stages ! m)]"
    using section_figures [OF defined [of m]] Suc by simp
  have "concat (map figures (guide_sections stages)) = concat (map (figures \<circ> ?s) [0..<m]) @ figures (?s m)"
    unfolding guide_sections_def Suc by simp
  also have "\<dots> = map (\<lambda>i. flamegraph_source (stages ! i)) [0..<Suc m]"
    unfolding upto [OF order_refl] own by (cases m) simp_all
  also have "\<dots> = map flamegraph_source stages"
    unfolding Suc [symmetric] by (intro nth_equalityI) simp_all
  finally show ?thesis .
qed (simp add: guide_sections_def)

definition demo_stage :: "jsstring \<Rightarrow> jsstring option \<Rightarrow> stage_times \<Rightarrow> optimization_stage" where
  "demo_stage name diff b = \<lparr>stage_id = name, stage_title = name, short_title = name, stage_filename = name @ js ''.cpp'',
     flamegraph_focus = [], stage_source = [], goal = [], diagnosis = [], verification = [], explanation = [js ''x''],
     stage_diff = diff, diff_note = diff, times = b, bottleneck = [], next_evidence = []\<rparr>"

theorem guide_shows_each_flamegraph_witness:
  "concat (map figures (guide_sections [demo_stage (js ''01'') None naive_times, demo_stage (js ''02'') (Some (js ''+x'')) fixed_month_times])) =
    [js ''/flamegraphs/cpp/01.svg'', js ''/flamegraphs/cpp/02.svg'']"
proof -
  let ?stages = "[demo_stage (js ''01'') None naive_times, demo_stage (js ''02'') (Some (js ''+x'')) fixed_month_times]"
  have "None \<notin> set (guide_sections ?stages)"
    by (simp add: guide_sections_def stage_section_def diff_parts_def demo_stage_def js_eval)
  note guide_shows_each_flamegraph [OF this]
  also have "map flamegraph_source ?stages = [js ''/flamegraphs/cpp/01.svg'', js ''/flamegraphs/cpp/02.svg'']"
    by (simp add: flamegraph_source_def demo_stage_def js_eval starts_with_def)
  finally show ?thesis .
qed

section \<open>The enlarged flame graph\<close>

text \<open>The dialog of the selected stage: the element exists while a stage is selected, the effect opens it
  and listens for clicks on the backdrop, and its close event clears the selection.\<close>

record flamegraph_dialog =
  selected_stage :: "optimization_stage option"
  dialog_open :: bool
  backdrop_listeners :: nat

definition select_stage :: "optimization_stage \<Rightarrow> flamegraph_dialog \<Rightarrow> flamegraph_dialog" where
  "select_stage stage d =
     (if selected_stage d = Some stage then d
      else d\<lparr>selected_stage := Some stage, dialog_open := True,
        backdrop_listeners := (if selected_stage d = None then backdrop_listeners d else backdrop_listeners d - 1) + 1\<rparr>)"

text \<open>Closing by the button, the backdrop or the escape key: the close event clears the selection, which
  removes the element and its listener.\<close>

definition close_dialog :: "flamegraph_dialog \<Rightarrow> flamegraph_dialog" where
  "close_dialog d =
     (if selected_stage d = None then d
      else d\<lparr>selected_stage := None, dialog_open := False, backdrop_listeners := backdrop_listeners d - 1\<rparr>)"

inductive dialog_reachable :: "flamegraph_dialog \<Rightarrow> bool" where
  dialog_start: "dialog_reachable \<lparr>selected_stage = None, dialog_open = False, backdrop_listeners = 0\<rparr>"
| dialog_select: "dialog_reachable d \<Longrightarrow> dialog_reachable (select_stage stage d)"
| dialog_close: "dialog_reachable d \<Longrightarrow> dialog_reachable (close_dialog d)"

lemma dialog_invariant:
  "dialog_reachable d \<Longrightarrow> dialog_open d = (selected_stage d \<noteq> None) \<and> backdrop_listeners d = (if dialog_open d then 1 else 0)"
  by (induction rule: dialog_reachable.induct) (auto simp: select_stage_def close_dialog_def split: if_splits)

text \<open>A frame of the graph with the styles that the highlighting sets.\<close>

record frame =
  frame_title :: "jsstring option"
  frame_opacity :: jsstring
  frame_rect :: "(jsstring \<times> jsstring) option"
  frame_weight :: "jsstring option"

definition is_focused :: "jsstring list \<Rightarrow> frame \<Rightarrow> bool" where
  "is_focused focus f \<longleftrightarrow> list_ex (\<lambda>name. has_part name (case frame_title f of None \<Rightarrow> [] | Some t \<Rightarrow> t)) focus"

definition highlight_frame :: "jsstring list \<Rightarrow> frame \<Rightarrow> frame" where
  "highlight_frame focus f =
     (let focused = is_focused focus f in
      f\<lparr>frame_opacity := (if focused then js ''1'' else js ''0.5''),
        frame_rect := (if focused then map_option (\<lambda>_. (js ''#087da5'', js ''2'')) (frame_rect f) else frame_rect f),
        frame_weight := (if focused then map_option (\<lambda>_. js ''700'') (frame_weight f) else frame_weight f)\<rparr>)"

text \<open>The document of the object is \<open>None\<close> while there is none.\<close>

definition highlightFlamegraph :: "frame list option \<Rightarrow> jsstring list \<Rightarrow> frame list option" where
  "highlightFlamegraph document focus = map_option (map (highlight_frame focus)) document"

lemma highlight_once: "highlight_frame focus (highlight_frame focus f) = highlight_frame focus f"
  by (auto simp: highlight_frame_def is_focused_def Let_def option.map_comp comp_def)

end
