(* ===== verification/Optimization_Stages.thy ===== *)
theory Optimization_Stages
  imports Optimization_Guide
begin

text \<open>
  The stages of \<^verbatim>\<open>content/cpp-optimization/stages.ts\<close>, text by text, and the guide on them.  The sources are
  imported as raw text from the C++ files beside it: \<open>raw\<close> gives the content of a file.
\<close>

definition naive_stage :: "(jsstring \<Rightarrow> jsstring) \<Rightarrow> optimization_stage" where
  "naive_stage raw = \<lparr>
     stage_id = js ''naive'',
     stage_title = [0x307E, 0x305A, 0x306F, 0x8AAD, 0x307F, 0x3084, 0x3059, 0x304F, 0x89E3, 0x304F],
     short_title = [0x30CA, 0x30A4, 0x30FC, 0x30D6, 0x7248],
     stage_filename = js ''01-naive.cpp'',
     flamegraph_focus = [js ''strftime'', js ''gmtime_r''],
     stage_source = raw (js ''./01-naive.cpp''),
     goal = [96] @ js ''std::getline'' @ [96, 0x3001, 96] @ js ''std::stringstream'' @ [96, 0x3001, 96] @
       js ''std::unordered_map'' @ [96, 0x3092, 0x4F7F, 0x3044, 0x3001] @ js ''CSV'' @
       [0x3092, 0x4E00, 0x884C, 0x305A, 0x3064, 0x96C6, 0x8A08, 0x3059, 0x308B, 0x5B9F, 0x88C5, 0x304B] @
       [0x3089, 0x59CB, 0x3081, 0x307E, 0x3059, 0x3002],
     diagnosis = [0x307E, 0x305A, 0x3001, 0x6B63, 0x3057, 0x3044, 0x57FA, 0x6E96, 0x5B9F, 0x88C5, 0x3092] @
       js ''1B'' @ [0x884C, 0x3067, 0x6E2C, 0x308A, 0x307E, 0x3059, 0x3002] @ js ''perf stat'' @
       [0x3067, 0x306F, 0x547D, 0x4EE4, 0x6570, 0x304C] @ js ''422'' @
       [0x5104, 0x3001, 0x5206, 0x5C90, 0x6570, 0x304C] @ js ''89.5'' @
       [0x5104, 0x3067, 0x3057, 0x305F, 0x3002, 0x9AD8, 0x901F, 0x5316, 0x306E, 0x524D, 0x306B, 0x3001] @
       [0x3069, 0x308C, 0x3060, 0x3051, 0x306E, 0x4ED5, 0x4E8B, 0x3092, 0x3057, 0x3066, 0x3044, 0x308B] @
       [0x304B, 0x3092, 0x3053, 0x306E, 0x5024, 0x3067, 0x56FA, 0x5B9A, 0x3057, 0x307E, 0x3059, 0x3002],
     verification = [0x671F, 0x5F85, 0x51FA, 0x529B, 0x3068, 0x306E, 0x4E00, 0x81F4, 0x3092, 0x78BA, 0x8A8D, 0x3057] @
       [0x3001, 0x5B9F, 0x884C, 0x6642, 0x9593, 0x306F] @ js ''420.06'' @
       [0x79D2, 0x3067, 0x3057, 0x305F, 0x3002, 0x3053, 0x306E, 0x5024, 0x3092, 0x4EE5, 0x964D, 0x306E] @
       [0x6BD4, 0x8F03, 0x5BFE, 0x8C61, 0x306B, 0x3057, 0x307E, 0x3059, 0x3002],
     explanation = [ [96] @ js ''std::ifstream'' @ [96, 0x3067] @ js ''CSV'' @ [0x3092, 0x958B, 0x304D, 0x3001, 96] @
       js ''std::getline'' @ [96, 0x3067, 0x4E00, 0x884C, 0x305A, 0x3064, 96] @ js ''std::string'' @
       [96, 0x3078, 0x8AAD, 0x307F, 0x8FBC, 0x307F, 0x307E, 0x3059, 0x3002, 0x5404, 0x884C, 0x3092] @ [96] @
       js ''std::stringstream'' @ [96, 0x3078, 0x6E21, 0x3057, 0x3001] @ js ''4'' @ [0x56DE, 0x306E, 96] @
       js ''std::getline'' @
       [96, 0x3067, 0x6642, 0x523B, 0x3001, 0x30C1, 0x30E3, 0x30F3, 0x30CD, 0x30EB, 0x3001, 0x30E1] @
       [0x30C3, 0x30BB, 0x30FC, 0x30B8, 0x9577, 0x3001, 0x30B9, 0x30BF, 0x30F3, 0x30D7, 0x6570, 0x306B] @
       [0x5206, 0x5272, 0x3057, 0x307E, 0x3059, 0x3002],
       [0x6570, 0x5024, 0x5217, 0x306F, 96] @ js ''std::stoll'' @ [96, 0x3068, 96] @ js ''std::stoi'' @
       [96, 0x3067, 0x6574, 0x6570, 0x3078, 0x5909, 0x63DB, 0x3057, 0x307E, 0x3059, 0x3002, 0x6642] @
       [0x523B, 0x306F, 96] @ js ''gmtime_r'' @ [96, 0x3067] @ js ''UTC'' @
       [0x306E, 0x65E5, 0x6642, 0x69CB, 0x9020, 0x4F53, 0x3078, 0x76F4, 0x3057, 0x3001, 96] @
       js ''strftime'' @ [96, 0x3067, 96] @ js ''YYYY-MM'' @
       [96, 0x5F62, 0x5F0F, 0x306E, 0x6587, 0x5B57, 0x5217, 0x3078, 0x5909, 0x63DB, 0x3057, 0x307E] @
       [0x3059, 0x3002],
       [0x96C6, 0x8A08, 0x306B, 0x306F, 96] @ js ''std::unordered_map<std::string, Stats>'' @
       [96, 0x3092, 0x4F7F, 0x3044, 0x307E, 0x3059, 0x3002, 0x30C1, 0x30E3, 0x30F3, 0x30CD, 0x30EB] @
       [0x540D, 0x3068, 0x5E74, 0x6708, 0x3092, 0x9023, 0x7D50, 0x3057, 0x305F, 0x6587, 0x5B57, 0x5217] @
       [0x3092, 0x30AD, 0x30FC, 0x306B, 0x3057, 0x3066, 0x3001, 96] @ js ''Stats'' @
       [96, 0x306E, 0x6700, 0x5C0F, 0x5024, 0x3001, 0x6700, 0x5927, 0x5024, 0x3001, 0x5408, 0x8A08] @
       [0x3001, 0x4EF6, 0x6570, 0x3001, 0x30B9, 0x30BF, 0x30F3, 0x30D7, 0x6570, 0x3092, 0x66F4, 0x65B0] @
       [0x3057, 0x307E, 0x3059, 0x3002] ],
     stage_diff = None,
     diff_note = None,
     times = naive_times,
     bottleneck = [0x5168, 0x884C, 0x3067, 0x547C, 0x3076, 96] @ js ''gmtime_r'' @ [96, 0x3068, 96] @ js ''strftime'' @
       [96],
     next_evidence = [0x30D5, 0x30EC, 0x30FC, 0x30E0, 0x30B0, 0x30E9, 0x30D5, 0x3067, 0x306F, 96] @ js ''__strftime_l'' @
       [96, 0x3060, 0x3051, 0x3067] @ js ''6.61%'' @ [0x3092, 0x5360, 0x3081, 0x3001, 96] @
       js ''strftime'' @ [96, 0x3068, 96] @ js ''gmtime_r'' @
       [96, 0x3082, 0x540C, 0x3058, 0x547C, 0x3073, 0x51FA, 0x3057, 0x7D4C, 0x8DEF, 0x306B, 0x73FE] @
       [0x308C, 0x307E, 0x3057, 0x305F, 0x3002, 0x4E3B, 0x30EB, 0x30FC, 0x30D7, 0x3092, 0x898B, 0x308B] @
       [0x3068, 0x3001, 0x3053, 0x308C, 0x3089, 0x3092] @ js ''10'' @
       [0x5104, 0x56DE, 0x547C, 0x3093, 0x3067, 0x3044, 0x307E, 0x3059, 0x3002, 0x5165, 0x529B, 0x5E74] @
       [0x304C] @ js ''2027'' @
       [0x5E74, 0x306B, 0x9650, 0x3089, 0x308C, 0x308B, 0x306E, 0x306B, 0x6C4E, 0x7528, 0x65E5, 0x6642] @
       [0x5909, 0x63DB, 0x3092, 0x4F7F, 0x3063, 0x3066, 0x3044, 0x308B, 0x305F, 0x3081, 0x3001, 0x6700] @
       [0x521D, 0x306E, 0x30DC, 0x30C8, 0x30EB, 0x30CD, 0x30C3, 0x30AF, 0x3068, 0x5224, 0x65AD, 0x3057] @
       [0x307E, 0x3059, 0x3002]\<rparr>"

definition fixed_month_stage :: "(jsstring \<Rightarrow> jsstring) \<Rightarrow> optimization_stage" where
  "fixed_month_stage raw = \<lparr>
     stage_id = js ''fixed-month'',
     stage_title = [0x5E74, 0x6708, 0x5909, 0x63DB, 0x3092, 0x56FA, 0x5B9A, 0x5883, 0x754C, 0x3078, 0x66FF, 0x3048] @
       [0x308B],
     short_title = [0x5E74, 0x6708, 0x5909, 0x63DB],
     stage_filename = js ''02-fixed-month.cpp'',
     flamegraph_focus = [js ''basic_stringstream'', js ''getline''],
     stage_source = raw (js ''./02-fixed-month.cpp''),
     goal = [96] @ js ''gmtime_r'' @ [96, 0x3068, 96] @ js ''strftime'' @ [96, 0x3092, 0x3001] @ js ''2027'' @
       [0x5E74, 0x306E, 0x6708, 0x5883, 0x754C, 0x3092, 0x6301, 0x3064, 96] @ js ''MONTH_START'' @
       [96, 0x3068, 0x306E, 0x6BD4, 0x8F03, 0x3078, 0x7F6E, 0x304D, 0x63DB, 0x3048, 0x307E, 0x3059] @
       [0x3002],
     diagnosis = [0x524D, 0x6BB5, 0x306E, 0x30D5, 0x30EC, 0x30FC, 0x30E0, 0x30B0, 0x30E9, 0x30D5, 0x3067, 0x6C4E] @
       [0x7528, 0x65E5, 0x6642, 0x5909, 0x63DB, 0x306E, 0x307E, 0x3068, 0x307E, 0x308A, 0x3092, 0x898B] @
       [0x3064, 0x3051, 0x3001, 0x30B3, 0x30FC, 0x30C9, 0x4E0A, 0x3067, 0x3082] @ js ''10'' @
       [0x5104, 0x56DE, 0x547C, 0x3070, 0x308C, 0x308B, 0x3053, 0x3068, 0x3092, 0x78BA, 0x8A8D, 0x3057] @
       [0x307E, 0x3057, 0x305F, 0x3002, 0x305D, 0x3053, 0x3067, 0x3001] @ js ''CSV'' @
       [0x306E, 0x8AAD, 0x307F, 0x65B9, 0x3068, 0x96C6, 0x8A08, 0x8868, 0x3092, 0x4FDD, 0x3063, 0x305F] @
       [0x307E, 0x307E, 0x65E5, 0x6642, 0x5909, 0x63DB, 0x3060, 0x3051, 0x3092, 0x5916, 0x3057, 0x307E] @
       [0x3059, 0x3002],
     verification = [0x5B9F, 0x884C, 0x6642, 0x9593, 0x306F] @ js ''420.06'' @ [0x79D2, 0x304B, 0x3089] @ js ''346.09'' @
       [0x79D2, 0x3078] @ js ''17.6%'' @
       [0x77ED, 0x7E2E, 0x3057, 0x307E, 0x3057, 0x305F, 0x3002, 0x547D, 0x4EE4, 0x6570, 0x3082] @
       js ''422'' @ [0x5104, 0x304B, 0x3089] @ js ''349'' @
       [0x5104, 0x3078, 0x6E1B, 0x3063, 0x305F, 0x305F, 0x3081, 0x3001, 0x65E5, 0x6642, 0x5909, 0x63DB] @
       [0x3092, 0x30DC, 0x30C8, 0x30EB, 0x30CD, 0x30C3, 0x30AF, 0x3068, 0x3057, 0x305F, 0x4EEE, 0x8AAC] @
       [0x3092, 0x63A1, 0x7528, 0x3067, 0x304D, 0x307E, 0x3059, 0x3002],
     explanation = [js ''2027'' @ [0x5E74, 0x306E, 0x5404, 0x6708, 0x304C, 0x59CB, 0x307E, 0x308B] @ js ''Unix'' @
       [0x79D2, 0x3092, 96] @ js ''MONTH_START'' @
       [96, 0x3078, 0x7F6E, 0x304D, 0x307E, 0x3059, 0x3002, 96] @ js ''month_index'' @
       [96, 0x306F, 0x6642, 0x523B, 0x3092, 0x3053, 0x306E, 0x5883, 0x754C, 0x3068, 0x6BD4, 0x8F03] @
       [0x3057, 0x3001] @ js ''0'' @ [0x304B, 0x3089] @ js ''11'' @
       [0x306E, 0x6708, 0x756A, 0x53F7, 0x3092, 0x8FD4, 0x3057, 0x307E, 0x3059, 0x3002],
       [96] @ js ''gmtime_r'' @ [96, 0x3068, 96] @ js ''strftime'' @ [96, 0x3092, 96] @
       js ''month_index(std::stoll(timestamp))'' @
       [96, 0x3078, 0x7F6E, 0x304D, 0x63DB, 0x3048, 0x307E, 0x3059, 0x3002] @ js ''CSV'' @
       [0x306E, 0x5206, 0x5272, 0x3068, 0x96C6, 0x8A08, 0x8868, 0x306F, 0x6B8B, 0x3059, 0x305F, 0x3081] @
       [0x3001, 0x65E5, 0x6642, 0x5909, 0x63DB, 0x3060, 0x3051, 0x306E, 0x52B9, 0x679C, 0x3092, 0x6E2C] @
       [0x308C, 0x307E, 0x3059, 0x3002] ],
     stage_diff = Some (js ''-#include <ctime>'' @ [10, 10] @ js ''+constexpr long long MONTH_START[] = { /* 12'' @
       [0x304B, 0x6708, 0x306E, 0x5883, 0x754C] @ js '' */ };'' @ [10] @
       js ''+constexpr const char *MONTH_LABEL[] = { /* 2027-01'' @ [0x304B, 0x3089] @
       js ''2027-12 */ };'' @ [10, 10] @ js ''-gmtime_r(&seconds, &utc);'' @ [10] @
       js ''-std::strftime(month, sizeof(month), '' @ [34] @ js ''%Y-%m'' @ [34] @ js '', &utc);'' @ [10] @
       js ''+int month = month_index(std::stoll(timestamp));''),
     diff_note = Some ([0x30DC, 0x30C8, 0x30EB, 0x30CD, 0x30C3, 0x30AF, 0x3060, 0x3063, 0x305F, 0x5E74, 0x6708, 0x5909] @
       [0x63DB, 0x3060, 0x3051, 0x3092, 0x4EA4, 0x63DB, 0x3057, 0x3066, 0x3044, 0x307E, 0x3059, 0x3002]),
     times = fixed_month_times,
     bottleneck = [0x5404, 0x884C, 0x3067, 0x69CB, 0x7BC9, 0x3059, 0x308B, 96] @ js ''std::stringstream'' @ [96],
     next_evidence = [0x6B21, 0x306E, 0x30D5, 0x30EC, 0x30FC, 0x30E0, 0x30B0, 0x30E9, 0x30D5, 0x306B, 0x306F, 0x3001] @
       js ''locale'' @ [0x306E, 0x30AD, 0x30E3, 0x30C3, 0x30B7, 0x30E5, 0x51E6, 0x7406, 0x304C] @
       js ''4.36%'' @ [0x73FE, 0x308C, 0x3001, 96] @ js ''std::stringstream'' @
       [96, 0x306E, 0x69CB, 0x7BC9, 0x3001, 0x7834, 0x68C4, 0x3001, 96] @ js ''std::getline'' @
       [96, 0x304C, 0x8907, 0x6570, 0x306E, 0x30B9, 0x30BF, 0x30C3, 0x30AF, 0x3078, 0x5E83, 0x304C] @
       [0x3063, 0x3066, 0x3044, 0x307E, 0x3059, 0x3002, 0x500B, 0x3005, 0x306E, 0x95A2, 0x6570, 0x3067] @
       [0x306F, 0x306A, 0x304F, 0x3001, 0x5404, 0x884C, 0x3067, 96] @ js ''std::stringstream'' @
       [96, 0x3092, 0x4F5C, 0x308B, 0x51E6, 0x7406, 0x5168, 0x4F53, 0x3092, 0x6B21, 0x306E, 0x5BFE] @
       [0x8C61, 0x306B, 0x3057, 0x307E, 0x3059, 0x3002]\<rparr>"

definition no_stringstream_stage :: "(jsstring \<Rightarrow> jsstring) \<Rightarrow> optimization_stage" where
  "no_stringstream_stage raw = \<lparr>
     stage_id = js ''no-stringstream'',
     stage_title = [0x30AB, 0x30F3, 0x30DE, 0x3092, 0x76F4, 0x63A5, 0x63A2, 0x3059],
     short_title = [0x5217, 0x3092, 0x76F4, 0x63A5, 0x63A2, 0x3059],
     stage_filename = js ''03-no-stringstream.cpp'',
     flamegraph_focus = [js ''__stoa'', js ''::substr''],
     stage_source = raw (js ''./03-no-stringstream.cpp''),
     goal = [96] @ js ''std::stringstream'' @ [96, 0x3092, 0x5916, 0x3057, 0x3001, 96] @
       js ''std::string::find'' @ [96, 0x3067] @ js ''3'' @
       [0x500B, 0x306E, 0x30AB, 0x30F3, 0x30DE, 0x3092, 0x76F4, 0x63A5, 0x63A2, 0x3057, 0x307E, 0x3059] @
       [0x3002, 0x6570, 0x5024, 0x5909, 0x63DB, 0x306F, 0x307E, 0x3060, 96] @ js ''stoi'' @
       [96, 0x3068, 96] @ js ''stoll'' @ [96, 0x306E, 0x307E, 0x307E, 0x3067, 0x3059, 0x3002],
     diagnosis = [0x524D, 0x6BB5, 0x3067, 0x306F, 0x3001] @ js ''stringstream'' @ [0x306B, 0x4F34, 0x3046] @
       js ''locale'' @ [0x51E6, 0x7406, 0x3068, 0x8907, 0x6570, 0x306E] @ js ''getline'' @
       [0x304C, 0x30D5, 0x30EC, 0x30FC, 0x30E0, 0x30B0, 0x30E9, 0x30D5, 0x3078, 0x73FE, 0x308C, 0x307E] @
       [0x3057, 0x305F, 0x3002, 0x5217, 0x306E, 0x533A, 0x5207, 0x308A, 0x306F, 0x30AB, 0x30F3, 0x30DE] @
       js ''3'' @
       [0x500B, 0x3060, 0x3051, 0x306A, 0x306E, 0x3067, 0x3001, 0x6C4E, 0x7528, 0x30B9, 0x30C8, 0x30EA] @
       [0x30FC, 0x30E0, 0x3092, 0x4F7F, 0x308F, 0x305A, 0x4F4D, 0x7F6E, 0x3092, 0x76F4, 0x63A5, 0x63A2] @
       [0x3057, 0x307E, 0x3059, 0x3002],
     verification = [0x5B9F, 0x884C, 0x6642, 0x9593, 0x306F] @ js ''346.09'' @ [0x79D2, 0x304B, 0x3089] @ js ''241.71'' @
       [0x79D2, 0x3078] @ js ''30.2%'' @
       [0x77ED, 0x7E2E, 0x3057, 0x307E, 0x3057, 0x305F, 0x3002, 0x547D, 0x4EE4, 0x6570, 0x306F] @
       js ''349'' @ [0x5104, 0x304B, 0x3089] @ js ''209'' @
       [0x5104, 0x3001, 0x5206, 0x5C90, 0x6570, 0x306F] @ js ''77.2'' @ [0x5104, 0x304B, 0x3089] @
       js ''48.7'' @
       [0x5104, 0x3078, 0x6E1B, 0x308A, 0x3001, 0x5217, 0x5206, 0x5272, 0x306E, 0x4ED5, 0x4E8B, 0x3092] @
       [0x5B9F, 0x969B, 0x306B, 0x524A, 0x308C, 0x3066, 0x3044, 0x307E, 0x3059, 0x3002],
     explanation = [ [0x884C, 0x5168, 0x4F53, 0x3092, 0x8AAD, 0x3080, 96] @ js ''std::getline'' @
       [96, 0x306F, 0x6B8B, 0x3057, 0x3001, 96] @ js ''line.find('' @ [39] @ js '','' @ [39] @ js '')'' @
       [96, 0x3092] @ js ''3'' @
       [0x56DE, 0x4F7F, 0x3063, 0x3066, 0x5217, 0x306E, 0x5883, 0x754C, 0x3092, 0x6C42, 0x3081, 0x307E] @
       [0x3059, 0x3002, 96] @ js ''substr'' @
       [96, 0x3067, 0x5404, 0x5217, 0x3092, 0x53D6, 0x308A, 0x51FA, 0x305B, 0x3070, 0x3001, 96] @
       js ''std::stringstream'' @ [96, 0x306E, 0x72B6, 0x614B, 0x7BA1, 0x7406, 0x3068] @ js ''locale'' @
       [0x51E6, 0x7406, 0x3092, 0x901A, 0x308A, 0x307E, 0x305B, 0x3093, 0x3002],
       [0x6570, 0x5024, 0x5217, 0x306E, 96] @ js ''substr'' @ [96, 0x3068, 96] @ js ''std::stoi'' @
       [96, 0x3001, 96] @ js ''std::stoll'' @
       [96, 0x306F, 0x610F, 0x56F3, 0x7684, 0x306B, 0x6B8B, 0x3057, 0x307E, 0x3059, 0x3002, 0x5217] @
       [0x5206, 0x5272, 0x4EE5, 0x5916, 0x3092, 0x5909, 0x3048, 0x306A, 0x3044, 0x3053, 0x3068, 0x3067] @
       [0x3001, 96] @ js ''std::stringstream'' @
       [96, 0x3092, 0x5916, 0x3057, 0x305F, 0x52B9, 0x679C, 0x3060, 0x3051, 0x3092, 0x6BD4, 0x8F03] @
       [0x3057, 0x307E, 0x3059, 0x3002] ],
     stage_diff = Some (js ''-std::stringstream row(line);'' @ [10] @
       js ''-std::string timestamp, channel, length_text, stamps_text;'' @ [10] @
       js ''-std::getline(row, timestamp, '' @ [39] @ js '','' @ [39] @ js '');'' @ [10] @
       js ''-std::getline(row, channel, '' @ [39] @ js '','' @ [39] @ js '');'' @ [10] @
       js ''-std::getline(row, length_text, '' @ [39] @ js '','' @ [39] @ js '');'' @ [10] @
       js ''-std::getline(row, stamps_text, '' @ [39] @ js '','' @ [39] @ js '');'' @ [10] @
       js ''+size_t comma1 = line.find('' @ [39] @ js '','' @ [39] @ js '');'' @ [10] @
       js ''+size_t comma2 = line.find('' @ [39] @ js '','' @ [39] @ js '', comma1 + 1);'' @ [10] @
       js ''+size_t comma3 = line.find('' @ [39] @ js '','' @ [39] @ js '', comma2 + 1);'' @ [10] @
       js ''+std::string timestamp = line.substr(0, comma1);'' @ [10] @
       js ''+std::string channel = line.substr(comma1 + 1, comma2 - comma1 - 1);''),
     diff_note = Some ([0x30DC, 0x30C8, 0x30EB, 0x30CD, 0x30C3, 0x30AF, 0x3060, 0x3063, 0x305F, 0x5217, 0x5206, 0x5272] @
       [0x3060, 0x3051, 0x3092, 0x4EA4, 0x63DB, 0x3057, 0x3066, 0x3044, 0x307E, 0x3059, 0x3002]),
     times = no_stringstream_times,
     bottleneck = [0x6570, 0x5024, 0x5217, 0x306E, 0x4E00, 0x6642, 0x6587, 0x5B57, 0x5217, 0x3068, 96] @ js ''stoi'' @
       [96, 0x3001, 96] @ js ''stoll'' @ [96],
     next_evidence = [0x65B0, 0x3057, 0x3044, 0x30D5, 0x30EC, 0x30FC, 0x30E0, 0x30B0, 0x30E9, 0x30D5, 0x3067, 0x306F] @
       [0x3001, 96] @ js ''stoi'' @ [96, 0x3068, 96] @ js ''stoll'' @
       [96, 0x306E, 0x5185, 0x90E8, 0x51E6, 0x7406, 0x304C, 0x5408, 0x8A08] @ js ''13.21%'' @ [0x3001, 96] @
       js ''substr'' @ [96, 0x304C] @ js ''3.52%'' @
       [0x3092, 0x5360, 0x3081, 0x307E, 0x3057, 0x305F, 0x3002, 0x6570, 0x5024, 0x3092, 0x8AAD, 0x3080] @
       [0x524D, 0x306B, 0x4E00, 0x6642, 0x6587, 0x5B57, 0x5217, 0x3092, 0x4F5C, 0x308A, 0x3001, 0x6C4E] @
       [0x7528, 0x5909, 0x63DB, 0x3078, 0x6E21, 0x3059, 0x7D4C, 0x8DEF, 0x304C, 0x6B21, 0x306E, 0x30DC] @
       [0x30C8, 0x30EB, 0x30CD, 0x30C3, 0x30AF, 0x3067, 0x3059, 0x3002]\<rparr>"

definition direct_numbers_stage :: "(jsstring \<Rightarrow> jsstring) \<Rightarrow> optimization_stage" where
  "direct_numbers_stage raw = \<lparr>
     stage_id = js ''direct-numbers'',
     stage_title = [0x6570, 0x5B57, 0x3092, 0x305D, 0x306E, 0x5834, 0x3067, 0x6574, 0x6570, 0x3078, 0x5909, 0x3048] @
       [0x308B],
     short_title = [0x6570, 0x5024, 0x3092, 0x76F4, 0x63A5, 0x8AAD, 0x3080],
     stage_filename = js ''04-direct-numbers.cpp'',
     flamegraph_focus = [js ''_M_equals'', js ''_Hash_bytes'', js ''_M_append''],
     stage_source = raw (js ''./04-direct-numbers.cpp''),
     goal = [0x6570, 0x5024, 0x5217, 0x306E, 96] @ js ''substr'' @ [96, 0x3001, 96] @ js ''stoi'' @
       [96, 0x3001, 96] @ js ''stoll'' @
       [96, 0x3092, 0x5916, 0x3057, 0x3001, 0x6570, 0x5B57, 0x3092, 0x5DE6, 0x304B, 0x3089, 0x8AAD] @
       [0x3080, 96] @ js ''parse_number'' @
       [96, 0x3078, 0x7F6E, 0x304D, 0x63DB, 0x3048, 0x307E, 0x3059, 0x3002],
     diagnosis = [0x524D, 0x6BB5, 0x306E, 0x30D5, 0x30EC, 0x30FC, 0x30E0, 0x30B0, 0x30E9, 0x30D5, 0x3067, 0x3001] @
       [0x6570, 0x5024, 0x5909, 0x63DB, 0x3068] @ js ''substr'' @
       [0x306E, 0x30B9, 0x30BF, 0x30C3, 0x30AF, 0x304C, 0x307E, 0x3068, 0x307E, 0x3063, 0x3066, 0x6B8B] @
       [0x308A, 0x307E, 0x3057, 0x305F, 0x3002, 0x5165, 0x529B, 0x306F, 0x975E, 0x8CA0, 0x306E] @
       js ''10'' @
       [0x9032, 0x6574, 0x6570, 0x306B, 0x9650, 0x3089, 0x308C, 0x308B, 0x305F, 0x3081, 0x3001, 0x6587] @
       [0x5B57, 0x5217, 0x3092, 0x4F5C, 0x3089, 0x305A, 0x6570, 0x5B57, 0x3092, 0x5DE6, 0x304B, 0x3089] @
       [0x76F4, 0x63A5, 0x8AAD, 0x307F, 0x307E, 0x3059, 0x3002],
     verification = [0x5B9F, 0x884C, 0x6642, 0x9593, 0x306F] @ js ''241.71'' @ [0x79D2, 0x304B, 0x3089] @ js ''184.06'' @
       [0x79D2, 0x3078] @ js ''23.9%'' @
       [0x77ED, 0x7E2E, 0x3057, 0x307E, 0x3057, 0x305F, 0x3002, 0x547D, 0x4EE4, 0x6570, 0x306F] @
       js ''209'' @ [0x5104, 0x304B, 0x3089] @ js ''123'' @
       [0x5104, 0x3001, 0x5206, 0x5C90, 0x6570, 0x306F] @ js ''48.7'' @ [0x5104, 0x304B, 0x3089] @
       js ''26.5'' @ [0x5104, 0x3078, 0x6E1B, 0x308A, 0x307E, 0x3057, 0x305F, 0x3002],
     explanation = [ [96] @ js ''parse_number'' @
       [96, 0x306F, 0x5217, 0x306E, 0x5148, 0x982D, 0x304B, 0x3089, 0x672B, 0x5C3E, 0x307E, 0x3067] @
       [0x6570, 0x5B57, 0x3092, 0x8AAD, 0x307F, 0x3001, 96] @ js ''value = value * 10 + digit'' @
       [96, 0x3067, 0x6574, 0x6570, 0x3092, 0x7D44, 0x307F, 0x7ACB, 0x3066, 0x307E, 0x3059, 0x3002] @
       [0x5165, 0x529B, 0x304C, 0x975E, 0x8CA0, 0x306E] @ js ''10'' @
       [0x9032, 0x6574, 0x6570, 0x3060, 0x3068, 0x4FDD, 0x8A3C, 0x3055, 0x308C, 0x3066, 0x3044, 0x308B] @
       [0x305F, 0x3081, 0x3001, 0x7B26, 0x53F7, 0x3001, 0x7A7A, 0x767D, 0x3001, 0x57FA, 0x6570, 0x3092] @
       [0x6271, 0x3046, 0x6C4E, 0x7528, 0x5909, 0x63DB, 0x306F, 0x4E0D, 0x8981, 0x3067, 0x3059, 0x3002],
       [0x6642, 0x523B, 0x3001, 0x30E1, 0x30C3, 0x30BB, 0x30FC, 0x30B8, 0x9577, 0x3001, 0x30B9, 0x30BF] @
       [0x30F3, 0x30D7, 0x6570, 0x306E, 96] @ js ''substr'' @ [96, 0x3068, 96] @ js ''std::stoi'' @
       [96, 0x3001, 96] @ js ''std::stoll'' @ [96, 0x3092, 96] @ js ''parse_number'' @
       [96, 0x3078, 0x7F6E, 0x304D, 0x63DB, 0x3048, 0x307E, 0x3059, 0x3002, 0x30C1, 0x30E3, 0x30F3] @
       [0x30CD, 0x30EB, 0x540D, 0x3060, 0x3051, 0x306F, 0x96C6, 0x8A08, 0x30AD, 0x30FC, 0x3068, 0x3057] @
       [0x3066, 0x5FC5, 0x8981, 0x306A, 0x306E, 0x3067, 0x3001, 0x307E, 0x3060, 96] @ js ''std::string'' @
       [96, 0x3078, 0x30B3, 0x30D4, 0x30FC, 0x3057, 0x307E, 0x3059, 0x3002] ],
     stage_diff = Some (js ''-std::string timestamp = line.substr(0, comma1);'' @ [10] @
       js ''-std::string length_text = line.substr(comma2 + 1, comma3 - comma2 - 1);'' @ [10] @
       js ''-std::string stamps_text = line.substr(comma3 + 1);'' @ [10] @
       js ''-int length = std::stoi(length_text);'' @ [10] @ js ''-int stamps = std::stoi(stamps_text);'' @
       [10] @ js ''+long long timestamp = parse_number(line, 0, comma1);'' @ [10] @
       js ''+int length = parse_number(line, comma2 + 1, comma3);'' @ [10] @
       js ''+int stamps = parse_number(line, comma3 + 1, line.size());''),
     diff_note = Some ([0x30DC, 0x30C8, 0x30EB, 0x30CD, 0x30C3, 0x30AF, 0x3060, 0x3063, 0x305F, 0x6570, 0x5024, 0x5217] @
       [0x306E, 0x751F, 0x6210, 0x3068, 0x5909, 0x63DB, 0x3060, 0x3051, 0x3092, 0x4EA4, 0x63DB, 0x3057] @
       [0x3066, 0x3044, 0x307E, 0x3059, 0x3002]),
     times = direct_numbers_times,
     bottleneck = [0x30C1, 0x30E3, 0x30F3, 0x30CD, 0x30EB, 0x540D, 0x3068, 0x5E74, 0x6708, 0x3092, 0x9023, 0x7D50] @
       [0x3059, 0x308B, 96] @ js ''std::string'' @ [96, 0x306E, 0x8907, 0x5408, 0x30AD, 0x30FC],
     next_evidence = [0x65B0, 0x3057, 0x3044, 0x30D5, 0x30EC, 0x30FC, 0x30E0, 0x30B0, 0x30E9, 0x30D5, 0x3067, 0x306F] @
       [0x3001, 0x30CF, 0x30C3, 0x30B7, 0x30E5, 0x8868, 0x306E, 0x30AD, 0x30FC, 0x6BD4, 0x8F03, 0x304C] @
       js ''10.77%'' @ [0x3001, 96] @ js ''std::string::append'' @ [96, 0x304C] @ js ''4.82%'' @
       [0x3001, 96] @ js ''std::_Hash_bytes'' @ [96, 0x304C] @ js ''4.72%'' @
       [0x3092, 0x5360, 0x3081, 0x307E, 0x3057, 0x305F, 0x3002, 0x4E3B, 0x30EB, 0x30FC, 0x30D7, 0x3092] @
       [0x898B, 0x308B, 0x3068, 0x3001, 0x30C1, 0x30E3, 0x30F3, 0x30CD, 0x30EB, 0x540D, 0x3068, 0x5E74] @
       [0x6708, 0x3092, 0x6BCE, 0x884C, 0x9023, 0x7D50, 0x3057, 0x3066, 0x304B, 0x3089, 0x8868, 0x3092] @
       [0x5F15, 0x3044, 0x3066, 0x3044, 0x307E, 0x3059, 0x3002]\<rparr>"

definition split_key_stage :: "(jsstring \<Rightarrow> jsstring) \<Rightarrow> optimization_stage" where
  "split_key_stage raw = \<lparr>
     stage_id = js ''split-key'',
     stage_title = [0x30C1, 0x30E3, 0x30F3, 0x30CD, 0x30EB, 0x3068, 0x6708, 0x3092, 0x5225, 0x3005, 0x306B, 0x6301] @
       [0x3064],
     short_title = [0x8907, 0x5408, 0x30AD, 0x30FC, 0x3092, 0x5916, 0x3059],
     stage_filename = js ''05-split-key.cpp'',
     flamegraph_focus = [js ''_M_equals'', js ''_Hash_bytes''],
     stage_source = raw (js ''./05-split-key.cpp''),
     goal = [0x5024, 0x3092, 96] @ js ''std::array<Stats, 12>'' @
       [96, 0x3078, 0x5909, 0x3048, 0x3001, 0x6708, 0x3092, 0x914D, 0x5217, 0x306E, 0x6DFB, 0x5B57] @
       [0x3068, 0x3057, 0x3066, 0x6301, 0x3064, 0x3053, 0x3068, 0x3067, 0x8907, 0x5408, 0x30AD, 0x30FC] @
       [0x3092, 0x306A, 0x304F, 0x3057, 0x307E, 0x3059, 0x3002],
     diagnosis = [0x524D, 0x6BB5, 0x3067, 0x306F, 0x3001, 0x8907, 0x5408, 0x30AD, 0x30FC, 0x306E, 0x751F, 0x6210] @
       [0x3001, 0x30CF, 0x30C3, 0x30B7, 0x30E5, 0x8A08, 0x7B97, 0x3001, 0x6BD4, 0x8F03, 0x304C, 0x30D5] @
       [0x30EC, 0x30FC, 0x30E0, 0x30B0, 0x30E9, 0x30D5, 0x306E, 0x5E83, 0x3044, 0x90E8, 0x5206, 0x3092] @
       [0x5360, 0x3081, 0x307E, 0x3057, 0x305F, 0x3002, 0x6708, 0x306F] @ js ''12'' @
       [0x7A2E, 0x985E, 0x3057, 0x304B, 0x306A, 0x3044, 0x305F, 0x3081, 0x3001, 0x30C1, 0x30E3, 0x30F3] @
       [0x30CD, 0x30EB, 0x3054, 0x3068, 0x306E, 0x914D, 0x5217, 0x3078, 0x5206, 0x96E2, 0x3057, 0x3066] @
       [0x9023, 0x7D50, 0x3092, 0x306A, 0x304F, 0x3057, 0x307E, 0x3059, 0x3002],
     verification = [0x5B9F, 0x884C, 0x6642, 0x9593, 0x306F] @ js ''184.06'' @ [0x79D2, 0x304B, 0x3089] @ js ''98.18'' @
       [0x79D2, 0x3078] @ js ''46.7%'' @
       [0x77ED, 0x7E2E, 0x3057, 0x307E, 0x3057, 0x305F, 0x3002, 0x4ECA, 0x56DE, 0x3082, 0x96C6, 0x8A08] @
       [0x30AD, 0x30FC, 0x4EE5, 0x5916, 0x3092, 0x5909, 0x3048, 0x3066, 0x3044, 0x306A, 0x3044, 0x305F] @
       [0x3081, 0x3001, 0x77ED, 0x7E2E, 0x5206, 0x3092, 0x30AD, 0x30FC, 0x8868, 0x73FE, 0x306E, 0x52B9] @
       [0x679C, 0x3068, 0x3057, 0x3066, 0x5224, 0x65AD, 0x3067, 0x304D, 0x307E, 0x3059, 0x3002],
     explanation = [ [0x5024, 0x3092, 96] @ js ''std::array<Stats, 12>'' @
       [96, 0x306B, 0x5909, 0x3048, 0x3001, 0x30CF, 0x30C3, 0x30B7, 0x30E5, 0x8868, 0x306E, 0x30AD] @
       [0x30FC, 0x3092, 0x30C1, 0x30E3, 0x30F3, 0x30CD, 0x30EB, 0x540D, 0x3060, 0x3051, 0x306B, 0x3057] @
       [0x307E, 0x3059, 0x3002, 0x6708, 0x756A, 0x53F7, 0x306F, 0x914D, 0x5217, 0x306E, 0x6DFB, 0x5B57] @
       [0x3068, 0x3057, 0x3066, 0x4F7F, 0x3046, 0x305F, 0x3081, 0x3001, 96] @ js ''channel + '' @ [39] @
       js '','' @ [39] @ js '' + month'' @
       [96, 0x3068, 0x3044, 0x3046, 0x6587, 0x5B57, 0x5217, 0x3092, 0x4F5C, 0x308B, 0x5FC5, 0x8981] @
       [0x304C, 0x306A, 0x304F, 0x306A, 0x308A, 0x307E, 0x3059, 0x3002],
       [0x5E74, 0x6708, 0x30E9, 0x30D9, 0x30EB, 0x306F, 0x7D50, 0x679C, 0x3092, 0x66F8, 0x304D, 0x51FA] @
       [0x3059, 0x3068, 0x304D, 0x3060, 0x3051, 96] @ js ''MONTH_LABEL[month]'' @
       [96, 0x304B, 0x3089, 0x53D6, 0x5F97, 0x3057, 0x307E, 0x3059, 0x3002, 0x4E3B, 0x30EB, 0x30FC] @
       [0x30D7, 0x3067, 0x306F, 0x77ED, 0x3044, 0x30C1, 0x30E3, 0x30F3, 0x30CD, 0x30EB, 0x540D, 0x3060] @
       [0x3051, 0x3092, 0x30CF, 0x30C3, 0x30B7, 0x30E5, 0x8A08, 0x7B97, 0x3057, 0x307E, 0x3059, 0x3002] ],
     stage_diff = Some (js ''-std::unordered_map<std::string, Stats> stats;'' @ [10] @
       js ''+std::unordered_map<std::string, std::array<Stats, 12>> stats;'' @ [10, 10] @
       js ''-int month = month_index(timestamp);'' @ [10] @ js ''-Stats &s = stats[channel + '' @ [34] @
       js '','' @ [34] @ js '' + MONTH_LABEL[month] ];'' @ [10] @
       js ''+Stats &s = stats[channel][month_index(timestamp)];''),
     diff_note = Some ([0x30DC, 0x30C8, 0x30EB, 0x30CD, 0x30C3, 0x30AF, 0x3060, 0x3063, 0x305F, 0x96C6, 0x8A08, 0x30AD] @
       [0x30FC, 0x306E, 0x8868, 0x73FE, 0x3060, 0x3051, 0x3092, 0x5909, 0x66F4, 0x3057, 0x3066, 0x3044] @
       [0x307E, 0x3059, 0x3002]),
     times = split_key_times,
     bottleneck = [0x6BCE, 0x884C, 0x306E, 0x30C1, 0x30E3, 0x30F3, 0x30CD, 0x30EB, 0x540D, 0x30B3, 0x30D4, 0x30FC] @
       [0x3068, 96] @ js ''std::unordered_map'' @ [96, 0x306E, 0x691C, 0x7D22],
     next_evidence = [0x8907, 0x5408, 0x30AD, 0x30FC, 0x3092, 0x5916, 0x3057, 0x305F, 0x5F8C, 0x3082, 0x3001, 0x30D5] @
       [0x30EC, 0x30FC, 0x30E0, 0x30B0, 0x30E9, 0x30D5, 0x3067, 0x306F, 0x30CF, 0x30C3, 0x30B7, 0x30E5] @
       [0x8868, 0x306E, 0x30AD, 0x30FC, 0x6BD4, 0x8F03, 0x304C] @ js ''8.56%'' @
       [0x3001, 0x30CF, 0x30C3, 0x30B7, 0x30E5, 0x8A08, 0x7B97, 0x304C] @ js ''5.21%'' @
       [0x3092, 0x5360, 0x3081, 0x307E, 0x3059, 0x3002, 0x30B3, 0x30FC, 0x30C9, 0x4E0A, 0x3067, 0x306F] @
       [0x30C1, 0x30E3, 0x30F3, 0x30CD, 0x30EB, 0x540D, 0x3092, 0x6BCE, 0x884C, 0x30B3, 0x30D4, 0x30FC] @
       [0x3057, 0x3066, 0x3044, 0x308B, 0x305F, 0x3081, 0x3001, 0x5165, 0x529B, 0x4ED5, 0x69D8, 0x306B] @
       [0x5408, 0x308F, 0x305B, 0x305F, 0x5358, 0x7D14, 0x306A, 0x8868, 0x3092, 0x6B21, 0x306B, 0x8A66] @
       [0x3057, 0x307E, 0x3059, 0x3002]\<rparr>"

definition flat_map_stage :: "(jsstring \<Rightarrow> jsstring) \<Rightarrow> optimization_stage" where
  "flat_map_stage raw = \<lparr>
     stage_id = js ''flat-map'',
     stage_title = [0x30C1, 0x30E3, 0x30F3, 0x30CD, 0x30EB, 0x540D, 0x3092, 0x521D, 0x56DE, 0x3060, 0x3051, 0x4FDD] @
       [0x5B58, 0x3059, 0x308B],
     short_title = [0x5C02, 0x7528, 0x30CF, 0x30C3, 0x30B7, 0x30E5, 0x8868],
     stage_filename = js ''06-flat-map.cpp'',
     flamegraph_focus = [js ''getline''],
     stage_source = raw (js ''./06-flat-map.cpp''),
     goal = [96] @ js ''std::unordered_map'' @ [96, 0x3092, 0x3001] @ js ''16,384'' @
       [0x67A0, 0x306E, 0x958B, 0x756A, 0x5730, 0x6CD5, 0x3067, 0x5B9F, 0x88C5, 0x3057, 0x305F, 96] @
       js ''FlatMap'' @ [96, 0x3078, 0x7F6E, 0x304D, 0x63DB, 0x3048, 0x307E, 0x3059, 0x3002],
     diagnosis = [0x524D, 0x6BB5, 0x3067, 0x306F, 0x3001, 0x8907, 0x5408, 0x30AD, 0x30FC, 0x3092, 0x5916, 0x3057] @
       [0x3066, 0x3082, 0x6C4E, 0x7528, 0x30CF, 0x30C3, 0x30B7, 0x30E5, 0x8868, 0x306E, 0x6BD4, 0x8F03] @
       [0x3068, 0x30CF, 0x30C3, 0x30B7, 0x30E5, 0x8A08, 0x7B97, 0x304C, 0x6B8B, 0x308A, 0x307E, 0x3057] @
       [0x305F, 0x3002, 0x30C1, 0x30E3, 0x30F3, 0x30CD, 0x30EB, 0x6570, 0x304C, 0x6700, 0x5927] @
       js ''10,000'' @ [0x3068, 0x5206, 0x304B, 0x3063, 0x3066, 0x3044, 0x308B, 0x305F, 0x3081, 0x3001] @
       js ''16,384'' @
       [0x67A0, 0x306E, 0x958B, 0x756A, 0x5730, 0x6CD5, 0x3078, 0x66FF, 0x3048, 0x307E, 0x3059, 0x3002],
     verification = [0x5B9F, 0x884C, 0x6642, 0x9593, 0x306F] @ js ''98.18'' @ [0x79D2, 0x304B, 0x3089] @ js ''73.46'' @
       [0x79D2, 0x3078] @ js ''25.2%'' @
       [0x77ED, 0x7E2E, 0x3057, 0x307E, 0x3057, 0x305F, 0x3002, 0x547D, 0x4EE4, 0x6570, 0x3082] @
       js ''87.9'' @ [0x5104, 0x304B, 0x3089] @ js ''72.3'' @
       [0x5104, 0x3078, 0x6E1B, 0x308A, 0x3001, 0x5C02, 0x7528, 0x8868, 0x3078, 0x66FF, 0x3048, 0x305F] @
       [0x52B9, 0x679C, 0x3092, 0x78BA, 0x8A8D, 0x3067, 0x304D, 0x307E, 0x3057, 0x305F, 0x3002],
     explanation = [ [96] @ js ''FlatMap'' @ [96, 0x306F] @ js ''16,384'' @ [0x500B, 0x306E, 96] @ js ''Entry'' @
       [96, 0x3092, 0x5148, 0x306B, 0x78BA, 0x4FDD, 0x3057, 0x307E, 0x3059, 0x3002] @ js ''CSV'' @
       [0x4E0A, 0x306E, 0x30C1, 0x30E3, 0x30F3, 0x30CD, 0x30EB, 0x540D, 0x304B, 0x3089] @ js ''FNV-1a'' @
       [0x30CF, 0x30C3, 0x30B7, 0x30E5, 0x3092, 0x8A08, 0x7B97, 0x3057, 0x3001, 0x5BFE, 0x5FDC, 0x3059] @
       [0x308B, 0x4F4D, 0x7F6E, 0x304C, 0x4F7F, 0x7528, 0x4E2D, 0x306A, 0x3089, 0x7A7A, 0x304D, 0x304C] @
       [0x898B, 0x3064, 0x304B, 0x308B, 0x307E, 0x3067, 0x6B21, 0x306E, 0x4F4D, 0x7F6E, 0x3092, 0x8ABF] @
       [0x3079, 0x307E, 0x3059, 0x3002],
       [0x65E2, 0x5B58, 0x30C1, 0x30E3, 0x30F3, 0x30CD, 0x30EB, 0x3067, 0x306F] @ js ''CSV'' @
       [0x4E0A, 0x306E, 0x6587, 0x5B57, 0x5217, 0x3068, 0x4FDD, 0x5B58, 0x6E08, 0x307F, 0x306E, 0x540D] @
       [0x524D, 0x3092, 0x76F4, 0x63A5, 0x6BD4, 0x8F03, 0x3057, 0x307E, 0x3059, 0x3002, 96] @
       js ''std::string::assign'' @
       [96, 0x3092, 0x547C, 0x3076, 0x306E, 0x306F, 0x65B0, 0x3057, 0x3044, 0x30C1, 0x30E3, 0x30F3] @
       [0x30CD, 0x30EB, 0x3092, 0x521D, 0x3081, 0x3066, 0x898B, 0x3064, 0x3051, 0x305F, 0x3068, 0x304D] @
       [0x3060, 0x3051, 0x3067, 0x3059, 0x3002] ],
     stage_diff = Some (js ''-std::unordered_map<std::string, std::array<Stats, 12>> stats;'' @ [10] @
       js ''-std::string channel = line.substr(comma1 + 1, comma2 - comma1 - 1);'' @ [10] @
       js ''-Stats &s = stats[channel][month_index(timestamp)];'' @ [10] @ js ''+FlatMap stats;'' @ [10] @
       js ''+Entry &entry = stats.find_or_insert(line.data() + comma1 + 1,'' @ [10] @
       js ''+                                    comma2 - comma1 - 1);'' @ [10] @
       js ''+Stats &s = entry.months[month_index(timestamp)];''),
     diff_note = Some ([0x884C, 0x306E, 0x8AAD, 0x307F, 0x65B9, 0x306F, 0x5909, 0x3048, 0x305A, 0x3001, 0x30DC, 0x30C8] @
       [0x30EB, 0x30CD, 0x30C3, 0x30AF, 0x3060, 0x3063, 0x305F, 0x96C6, 0x8A08, 0x8868, 0x3060, 0x3051] @
       [0x3092, 0x4EA4, 0x63DB, 0x3057, 0x3066, 0x3044, 0x307E, 0x3059, 0x3002]),
     times = flat_map_times,
     bottleneck = [96] @ js ''std::getline'' @ [96, 0x304C, 0x884C, 0x3054, 0x3068, 0x306B, 0x884C, 0x3046, 96] @
       js ''std::string'' @ [96, 0x3078, 0x306E, 0x30B3, 0x30D4, 0x30FC],
     next_evidence = [0x65B0, 0x3057, 0x3044, 0x30D5, 0x30EC, 0x30FC, 0x30E0, 0x30B0, 0x30E9, 0x30D5, 0x3067, 0x306F] @
       [0x3001, 0x5C02, 0x7528, 0x8868, 0x306E, 0x691C, 0x7D22, 0x304C] @ js ''20.48%'' @ [0x3001] @
       js ''getline'' @ [0x304C] @ js ''19.62%'' @
       [0x3067, 0x3057, 0x305F, 0x3002, 0x8868, 0x306F, 0x4ECA, 0x66FF, 0x3048, 0x305F, 0x3070, 0x304B] @
       [0x308A, 0x306A, 0x306E, 0x3067, 0x3001, 0x72EC, 0x7ACB, 0x3057, 0x3066, 0x5916, 0x305B, 0x308B] @
       js ''getline'' @
       [0x306E, 0x884C, 0x30B3, 0x30D4, 0x30FC, 0x3092, 0x6B21, 0x306E, 0x6BD4, 0x8F03, 0x5BFE, 0x8C61] @
       [0x306B, 0x3057, 0x307E, 0x3059, 0x3002]\<rparr>"

definition mmap_stage :: "(jsstring \<Rightarrow> jsstring) \<Rightarrow> optimization_stage" where
  "mmap_stage raw = \<lparr>
     stage_id = js ''mmap'',
     stage_title = [0x30D5, 0x30A1, 0x30A4, 0x30EB, 0x4E0A, 0x306E, 0x6587, 0x5B57, 0x3092, 0x76F4, 0x63A5, 0x8AAD] @
       [0x3080],
     short_title = [0x884C, 0x30B3, 0x30D4, 0x30FC, 0x3092, 0x5916, 0x3059],
     stage_filename = js ''07-mmap.cpp'',
     flamegraph_focus = [js ''month_index''],
     stage_source = raw (js ''./07-mmap.cpp''),
     goal = [96] @ js ''std::getline'' @ [96, 0x3092, 96] @ js ''mmap'' @
       [96, 0x3068, 0x30DD, 0x30A4, 0x30F3, 0x30BF, 0x8D70, 0x67FB, 0x3078, 0x7F6E, 0x304D, 0x63DB] @
       [0x3048, 0x3001, 0x884C, 0x3092, 96] @ js ''std::string'' @
       [96, 0x3078, 0x30B3, 0x30D4, 0x30FC, 0x3059, 0x308B, 0x51E6, 0x7406, 0x3092, 0x306A, 0x304F] @
       [0x3057, 0x307E, 0x3059, 0x3002],
     diagnosis = [0x524D, 0x6BB5, 0x306E, 0x30D5, 0x30EC, 0x30FC, 0x30E0, 0x30B0, 0x30E9, 0x30D5, 0x3067, 0x306F] @
       [0x3001] @ js ''getline'' @ [0x304C] @ js ''19.62%'' @
       [0x3092, 0x5360, 0x3081, 0x307E, 0x3057, 0x305F, 0x3002, 0x96C6, 0x8A08, 0x65B9, 0x6CD5, 0x3092] @
       [0x4FDD, 0x3063, 0x305F, 0x307E, 0x307E, 0x5165, 0x529B, 0x30D5, 0x30A1, 0x30A4, 0x30EB, 0x3092] @
       js ''mmap'' @
       [0x3057, 0x3001, 0x30AB, 0x30F3, 0x30DE, 0x3068, 0x6539, 0x884C, 0x3092, 0x30D5, 0x30A1, 0x30A4] @
       [0x30EB, 0x4E0A, 0x3067, 0x76F4, 0x63A5, 0x63A2, 0x3057, 0x307E, 0x3059, 0x3002],
     verification = [0x672C, 0x756A, 0x3068, 0x540C, 0x3058] @ js ''3'' @
       [0x56DE, 0x306E, 0x4E2D, 0x592E, 0x5024, 0x306F] @ js ''46.66'' @ [0x79D2, 0x3067, 0x3001] @
       js ''73.46'' @ [0x79D2, 0x304B, 0x3089] @ js ''36.5%'' @
       [0x77ED, 0x7E2E, 0x3057, 0x307E, 0x3057, 0x305F, 0x3002, 0x547D, 0x4EE4, 0x6570, 0x306F] @
       js ''72.3'' @ [0x5104, 0x304B, 0x3089] @ js ''47.1'' @ [0x5104, 0x3078, 0x6E1B, 0x308A, 0x3001] @
       js ''1B'' @ [0x8A08, 0x6E2C, 0x306E] @ js ''system'' @ [0x6642, 0x9593, 0x3082] @ js ''4.63'' @
       [0x79D2, 0x304B, 0x3089] @ js ''0.77'' @
       [0x79D2, 0x3078, 0x4E0B, 0x304C, 0x308A, 0x307E, 0x3057, 0x305F, 0x3002],
     explanation = [ [96] @ js ''open'' @ [96, 0x3068, 96] @ js ''mmap'' @
       [96, 0x3067, 0x30D5, 0x30A1, 0x30A4, 0x30EB, 0x3092, 0x8AAD, 0x307F, 0x53D6, 0x308A, 0x5C02] @
       [0x7528, 0x306E, 0x30E1, 0x30E2, 0x30EA, 0x9818, 0x57DF, 0x3078, 0x5BFE, 0x5FDC, 0x4ED8, 0x3051] @
       [0x307E, 0x3059, 0x3002, 96] @ js ''cursor'' @ [96, 0x304B, 0x3089, 96] @ js ''std::find'' @
       [96, 0x3067, 0x30AB, 0x30F3, 0x30DE, 0x3068, 0x6539, 0x884C, 0x3092, 0x63A2, 0x3057, 0x3001] @
       [0x6570, 0x5024, 0x5909, 0x63DB, 0x3068, 0x30CF, 0x30C3, 0x30B7, 0x30E5, 0x8A08, 0x7B97, 0x3078] @
       [0x30DD, 0x30A4, 0x30F3, 0x30BF, 0x306E, 0x7BC4, 0x56F2, 0x3092, 0x305D, 0x306E, 0x307E, 0x307E] @
       [0x6E21, 0x3057, 0x307E, 0x3059, 0x3002],
       [0x3053, 0x308C, 0x306B, 0x3088, 0x308A, 0x3001, 96] @ js ''std::getline'' @
       [96, 0x304C, 0x884C, 0x3054, 0x3068, 0x306B, 0x884C, 0x3063, 0x3066, 0x3044, 0x305F, 96] @
       js ''std::string'' @
       [96, 0x3078, 0x306E, 0x30B3, 0x30D4, 0x30FC, 0x3092, 0x524A, 0x9664, 0x3067, 0x304D, 0x307E] @
       [0x3059, 0x3002, 0x96C6, 0x8A08, 0x8868, 0x3068, 0x4E00, 0x884C, 0x306E, 0x8A08, 0x7B97, 0x65B9] @
       [0x6CD5, 0x306F, 0x5909, 0x3048, 0x307E, 0x305B, 0x3093, 0x3002] ],
     stage_diff = Some (js ''-std::ifstream input(argv[1]);'' @ [10] @ js ''-std::string line;'' @ [10] @
       js ''-while (std::getline(input, line)) {'' @ [10] @ js ''-  size_t comma1 = line.find('' @ [39] @
       js '','' @ [39] @ js '');'' @ [10] @ js ''+MappedFile input(argv[1]);'' @ [10] @
       js ''+const char *cursor = std::find(input.data, end, '' @ [39, 92] @ js ''n'' @ [39] @
       js '') + 1;'' @ [10] @ js ''+while (cursor < end) {'' @ [10] @
       js ''+  const char *comma1 = std::find(cursor, end, '' @ [39] @ js '','' @ [39] @ js '');''),
     diff_note = Some ([0x96C6, 0x8A08, 0x65B9, 0x6CD5, 0x306F, 0x5909, 0x3048, 0x305A, 0x3001, 0x30DC, 0x30C8, 0x30EB] @
       [0x30CD, 0x30C3, 0x30AF, 0x3060, 0x3063, 0x305F, 0x5165, 0x529B, 0x306E, 0x6E21, 0x3057, 0x65B9] @
       [0x3060, 0x3051, 0x3092, 0x4EA4, 0x63DB, 0x3057, 0x3066, 0x3044, 0x307E, 0x3059, 0x3002]),
     times = mmap_times,
     bottleneck = [96] @ js ''month_index'' @ [96, 0x304C, 0x884C, 0x3046, 0x6700, 0x5927] @ js ''12'' @
       [0x56DE, 0x306E, 0x5883, 0x754C, 0x6BD4, 0x8F03],
     next_evidence = [0x5165, 0x529B, 0x3092, 0x8EFD, 0x304F, 0x3057, 0x305F, 0x5F8C, 0x306E, 0x30D5, 0x30EC, 0x30FC] @
       [0x30E0, 0x30B0, 0x30E9, 0x30D5, 0x306B, 0x306F] @ js ''month_index'' @
       [0x304C, 0x73FE, 0x308C, 0x3001] @ js ''perf stat'' @ [0x3067, 0x306F] @ js ''10M'' @
       [0x884C, 0x3042, 0x305F, 0x308A] @ js ''2,685'' @
       [0x4E07, 0x56DE, 0x306E, 0x5206, 0x5C90, 0x30DF, 0x30B9, 0x304C, 0x3042, 0x308A, 0x307E, 0x3057] @
       [0x305F, 0x3002] @ js ''month_index'' @ [0x306F, 0x6700, 0x5927] @ js ''12'' @
       [0x56DE, 0x306E, 0x6BD4, 0x8F03, 0x3092, 0x5168, 0x884C, 0x3067, 0x884C, 0x3046, 0x305F, 0x3081] @
       [0x3001, 0x5206, 0x5C90, 0x3092, 0x4E00, 0x56DE, 0x306E, 0x8868, 0x5F15, 0x304D, 0x3078, 0x66FF] @
       [0x3048, 0x307E, 0x3059, 0x3002]\<rparr>"

definition month_table_stage :: "(jsstring \<Rightarrow> jsstring) \<Rightarrow> optimization_stage" where
  "month_table_stage raw = \<lparr>
     stage_id = js ''month-table'',
     stage_title = [0x6708, 0x3092, 0x4E00, 0x56DE, 0x306E, 0x8868, 0x5F15, 0x304D, 0x3067, 0x6C42, 0x3081, 0x308B],
     short_title = [0x6708, 0x3092, 0x8868, 0x5F15, 0x304D],
     stage_filename = js ''08-month-table.cpp'',
     flamegraph_focus = [js ''main''],
     stage_source = raw (js ''./08-month-table.cpp''),
     goal = [96] @ js ''month_index'' @ [96, 0x306E, 0x5883, 0x754C, 0x6BD4, 0x8F03, 0x3092, 0x3001] @
       js ''365'' @ [0x8981, 0x7D20, 0x306E, 96] @ js ''MONTH_BY_DAY'' @
       [96, 0x304B, 0x3089, 0x6708, 0x756A, 0x53F7, 0x3092, 0x8AAD, 0x3080, 0x51E6, 0x7406, 0x3078] @
       [0x7F6E, 0x304D, 0x63DB, 0x3048, 0x307E, 0x3059, 0x3002],
     diagnosis = [0x524D, 0x6BB5, 0x3067, 0x306F] @ js ''month_index'' @
       [0x304C, 0x30D5, 0x30EC, 0x30FC, 0x30E0, 0x30B0, 0x30E9, 0x30D5, 0x306B, 0x6B8B, 0x308A, 0x3001] @
       [0x5206, 0x5C90, 0x30DF, 0x30B9, 0x3082] @ js ''2,685'' @
       [0x4E07, 0x56DE, 0x3042, 0x308A, 0x307E, 0x3057, 0x305F, 0x3002, 0x5165, 0x529B, 0x304C] @
       js ''2027'' @
       [0x5E74, 0x3060, 0x3051, 0x3068, 0x3044, 0x3046, 0x6761, 0x4EF6, 0x3092, 0x4F7F, 0x3044, 0x3001] @
       [0x65E5, 0x756A, 0x53F7, 0x304B, 0x3089, 0x6708, 0x3092, 0x5F15, 0x304F] @ js ''365'' @
       [0x8981, 0x7D20, 0x306E, 0x8868, 0x3078, 0x66FF, 0x3048, 0x307E, 0x3059, 0x3002],
     verification = js ''3'' @ [0x56DE, 0x306E, 0x4E2D, 0x592E, 0x5024, 0x306F] @ js ''38.93'' @
       [0x79D2, 0x3067, 0x3001] @ js ''46.66'' @ [0x79D2, 0x304B, 0x3089] @ js ''16.6%'' @
       [0x77ED, 0x7E2E, 0x3057, 0x307E, 0x3057, 0x305F, 0x3002] @ js ''10M'' @
       [0x884C, 0x306E, 0x5206, 0x5C90, 0x30DF, 0x30B9, 0x306F] @ js ''2,685'' @
       [0x4E07, 0x56DE, 0x304B, 0x3089] @ js ''1,631'' @ [0x4E07, 0x56DE, 0x3078] @ js ''39.2%'' @
       [0x6E1B, 0x308A, 0x3001, 0x72D9, 0x3063, 0x305F, 0x5206, 0x5C90, 0x3092, 0x524A, 0x308C, 0x3066] @
       [0x3044, 0x307E, 0x3059, 0x3002],
     explanation = [js ''2027'' @
       [0x5E74, 0x306E, 0x5404, 0x65E5, 0x306B, 0x3064, 0x3044, 0x3066, 0x6708, 0x756A, 0x53F7, 0x3092] @
       [0x6301, 0x3064, 96] @ js ''MONTH_BY_DAY'' @
       [96, 0x3092, 0x30B3, 0x30F3, 0x30D1, 0x30A4, 0x30EB, 0x6642, 0x306B, 0x4F5C, 0x308A, 0x307E] @
       [0x3059, 0x3002, 0x6642, 0x523B, 0x304B, 0x3089, 96] @ js ''YEAR_START'' @
       [96, 0x3092, 0x5F15, 0x3044, 0x3066] @ js ''86,400'' @ [0x3067, 0x5272, 0x308B, 0x3068, 0x3001] @
       js ''0'' @ [0x304B, 0x3089] @ js ''364'' @
       [0x306E, 0x65E5, 0x756A, 0x53F7, 0x3092, 0x5F97, 0x3089, 0x308C, 0x307E, 0x3059, 0x3002],
       [96] @ js ''month_index'' @ [96, 0x3092, 0x6700, 0x5927] @ js ''12'' @
       [0x56DE, 0x306E, 0x5883, 0x754C, 0x6BD4, 0x8F03, 0x304B, 0x3089, 96] @ js ''MONTH_BY_DAY[day]'' @
       [96, 0x306E, 0x4E00, 0x56DE, 0x306E, 0x53C2, 0x7167, 0x3078, 0x7F6E, 0x304D, 0x63DB, 0x3048] @
       [0x307E, 0x3059, 0x3002, 0x3053, 0x308C, 0x306B, 0x3088, 0x308A, 0x3001, 0x6708, 0x306B, 0x3088] @
       [0x3063, 0x3066, 0x56DE, 0x6570, 0x304C, 0x5909, 0x308F, 0x308B, 0x5206, 0x5C90, 0x3092, 0x4E3B] @
       [0x30EB, 0x30FC, 0x30D7, 0x304B, 0x3089, 0x5916, 0x3057, 0x307E, 0x3059, 0x3002] ],
     stage_diff = Some (js ''-for (int month = 0; month < 12; ++month) {'' @ [10] @
       js ''-  if (timestamp < MONTH_START[month + 1]) return month;'' @ [10] @ js ''-}'' @ [10] @
       js ''+constexpr auto MONTH_BY_DAY = make_month_table();'' @ [10] @
       js ''+return MONTH_BY_DAY[(timestamp - YEAR_START) / 86400];''),
     diff_note = Some ([0x30DC, 0x30C8, 0x30EB, 0x30CD, 0x30C3, 0x30AF, 0x3060, 0x3063, 0x305F, 0x6708, 0x5224, 0x5B9A] @
       [0x3060, 0x3051, 0x3092, 0x4EA4, 0x63DB, 0x3057, 0x3066, 0x3044, 0x307E, 0x3059, 0x3002]),
     times = month_table_times,
     bottleneck = [0x4E00, 0x3064, 0x306E] @ js ''CPU'' @
       [0x30B3, 0x30A2, 0x3060, 0x3051, 0x3067, 0x52D5, 0x304F, 96] @ js ''analyze'' @ [96, 0x306E] @
       js ''CSV'' @ [0x89E3, 0x6790, 0x3068, 0x96C6, 0x8A08],
     next_evidence = js ''perf stat'' @ [0x306E] @ js ''task-clock'' @
       [0x306F, 0x5B9F, 0x884C, 0x6642, 0x9593, 0x3068, 0x307B, 0x307C, 0x540C, 0x3058, 0x3067, 0x3001] @
       [0x51E6, 0x7406, 0x304C, 0x4E00, 0x3064, 0x306E] @ js ''CPU'' @
       [0x30B3, 0x30A2, 0x306B, 0x9589, 0x3058, 0x3066, 0x3044, 0x307E, 0x3059, 0x3002, 0x5165, 0x529B] @
       [0x884C, 0x306F, 0x72EC, 0x7ACB, 0x3057, 0x3066, 0x304A, 0x308A, 0x3001, 0x30C1, 0x30E3, 0x30F3] @
       [0x30CD, 0x30EB, 0x3054, 0x3068, 0x306E, 0x7D71, 0x8A08, 0x306F, 0x6700, 0x5F8C, 0x306B, 0x8DB3] @
       [0x3057, 0x5408, 0x308F, 0x305B, 0x3089, 0x308C, 0x308B, 0x305F, 0x3081, 0x3001, 0x884C, 0x306E] @
       [0x7BC4, 0x56F2, 0x3092, 0x8907, 0x6570, 0x30B3, 0x30A2, 0x3078, 0x5206, 0x3051, 0x3089, 0x308C] @
       [0x307E, 0x3059, 0x3002]\<rparr>"

definition parallel_stage :: "(jsstring \<Rightarrow> jsstring) \<Rightarrow> optimization_stage" where
  "parallel_stage raw = \<lparr>
     stage_id = js ''parallel'',
     stage_title = js ''8'' @
       [0x500B, 0x306E, 0x7BC4, 0x56F2, 0x3092, 0x4E26, 0x5217, 0x306B, 0x96C6, 0x8A08, 0x3059, 0x308B],
     short_title = js ''8'' @ [0x30B9, 0x30EC, 0x30C3, 0x30C9],
     stage_filename = js ''09-parallel.cpp'',
     flamegraph_focus = [js ''FlatMap::find_or_insert'', js ''parse_number''],
     stage_source = raw (js ''./09-parallel.cpp''),
     goal = [0x5165, 0x529B, 0x3092, 0x6539, 0x884C, 0x4F4D, 0x7F6E, 0x3067] @ js ''8'' @
       [0x5206, 0x5272, 0x3057, 0x3001] @ js ''8'' @ [0x500B, 0x306E, 96] @ js ''analyze'' @
       [96, 0x3092, 0x4E26, 0x5217, 0x5B9F, 0x884C, 0x3057, 0x3066, 0x30B9, 0x30EC, 0x30C3, 0x30C9] @
       [0x3054, 0x3068, 0x306E, 96] @ js ''FlatMap'' @
       [96, 0x3092, 0x6700, 0x5F8C, 0x306B, 0x4F75, 0x5408, 0x3057, 0x307E, 0x3059, 0x3002],
     diagnosis = [0x524D, 0x6BB5, 0x306E] @ js ''perf stat'' @ [0x304B, 0x3089, 0x3001, 0x4E00, 0x3064, 0x306E] @
       js ''CPU'' @
       [0x30B3, 0x30A2, 0x3057, 0x304B, 0x4F7F, 0x3063, 0x3066, 0x3044, 0x306A, 0x3044, 0x3068, 0x5206] @
       [0x304B, 0x308A, 0x307E, 0x3057, 0x305F, 0x3002, 0x6539, 0x884C, 0x4F4D, 0x7F6E, 0x3067, 0x5165] @
       [0x529B, 0x3092] @ js ''8'' @
       [0x5206, 0x5272, 0x3057, 0x3001, 0x30ED, 0x30C3, 0x30AF, 0x3092, 0x907F, 0x3051, 0x308B, 0x305F] @
       [0x3081, 0x5404, 0x30B9, 0x30EC, 0x30C3, 0x30C9, 0x304C, 0x5225, 0x306E, 0x96C6, 0x8A08, 0x8868] @
       [0x3092, 0x6301, 0x3064, 0x69CB, 0x6210, 0x306B, 0x3057, 0x307E, 0x3059, 0x3002],
     verification = js ''3'' @ [0x56DE, 0x306E, 0x4E2D, 0x592E, 0x5024, 0x306F] @ js ''7.80'' @
       [0x79D2, 0x3067, 0x3001] @ js ''38.93'' @ [0x79D2, 0x304B, 0x3089] @ js ''80.0%'' @
       [0x77ED, 0x7E2E, 0x3057, 0x307E, 0x3057, 0x305F, 0x3002] @ js ''1B'' @
       [0x8A08, 0x6E2C, 0x3067, 0x306F] @ js ''user'' @ [0x6642, 0x9593] @ js ''58.59'' @
       [0x79D2, 0x306B, 0x5BFE, 0x3057, 0x3066, 0x5B9F, 0x6642, 0x9593] @ js ''7.80'' @
       [0x79D2, 0x3068, 0x306A, 0x308A, 0x3001, 0x7D04] @ js ''7.5'' @
       [0x30B3, 0x30A2, 0x5206, 0x3092, 0x4E26, 0x5217, 0x306B, 0x4F7F, 0x3048, 0x3066, 0x3044, 0x307E] @
       [0x3059, 0x3002],
     explanation = [ [0x30D5, 0x30A1, 0x30A4, 0x30EB, 0x3092, 0x307B, 0x307C, 0x540C, 0x3058, 0x30D0, 0x30A4, 0x30C8] @
       [0x6570, 0x306E] @ js ''8'' @
       [0x7BC4, 0x56F2, 0x3078, 0x5206, 0x3051, 0x3001, 0x5404, 0x5883, 0x754C, 0x3092, 0x6B21, 0x306E] @
       [0x6539, 0x884C, 0x307E, 0x3067, 0x9032, 0x3081, 0x307E, 0x3059, 0x3002, 0x5404, 0x30B9, 0x30EC] @
       [0x30C3, 0x30C9, 0x306F, 0x5B8C, 0x5168, 0x306A, 0x884C, 0x3060, 0x3051, 0x3092, 0x53D7, 0x3051] @
       [0x53D6, 0x308A, 0x3001, 0x81EA, 0x5206, 0x5C02, 0x7528, 0x306E, 96] @ js ''FlatMap'' @
       [96, 0x3078, 0x96C6, 0x8A08, 0x3057, 0x307E, 0x3059, 0x3002],
       [0x5171, 0x6709, 0x3059, 0x308B, 0x96C6, 0x8A08, 0x8868, 0x304C, 0x306A, 0x3044, 0x305F, 0x3081] @
       [0x3001, 0x4E3B, 0x30EB, 0x30FC, 0x30D7, 0x306B] @ js ''mutex'' @
       [0x306F, 0x4E0D, 0x8981, 0x3067, 0x3059, 0x3002, 0x5168, 0x30B9, 0x30EC, 0x30C3, 0x30C9, 0x306E] @
       [0x7D42, 0x4E86, 0x5F8C, 0x306B] @ js ''7'' @
       [0x500B, 0x306E, 0x8868, 0x3092, 0x5148, 0x982D, 0x306E, 0x8868, 0x3078, 96] @ js ''merge'' @
       [96, 0x3057, 0x3001, 0x6700, 0x5C0F, 0x5024, 0x3001, 0x6700, 0x5927, 0x5024, 0x3001, 0x5408] @
       [0x8A08, 0x3001, 0x4EF6, 0x6570, 0x3092, 0x7D50, 0x5408, 0x3057, 0x307E, 0x3059, 0x3002] ],
     stage_diff = Some (js ''-FlatMap stats = analyze(begin, end);'' @ [10] @ js ''+std::vector<FlatMap> local(THREADS);'' @
       [10] @ js ''+for (int i = 0; i < THREADS; ++i) {'' @ [10] @ js ''+  workers.emplace_back([&, i] {'' @
       [10] @ js ''+    local[i] = analyze(boundary[i], boundary[i + 1]);'' @ [10] @ js ''+  });'' @ [10] @
       js ''+}'' @ [10] @ js ''+for (std::thread &worker : workers) worker.join();'' @ [10] @
       js ''+FlatMap stats = std::move(local[0]);'' @ [10] @
       js ''+for (int i = 1; i < THREADS; ++i) stats.merge(local[i]);''),
     diff_note = Some ([0x4E00, 0x884C, 0x306E, 0x51E6, 0x7406, 0x306F, 0x5909, 0x3048, 0x305A, 0x3001, 0x72EC, 0x7ACB] @
       [0x3057, 0x305F, 0x7BC4, 0x56F2, 0x3078, 0x914D, 0x308B, 0x51E6, 0x7406, 0x3060, 0x3051, 0x3092] @
       [0x8FFD, 0x52A0, 0x3057, 0x3066, 0x3044, 0x307E, 0x3059, 0x3002]),
     times = parallel_times,
     bottleneck = [0x5404, 0x30B9, 0x30EC, 0x30C3, 0x30C9, 0x5185, 0x306E, 96] @ js ''FlatMap::find_or_insert'' @
       [96, 0x3001, 96] @ js ''parse_number'' @ [96, 0x3001, 0x30AB, 0x30F3, 0x30DE, 0x63A2, 0x7D22],
     next_evidence = [0x6700, 0x5F8C, 0x306E, 0x30D5, 0x30EC, 0x30FC, 0x30E0, 0x30B0, 0x30E9, 0x30D5, 0x3067, 0x306F] @
       js ''analyze'' @ [0x304C] @ js ''57.85%'' @
       [0x3092, 0x5360, 0x3081, 0x3001, 0x305D, 0x306E, 0x5185, 0x5074, 0x3067, 0x5C02, 0x7528, 0x8868] @
       [0x306E, 0x691C, 0x7D22, 0x304C] @ js ''34.20%'' @ [0x3001, 0x6570, 0x5024, 0x5909, 0x63DB, 0x304C] @
       js ''6.68%'' @
       [0x3067, 0x3057, 0x305F, 0x3002, 0x6B21, 0x306B, 0x9032, 0x3080, 0x306A, 0x3089, 0x3001, 0x5404] @
       [0x30B9, 0x30EC, 0x30C3, 0x30C9, 0x3067] @ js ''10'' @
       [0x5104, 0x884C, 0x5206, 0x7E70, 0x308A, 0x8FD4, 0x3059, 0x6587, 0x5B57, 0x5217, 0x30CF, 0x30C3] @
       [0x30B7, 0x30E5, 0x3068] @ js ''CSV'' @
       [0x89E3, 0x6790, 0x304C, 0x5BFE, 0x8C61, 0x3067, 0x3059, 0x3002]\<rparr>"

definition cppOptimizationStages :: "(jsstring \<Rightarrow> jsstring) \<Rightarrow> optimization_stage list" where
  "cppOptimizationStages raw = map (\<lambda>stage. stage raw)
     [naive_stage, fixed_month_stage, no_stringstream_stage, direct_numbers_stage, split_key_stage, flat_map_stage,
      mmap_stage, month_table_stage, parallel_stage]"

section \<open>The guide renders\<close>

lemma js_eq_Nil: "js s = [] \<longleftrightarrow> s = []"
  by (cases s) (simp_all add: js_eval)

lemma naive_diff: "diff_parts (naive_stage raw) \<noteq> None"
  by (simp add: diff_parts_def naive_stage_def js_eq_Nil)

lemma fixed_month_diff: "diff_parts (fixed_month_stage raw) \<noteq> None"
  by (simp add: diff_parts_def fixed_month_stage_def js_eq_Nil)

lemma no_stringstream_diff: "diff_parts (no_stringstream_stage raw) \<noteq> None"
  by (simp add: diff_parts_def no_stringstream_stage_def js_eq_Nil)

lemma direct_numbers_diff: "diff_parts (direct_numbers_stage raw) \<noteq> None"
  by (simp add: diff_parts_def direct_numbers_stage_def js_eq_Nil)

lemma split_key_diff: "diff_parts (split_key_stage raw) \<noteq> None"
  by (simp add: diff_parts_def split_key_stage_def js_eq_Nil)

lemma flat_map_diff: "diff_parts (flat_map_stage raw) \<noteq> None"
  by (simp add: diff_parts_def flat_map_stage_def js_eq_Nil)

lemma mmap_diff: "diff_parts (mmap_stage raw) \<noteq> None"
  by (simp add: diff_parts_def mmap_stage_def js_eq_Nil)

lemma month_table_diff: "diff_parts (month_table_stage raw) \<noteq> None"
  by (simp add: diff_parts_def month_table_stage_def js_eq_Nil)

lemma parallel_diff: "diff_parts (parallel_stage raw) \<noteq> None"
  by (simp add: diff_parts_def parallel_stage_def js_eq_Nil)

lemma naive_figure: "flamegraph_source (naive_stage raw) = js ''/flamegraphs/cpp/01-naive.svg''"
  by (simp add: flamegraph_source_def naive_stage_def js_eval starts_with_def)

lemma fixed_month_figure: "flamegraph_source (fixed_month_stage raw) = js ''/flamegraphs/cpp/02-fixed-month.svg''"
  by (simp add: flamegraph_source_def fixed_month_stage_def js_eval starts_with_def)

lemma no_stringstream_figure: "flamegraph_source (no_stringstream_stage raw) = js ''/flamegraphs/cpp/03-no-stringstream.svg''"
  by (simp add: flamegraph_source_def no_stringstream_stage_def js_eval starts_with_def)

lemma direct_numbers_figure: "flamegraph_source (direct_numbers_stage raw) = js ''/flamegraphs/cpp/04-direct-numbers.svg''"
  by (simp add: flamegraph_source_def direct_numbers_stage_def js_eval starts_with_def)

lemma split_key_figure: "flamegraph_source (split_key_stage raw) = js ''/flamegraphs/cpp/05-split-key.svg''"
  by (simp add: flamegraph_source_def split_key_stage_def js_eval starts_with_def)

lemma flat_map_figure: "flamegraph_source (flat_map_stage raw) = js ''/flamegraphs/cpp/06-flat-map.svg''"
  by (simp add: flamegraph_source_def flat_map_stage_def js_eval starts_with_def)

lemma mmap_figure: "flamegraph_source (mmap_stage raw) = js ''/flamegraphs/cpp/07-mmap.svg''"
  by (simp add: flamegraph_source_def mmap_stage_def js_eval starts_with_def)

lemma month_table_figure: "flamegraph_source (month_table_stage raw) = js ''/flamegraphs/cpp/08-month-table.svg''"
  by (simp add: flamegraph_source_def month_table_stage_def js_eval starts_with_def)

lemma parallel_figure: "flamegraph_source (parallel_stage raw) = js ''/flamegraphs/cpp/09-parallel.svg''"
  by (simp add: flamegraph_source_def parallel_stage_def js_eval starts_with_def)

lemma stages_times: "map times (cppOptimizationStages raw) = measured_times"
  by (simp add: cppOptimizationStages_def measured_times_def naive_stage_def fixed_month_stage_def no_stringstream_stage_def direct_numbers_stage_def split_key_stage_def flat_map_stage_def mmap_stage_def month_table_stage_def parallel_stage_def)

lemmas stage_diffs = naive_diff fixed_month_diff no_stringstream_diff direct_numbers_diff split_key_diff flat_map_diff mmap_diff month_table_diff parallel_diff

lemmas stage_figures = naive_figure fixed_month_figure no_stringstream_figure direct_numbers_figure split_key_figure flat_map_figure mmap_figure month_table_figure parallel_figure

lemma every_stage_renders: "stage \<in> set (cppOptimizationStages raw) \<Longrightarrow> diff_parts stage \<noteq> None"
  unfolding cppOptimizationStages_def list.map list.set
  by (elim insertE emptyE) (simp_all only: stage_diffs not_False_eq_True)

text \<open>The guide renders every stage whatever the sources are, since each with a diff has a note, and so it
  shows the nine flame graphs in order.\<close>

lemma guide_renders: "None \<notin> set (guide_sections (cppOptimizationStages raw))"
proof -
  have "stage_section n (cppOptimizationStages raw ! i) i p \<noteq> None" if "i < length (cppOptimizationStages raw)" for n i p
    using every_stage_renders [OF nth_mem [OF that] ] by (simp add: stage_section_def)
  then show ?thesis
    unfolding guide_sections_def set_map by (metis (no_types, lifting) imageE set_upt atLeastLessThan_iff)
qed

theorem guide_figures:
  "concat (map figures (guide_sections (cppOptimizationStages raw))) =
    map (\<lambda>name. js ''/flamegraphs/cpp/'' @ js name @ js ''.svg'')
      [''01-naive'', ''02-fixed-month'', ''03-no-stringstream'', ''04-direct-numbers'', ''05-split-key'', ''06-flat-map'', ''07-mmap'', ''08-month-table'', ''09-parallel'']"
  unfolding guide_shows_each_flamegraph [OF guide_renders]
  unfolding cppOptimizationStages_def list.map stage_figures
  by (simp add: js_eval)

end
