(* ===== verification/Page_Details.thy ===== *)
theory Page_Details
  imports Leaderboard_Player Submission_History Contest_Clock
begin

text \<open>
  Smaller views: the controls and the status of a replay on \<^verbatim>\<open>pages/leaderboard-page.tsx\<close>, the animated
  countdown of \<^verbatim>\<open>components/animated-number.tsx\<close>, and the command line half of
  \<^verbatim>\<open>components/submission/submission-method-step.tsx\<close>.
\<close>

section \<open>The replay on the leaderboard page\<close>

record replay_status =
  status_date :: jsstring
  status_user :: jsstring
  status_public :: jsstring
  status_private :: "jsstring option"

text \<open>The texts are disqualified and measurement error.  \<open>formatDate\<close> is an argument.\<close>

definition replay_status_of :: "(jsstring \<Rightarrow> jsstring) \<Rightarrow> replay_page \<Rightarrow> replay_status option" where
  "replay_status_of formatDate s =
     (case currentSubmission s of
        None \<Rightarrow> None
      | Some sub \<Rightarrow> Some
         \<lparr>status_date = formatDate (sub_submittedAt sub), status_user = sub_username sub,
          status_public =
            (if disqualified sub then [0x5931, 0x683C]
             else case publicVerdict sub of Some v \<Rightarrow> js ''Public: '' @ verdictLabel v | None \<Rightarrow> [0x8A08, 0x6E2C, 0x30A8, 0x30E9, 0x30FC]),
          status_private =
            (if disqualified sub then None else map_option (\<lambda>v. js ''Private: '' @ verdictLabel v) (privateVerdict sub))\<rparr>)"

record replay_slider =
  slider_max :: nat
  slider_value :: nat
  slider_text :: jsstring

definition replay_slider_of :: "replay_page \<Rightarrow> replay_slider option" where
  "replay_slider_of s =
     (case replayIndex s of
        None \<Rightarrow> None
      | Some i \<Rightarrow>
          if submissions s = [] then None
          else Some \<lparr>slider_max = length (submissions s), slider_value = i,
                 slider_text = nat_to_string i @ js ''/'' @ nat_to_string (length (submissions s))\<rparr>)"

datatype replay_icon = Pause_icon | Restart_icon | Play_icon

definition replay_icon_of :: "replay_page \<Rightarrow> replay_icon" where
  "replay_icon_of s =
     (if replayPlaying s then Pause_icon
      else case replayIndex s of
          Some i \<Rightarrow> if length (submissions s) \<le> i then Restart_icon else Play_icon
        | None \<Rightarrow> Play_icon)"

definition replay_button_disabled :: "bool \<Rightarrow> replay_page \<Rightarrow> bool" where
  "replay_button_disabled isPending s \<longleftrightarrow> isPending \<or> submissions s = []"

definition highlight_updates :: "replay_page \<Rightarrow> bool" where
  "highlight_updates s \<longleftrightarrow> replayIndex s = None"

definition disqualified_shown :: "leaderboard_entry list \<Rightarrow> replay_page \<Rightarrow> bool" where
  "disqualified_shown entries s \<longleftrightarrow> page_board s = Private_board \<and>
     (case replayIndex s of None \<Rightarrow> True | Some i \<Rightarrow> length (submissions s) \<le> i) \<and> entries \<noteq> []"

text \<open>A replay gives nothing away: the disqualified are only listed beside the final ranking.  A status
  has a slider, whose position it names, and while a position before the end is shown, the button pauses
  or resumes.\<close>

theorem replay_view_consistent:
  assumes "page_ok s"
  shows "(disqualified_shown entries s \<longrightarrow> replayEntries other ranked s = Some ranked) \<and>
    (\<forall>st. replay_status_of formatDate s = Some st \<longrightarrow>
      (\<exists>sl. replay_slider_of s = Some sl \<and> 1 \<le> slider_value sl \<and> slider_value sl \<le> slider_max sl \<and>
        status_user st = sub_username (submissions s ! (slider_value sl - 1)))) \<and>
    (replay_icon_of s = Restart_icon \<longrightarrow> \<not> replayPlaying s \<and> replay_finished s)"
  using assms
  by (auto simp: disqualified_shown_def replayEntries_def replay_status_of_def replay_slider_of_def currentSubmission_def
      replay_icon_of_def replay_finished_def page_ok_def split: option.splits if_splits)

section \<open>The animated countdown\<close>

text \<open>Days, hours, minutes and seconds, computed on their own, and the label for screen readers.\<close>

definition animated_countdown :: "number \<Rightarrow> (number \<times> number \<times> number \<times> number) \<times> jsstring" where
  "animated_countdown milliseconds =
     (let totalSeconds = num_max (Fin 0) (num_ceil (num_div milliseconds (Fin 1000)));
          days = num_floor (num_div totalSeconds (Fin 86400));
          hours = num_floor (num_div (num_mod totalSeconds (Fin 86400)) (Fin 3600));
          minutes = num_floor (num_div (num_mod totalSeconds (Fin 3600)) (Fin 60));
          seconds = num_mod totalSeconds (Fin 60)
      in ((days, hours, minutes, seconds), formatRemaining milliseconds))"

lemma animated_countdown_agrees: "animated_countdown milliseconds = (countdown_parts milliseconds, formatRemaining milliseconds)"
  by (simp add: animated_countdown_def countdown_parts_def total_seconds_def Let_def)

section \<open>Submitting from the command line\<close>

record cli_step =
  cli_key :: "jsstring option"
  issue_pending :: bool
  issue_error :: "jsstring option"

definition initial_cli :: cli_step where
  "initial_cli = \<lparr>cli_key = None, issue_pending = False, issue_error = None\<rparr>"

text \<open>The button is disabled while a request runs; a request clears the error of the one before.\<close>

definition issue_click :: "cli_step \<Rightarrow> cli_step" where
  "issue_click s = (if issue_pending s then s else s\<lparr>issue_pending := True, issue_error := None\<rparr>)"

definition issue_settled :: "jsstring + jsstring \<Rightarrow> cli_step \<Rightarrow> cli_step" where
  "issue_settled r s =
     (case r of
        Inl e \<Rightarrow> s\<lparr>issue_pending := False, issue_error := Some e\<rparr>
      | Inr key \<Rightarrow> s\<lparr>issue_pending := False, cli_key := Some key\<rparr>)"

definition has_key :: "cli_step \<Rightarrow> bool" where
  "has_key s \<longleftrightarrow> cli_key s \<noteq> None \<and> cli_key s \<noteq> Some []"

text \<open>The line to copy, with a placeholder (the issued access key) while there is none.\<close>

definition export_line :: "cli_step \<Rightarrow> jsstring" where
  "export_line s = js ''export ONEBRC_ACCESS_KEY='' @ [39] @
     (if has_key s then the (cli_key s)
      else js ''<'' @ [0x767A, 0x884C, 0x3057, 0x305F, 0x30A2, 0x30AF, 0x30BB, 0x30B9, 0x30AD, 0x30FC] @ js ''>'') @ [39]"

text \<open>The labels are issue again and issue an access key.\<close>

definition issue_label :: "cli_step \<Rightarrow> jsstring" where
  "issue_label s =
     (if has_key s then [0x518D, 0x767A, 0x884C]
      else [0x30A2, 0x30AF, 0x30BB, 0x30B9, 0x30AD, 0x30FC, 0x3092, 0x767A, 0x884C])"

text \<open>A failed request leaves the key that is shown, a successful one replaces it; the copied line is
  one shell word as long as the key has no quote.\<close>

lemma issued_key_shown:
  "cli_key (issue_settled (Inl e) (issue_click s)) = cli_key s"
  "key \<noteq> [] \<Longrightarrow> export_line (issue_settled (Inr key) (issue_click s)) = js ''export ONEBRC_ACCESS_KEY='' @ [39] @ key @ [39]"
  by (simp_all add: issue_settled_def issue_click_def export_line_def has_key_def)

lemma export_line_quotes: "39 \<notin> set (the (cli_key s)) \<Longrightarrow> count_list (export_line s) 39 = 2"
  by (simp add: export_line_def js_eval count_list_append)

end
