(* ===== verification/Build_Guides.thy ===== *)
theory Build_Guides
  imports Submission_Form
begin

text \<open>
  The tables of \<^verbatim>\<open>models/submission-options.ts\<close> and the steps of
  \<^verbatim>\<open>components/submission/submission-setup-steps.tsx\<close> that look into them: the runtime with its
  description, and the build guide of the chosen native language.
\<close>

section \<open>Runtimes\<close>

record runtime_info =
  kind_label :: jsstring
  kind_description :: jsstring

fun kind_option :: "execution_kind \<Rightarrow> runtime_info" where
  "kind_option (Script Typescript) = \<lparr>kind_label = js ''TypeScript'',
     kind_description = js ''Node.js 24'' @ [0x3067] @ js '' .ts '' @
       [0x30D5, 0x30A1, 0x30A4, 0x30EB, 0x3092, 0x5B9F, 0x884C, 0x3057, 0x307E, 0x3059, 0x3002]\<rparr>"
| "kind_option (Script Javascript) = \<lparr>kind_label = js ''JavaScript'',
     kind_description = js ''Node.js 24'' @ [0x3067] @ js '' .js '' @
       [0x30D5, 0x30A1, 0x30A4, 0x30EB, 0x3092, 0x5B9F, 0x884C, 0x3057, 0x307E, 0x3059, 0x3002]\<rparr>"
| "kind_option (Script Bun) = \<lparr>kind_label = js ''Bun'',
     kind_description = js ''Bun'' @ [0x3067] @ js '' .ts '' @ [0x307E, 0x305F, 0x306F] @ js '' .js '' @
       [0x30D5, 0x30A1, 0x30A4, 0x30EB, 0x3092, 0x5B9F, 0x884C, 0x3057, 0x307E, 0x3059, 0x3002]\<rparr>"
| "kind_option (Script Ruby) = \<lparr>kind_label = js ''Ruby'',
     kind_description = js ''Ruby 4'' @ [0x3067] @ js '' .rb '' @
       [0x30D5, 0x30A1, 0x30A4, 0x30EB, 0x3092, 0x5B9F, 0x884C, 0x3057, 0x307E, 0x3059, 0x3002]\<rparr>"
| "kind_option (Native) = \<lparr>kind_label = js ''Native'',
     kind_description = [0x30BD, 0x30FC, 0x30B9, 0x30B3, 0x30FC, 0x30C9, 0x3068, 0x3001] @ js ''Ubuntu 26.04 x86_64'' @
       [0x3067, 0x52D5, 0x304F] @ js ''ELF'' @
       [0x5B9F, 0x884C, 0x30D5, 0x30A1, 0x30A4, 0x30EB, 0x3092, 0x63D0, 0x51FA, 0x3057, 0x307E, 0x3059, 0x3002]\<rparr>"

text \<open>The options in the order of the table.\<close>

definition runtime_options :: "(jsstring \<times> jsstring) list" where
  "runtime_options = map (\<lambda>k. (execution_kind_name k, kind_label (kind_option k)))
     [Script Typescript, Script Javascript, Script Bun, Script Ruby, Native]"

section \<open>Native builds\<close>

record build_guide =
  build_command :: jsstring
  build_output :: jsstring
  build_note :: jsstring

fun native_build_guide :: "native_language \<Rightarrow> build_guide" where
  "native_build_guide Lang_c = \<lparr>build_command = js ''docker run --rm --platform linux/amd64 -v '' @ [34] @ js ''$PWD:/src'' @ [34] @
       js '' -w /src gcc:15 gcc -O3 -o program main.c'',
     build_output = js ''program'',
     build_note = js ''Docker'' @ [0x3092, 0x4F7F, 0x3044, 0x3001] @ js ''Linux x86_64'' @ [0x4E0A, 0x306E] @
       js ''GCC'' @ [0x3067, 0x30D3, 0x30EB, 0x30C9, 0x3057, 0x307E, 0x3059, 0x3002]\<rparr>"
| "native_build_guide Lang_cpp = \<lparr>build_command = js ''docker run --rm --platform linux/amd64 -v '' @ [34] @ js ''$PWD:/src'' @ [34] @
       js '' -w /src gcc:15 g++ -O3 -std=c++23 -o program main.cpp'',
     build_output = js ''program'',
     build_note = js ''Docker'' @ [0x3092, 0x4F7F, 0x3044, 0x3001] @ js ''Linux x86_64'' @ [0x4E0A, 0x306E] @
       js ''G++'' @ [0x3067, 0x30D3, 0x30EB, 0x30C9, 0x3057, 0x307E, 0x3059, 0x3002]\<rparr>"
| "native_build_guide Lang_go = \<lparr>build_command = js ''CGO_ENABLED=0 GOOS=linux GOARCH=amd64 go build -o program main.go'',
     build_output = js ''program'',
     build_note = [0x5916, 0x90E8] @ js ''C'' @
       [0x30E9, 0x30A4, 0x30D6, 0x30E9, 0x30EA, 0x3092, 0x4F7F, 0x308F, 0x306A, 0x3044, 0x9759, 0x7684, 0x306A] @
       js ''Linux amd64'' @
       [0x30D0, 0x30A4, 0x30CA, 0x30EA, 0x3092, 0x751F, 0x6210, 0x3057, 0x307E, 0x3059, 0x3002]\<rparr>"
| "native_build_guide Lang_rust = \<lparr>build_command = js ''docker run --rm --platform linux/amd64 -v '' @ [34] @ js ''$PWD:/src'' @ [34] @
       js '' -w /src rust:1.91 rustc -O -C target-cpu=x86-64 -o program main.rs'',
     build_output = js ''program'',
     build_note = js ''Cargo'' @
       [0x30D7, 0x30ED, 0x30B8, 0x30A7, 0x30AF, 0x30C8, 0x306E, 0x5834, 0x5408, 0x306F, 0x3001, 0x540C, 0x3058] @
       js ''platform'' @ [0x306E, 0x30B3, 0x30F3, 0x30C6, 0x30CA, 0x5185, 0x3067] @
       js ''cargo build --release'' @
       [0x3092, 0x5B9F, 0x884C, 0x3057, 0x3066, 0x304F, 0x3060, 0x3055, 0x3044, 0x3002]\<rparr>"
| "native_build_guide Lang_zig = \<lparr>build_command = js ''zig build-exe -O ReleaseFast -target x86_64-linux-gnu -femit-bin=program main.zig'',
     build_output = js ''program'',
     build_note = js ''Zig'' @ [0x306E] @ js ''target'' @ [0x6307, 0x5B9A, 0x3067] @ js ''Linux x86_64'' @
       [0x5411, 0x3051, 0x306B, 0x30AF, 0x30ED, 0x30B9, 0x30B3, 0x30F3, 0x30D1, 0x30A4, 0x30EB, 0x3057, 0x307E, 0x3059, 0x3002]\<rparr>"
| "native_build_guide Lang_csharp = \<lparr>build_command = js ''dotnet publish App.csproj -c Release -r linux-x64 --self-contained -p:PublishAot=true -o publish'',
     build_output = js ''publish/App'',
     build_note = [0x30D7, 0x30ED, 0x30B8, 0x30A7, 0x30AF, 0x30C8, 0x540D, 0x306B, 0x5408, 0x308F, 0x305B, 0x3066] @
       js ''App.csproj'' @
       [0x3068, 0x51FA, 0x529B, 0x30D5, 0x30A1, 0x30A4, 0x30EB, 0x540D, 0x3092, 0x66F8, 0x304D, 0x63DB, 0x3048, 0x3066, 0x304F, 0x3060, 0x3055, 0x3044, 0x3002]\<rparr>"
| "native_build_guide Lang_other = \<lparr>build_command = js ''$ file ./program'' @ [10] @ js ''program: ELF 64-bit LSB executable, x86-64, ...'',
     build_output = js ''program'',
     build_note = [0x5229, 0x7528, 0x3059, 0x308B, 0x30C4, 0x30FC, 0x30EB, 0x30C1, 0x30A7, 0x30FC, 0x30F3, 0x3067] @
       js ''Linux x86_64 ELF'' @ [0x3092, 0x751F, 0x6210, 0x3057, 0x3001] @ js ''file'' @
       [0x30B3, 0x30DE, 0x30F3, 0x30C9, 0x3067, 0x5F62, 0x5F0F, 0x3092, 0x78BA, 0x8A8D, 0x3057, 0x3066, 0x304F, 0x3060, 0x3055, 0x3044, 0x3002]\<rparr>"

text \<open>The step is only there for native programs; a language that is not in the table would make the
  page throw.\<close>

datatype build_step = No_build_step | Build_step build_guide | Build_step_throws

definition native_build_step :: "submission_draft \<Rightarrow> build_step" where
  "native_build_step draft =
     (if executionKind draft \<noteq> Native then No_build_step
      else case draft_language draft of
          Native_language l \<Rightarrow> Build_step (native_build_guide l)
        | Script_language k \<Rightarrow> Build_step_throws)"

text \<open>In every state the form can reach the page shows a build guide exactly for native programs and
  never throws; every runtime is offered once.\<close>

theorem build_step_total:
  assumes "form_reachable s"
  shows "native_build_step (form_draft s) \<noteq> Build_step_throws \<and>
    (native_build_step (form_draft s) = No_build_step \<longleftrightarrow> executionKind (form_draft s) \<noteq> Native) \<and>
    mset (map fst runtime_options) = mset (map execution_kind_name executionKinds)"
proof -
  have "form_ok s" using assms by (rule form_reachable_ok)
  then show ?thesis
    by (auto simp: form_ok_def native_build_step_def runtime_options_def executionKinds_def scriptExecutionKinds_def)
qed

end
