(* ===== verification/Spec2Isabelle.thy ===== *)
theory Spec2Isabelle
  imports
    Judge_Baseline Measure Gateway_Files
    Leaderboard_Highlights Leaderboard_Player Contest_Live Submission_Form Source_View Admin_Page Web_Pages
    Mock_Auth Benchmark_Stack Contest_Document Optimization_Stages
    Page_Details Build_Guides
begin

text \<open>
  Verification library for the TypeScript code of the 1BRC contest system: participants submit a
  program that aggregates a CSV file of messages, a runner measures it in a container, a judge
  compares its output with that of a reference program, and a web client shows submissions and the
  leaderboard.

  \<^bold>\<open>Parts and how they interact.\<close>
  The reference program \<^verbatim>\<open>baselines/ts/main.ts\<close> and its optimised counterpart
  \<^verbatim>\<open>optimized/typescript/main.ts\<close> compute the expected output.  The runner's gateway
  \<^verbatim>\<open>apps/runner/src/gateway.ts\<close> receives artifacts and runs jobs under a file lock (\<^verbatim>\<open>run-lock.ts\<close>): for
  each attempt it creates a container (\<^verbatim>\<open>container-command.ts\<close>) in which \<^verbatim>\<open>measure.mjs\<close> times the
  program and reports JSON, compares the output (\<^verbatim>\<open>compare.ts\<close>) and prints a result of the shared
  schemas of \<^verbatim>\<open>packages/domain\<close>.  The web client of \<^verbatim>\<open>apps/web\<close> talks to the API server by the
  contract of \<^verbatim>\<open>packages/api/src/schema.ts\<close>; \<^verbatim>\<open>apps/mock-auth\<close> is the proxy that identifies its user
  in development, and \<^verbatim>\<open>scripts/configure-ansible.ts\<close> writes the configuration of the measuring host.

  \<^bold>\<open>The language.\<close>
  \<open>Js_Prelude\<close> (strings as lists of 16-bit code units, white space, decimal printing, \<open>Map\<close> as an
  association list in insertion order, sorting with a comparator), \<open>Js_Number\<close> and \<open>Js_Math\<close> (doubles as
  rationals, infinities and NaN, rounded to nearest even by \<open>f64\<close>; there is no negative zero),
  \<open>Js_Convert\<close> (\<open>Number\<close>, \<open>BigInt\<close>), \<open>Js_Text\<close>, \<open>Js_Regex\<close> (derivatives), \<open>Js_Date\<close> (ISO dates; other
  formats are an argument), \<open>Js_Json\<close> (parser and printer with their round trip), \<open>Js_Collections\<close>,
  \<open>Js_Uri\<close> (\<open>encodeURIComponent\<close>), \<open>Js_Search\<close> (\<open>URLSearchParams\<close>), \<open>Node\<close> and \<open>Node_Paths\<close> (files,
  processes and paths of Node as an explicit world), \<open>Ts_Types\<close> (the structural types of the
  contract) and \<open>Zod\<close> (schemas as data).

  \<^bold>\<open>Theories and code.\<close>
  \<^item> \<open>Baseline\<close>, \<open>Fixed2\<close>: \<^verbatim>\<open>baselines/ts/main.ts\<close>.  \<open>baseline_main\<close> is \<open>main\<close> over the texts of the files;
    \<open>channel_stats\<close> is its record of a group, \<open>analyze\<close> the loop over the lines, \<open>formatFixed2\<close> the
    formatter on the bits of a double.
  \<^item> \<open>Optimized\<close>, \<open>Optimized_Store\<close>, \<open>Optimized_Lines\<close>, \<open>Optimized_Ranges\<close>, \<open>Optimized_Merge\<close>, \<open>Optimized_Equiv\<close>:
    \<^verbatim>\<open>optimized/typescript/main.ts\<close>, whose state is the typed array of a range (\<open>store\<close>).
  \<^item> \<open>Compare\<close>, \<open>Judge_Baseline\<close>: \<^verbatim>\<open>apps/runner/src/compare.ts\<close>, and the judge on the reference's output.
  \<^item> \<open>Domain\<close>, \<open>Manifest\<close>: \<^verbatim>\<open>packages/domain/src/index.ts\<close>; \<open>manifest_issues\<close> is the \<open>superRefine\<close> of
    \<open>datasetManifestSchema\<close>.
  \<^item> \<open>Runner_Tools\<close>, \<open>Gateway\<close>, \<open>Gateway_Paths\<close>, \<open>Gateway_Runs\<close>, \<open>Gateway_Results\<close>, \<open>Gateway_Files\<close>, \<open>Measure\<close>: the
    runner.  An action maps the world (files, containers, executions, lock, output) to a result or
    an exception and a new world; what docker, \<open>flock\<close> and the clock answer, which operation fails and how
    much a failed copy or upload leaves behind is the record \<open>host\<close>.
  \<^item> \<open>Api\<close>, \<open>Api_Contract\<close>: every type and operation of \<^verbatim>\<open>packages/api/src/schema.ts\<close>.
  \<^item> \<open>Client\<close>: the gateways \<^verbatim>\<open>apps/web/src/gateways\<close>; the network is the argument \<open>fetch\<close>.
  \<^item> \<open>Contest_Live\<close>: \<^verbatim>\<open>use-contest-live.ts\<close>; react-query's cache is the locale \<open>query_cache\<close>.
  \<^item> \<open>Leaderboard\<close>, \<open>Leaderboard_Highlights\<close>, \<open>Leaderboard_Player\<close>: \<^verbatim>\<open>models/leaderboard.ts\<close>,
    \<^verbatim>\<open>leaderboard-updates.ts\<close>, \<^verbatim>\<open>submission.ts\<close>, \<^verbatim>\<open>use-leaderboard-updates.ts\<close> and
    \<^verbatim>\<open>pages/leaderboard-page.tsx\<close>, the last two as step relations over the state of the component, its
    timers and its effects.
  \<^item> \<open>Submission_Form\<close>, \<open>Submission_History\<close>, \<open>Source_View\<close>: the submission form with its file inputs, the way
    from a receipt to the history page and its confetti, and the previews of source code.
  \<^item> \<open>Contest_Clock\<close>, \<open>Dashboard\<close>, \<open>Admin_Page\<close>, \<open>Web_Pages\<close>: \<^verbatim>\<open>models/contest.ts\<close>, \<^verbatim>\<open>utils/format.ts\<close>, the
    dashboard, the administration page, and \<^verbatim>\<open>App.tsx\<close> with the menus and the leaderboard's rows.
  \<^item> \<open>Page_Details\<close>, \<open>Build_Guides\<close>: the status and controls of the replay, the animated countdown, submitting
    from the command line, and the tables of runtimes and native builds.
  \<^item> \<open>Contest_Document\<close>, \<open>Format_Bytes\<close>, \<open>Optimization_Guide\<close>, \<open>Optimization_Stages\<close>, \<open>Code_View\<close>: the
    contest page with its rules and the documented example, \<open>formatBytes\<close> with \<open>toFixed\<close>, the guide of \<^verbatim>\<open>cpp-optimization-guide.tsx\<close> with the
    stages of \<^verbatim>\<open>stages.ts\<close>, and the code blocks with the markers of a diff.
  \<^item> \<open>Mock_Auth\<close>, \<open>Configure_Ansible\<close>, \<open>Benchmark_Stack\<close>: \<^verbatim>\<open>apps/mock-auth/src/index.ts\<close>,
    \<^verbatim>\<open>scripts/configure-ansible.ts\<close> and \<^verbatim>\<open>infra/cdk/lib/benchmark-stack.ts\<close>, whose outputs the script reads.

  \<^bold>\<open>Interfaces.\<close>
  \<open>ordered_map\<close> and \<open>comparator\<close>/\<open>key_comparator\<close> (\<open>Js_Prelude\<close>), \<open>zod\<close> (\<open>Zod\<close>: the documented meaning of
  every combinator, implemented by \<open>documented_accepts\<close>), \<open>query_cache\<close> and \<open>line_highlighter\<close> (one marked
  span per line of code) are locales; each is interpreted on the definitions of the model, and the
  properties rest on those facts or take the locale as a named hypothesis.

  \<^bold>\<open>What the lemmas show.\<close>
  The reference program prints exact statistics, one sorted line per channel and month, fails at the
  first bad line, and its formatter rounds the exact value of a double; the optimised program writes
  the same lines for every number of threads and however short the reads of a range are, given that the
  header and the first read of a search for a line end are not short (a short one can leave a stale newline
  in the search buffer), and the judge accepts an output exactly when its lines are a permutation of them.  The
  runner prints a result that fits the shared schema, leaves no container behind, confines its paths
  to the job, removes the part of a failed copy, cancels only after the lock was free, and what the container measures is what it reports.  The client's requests are within
  the contract; its caches, highlights, replay, form, previews and history keep their invariants
  under every order of events and reach the states they are meant to reach.  The example of the rules
  is what the reference program writes, and the address and environment of a deployed stack are what the
  measuring host is configured with; the values are written as JSON strings, and Ansible's YAML is not modelled.  A definition's
  exceptional branches are values: \<open>None\<close>, \<open>Inl\<close> or an exception of an action.

  \<^bold>\<open>Bounds and termination.\<close>
  \<open>json_parse\<close> runs with fuel \<open>2 * length + 2\<close>, which the round trip shows to be enough for every
  printed value.  Waiting for the lock is a \<open>partial_function\<close>, with a theorem that it returns.
  Sums of lengths and counts are exact below \<open>2 ^ 53\<close> (\<open>safe_rows\<close>), as is the product of the file size
  and the number of threads in the optimised program.  Clock differences are below \<open>2 ^ 53\<close>
  milliseconds.  \<open>formatBytes\<close> is stated for sizes below \<open>2 ^ 53\<close> and every quotient of logarithms that is
  not negative; one within \<open>2 ^ -35\<close> of the real one, less than the gap at a power of 1024, gives the
  fitting unit.  All other definitions are total.

  \<^bold>\<open>Not modelled.\<close>
  The Go server, the programs in other languages and the declarative infrastructure (other
  languages); the prose of the documents, styles and layout (no computation); \<open>formatDate\<close>, the syntax
  highlighter itself, the constructs of the CDK, animations and the router's path matching (they only call libraries); the
  timings the optimised program prints with \<^verbatim>\<open>--profile\<close>.  Of the modelled web components the markup
  is left out: a definition gives what is shown, not how.
\<close>

end
